(* ===== verification/Prelude.thy ===== *)
theory Prelude
  imports Complex_Main "HOL-Library.Char_ord" "HOL-Library.List_Lexorder"
begin

text \<open>
  What every component shares: the values of Python's exceptions, the result type of code that
  can raise, the insertion-ordered tables the SQLite store keeps, the generic interfaces
  (locales) the components rely on, and the lemmas about them.

  Conventions of the whole development. A Python \<open>str\<close> is a \<open>string\<close> (the texts are ASCII);
  an \<open>int\<close> is an \<open>int\<close>; a \<open>float\<close> is a \<open>rat\<close>, read exactly (rounding of IEEE
  arithmetic is not modelled); a \<open>datetime\<close> is an \<open>int\<close>, the microseconds since
  1970-01-01T00:00Z. A call of the clock (\<open>datetime.now\<close>) and a freshly drawn identifier
  (\<open>uuid4\<close>) are arguments of the operation that makes them.
\<close>

section \<open>Exceptions as values\<close>

datatype py_error =
    ValueError string
  | RuntimeError string
  | KeyError string
  | IndexError string
  | TypeError string
  | AssertionError
  | StopIteration
  | FileNotFoundError string
  | IntegrityError string
  | AttributeError string
  | SchedulingCancelled string
  | ProjectLeaseContended string
  | DuplicatePayloadError string
  | EvidenceIntegrityError string
  | ClaimTransitionError string
  | OSError string
  | ReadOnlyViolation string
  | ProjectSelectionError string

type_synonym 'a result = "py_error + 'a"

text \<open>A piece of code that may raise after it has already written to the store returns the
  store it leaves behind in both cases.\<close>

type_synonym ('s, 'a) effect = "'a result \<times> 's"

type_synonym py_time = int

text \<open>Python's truth value of an optional text.\<close>

definition truthy :: "string option \<Rightarrow> bool" where
  "truthy x \<longleftrightarrow> x \<noteq> None \<and> x \<noteq> Some []"

text \<open>A list comprehension whose element expression can raise: the first error wins.\<close>

fun traverse :: "('a \<Rightarrow> 'b result) \<Rightarrow> 'a list \<Rightarrow> 'b list result" where
  "traverse f [] = Inr []"
| "traverse f (x # xs) =
     (case f x of
        Inl e \<Rightarrow> Inl e
      | Inr y \<Rightarrow> (case traverse f xs of Inl e \<Rightarrow> Inl e | Inr ys \<Rightarrow> Inr (y # ys)))"

lemma traverse_Inr: "traverse f xs = Inr ys \<longleftrightarrow> list_all2 (\<lambda>x y. f x = Inr y) xs ys"
proof (induction xs arbitrary: ys)
  case Nil
  show ?case by auto
next
  case (Cons x xs)
  show ?case
  proof (cases ys)
    case Nil
    then show ?thesis by (auto split: sum.splits)
  next
    case ys: (Cons z zs)
    with Cons.IH [of zs] show ?thesis by (cases "f x"; cases "traverse f xs") auto
  qed
qed

lemma traverse_Inl: "traverse f xs = Inl e \<Longrightarrow> \<exists>x\<in>set xs. f x = Inl e"
  by (induction xs) (auto split: sum.splits)

named_theorems row_simps \<open>rewriting of table updates and lookups\<close>

section \<open>Lists the way Python handles them\<close>

lemma set_map_filter: "y \<in> set (List.map_filter f xs) \<longleftrightarrow> (\<exists>x\<in>set xs. f x = Some y)"
  by (induction xs) (auto simp: List.map_filter_simps split: option.splits)

text \<open>\<open>list(dict.fromkeys(xs))\<close>: the first occurrence of every element, in order.\<close>

fun dict_fromkeys :: "'a list \<Rightarrow> 'a list" where
  "dict_fromkeys [] = []"
| "dict_fromkeys (x # xs) = x # filter (\<lambda>y. y \<noteq> x) (dict_fromkeys xs)"

lemma set_dict_fromkeys [simp]: "set (dict_fromkeys xs) = set xs"
  by (induction xs) auto

lemma distinct_dict_fromkeys [simp]: "distinct (dict_fromkeys xs)"
  by (induction xs) auto

lemma dict_fromkeys_distinct: "distinct xs \<Longrightarrow> dict_fromkeys xs = xs"
  by (induction xs) (auto intro!: filter_True)

lemma dict_fromkeys_idem [simp]: "dict_fromkeys (dict_fromkeys xs) = dict_fromkeys xs"
  by (rule dict_fromkeys_distinct) simp

lemma dict_fromkeys_Nil_iff [simp]: "dict_fromkeys xs = [] \<longleftrightarrow> xs = []"
  by (cases xs) auto

text \<open>\<open>sorted(set(xs))\<close>\<close>

definition sorted_set :: "'a::linorder list \<Rightarrow> 'a list" where
  "sorted_set xs = sort (remdups xs)"

lemma set_sorted_set [simp]: "set (sorted_set xs) = set xs"
  by (simp add: sorted_set_def)

lemma sorted_sorted_set [simp]: "sorted (sorted_set xs)"
  by (simp add: sorted_set_def)

lemma distinct_sorted_set [simp]: "distinct (sorted_set xs)"
  by (simp add: sorted_set_def)

text \<open>Two sets are equal exactly when their sorted listings are.\<close>

lemma sorted_set_eq_iff: "sorted_set xs = sorted_set ys \<longleftrightarrow> set xs = set ys"
proof
  assume "sorted_set xs = sorted_set ys"
  then have "set (sorted_set xs) = set (sorted_set ys)" by simp
  then show "set xs = set ys" by simp
next
  assume "set xs = set ys"
  then show "sorted_set xs = sorted_set ys"
    by (intro sorted_distinct_set_unique) simp_all
qed

text \<open>\<open>xs.extend(v for v in new if v not in xs)\<close>: the generator reads the list while it
  grows, so a repeated new value is taken once.\<close>

fun extend_missing :: "'a list \<Rightarrow> 'a list \<Rightarrow> 'a list" where
  "extend_missing xs [] = xs"
| "extend_missing xs (v # vs) = extend_missing (if v \<in> set xs then xs else xs @ [v]) vs"

lemma set_extend_missing [simp]: "set (extend_missing xs vs) = set xs \<union> set vs"
  by (induction xs vs rule: extend_missing.induct) auto

lemma distinct_extend_missing: "distinct xs \<Longrightarrow> distinct (extend_missing xs vs)"
  by (induction xs vs rule: extend_missing.induct) auto

lemma find_Some_set: "find P xs = Some x \<Longrightarrow> x \<in> set xs \<and> P x"
  by (induction xs) (auto split: if_splits)

lemma find_None_conv: "find P xs = None \<longleftrightarrow> (\<forall>x\<in>set xs. \<not> P x)"
  by (induction xs) auto

lemma find_filter_other:
  assumes "\<And>x. P x \<Longrightarrow> Q x"
  shows "find P (filter Q xs) = find P xs"
  using assms by (induction xs) auto

lemma find_append: "find P (xs @ ys) = (case find P xs of None \<Rightarrow> find P ys | Some x \<Rightarrow> Some x)"
  by (induction xs) auto

text \<open>Sorting is stable: what was in order under \<open>R\<close> stays in order under \<open>R\<close> where the keys agree.\<close>

lemma distinct_map_sort_key: "distinct (map f (sort_key g xs)) = distinct (map f xs)"
  by (simp add: distinct_map)

lemma insort_key_wrt:
  assumes "sorted_wrt (\<lambda>x y. f x < f y \<or> (f x = f y \<and> R x y)) ys" and "\<forall>y\<in>set ys. R x y"
  shows "sorted_wrt (\<lambda>x y. f x < f y \<or> (f x = f y \<and> R x y)) (insort_key f x ys)"
  using assms
proof (induction ys)
  case Nil
  then show ?case by simp
next
  case (Cons z ys)
  then show ?case
    by (cases "f x \<le> f z") (auto simp: set_insort_key order_le_less intro: order.strict_trans)
qed

lemma sort_key_wrt:
  assumes "sorted_wrt R xs"
  shows "sorted_wrt (\<lambda>x y. f x < f y \<or> (f x = f y \<and> R x y)) (sort_key f xs)"
  using assms by (induction xs) (auto simp: sort_key_def intro!: insort_key_wrt, metis set_sort sort_key_def)

section \<open>The interface of a keyed table\<close>

text \<open>What the managers rely on when they save an object and read it back.\<close>

locale keyed_table =
  fixes put :: "'r \<Rightarrow> 't \<Rightarrow> 't"
    and get :: "'k \<Rightarrow> 't \<Rightarrow> 'r option"
    and key :: "'r \<Rightarrow> 'k"
  assumes get_put: "get k (put r t) = (if k = key r then Some r else get k t)"
begin

lemma get_put_same: "get (key r) (put r t) = Some r"
  by (simp add: get_put)

lemma get_put_other: "k \<noteq> key r \<Longrightarrow> get k (put r t) = get k t"
  by (simp add: get_put)

lemma get_put_put: "key r = key s \<Longrightarrow> get k (put r (put s t)) = get k (put r t)"
  by (simp add: get_put)

lemma get_fold_other: "k \<notin> key ` set rs \<Longrightarrow> get k (fold put rs t) = get k t"
  by (induction rs arbitrary: t) (auto simp: get_put)

lemma get_fold_distinct:
  assumes "distinct (map key rs)" and "r \<in> set rs"
  shows "get (key r) (fold put rs t) = Some r"
  using assms
proof (induction rs arbitrary: t)
  case Nil
  then show ?case by simp
next
  case (Cons a rs)
  then show ?case
    by (cases "r = a") (auto simp: get_put get_fold_other)
qed

end

section \<open>Dictionaries with string keys\<close>

text \<open>A \<open>dict\<close> keeps the order of first insertion; assigning an existing key keeps its place.\<close>

type_synonym 'v py_dict = "(string \<times> 'v) list"

definition dict_get :: "string \<Rightarrow> 'v py_dict \<Rightarrow> 'v option" where
  "dict_get k d = map_of d k"

definition dict_get_default :: "'v \<Rightarrow> string \<Rightarrow> 'v py_dict \<Rightarrow> 'v" where
  "dict_get_default v k d = (case map_of d k of None \<Rightarrow> v | Some x \<Rightarrow> x)"

fun dict_set :: "string \<Rightarrow> 'v \<Rightarrow> 'v py_dict \<Rightarrow> 'v py_dict" where
  "dict_set k v [] = [(k, v)]"
| "dict_set k v ((k', v') # d) = (if k' = k then (k, v) # d else (k', v') # dict_set k v d)"

definition dict_of_pairs :: "(string \<times> 'v) list \<Rightarrow> 'v py_dict" where
  "dict_of_pairs ps = fold (\<lambda>(k, v). dict_set k v) ps []"

lemma dict_get_set [simp]: "dict_get k (dict_set k' v d) = (if k = k' then Some v else dict_get k d)"
  by (induction k' v d rule: dict_set.induct) (auto simp: dict_get_def)

lemma keys_dict_set: "fst ` set (dict_set k v d) = insert k (fst ` set d)"
  by (induction k v d rule: dict_set.induct) auto

lemma distinct_dict_set: "distinct (map fst d) \<Longrightarrow> distinct (map fst (dict_set k v d))"
proof (induction k v d rule: dict_set.induct)
  case (1 k v)
  show ?case by simp
next
  case (2 k v k' v' d)
  moreover have "set (map fst (dict_set k v d)) = insert k (set (map fst d))"
    by (simp add: keys_dict_set)
  ultimately show ?case by auto
qed

interpretation dict_table: keyed_table "\<lambda>(k, v). dict_set k v"
    "\<lambda>k d. map_option (Pair k) (dict_get k d)" fst
  by unfold_locales (auto split: prod.splits)

section \<open>Tables of the SQLite store\<close>

text \<open>
  A table whose primary key is the object's \<open>id\<close> is the list of its rows in the order of
  \<open>rowid\<close>. \<open>INSERT OR REPLACE\<close> deletes the row with the same key and inserts the new one
  with the next row id, so the row moves to the end; \<open>UPDATE ... WHERE id=?\<close> keeps its place;
  \<open>INSERT OR IGNORE\<close> keeps the old row.
\<close>

definition upsert :: "('r \<Rightarrow> 'k) \<Rightarrow> 'r \<Rightarrow> 'r list \<Rightarrow> 'r list" where
  "upsert key r rows = filter (\<lambda>x. key x \<noteq> key r) rows @ [r]"

definition update_row :: "('r \<Rightarrow> 'k) \<Rightarrow> 'r \<Rightarrow> 'r list \<Rightarrow> 'r list" where
  "update_row key r rows = map (\<lambda>x. if key x = key r then r else x) rows"

definition insert_ignore :: "('r \<Rightarrow> 'k) \<Rightarrow> 'r \<Rightarrow> 'r list \<Rightarrow> 'r list" where
  "insert_ignore key r rows = (if \<exists>x\<in>set rows. key x = key r then rows else rows @ [r])"

definition lookup_row :: "('r \<Rightarrow> 'k) \<Rightarrow> 'k \<Rightarrow> 'r list \<Rightarrow> 'r option" where
  "lookup_row key k rows = find (\<lambda>x. key x = k) rows"

definition unique_rows :: "('r \<Rightarrow> 'k) \<Rightarrow> 'r list \<Rightarrow> bool" where
  "unique_rows key rows \<longleftrightarrow> distinct (map key rows)"

lemma unique_rows_Nil [simp]: "unique_rows key []"
  by (simp add: unique_rows_def)

lemma set_upsert [row_simps]: "set (upsert key r rows) = insert r {x \<in> set rows. key x \<noteq> key r}"
  by (auto simp: upsert_def)

lemma lookup_upsert [row_simps]:
  "lookup_row key k (upsert key r rows) = (if k = key r then Some r else lookup_row key k rows)"
proof (cases "k = key r")
  case True
  have "find (\<lambda>x. key x = k) (filter (\<lambda>x. key x \<noteq> key r) rows) = None"
    using True by (auto simp: find_None_conv)
  with True show ?thesis by (simp add: lookup_row_def upsert_def find_append)
next
  case False
  have "find (\<lambda>x. key x = k) (filter (\<lambda>x. key x \<noteq> key r) rows) = find (\<lambda>x. key x = k) rows"
    using False by (intro find_filter_other) auto
  with False show ?thesis
    by (simp add: lookup_row_def upsert_def find_append split: option.split)
qed

lemma distinct_map_filter_key: "distinct (map key rows) \<Longrightarrow> distinct (map key (filter P rows))"
  by (induction rows) auto

lemma unique_upsert [row_simps]: "unique_rows key rows \<Longrightarrow> unique_rows key (upsert key r rows)"
  by (auto simp: unique_rows_def upsert_def distinct_map_filter_key)

lemma lookup_row_Some: "lookup_row key k rows = Some r \<Longrightarrow> r \<in> set rows \<and> key r = k"
  by (auto simp: lookup_row_def dest: find_Some_set)

lemma lookup_row_None: "lookup_row key k rows = None \<longleftrightarrow> k \<notin> key ` set rows"
  by (auto simp: lookup_row_def find_None_conv)

lemma lookup_row_unique:
  assumes "unique_rows key rows" and "r \<in> set rows"
  shows "lookup_row key (key r) rows = Some r"
  using assms by (induction rows) (auto simp: unique_rows_def lookup_row_def)

lemma map_key_update_row [row_simps]: "map key (update_row key r rows) = map key rows"
  by (induction rows) (auto simp: update_row_def)

lemma unique_update_row [row_simps]:
  "unique_rows key rows \<Longrightarrow> unique_rows key (update_row key r rows)"
  by (simp add: unique_rows_def map_key_update_row)

lemma lookup_update_row [row_simps]:
  "lookup_row key k (update_row key r rows) =
     (if k = key r \<and> k \<in> key ` set rows then Some r else lookup_row key k rows)"
  by (induction rows) (auto simp: update_row_def lookup_row_def)

lemma set_update_row:
  "x \<in> set (update_row key r rows) \<Longrightarrow> x = r \<or> (x \<in> set rows \<and> key x \<noteq> key r)"
  by (auto simp: update_row_def)

interpretation upsert_table: keyed_table "upsert key" "lookup_row key" key for key :: "'r \<Rightarrow> 'k"
  by unfold_locales (simp add: lookup_upsert)

subsection \<open>Invariants of step systems\<close>

text \<open>A component that is a state with steps: an invariant of its steps holds in every state a
  run of steps leads to.\<close>

inductive run_of :: "('s \<Rightarrow> 's \<Rightarrow> bool) \<Rightarrow> 's \<Rightarrow> 's \<Rightarrow> bool" for step :: "'s \<Rightarrow> 's \<Rightarrow> bool" where
  run_refl: "run_of step s s"
| run_step: "run_of step s t \<Longrightarrow> step t u \<Longrightarrow> run_of step s u"

lemma run_of_trans: "run_of step t u \<Longrightarrow> run_of step s t \<Longrightarrow> run_of step s u"
  by (induction rule: run_of.induct) (auto intro: run_step)

lemma run_of_one: "step s t \<Longrightarrow> run_of step s t"
  by (auto intro: run_of.intros)

locale invariant_system =
  fixes step :: "'s \<Rightarrow> 's \<Rightarrow> bool" and inv :: "'s \<Rightarrow> bool"
  assumes step_inv: "step s t \<Longrightarrow> inv s \<Longrightarrow> inv t"
begin

lemma run_inv: "run_of step s t \<Longrightarrow> inv s \<Longrightarrow> inv t"
  by (induction rule: run_of.induct) (auto intro: step_inv)

end

text \<open>A system with a quantity that no step lowers (a fencing token, a policy version, an audit
  trail) also keeps it along runs.\<close>

locale monotone_system = invariant_system +
  fixes measure_of :: "'s \<Rightarrow> 'm::order"
  assumes step_mono: "step s t \<Longrightarrow> inv s \<Longrightarrow> measure_of s \<le> measure_of t"
begin

lemma run_mono: "run_of step s t \<Longrightarrow> inv s \<Longrightarrow> measure_of s \<le> measure_of t"
proof (induction rule: run_of.induct)
  case (run_refl s)
  show ?case by simp
next
  case (run_step s t u)
  from run_inv [OF run_step.hyps(1) run_step.prems] have "inv t" .
  from step_mono [OF run_step.hyps(2) this] run_step.IH [OF run_step.prems] show ?case
    by (rule order_trans [rotated])
qed

end

end
