(* ===== verification/PyText.thy ===== *)
theory PyText
  imports Prelude
begin

text \<open>
  The parts of Python's standard library the program's rules are written with: string methods
  (\<open>strip\<close>, \<open>split\<close>, \<open>join\<close>, \<open>upper\<close>, \<open>casefold\<close>), decimal and ISO-8601 text, path
  text, \<open>str.replace\<close> of one character, and the conversion of a number of seconds to a time
  difference. Texts are ASCII, where \<open>lower\<close> and \<open>casefold\<close> agree.
\<close>

section \<open>Characters and words\<close>

definition py_space :: "char \<Rightarrow> bool" where
  "py_space c \<longleftrightarrow> (let n = (of_char c :: nat) in (9 \<le> n \<and> n \<le> 13) \<or> (28 \<le> n \<and> n \<le> 32))"

definition upper_char :: "char \<Rightarrow> char" where
  "upper_char c = (let n = (of_char c :: nat) in if 97 \<le> n \<and> n \<le> 122 then char_of (n - 32) else c)"

definition lower_char :: "char \<Rightarrow> char" where
  "lower_char c = (let n = (of_char c :: nat) in if 65 \<le> n \<and> n \<le> 90 then char_of (n + 32) else c)"

definition py_upper :: "string \<Rightarrow> string" where
  "py_upper s = map upper_char s"

definition py_lower :: "string \<Rightarrow> string" where
  "py_lower s = map lower_char s"

definition py_casefold :: "string \<Rightarrow> string" where
  "py_casefold s = py_lower s"

definition py_strip :: "string \<Rightarrow> string" where
  "py_strip s = rev (dropWhile py_space (rev (dropWhile py_space s)))"

text \<open>\<open>s.split()\<close>: the maximal runs of non-blank characters. \<open>acc\<close> is the word being
  read, reversed.\<close>

fun split_words :: "string \<Rightarrow> string \<Rightarrow> string list" where
  "split_words acc [] = (if acc = [] then [] else [rev acc])"
| "split_words acc (c # cs) =
     (if py_space c then (if acc = [] then split_words [] cs else rev acc # split_words [] cs)
      else split_words (c # acc) cs)"

definition py_split :: "string \<Rightarrow> string list" where
  "py_split s = split_words [] s"

fun py_join :: "string \<Rightarrow> string list \<Rightarrow> string" where
  "py_join sep [] = []"
| "py_join sep [x] = x"
| "py_join sep (x # y # ys) = x @ sep @ py_join sep (y # ys)"

text \<open>\<open>" ".join(s.split())\<close>\<close>

definition squeeze_spaces :: "string \<Rightarrow> string" where
  "squeeze_spaces s = py_join '' '' (py_split s)"

text \<open>\<open>not s.strip()\<close>\<close>

definition blank :: "string \<Rightarrow> bool" where
  "blank t \<longleftrightarrow> py_strip t = []"

text \<open>\<open>s.replace(a, b)\<close> for single characters.\<close>

definition replace_char :: "char \<Rightarrow> char \<Rightarrow> string \<Rightarrow> string" where
  "replace_char a b s = map (\<lambda>c. if c = a then b else c) s"

text \<open>\<open>s.split(sep)\<close> for a one-character separator.\<close>

fun split_on :: "char \<Rightarrow> string \<Rightarrow> string list" where
  "split_on sep [] = [[]]"
| "split_on sep (c # cs) =
     (if c = sep then [] # split_on sep cs
      else (case split_on sep cs of [] \<Rightarrow> [[c]] | w # ws \<Rightarrow> (c # w) # ws))"

lemma split_on_nonempty [simp]: "split_on sep s \<noteq> []"
  by (induction s) (auto split: list.splits)

lemma upper_char_idem [simp]: "upper_char (upper_char c) = upper_char c"
proof (cases "97 \<le> (of_char c :: nat) \<and> (of_char c :: nat) \<le> 122")
  case True
  then have "upper_char c = char_of ((of_char c :: nat) - 32)"
    by (simp only: upper_char_def Let_def simp_thms if_True)
  moreover from True have "((of_char c :: nat) - 32) mod 256 = of_char c - 32"
    by (intro mod_less) linarith
  then have "(of_char (char_of ((of_char c :: nat) - 32) :: char) :: nat) = of_char c - 32"
    by (simp only: of_char_of)
  moreover from True have "\<not> 97 \<le> (of_char c :: nat) - 32" by linarith
  ultimately show ?thesis by (simp only: upper_char_def [of "char_of ((of_char c :: nat) - 32)"] Let_def simp_thms if_False)
next
  case False
  then have "upper_char c = c" by (simp only: upper_char_def Let_def if_False)
  then show ?thesis by simp
qed

lemma py_upper_idem [simp]: "py_upper (py_upper s) = py_upper s"
  by (simp add: py_upper_def comp_def)

lemma lower_char_idem [simp]: "lower_char (lower_char c) = lower_char c"
proof (cases "65 \<le> (of_char c :: nat) \<and> (of_char c :: nat) \<le> 90")
  case True
  then have "lower_char c = char_of ((of_char c :: nat) + 32)"
    by (simp only: lower_char_def Let_def simp_thms if_True)
  moreover from True have "((of_char c :: nat) + 32) mod 256 = of_char c + 32" by simp
  then have "(of_char (char_of ((of_char c :: nat) + 32) :: char) :: nat) = of_char c + 32"
    by (simp only: of_char_of)
  moreover from True have "\<not> (of_char c :: nat) + 32 \<le> 90" by simp
  ultimately show ?thesis by (simp only: lower_char_def [of "char_of ((of_char c :: nat) + 32)"] Let_def simp_thms if_False)
next
  case False
  then have "lower_char c = c" by (simp only: lower_char_def Let_def if_False)
  then show ?thesis by simp
qed

lemma py_casefold_idem [simp]: "py_casefold (py_casefold s) = py_casefold s"
  by (simp add: py_casefold_def py_lower_def comp_def)

lemma split_words_clean:
  "\<forall>c\<in>set acc. \<not> py_space c \<Longrightarrow> w \<in> set (split_words acc s) \<Longrightarrow> w \<noteq> [] \<and> (\<forall>c\<in>set w. \<not> py_space c)"
proof (induction acc s arbitrary: w rule: split_words.induct)
  case (1 acc)
  then show ?case by (simp split: if_splits)
next
  case (2 acc c cs)
  show ?case
  proof (cases "py_space c")
    case True
    with "2.prems"(2) consider "w = rev acc" "acc \<noteq> []" | "w \<in> set (split_words [] cs)"
      by (auto split: if_splits)
    then show ?thesis
    proof cases
      case 1
      with "2.prems"(1) show ?thesis by simp
    next
      case 2
      show ?thesis
      proof (cases "acc = []")
        case True
        show ?thesis by (rule "2.IH"(1) [OF \<open>py_space c\<close> True _ 2]) simp
      next
        case False
        show ?thesis by (rule "2.IH"(2) [OF \<open>py_space c\<close> False _ 2]) simp
      qed
    qed
  next
    case False
    with "2.prems" "2.IH"(3) show ?thesis by simp
  qed
qed

lemma py_split_clean: "w \<in> set (py_split s) \<Longrightarrow> w \<noteq> [] \<and> (\<forall>c\<in>set w. \<not> py_space c)"
  using split_words_clean [of "[]" w s] by (simp add: py_split_def)

lemma split_words_word:
  "\<forall>c\<in>set w. \<not> py_space c \<Longrightarrow> split_words acc (w @ s) = split_words (rev w @ acc) s"
  by (induction w arbitrary: acc) auto

lemma py_split_join:
  assumes "\<forall>w\<in>set ws. w \<noteq> [] \<and> (\<forall>c\<in>set w. \<not> py_space c)"
  shows "py_split (py_join '' '' ws) = ws"
proof -
  have blank: "py_space (CHR '' '')" by (simp add: py_space_def)
  have "split_words [] (py_join '' '' ws) = ws"
    using assms
  proof (induction "'' ''" ws rule: py_join.induct)
    case 1
    then show ?case by simp
  next
    case (2 x)
    then have "split_words [] (x @ []) = split_words (rev x @ []) []"
      by (intro split_words_word) simp
    with 2 show ?case by simp
  next
    case (3 x y ys)
    then have "split_words [] (x @ '' '' @ py_join '' '' (y # ys)) =
        split_words (rev x @ []) ('' '' @ py_join '' '' (y # ys))"
      by (intro split_words_word) simp
    with 3 blank show ?case by simp
  qed
  then show ?thesis by (simp add: py_split_def)
qed

lemma squeeze_spaces_idem [simp]: "squeeze_spaces (squeeze_spaces s) = squeeze_spaces s"
  unfolding squeeze_spaces_def by (subst py_split_join) (auto dest: py_split_clean)

section \<open>Numbers and times as text\<close>

text \<open>\<open>str(n)\<close> for an \<open>int\<close>.\<close>

fun nat_digits :: "nat \<Rightarrow> string" where
  "nat_digits n = (if n < 10 then [char_of (48 + n)] else nat_digits (n div 10) @ [char_of (48 + n mod 10)])"

declare nat_digits.simps [simp del]

definition py_str_int :: "int \<Rightarrow> string" where
  "py_str_int i = (if i < 0 then ''-'' @ nat_digits (nat (- i)) else nat_digits (nat i))"

definition py_str_nat :: "nat \<Rightarrow> string" where
  "py_str_nat n = py_str_int (int n)"

text \<open>Decimal digits padded with zeros to a width.\<close>

definition pad_int :: "nat \<Rightarrow> int \<Rightarrow> string" where
  "pad_int w i = (let d = py_str_int i in replicate (w - length d) (CHR ''0'') @ d)"

text \<open>The civil date of a day number (days since 1970-01-01), in the proleptic Gregorian
  calendar \<open>datetime\<close> uses.\<close>

definition civil_date :: "int \<Rightarrow> int \<times> int \<times> int" where
  "civil_date days =
     (let z = days + 719468;
          era = z div 146097;
          doe = z - era * 146097;
          yoe = (doe - doe div 1460 + doe div 36524 - doe div 146096) div 365;
          doy = doe - (365 * yoe + yoe div 4 - yoe div 100);
          mp = (5 * doy + 2) div 153;
          d = doy - (153 * mp + 2) div 5 + 1;
          m = (if mp < 10 then mp + 3 else mp - 9)
      in (yoe + era * 400 + (if m \<le> 2 then 1 else 0), m, d))"

text \<open>\<open>t.isoformat()\<close> of an aware UTC time: microseconds appear only when they are not zero.\<close>

definition isoformat :: "py_time \<Rightarrow> string" where
  "isoformat t =
     (let us = t mod 1000000; secs = t div 1000000;
          (y, m, d) = civil_date (secs div 86400); s = secs mod 86400
      in pad_int 4 y @ ''-'' @ pad_int 2 m @ ''-'' @ pad_int 2 d @ ''T'' @
         pad_int 2 (s div 3600) @ '':'' @ pad_int 2 (s mod 3600 div 60) @ '':'' @ pad_int 2 (s mod 60) @
         (if us = 0 then [] else ''.'' @ pad_int 6 us) @ ''+00:00'')"

text \<open>\<open>timedelta(seconds=x)\<close> in microseconds: the nearest integer, ties to even.\<close>

definition round_half_even :: "rat \<Rightarrow> int" where
  "round_half_even x =
     (let f = \<lfloor>x\<rfloor>; r = x - of_int f
      in if r < 1/2 then f else if 1/2 < r then f + 1 else if even f then f else f + 1)"

definition seconds_delta :: "rat \<Rightarrow> int" where
  "seconds_delta x = round_half_even (x * 1000000)"

lemma round_half_even_of_int [simp]: "round_half_even (of_int i) = i"
  by (simp add: round_half_even_def)

lemma seconds_delta_of_int: "seconds_delta (of_int i) = i * 1000000"
proof -
  have "(of_int i :: rat) * 1000000 = of_int (i * 1000000)" by simp
  then show ?thesis unfolding seconds_delta_def by (simp only: round_half_even_of_int)
qed

section \<open>Paths as text\<close>

text \<open>\<open>os.path.commonpath([a, b])\<close> of POSIX: \<open>None\<close> stands for the \<open>ValueError\<close> raised when
  an absolute path meets a relative one.\<close>

definition path_parts :: "string \<Rightarrow> string list" where
  "path_parts p = filter (\<lambda>c. c \<noteq> [] \<and> c \<noteq> ''.'') (split_on (CHR ''/'') p)"

fun common_prefix :: "string list \<Rightarrow> string list \<Rightarrow> string list" where
  "common_prefix (x # xs) (y # ys) = (if x = y then x # common_prefix xs ys else [])"
| "common_prefix _ _ = []"

definition is_absolute :: "string \<Rightarrow> bool" where
  "is_absolute p \<longleftrightarrow> take 1 p = ''/''"

definition commonpath :: "string \<Rightarrow> string \<Rightarrow> string option" where
  "commonpath a b =
     (if is_absolute a \<noteq> is_absolute b then None
      else Some ((if is_absolute a then ''/'' else []) @
                 py_join ''/'' (common_prefix (path_parts a) (path_parts b))))"

lemma common_prefix_comm: "common_prefix xs ys = common_prefix ys xs"
  by (induction xs ys rule: common_prefix.induct) auto

lemma commonpath_comm: "commonpath a b = commonpath b a"
  by (auto simp: commonpath_def common_prefix_comm)

text \<open>\<open>PurePosixPath(p).suffix\<close>: the last dot of the final component, unless the component
  starts or ends with it.\<close>

definition path_name :: "string \<Rightarrow> string" where
  "path_name p = (case path_parts p of [] \<Rightarrow> [] | ps \<Rightarrow> last ps)"

definition path_suffix :: "string \<Rightarrow> string" where
  "path_suffix p =
     (let name = path_name p;
          tail = rev (takeWhile (\<lambda>c. c \<noteq> CHR ''.'') (rev name));
          i = length name - length tail
      in if i < 2 \<or> tail = [] then [] else ''.'' @ tail)"

text \<open>\<open>Path(root) / relative\<close>, and \<open>path.relative_to(root)\<close> as a test: the components of the root
  are a prefix of those of the path.\<close>

definition join_path :: "string \<Rightarrow> string \<Rightarrow> string" where
  "join_path base relative = (if is_absolute relative then relative else base @ ''/'' @ relative)"

definition path_inside :: "string \<Rightarrow> string \<Rightarrow> bool" where
  "path_inside base p \<longleftrightarrow>
     is_absolute base = is_absolute p \<and> take (length (path_parts base)) (path_parts p) = path_parts base"

text \<open>The text pydantic writes for an aware UTC time: \<open>isoformat\<close> with \<open>Z\<close> as the zone.\<close>

definition json_time :: "py_time \<Rightarrow> string" where
  "json_time t = take (length (isoformat t) - 6) (isoformat t) @ ''Z''"

end
