(* ===== verification/Json.thy ===== *)
theory Json
  imports PyText
begin

text \<open>
  The JSON values the program hashes and stores (\<open>json.dumps(value, sort_keys=True)\<close> with the
  separators given), for ASCII texts and without floating-point numbers, which no hashed payload
  contains. The hash function itself (\<open>hashlib.sha256\<close>) is an argument of the definitions
  that use it.
\<close>

datatype json =
    JNull
  | JBool bool
  | JInt int
  | JStr string
  | JList "json list"
  | JObj "(string \<times> json) list"

definition hex_digit :: "nat \<Rightarrow> char" where
  "hex_digit n = (if n < 10 then char_of (48 + n) else char_of (87 + n))"

definition escape_char :: "char \<Rightarrow> string" where
  "escape_char c =
     (let n = (of_char c :: nat) in
      if n = 34 then [CHR 0x5C, CHR 0x22]
      else if n = 92 then [CHR 0x5C, CHR 0x5C]
      else if n = 10 then [CHR 0x5C, CHR ''n'']
      else if n = 13 then [CHR 0x5C, CHR ''r'']
      else if n = 9 then [CHR 0x5C, CHR ''t'']
      else if n = 8 then [CHR 0x5C, CHR ''b'']
      else if n = 12 then [CHR 0x5C, CHR ''f'']
      else if n < 32 then [CHR 0x5C, CHR ''u'', CHR ''0'', CHR ''0'', hex_digit (n div 16), hex_digit (n mod 16)]
      else [c])"

definition quote_text :: "string \<Rightarrow> string" where
  "quote_text s = [CHR 0x22] @ concat (map escape_char s) @ [CHR 0x22]"

fun dumps :: "string \<Rightarrow> string \<Rightarrow> json \<Rightarrow> string" where
  "dumps isep ksep JNull = ''null''"
| "dumps isep ksep (JBool b) = (if b then ''true'' else ''false'')"
| "dumps isep ksep (JInt i) = py_str_int i"
| "dumps isep ksep (JStr s) = quote_text s"
| "dumps isep ksep (JList xs) = ''['' @ py_join isep (map (dumps isep ksep) xs) @ '']''"
| "dumps isep ksep (JObj ms) =
     ''{'' @ py_join isep
       (map (\<lambda>m. quote_text (fst m) @ ksep @ snd m)
         (sort_key fst (map (\<lambda>m. (fst m, dumps isep ksep (snd m))) ms))) @ ''}''"

text \<open>\<open>json.dumps(v, sort_keys=True, separators=(",", ":"))\<close>\<close>

definition canonical_json :: "json \<Rightarrow> string" where
  "canonical_json v = dumps '','' '':'' v"

text \<open>\<open>json.dumps(v, sort_keys=True)\<close>\<close>

definition spaced_json :: "json \<Rightarrow> string" where
  "spaced_json v = dumps '', '' '': '' v"

definition JStrs :: "string list \<Rightarrow> json" where
  "JStrs xs = JList (map JStr xs)"

definition JOptStr :: "string option \<Rightarrow> json" where
  "JOptStr x = (case x of None \<Rightarrow> JNull | Some s \<Rightarrow> JStr s)"

definition JOptInt :: "int option \<Rightarrow> json" where
  "JOptInt x = (case x of None \<Rightarrow> JNull | Some i \<Rightarrow> JInt i)"

end
