(* ===== verification/Models_Core.thy ===== *)
theory Models_Core
  imports Json
begin

text \<open>
  The knowledge side of the data model (\<open>src/rlmgraph/models.py\<close>): projects and their
  indexed files, claims with their provenance, tasks and graph edges, and the governance and
  lease objects. Every class is a record with the class's fields in the class's order, each
  field name prefixed by a short tag of its class (\<open>cl_subject\<close> is \<open>Claim.subject\<close>); every
  \<open>StrEnum\<close> is a datatype whose constructors carry the class's name, but for
  \<open>GraphRelation\<close>, whose 83 members stay the texts that the edge table stores. A \<open>dict\<close> is
  an association list in insertion order.
\<close>

section \<open>Claims, tasks and projects\<close>

datatype claim_kind =
    ClaimKind_DISCOVERY
  | ClaimKind_ADJUDICATED

datatype claim_validity =
    ClaimValidity_CURRENT
  | ClaimValidity_SUPERSEDED
  | ClaimValidity_INVALIDATED

datatype memory_tier =
    MemoryTier_WORKING
  | MemoryTier_EPISODIC
  | MemoryTier_SEMANTIC
  | MemoryTier_PROCEDURAL

datatype memory_lifecycle =
    MemoryLifecycle_ACTIVE
  | MemoryLifecycle_PROMOTED
  | MemoryLifecycle_REJECTED
  | MemoryLifecycle_INVALIDATED

datatype task_status =
    TaskStatus_OPEN
  | TaskStatus_DONE
  | TaskStatus_RECURSE
  | TaskStatus_STOPPED

datatype stopping_reason =
    StoppingReason_COMPLETED
  | StoppingReason_LOW_CONFIDENCE
  | StoppingReason_MAX_DEPTH
  | StoppingReason_CALL_BUDGET
  | StoppingReason_RETRY_EXHAUSTED
  | StoppingReason_CYCLE_DETECTED
  | StoppingReason_RETRIEVAL_TOKEN_BUDGET
  | StoppingReason_WALL_TIME_BUDGET
  | StoppingReason_DUPLICATE_BUDGET

datatype task_kind =
    TaskKind_INVESTIGATION
  | TaskKind_RESOLUTION
  | TaskKind_FOLLOW_UP

datatype task_route =
    TaskRoute_MEMORY
  | TaskRoute_LOCAL_INVESTIGATOR
  | TaskRoute_LOCAL_MODEL
  | TaskRoute_CODEX
  | TaskRoute_RESOLVER

type_synonym graph_relation = string

definition graph_relations :: "graph_relation list" where
  "graph_relations = [
    ''DISCOVERED'', ''CONTRADICTS'', ''CONSIDERS'', ''PRODUCED'', ''RESOLVES'', ''SPAWNED'',
    ''INFORMS'', ''ATTEMPTED'', ''HAS_CLUSTER'', ''SUPPORTS'', ''CORROBORATES'', ''OUTLIER'',
    ''RESOLVES_CLUSTER'', ''DERIVED_FROM'', ''SUPERSEDES'', ''REUSED'', ''HAS_RECONSTRUCTION'',
    ''HAS_STEP'', ''SEEDED'', ''EXPANDED_TO'', ''PRUNED_FROM'', ''HAS_PROMOTION'',
    ''EVALUATED'', ''CONSOLIDATED_FROM'', ''PROMOTED_TO'', ''REJECTED_CANDIDATE'',
    ''HAS_BENCHMARK'', ''MEASURED_RECONSTRUCTION'', ''HAS_PATHWAY_DECISION'',
    ''PROMOTED_PATHWAY'', ''PATHWAY_INCLUDES'', ''SUPPORTS_PATHWAY'', ''HAS_PLAN_DECISION'',
    ''PLANNED_TASK'', ''HAS_PLANNING_RUN'', ''HAS_EXECUTION'', ''FALLBACK_TO'',
    ''HAS_ROUTE_PREDICTION'', ''PREDICTED_EXECUTION'', ''HAS_POLICY_UPDATE'',
    ''BASED_ON_EXECUTION'', ''EVALUATES_PREDICTION'', ''HAS_VERDICT'', ''SUPPORTS_VERDICT'',
    ''CONTRADICTS_VERDICT'', ''EVIDENCE_FOR_VERDICT'', ''REUSED_VERDICT'', ''HAS_PROJECT_SCAN'',
    ''PREVIOUS_PROJECT_SCAN'', ''CONTAINS_PROJECT_FILE'', ''OBSERVED_PROJECT_FILE'',
    ''DECLARES_SYMBOL'', ''DECLARES_TEST'', ''IMPORTS_DEPENDENCY'', ''DEPENDS_ON_FILE'',
    ''DEPENDS_ON_TASK'', ''INVALIDATED_BY_SCAN'', ''AUTHORIZED_FILE'', ''TRACED_DEPENDENCY'',
    ''SYNTHESIZED_FROM'', ''HAS_REPAIR'', ''PROPOSED_PATCH'', ''VALIDATED_BY'',
    ''VERIFIED_REPAIR'', ''REUSED_REPAIR'', ''HAS_APPROVAL'', ''APPROVES_REPAIR'',
    ''HAS_PROMOTION_RUN'', ''APPLIED_REPAIR'', ''FINAL_VALIDATED_BY'', ''ROLLED_BACK_REPAIR'',
    ''RECONCILED_BY'', ''RECONCILIATION_SCAN'', ''RECORDED_REPAIRED_STATE'',
    ''PROVED_FOLLOWUP_REUSE'', ''WORKFLOW_DIAGNOSIS'', ''WORKFLOW_REPAIR'',
    ''WORKFLOW_APPROVAL'', ''WORKFLOW_PROMOTION'', ''WORKFLOW_RECONCILIATION'',
    ''WORKFLOW_FOLLOWUP'']"

datatype file_lifecycle =
    FileLifecycle_ACTIVE
  | FileLifecycle_DELETED

datatype project_idea_status =
    ProjectIdeaStatus_DRAFT
  | ProjectIdeaStatus_ARCHIVED

datatype project_execution_mode =
    ProjectExecutionMode_READ_ONLY
  | ProjectExecutionMode_PROTECTED
  | ProjectExecutionMode_AUTONOMOUS_SANDBOX
  | ProjectExecutionMode_AUTONOMOUS_PROJECT

record evidence =
  ev_path :: "string"
  ev_detail :: "string"
  ev_line :: "int option"

record source_file =
  sf_path :: "string"
  sf_content_hash :: "string"
  sf_evidence_lines :: "int list"

record project_idea =
  pi_id :: "string"
  pi_title :: "string"
  pi_detail :: "string"
  pi_status :: "project_idea_status"
  pi_created_at :: "py_time"

record project_record =
  pr_id :: "string"
  pr_root :: "string"
  pr_explicitly_selected :: "bool"
  pr_read_only :: "bool"
  pr_execution_mode :: "project_execution_mode"
  pr_latest_scan_id :: "string option"
  pr_organization :: "string"
  pr_project_manifest :: "string"
  pr_project_goals :: "string"
  pr_ideas :: "project_idea list"
  pr_created_at :: "py_time"

record project_file =
  pf_id :: "string"
  pf_project_id :: "string"
  pf_path :: "string"
  pf_content_hash :: "string"
  pf_size_bytes :: "int"
  pf_modified_time_ns :: "int"
  pf_language :: "string"
  pf_is_test :: "bool"
  pf_lifecycle :: "file_lifecycle"
  pf_last_scan_id :: "string"

record validity_event =
  ve_status :: "claim_validity"
  ve_project_fingerprint :: "string"
  ve_reason :: "string"
  ve_observed_at :: "py_time"

record tier_transition =
  tt_from_tier :: "memory_tier option"
  tt_to_tier :: "memory_tier"
  tt_reason :: "string"
  tt_decision_id :: "string option"
  tt_transitioned_at :: "py_time"

record assertion =
  as_key :: "string"
  as_value :: "string"

record claim =
  cl_id :: "string"
  cl_fingerprint :: "string"
  cl_project_fingerprint :: "string"
  cl_project_root :: "string"
  cl_subject :: "string"
  cl_producer :: "string"
  cl_kind :: "claim_kind"
  cl_resolution_task_id :: "string option"
  cl_resolved_claim_ids :: "string list"
  cl_conclusion :: "string"
  cl_confidence :: "rat"
  cl_evidence :: "evidence list"
  cl_files_examined :: "string list"
  cl_files_changed :: "string list"
  cl_unresolved_questions :: "string list"
  cl_assertions :: "assertion list"
  cl_created_at :: "py_time"
  cl_source_task_id :: "string option"
  cl_source_claim_ids :: "string list"
  cl_source_files :: "source_file list"
  cl_source_commit :: "string option"
  cl_learned_at :: "py_time"
  cl_valid_from :: "string option"
  cl_valid_until :: "string option"
  cl_validity_status :: "claim_validity"
  cl_validity_reason :: "string"
  cl_validity_history :: "validity_event list"
  cl_superseded_by_claim_id :: "string option"
  cl_memory_tier :: "memory_tier"
  cl_memory_lifecycle :: "memory_lifecycle"
  cl_tier_history :: "tier_transition list"
  cl_promoted_to_claim_id :: "string option"
  cl_successful_reuse_count :: "int"
  cl_memory_policy_decision_id :: "string option"
  cl_conflict_verdict_id :: "string option"

record graph_edge =
  ge_source :: "string"
  ge_relation :: "graph_relation"
  ge_target :: "string"

record task =
  tk_id :: "string"
  tk_question :: "string"
  tk_fingerprint :: "string"
  tk_project_fingerprint :: "string"
  tk_project_root :: "string"
  tk_kind :: "task_kind"
  tk_parent_task_id :: "string option"
  tk_conflicting_claim_ids :: "string list"
  tk_disputed_assertion_key :: "string option"
  tk_resolved_claim_id :: "string option"
  tk_conflict_cluster_id :: "string option"
  tk_conflict_verdict_id :: "string option"
  tk_reused_verdict_id :: "string option"
  tk_evidence_gap :: "string option"
  tk_relevant_files :: "string list"
  tk_source_claim_ids :: "string list"
  tk_output_claim_id :: "string option"
  tk_depth :: "int"
  tk_attempt_count :: "int"
  tk_started_at :: "py_time option"
  tk_completed_at :: "py_time option"
  tk_stopping_reason :: "stopping_reason option"
  tk_last_error :: "string option"
  tk_status :: "task_status"
  tk_reused_claim_id :: "string option"
  tk_reuse_type :: "string option"
  tk_relevance_score :: "rat option"
  tk_reuse_reason :: "string option"
  tk_reconstruction_id :: "string option"
  tk_priority :: "rat"
  tk_uncertainty :: "rat"
  tk_difficulty :: "rat"
  tk_route :: "task_route option"
  tk_dependency_task_ids :: "string list"
  tk_created_at :: "py_time"

section \<open>Governance and leases\<close>

record approval_policy_rule =
  apr_id :: "string"
  apr_action :: "string"
  apr_required_roles :: "string list"
  apr_minimum_approvals :: "int"
  apr_artifact_kinds :: "string list"
  apr_required_validation_categories :: "string list"

record governance_decision =
  gd_id :: "string"
  gd_project_id :: "string"
  gd_project_root :: "string"
  gd_action :: "string"
  gd_artifact_id :: "string"
  gd_decision :: "string"
  gd_actor :: "string"
  gd_actor_roles :: "string list"
  gd_authenticated_subject :: "string option"
  gd_authentication_method :: "string option"
  gd_organization_id :: "string option"
  gd_session_id :: "string option"
  gd_reason :: "string"
  gd_policy_id :: "string"
  gd_policy_version :: "int"
  gd_rule_id :: "string"
  gd_binding_sha256 :: "string"
  gd_source_manifest_sha256 :: "string option"
  gd_patch_sha256 :: "string option"
  gd_requirements_sha256 :: "string option"
  gd_evidence_sha256 :: "string option"
  gd_valid :: "bool"
  gd_expiration_reason :: "string option"
  gd_created_at :: "py_time"

record ticket_budget =
  tb_max_tokens :: "int"
  tb_max_model_calls :: "int"
  tb_max_worker_calls :: "int"
  tb_max_wall_time_seconds :: "rat"
  tb_max_branch_depth :: "int"

record project_policy_revision =
  ppr_version :: "int"
  ppr_permitted_worker_ids :: "string list"
  ppr_required_validation_categories :: "string list"
  ppr_plan_approvers :: "string list"
  ppr_promotion_approvers :: "string list"
  ppr_actor_roles :: "string list py_dict"
  ppr_authority_mode :: "string"
  ppr_authority_organization_id :: "string option"
  ppr_authenticated_role_bindings :: "string list py_dict"
  ppr_approval_rules :: "approval_policy_rule list"
  ppr_artifact_validation_requirements :: "string list py_dict"
  ppr_max_ticket_budget :: "rat py_dict"
  ppr_configured_by :: "string"
  ppr_reason :: "string"
  ppr_created_at :: "py_time"

record project_governance_policy =
  pol_id :: "string"
  pol_project_id :: "string"
  pol_project_root :: "string"
  pol_permitted_worker_ids :: "string list"
  pol_required_validation_categories :: "string list"
  pol_plan_approvers :: "string list"
  pol_promotion_approvers :: "string list"
  pol_actor_roles :: "string list py_dict"
  pol_authority_mode :: "string"
  pol_authority_organization_id :: "string option"
  pol_authenticated_role_bindings :: "string list py_dict"
  pol_approval_rules :: "approval_policy_rule list"
  pol_artifact_validation_requirements :: "string list py_dict"
  pol_max_ticket_budget :: "ticket_budget"
  pol_configured_by :: "string"
  pol_reason :: "string"
  pol_version :: "int"
  pol_revision_history :: "project_policy_revision list"
  pol_updated_at :: "py_time"

datatype project_lease_status =
    ProjectLeaseStatus_ACTIVE
  | ProjectLeaseStatus_RELEASED
  | ProjectLeaseStatus_EXPIRED

datatype project_lease_event_kind =
    ProjectLeaseEventKind_ACQUIRED
  | ProjectLeaseEventKind_RENEWED
  | ProjectLeaseEventKind_CONTENDED
  | ProjectLeaseEventKind_RECLAIMED
  | ProjectLeaseEventKind_RECOVERY_STARTED
  | ProjectLeaseEventKind_RECOVERY_COMPLETED
  | ProjectLeaseEventKind_RELEASED

record project_lease_event =
  ple_kind :: "project_lease_event_kind"
  ple_holder_id :: "string"
  ple_workflow_id :: "string option"
  ple_detail :: "string"
  ple_occurred_at :: "py_time"

record project_lease =
  pl_id :: "string"
  pl_project_root :: "string"
  pl_project_id :: "string option"
  pl_holder_id :: "string"
  pl_workflow_id :: "string option"
  pl_fencing_token :: "int"
  pl_status :: "project_lease_status"
  pl_acquired_at :: "py_time"
  pl_renewed_at :: "py_time"
  pl_expires_at :: "py_time"
  pl_released_at :: "py_time option"
  pl_events :: "project_lease_event list"

record project_lease_acquisition =
  pla_acquired :: "bool"
  pla_reclaimed :: "bool"
  pla_lease :: "project_lease"

end
