(* ===== verification/Models_Work.thy ===== *)
theory Models_Work
  imports Models_Core
begin

text \<open>
  The work side of the data model (\<open>src/rlmgraph/models.py\<close>): tickets with their budget,
  usage, criteria and closure decisions, scheduled work, workspace results, and the
  implementation sandboxes with their validation evidence and promotion records. The field
  tags are the initials of the class (\<open>swi_\<close> for \<open>ScheduledWorkItem\<close>, \<open>isa_\<close> for
  \<open>ImplementationSandboxAttempt\<close>).
\<close>

section \<open>Tickets and scheduled work\<close>

record ticket_usage =
  tu_tokens :: "int"
  tu_model_calls :: "int"
  tu_worker_calls :: "int"
  tu_wall_time_seconds :: "rat"
  tu_deepest_branch :: "int"

record ticket_evidence_assessment =
  tea_evidence_id :: "string"
  tea_artifact_type :: "string"
  tea_eligible :: "bool"
  tea_reason :: "string"
  tea_ticket_id :: "string option"
  tea_project_id :: "string option"
  tea_status :: "string option"
  tea_source_manifest_sha256 :: "string option"
  tea_patch_sha256 :: "string option"
  tea_assessed_at :: "py_time"

record ticket_acceptance_criterion =
  tac_id :: "string"
  tac_description :: "string"
  tac_status :: "string"
  tac_evidence_ids :: "string list"
  tac_waiver_reason :: "string option"
  tac_blocker_reason :: "string option"
  tac_resolved_by :: "string option"
  tac_resolved_at :: "py_time option"
  tac_evidence_assessments :: "ticket_evidence_assessment list"

record ticket_criterion_closure_gate =
  tcg_criterion_id :: "string"
  tcg_description :: "string"
  tcg_status :: "string"
  tcg_resolved :: "bool"
  tcg_explanation :: "string"
  tcg_resolved_by :: "string option"
  tcg_resolved_at :: "py_time option"
  tcg_evidence_assessments :: "ticket_evidence_assessment list"

record ticket_closure_decision =
  tcd_id :: "string"
  tcd_ticket_id :: "string"
  tcd_project_id :: "string"
  tcd_requested_status :: "string"
  tcd_allowed :: "bool"
  tcd_actor :: "string"
  tcd_reason :: "string"
  tcd_fingerprint :: "string"
  tcd_failures :: "string list"
  tcd_criterion_gates :: "ticket_criterion_closure_gate list"
  tcd_decided_at :: "py_time"

record ticket_constraint =
  tco_id :: "string"
  tco_description :: "string"

record ticket_dependency_scope =
  tds_ticket_id :: "string"
  tds_project_id :: "string"
  tds_read_only :: "bool"
  tds_separately_authorized :: "bool"

record project_ticket =
  pt_id :: "string"
  pt_project_id :: "string"
  pt_project_root :: "string"
  pt_title :: "string"
  pt_description :: "string"
  pt_priority :: "string"
  pt_status :: "string"
  pt_acceptance_criteria :: "ticket_acceptance_criterion list"
  pt_constraints :: "ticket_constraint list"
  pt_dependency_ticket_ids :: "string list"
  pt_dependency_scopes :: "ticket_dependency_scope list"
  pt_source_claim_ids :: "string list"
  pt_governance_policy_id :: "string option"
  pt_governance_policy_version :: "int option"
  pt_budget_policy_rule_id :: "string"
  pt_budget :: "ticket_budget"
  pt_usage :: "ticket_usage"
  pt_execution_authorized :: "bool"
  pt_created_by :: "string"
  pt_created_at :: "py_time"
  pt_updated_at :: "py_time"
  pt_satisfied_at :: "py_time option"
  pt_closure_decisions :: "ticket_closure_decision list"

record ticket_event =
  te_id :: "string"
  te_ticket_id :: "string"
  te_project_id :: "string option"
  te_project_root :: "string option"
  te_kind :: "string"
  te_detail :: "string"
  te_actor :: "string"
  te_artifact_ids :: "string list"
  te_created_at :: "py_time"

record ticket_validation_result =
  tvr_id :: "string"
  tvr_ticket_id :: "string"
  tvr_project_id :: "string option"
  tvr_project_root :: "string option"
  tvr_name :: "string"
  tvr_status :: "string"
  tvr_detail :: "string"
  tvr_evidence :: "evidence list"
  tvr_workspace_record_id :: "string option"
  tvr_recorded_by :: "string"
  tvr_execution_authorized :: "bool"
  tvr_created_at :: "py_time"

record scheduler_limits =
  sl_global_concurrency :: "int"
  sl_per_project_concurrency :: "int"
  sl_per_ticket_concurrency :: "int"
  sl_capacity_units :: "int"

record scheduler_checkpoint =
  sc_sequence :: "int"
  sc_stage :: "string"
  sc_detail :: "string"
  sc_worker_calls_used :: "int"
  sc_wall_time_seconds_used :: "rat"
  sc_evidence_ids :: "string list"
  sc_created_at :: "py_time"

record scheduled_work_item =
  swi_id :: "string"
  swi_ticket_id :: "string"
  swi_project_id :: "string"
  swi_project_root :: "string"
  swi_work_kind :: "string"
  swi_artifact_id :: "string option"
  swi_status :: "string"
  swi_priority :: "string"
  swi_required_validation_categories :: "string list"
  swi_predicted_cost_usd :: "rat"
  swi_predicted_latency_seconds :: "rat"
  swi_predicted_worker_calls :: "int"
  swi_capacity_units :: "int"
  swi_requires_project_lease :: "bool"
  swi_scheduling_score :: "rat"
  swi_scheduling_reasons :: "string list"
  swi_blocked_reason :: "string option"
  swi_resumable :: "bool"
  swi_cancellation_requested :: "bool"
  swi_cancelled_by :: "string option"
  swi_cancellation_reason :: "string option"
  swi_temporary_resources :: "string list"
  swi_resources_disposed :: "bool"
  swi_evidence_ids :: "string list"
  swi_checkpoints :: "scheduler_checkpoint list"
  swi_enqueued_at :: "py_time"
  swi_started_at :: "py_time option"
  swi_updated_at :: "py_time"
  swi_completed_at :: "py_time option"

record project_workspace_record =
  pwr_id :: "string"
  pwr_project_id :: "string"
  pwr_project_root :: "string"
  pwr_project_name :: "string"
  pwr_kind :: "string"
  pwr_prompt :: "string"
  pwr_acceptance_criteria :: "string list"
  pwr_status :: "string"
  pwr_answer :: "string"
  pwr_affected_file_ids :: "string list"
  pwr_affected_paths :: "string list"
  pwr_dependency_ids :: "string list"
  pwr_dependency_paths :: "string list"
  pwr_evidence :: "evidence list"
  pwr_impact_groups :: "string list py_dict"
  pwr_steps :: "string list"
  pwr_risks :: "string list"
  pwr_validation_requirements :: "string list"
  pwr_validation_commands :: "string list list"
  pwr_unresolved_questions :: "string list"
  pwr_source_result_id :: "string option"
  pwr_index_scan_id :: "string"
  pwr_indexed_manifest_sha256 :: "string"
  pwr_final_manifest_sha256 :: "string"
  pwr_stale_evidence_rejected :: "bool"
  pwr_source_integrity_verified :: "bool"
  pwr_read_only_verified :: "bool"
  pwr_approval_required :: "bool"
  pwr_approval_status :: "string option"
  pwr_approval_history :: "governance_decision list"
  pwr_approval_missing :: "string list"
  pwr_approval_expiration_reasons :: "string list"
  pwr_execution_authorized :: "bool"
  pwr_ticket_id :: "string option"
  pwr_tokens_used :: "int"
  pwr_model_calls_used :: "int"
  pwr_worker_calls_used :: "int"
  pwr_branch_depth_used :: "int"
  pwr_elapsed_seconds :: "rat"
  pwr_created_at :: "py_time"

section \<open>Implementation sandboxes\<close>

record patch_change =
  pc_path :: "string"
  pc_before_hash :: "string"
  pc_after_hash :: "string"
  pc_unified_diff :: "string"
  pc_change_reason :: "string option"
  pc_before_content :: "string option"
  pc_after_content :: "string option"
  pc_before_bytes_base64 :: "string option"
  pc_after_bytes_base64 :: "string option"

record test_execution =
  tx_command :: "string list"
  tx_exit_code :: "int"
  tx_stdout :: "string"
  tx_stderr :: "string"
  tx_duration_ms :: "rat"

record sandbox_checkpoint =
  sbc_sequence :: "int"
  sbc_stage :: "string"
  sbc_detail :: "string"
  sbc_occurred_at :: "py_time"

record sandbox_validation_decision =
  svd_id :: "string"
  svd_path :: "string"
  svd_artifact_kind :: "string"
  svd_category :: "string"
  svd_requirement :: "string"
  svd_status :: "string"
  svd_requires_unreal_editor :: "bool"
  svd_execution_index :: "int option"
  svd_worker_execution_id :: "string option"
  svd_external_report_id :: "string option"
  svd_evidence :: "evidence list"
  svd_satisfied_by :: "string option"
  svd_satisfied_at :: "py_time option"
  svd_attestation_history :: "governance_decision list"
  svd_attestation_missing :: "string list"
  svd_created_at :: "py_time"

record validation_worker_limits =
  vwl_max_wall_time_seconds :: "rat"
  vwl_max_processes :: "int"
  vwl_max_memory_bytes :: "int"
  vwl_max_output_bytes :: "int"
  vwl_allowed_paths :: "string list"
  vwl_allowed_artifact_kinds :: "string list"
  vwl_allowed_executables :: "string list"
  vwl_allowed_argument_templates :: "string list list"

record sandbox_validation_worker_execution =
  swe_id :: "string"
  swe_ticket_id :: "string"
  swe_project_id :: "string option"
  swe_project_root :: "string option"
  swe_attempt_id :: "string"
  swe_decision_id :: "string"
  swe_worker_id :: "string"
  swe_worker_name :: "string"
  swe_category :: "string"
  swe_artifact_kind :: "string"
  swe_path :: "string"
  swe_source_manifest_sha256 :: "string"
  swe_patch_sha256 :: "string"
  swe_authorization_status :: "string"
  swe_policy_id :: "string option"
  swe_policy_version :: "int option"
  swe_policy_rule_id :: "string option"
  swe_command :: "string list"
  swe_limits :: "validation_worker_limits"
  swe_status :: "string"
  swe_exit_code :: "int option"
  swe_stdout :: "string"
  swe_stderr :: "string"
  swe_duration_ms :: "rat"
  swe_observed_processes :: "int"
  swe_peak_memory_bytes :: "int"
  swe_output_bytes :: "int"
  swe_cost_usd :: "rat"
  swe_failure_reason :: "string option"
  swe_evidence :: "evidence list"
  swe_checkpoints :: "sandbox_checkpoint list"
  swe_created_at :: "py_time"
  swe_completed_at :: "py_time option"

record sandbox_external_validation_report =
  sxr_id :: "string"
  sxr_ticket_id :: "string"
  sxr_project_id :: "string option"
  sxr_project_root :: "string option"
  sxr_attempt_id :: "string"
  sxr_decision_id :: "string"
  sxr_report_kind :: "string"
  sxr_artifact_path :: "string"
  sxr_source_manifest_sha256 :: "string"
  sxr_patch_sha256 :: "string"
  sxr_report_sha256 :: "string"
  sxr_report_bytes_base64 :: "string"
  sxr_status :: "string"
  sxr_detail :: "string"
  sxr_recorded_by :: "string"
  sxr_policy_id :: "string option"
  sxr_policy_version :: "int option"
  sxr_rule_ids :: "string list"
  sxr_binding_sha256 :: "string option"
  sxr_evidence :: "evidence list"
  sxr_created_at :: "py_time"

record sandbox_promotion_approval =
  spa_id :: "string"
  spa_project_id :: "string option"
  spa_project_root :: "string option"
  spa_decision :: "string"
  spa_approved_by :: "string"
  spa_reason :: "string"
  spa_source_manifest_sha256 :: "string"
  spa_policy_id :: "string option"
  spa_policy_version :: "int option"
  spa_rule_ids :: "string list"
  spa_binding_sha256 :: "string option"
  spa_requirements_sha256 :: "string option"
  spa_evidence_sha256 :: "string option"
  spa_created_at :: "py_time"

record sandbox_promotion_reconciliation =
  spr_id :: "string"
  spr_attempt_id :: "string"
  spr_promotion_id :: "string"
  spr_ticket_id :: "string"
  spr_project_id :: "string"
  spr_project_root :: "string"
  spr_status :: "string"
  spr_previous_manifest_sha256 :: "string"
  spr_new_manifest_sha256 :: "string"
  spr_scan_id :: "string"
  spr_changed_paths :: "string list"
  spr_dependent_paths :: "string list"
  spr_parsed_paths :: "string list"
  spr_reused_file_ids :: "string list"
  spr_invalidated_claim_ids :: "string list"
  spr_superseded_claim_ids :: "string list"
  spr_invalidated_workspace_record_ids :: "string list"
  spr_superseded_validation_decision_ids :: "string list"
  spr_replacement_claim_ids :: "string list"
  spr_replacement_task_ids :: "string list"
  spr_evidence :: "evidence list"
  spr_checkpoints :: "sandbox_checkpoint list"
  spr_source_unchanged_during_reconciliation :: "bool"
  spr_created_at :: "py_time"
  spr_completed_at :: "py_time option"

record sandbox_mutation_journal_entry =
  mje_path :: "string"
  mje_before_sha256 :: "string"
  mje_after_sha256 :: "string"
  mje_before_bytes_base64 :: "string"
  mje_after_bytes_base64 :: "string"
  mje_original_mode :: "int"
  mje_staged :: "bool"
  mje_replacement_started :: "bool"
  mje_replacement_completed :: "bool"
  mje_rollback_completed :: "bool"

record sandbox_mutation_journal =
  smj_id :: "string"
  smj_ticket_id :: "string"
  smj_attempt_id :: "string"
  smj_promotion_id :: "string"
  smj_approval_id :: "string"
  smj_project_id :: "string"
  smj_project_root :: "string"
  smj_authorized_paths :: "string list"
  smj_initial_manifest_sha256 :: "string"
  smj_approved_manifest_sha256 :: "string"
  smj_proposed_manifest_sha256 :: "string option"
  smj_final_manifest_sha256 :: "string option"
  smj_lease_id :: "string"
  smj_lease_holder_id :: "string"
  smj_fencing_token :: "int"
  smj_stage :: "string"
  smj_entries :: "sandbox_mutation_journal_entry list"
  smj_validation_commands :: "string list list"
  smj_validation_state :: "string"
  smj_rollback_state :: "string"
  smj_recovery_count :: "int"
  smj_recovery_required :: "bool"
  smj_terminal :: "bool"
  smj_failure_reason :: "string option"
  smj_evidence :: "evidence list"
  smj_checkpoints :: "sandbox_checkpoint list"
  smj_created_at :: "py_time"
  smj_updated_at :: "py_time"
  smj_completed_at :: "py_time option"

record sandbox_promotion_record =
  sprom_id :: "string"
  sprom_project_id :: "string option"
  sprom_project_root :: "string option"
  sprom_approval_id :: "string"
  sprom_status :: "string"
  sprom_initial_manifest_sha256 :: "string"
  sprom_applied_manifest_sha256 :: "string option"
  sprom_final_manifest_sha256 :: "string option"
  sprom_validations :: "test_execution list"
  sprom_rollback_validations :: "test_execution list"
  sprom_rollback_verified :: "bool option"
  sprom_failure_reason :: "string option"
  sprom_lease_id :: "string option"
  sprom_fencing_token :: "int option"
  sprom_evidence :: "evidence list"
  sprom_checkpoints :: "sandbox_checkpoint list"
  sprom_mutation_journal :: "sandbox_mutation_journal option"
  sprom_reconciliation :: "sandbox_promotion_reconciliation option"
  sprom_created_at :: "py_time"
  sprom_completed_at :: "py_time option"

record implementation_sandbox_attempt =
  isa_id :: "string"
  isa_ticket_id :: "string"
  isa_plan_record_id :: "string"
  isa_project_id :: "string"
  isa_project_root :: "string"
  isa_status :: "string"
  isa_authorized_paths :: "string list"
  isa_changes :: "patch_change list"
  isa_patch_sha256 :: "string option"
  isa_validations :: "test_execution list"
  isa_validation_decisions :: "sandbox_validation_decision list"
  isa_validation_evidence :: "evidence list"
  isa_validation_worker_executions :: "sandbox_validation_worker_execution list"
  isa_external_validation_reports :: "sandbox_external_validation_report list"
  isa_promotion_approval :: "sandbox_promotion_approval option"
  isa_promotion_approval_history :: "governance_decision list"
  isa_promotion_approval_missing :: "string list"
  isa_promotion_approval_expiration_reasons :: "string list"
  isa_promotion :: "sandbox_promotion_record option"
  isa_checkpoints :: "sandbox_checkpoint list"
  isa_worker :: "string"
  isa_worker_configuration :: "json py_dict"
  isa_files_read :: "string list"
  isa_process_policy :: "json py_dict"
  isa_network_policy :: "json py_dict"
  isa_estimated_cost_usd :: "rat option"
  isa_cost_basis :: "string"
  isa_worker_calls :: "int"
  isa_model_calls :: "int"
  isa_elapsed_seconds :: "rat"
  isa_initial_manifest_sha256 :: "string"
  isa_final_manifest_sha256 :: "string option"
  isa_original_unchanged :: "bool"
  isa_filesystem_disposed :: "bool"
  isa_failure_reason :: "string option"
  isa_execution_authorized :: "bool"
  isa_created_at :: "py_time"
  isa_completed_at :: "py_time option"
  isa_discarded_at :: "py_time option"

end
