(* ===== verification/Store.thy ===== *)
theory Store
  imports Models_Work
begin

text \<open>
  The SQLite store (\<open>SQLiteGraphStore\<close> of \<open>src/rlmgraph/store.py\<close>): one record field per
  table the modelled components use. A row holds the serialised object; reading it back gives
  the same object, so a table is the list of its objects in the order of \<open>rowid\<close>. The lease
  table is keyed by the canonical project root, which is not a field of the payload, so its rows
  are pairs. The environment of a call is what it reads outside the database: path resolution,
  the hash function, whether a resolved path exists, and the content hash of the regular file
  at a resolved path (\<open>None\<close> when there is none or it cannot be read).
\<close>

record env =
  env_resolve :: "string \<Rightarrow> string"
  env_sha256 :: "string \<Rightarrow> string"
  env_exists :: "string \<Rightarrow> bool"
  env_file_hash :: "string \<Rightarrow> string option"

record store =
  st_projects :: "project_record list"
  st_files :: "project_file list"
  st_claims :: "claim list"
  st_tasks :: "task list"
  st_edges :: "graph_edge list"
  st_policies :: "project_governance_policy list"
  st_leases :: "(string \<times> project_lease) list"
  st_tickets :: "project_ticket list"
  st_ticket_events :: "ticket_event list"
  st_validations :: "ticket_validation_result list"
  st_workspace_records :: "project_workspace_record list"
  st_sandboxes :: "implementation_sandbox_attempt list"
  st_scheduled :: "scheduled_work_item list"

definition empty_store :: store where
  "empty_store =
     \<lparr>st_projects = [], st_files = [], st_claims = [], st_tasks = [], st_edges = [],
      st_policies = [], st_leases = [], st_tickets = [], st_ticket_events = [],
      st_validations = [], st_workspace_records = [], st_sandboxes = [], st_scheduled = []\<rparr>"

section \<open>Claims, tasks and edges\<close>

definition save_task :: "task \<Rightarrow> store \<Rightarrow> store" where
  "save_task t s = s\<lparr>st_tasks := upsert tk_id t (st_tasks s)\<rparr>"

definition update_claim :: "claim \<Rightarrow> store \<Rightarrow> store" where
  "update_claim c s = s\<lparr>st_claims := update_row cl_id c (st_claims s)\<rparr>"

definition save_edge :: "graph_edge \<Rightarrow> store \<Rightarrow> store" where
  "save_edge e s = s\<lparr>st_edges := insert_ignore (\<lambda>x. x) e (st_edges s)\<rparr>"

definition get_task :: "store \<Rightarrow> string \<Rightarrow> task option" where
  "get_task s k = lookup_row tk_id k (st_tasks s)"

definition get_claim :: "store \<Rightarrow> string \<Rightarrow> claim option" where
  "get_claim s k = lookup_row cl_id k (st_claims s)"

section \<open>Tickets, evidence and scheduled work\<close>

definition save_project_workspace_record :: "project_workspace_record \<Rightarrow> store \<Rightarrow> store" where
  "save_project_workspace_record r s =
     s\<lparr>st_workspace_records := upsert pwr_id r (st_workspace_records s)\<rparr>"

definition save_project_ticket :: "project_ticket \<Rightarrow> store \<Rightarrow> store" where
  "save_project_ticket t s = s\<lparr>st_tickets := upsert pt_id t (st_tickets s)\<rparr>"

definition save_ticket_event :: "ticket_event \<Rightarrow> store \<Rightarrow> store" where
  "save_ticket_event e s = s\<lparr>st_ticket_events := upsert te_id e (st_ticket_events s)\<rparr>"

definition save_ticket_validation_result :: "ticket_validation_result \<Rightarrow> store \<Rightarrow> store" where
  "save_ticket_validation_result r s = s\<lparr>st_validations := upsert tvr_id r (st_validations s)\<rparr>"

text \<open>The sandbox row, and the edges of a recorded reconciliation.\<close>

definition reconciliation_edges :: "implementation_sandbox_attempt \<Rightarrow> graph_edge list" where
  "reconciliation_edges a =
     (case isa_promotion a of
        None \<Rightarrow> []
      | Some p \<Rightarrow>
          (case sprom_reconciliation p of
             None \<Rightarrow> []
           | Some r \<Rightarrow>
               [\<lparr>ge_source = sprom_id p, ge_relation = ''RECONCILED_BY'', ge_target = spr_id r\<rparr>,
                \<lparr>ge_source = spr_id r, ge_relation = ''RECONCILIATION_SCAN'', ge_target = spr_scan_id r\<rparr>] @
               map (\<lambda>c. \<lparr>ge_source = spr_id r, ge_relation = ''RECORDED_REPAIRED_STATE'', ge_target = c\<rparr>)
                 (spr_replacement_claim_ids r)))"

definition save_implementation_sandbox :: "implementation_sandbox_attempt \<Rightarrow> store \<Rightarrow> store" where
  "save_implementation_sandbox a s =
     fold save_edge (reconciliation_edges a) (s\<lparr>st_sandboxes := upsert isa_id a (st_sandboxes s)\<rparr>)"

definition implementation_sandboxes :: "store \<Rightarrow> string option \<Rightarrow> implementation_sandbox_attempt list" where
  "implementation_sandboxes s ticket =
     (case ticket of
        None \<Rightarrow> st_sandboxes s
      | Some t \<Rightarrow> if t = [] then st_sandboxes s else filter (\<lambda>a. isa_ticket_id a = t) (st_sandboxes s))"

definition save_scheduled_work :: "scheduled_work_item \<Rightarrow> store \<Rightarrow> store" where
  "save_scheduled_work i s = s\<lparr>st_scheduled := upsert swi_id i (st_scheduled s)\<rparr>"

text \<open>The policy table has two unique columns; a replacing insert removes the rows that clash with
  either.\<close>

definition save_project_governance_policy :: "project_governance_policy \<Rightarrow> store \<Rightarrow> store" where
  "save_project_governance_policy p s =
     s\<lparr>st_policies := filter (\<lambda>x. pol_id x \<noteq> pol_id p \<and> pol_project_id x \<noteq> pol_project_id p)
          (st_policies s) @ [p]\<rparr>"

definition project_governance_policies :: "store \<Rightarrow> project_governance_policy list" where
  "project_governance_policies s = sort_key pol_project_id (st_policies s)"

text \<open>The active files of a project, by path; no project id selects all of them.\<close>

definition project_files :: "store \<Rightarrow> string \<Rightarrow> project_file list" where
  "project_files s project =
     sort_key pf_path (filter (\<lambda>f. (project = [] \<or> pf_project_id f = project) \<and>
        pf_lifecycle f = FileLifecycle_ACTIVE) (st_files s))"

section \<open>Path identity\<close>

text \<open>\<open>_lease_root\<close> of the store and \<open>canonical_root\<close> of the governance module compute the same
  text: \<open>str(Path(root).resolve()).casefold()\<close>.\<close>

definition canonical_root :: "env \<Rightarrow> string \<Rightarrow> string" where
  "canonical_root e p = py_casefold (env_resolve e p)"

text \<open>An environment for concrete runs: paths are already canonical, texts are their own digest, and
  no file can be read.\<close>

definition plain_env :: env where
  "plain_env = \<lparr>env_resolve = (\<lambda>p. p), env_sha256 = (\<lambda>t. t), env_exists = (\<lambda>_. False),
     env_file_hash = (\<lambda>_. None)\<rparr>"

section \<open>Frame facts\<close>

lemma save_edge_frame [simp]:
  "st_leases (save_edge e s) = st_leases s" "st_sandboxes (save_edge e s) = st_sandboxes s"
  "st_tickets (save_edge e s) = st_tickets s" "st_scheduled (save_edge e s) = st_scheduled s"
  "st_projects (save_edge e s) = st_projects s" "st_policies (save_edge e s) = st_policies s"
  "st_claims (save_edge e s) = st_claims s" "st_ticket_events (save_edge e s) = st_ticket_events s"
  by (simp_all add: save_edge_def)

lemma fold_save_edge_frame [simp]:
  "st_leases (fold save_edge es s) = st_leases s" "st_sandboxes (fold save_edge es s) = st_sandboxes s"
  "st_tickets (fold save_edge es s) = st_tickets s" "st_scheduled (fold save_edge es s) = st_scheduled s"
  "st_projects (fold save_edge es s) = st_projects s" "st_policies (fold save_edge es s) = st_policies s"
  "st_claims (fold save_edge es s) = st_claims s"
  "st_ticket_events (fold save_edge es s) = st_ticket_events s"
  by (induction es arbitrary: s) simp_all

lemma save_project_ticket_frame [simp]:
  "st_tickets (save_project_ticket t s) = upsert pt_id t (st_tickets s)"
  "st_projects (save_project_ticket t s) = st_projects s"
  "st_scheduled (save_project_ticket t s) = st_scheduled s"
  "st_leases (save_project_ticket t s) = st_leases s"
  "st_policies (save_project_ticket t s) = st_policies s"
  "st_ticket_events (save_project_ticket t s) = st_ticket_events s"
  "st_sandboxes (save_project_ticket t s) = st_sandboxes s"
  "st_workspace_records (save_project_ticket t s) = st_workspace_records s"
  "st_validations (save_project_ticket t s) = st_validations s"
  by (simp_all add: save_project_ticket_def)

lemma save_ticket_event_frame [simp]:
  "st_tickets (save_ticket_event e s) = st_tickets s"
  "st_projects (save_ticket_event e s) = st_projects s"
  "st_scheduled (save_ticket_event e s) = st_scheduled s"
  "st_leases (save_ticket_event e s) = st_leases s"
  "st_policies (save_ticket_event e s) = st_policies s"
  "st_ticket_events (save_ticket_event e s) = upsert te_id e (st_ticket_events s)"
  "st_sandboxes (save_ticket_event e s) = st_sandboxes s"
  by (simp_all add: save_ticket_event_def)

lemma save_scheduled_work_frame [simp]:
  "st_scheduled (save_scheduled_work i s) = upsert swi_id i (st_scheduled s)"
  "st_tickets (save_scheduled_work i s) = st_tickets s"
  "st_projects (save_scheduled_work i s) = st_projects s"
  "st_leases (save_scheduled_work i s) = st_leases s"
  by (simp_all add: save_scheduled_work_def)

text \<open>The store as a keyed table of tickets, of scheduled work, and of tasks: what is saved is what
  is read back, and saving one object leaves the others alone.\<close>

interpretation ticket_table: keyed_table save_project_ticket "\<lambda>k s. lookup_row pt_id k (st_tickets s)" pt_id
  by unfold_locales (simp add: row_simps)

interpretation work_table: keyed_table save_scheduled_work "\<lambda>k s. lookup_row swi_id k (st_scheduled s)" swi_id
  by unfold_locales (simp add: row_simps)

interpretation task_table: keyed_table save_task "\<lambda>k s. get_task s k" tk_id
  by unfold_locales (simp add: row_simps save_task_def get_task_def)

interpretation sandbox_table: keyed_table save_implementation_sandbox
    "\<lambda>k s. lookup_row isa_id k (st_sandboxes s)" isa_id
  by unfold_locales (simp add: row_simps save_implementation_sandbox_def)

end
