(* ===== verification/Leases.thy ===== *)
theory Leases
  imports Store
begin

text \<open>
  Exclusive, fenced project mutation leases (\<open>acquire_project_lease\<close>, \<open>renew_project_lease\<close>,
  \<open>release_project_lease\<close>, \<open>record_project_lease_event\<close> of \<open>SQLiteGraphStore\<close>). Every operation
  is one \<open>BEGIN IMMEDIATE\<close> transaction: it either returns and commits, or raises and leaves the
  database as it was, so its model is a result that carries the new store only on success.
\<close>

section \<open>Operations\<close>

definition or_text :: "string option \<Rightarrow> string option \<Rightarrow> string option" where
  "or_text a b = (case a of None \<Rightarrow> b | Some t \<Rightarrow> if t = [] then b else Some t)"

definition lease_row :: "string \<Rightarrow> store \<Rightarrow> project_lease option" where
  "lease_row r s = map_option snd (lookup_row fst r (st_leases s))"

definition put_lease :: "string \<Rightarrow> project_lease \<Rightarrow> store \<Rightarrow> store" where
  "put_lease r l s = s\<lparr>st_leases := upsert fst (r, l) (st_leases s)\<rparr>"

definition set_lease :: "string \<Rightarrow> project_lease \<Rightarrow> store \<Rightarrow> store" where
  "set_lease r l s = s\<lparr>st_leases := update_row fst (r, l) (st_leases s)\<rparr>"

definition project_leases :: "store \<Rightarrow> project_lease list" where
  "project_leases s = map snd (sort_key fst (st_leases s))"

text \<open>The mutation journals of sandbox promotions of this project that never reached an end.\<close>

definition unfinished_journals :: "env \<Rightarrow> string \<Rightarrow> store \<Rightarrow> sandbox_mutation_journal list" where
  "unfinished_journals e r s =
     List.map_filter (\<lambda>a.
       case isa_promotion a of
         None \<Rightarrow> None
       | Some p \<Rightarrow>
           (case sprom_mutation_journal p of
              None \<Rightarrow> None
            | Some j \<Rightarrow>
                if \<not> smj_terminal j \<and> canonical_root e (isa_project_root a) = r then Some j else None))
       (st_sandboxes s)"

definition lease_event ::
  "project_lease_event_kind \<Rightarrow> string \<Rightarrow> string option \<Rightarrow> string \<Rightarrow> py_time \<Rightarrow> project_lease_event" where
  "lease_event k h w d t =
     \<lparr>ple_kind = k, ple_holder_id = h, ple_workflow_id = w, ple_detail = d, ple_occurred_at = t\<rparr>"

definition acquire_project_lease ::
  "env \<Rightarrow> py_time \<Rightarrow> string \<Rightarrow> string \<Rightarrow> string \<Rightarrow> string option \<Rightarrow> rat \<Rightarrow> string option \<Rightarrow> store
   \<Rightarrow> (project_lease_acquisition \<times> store) result" where
  "acquire_project_lease e moment new_id project_root holder workflow ttl recovery s =
     (let r = canonical_root e project_root;
          project = map_option pr_id (find (\<lambda>p. canonical_root e (pr_root p) = r) (st_projects s));
          unfinished = unfinished_journals e r s
      in if unfinished \<noteq> [] \<and> recovery \<notin> Some ` set (map smj_id unfinished)
         then Inl (RuntimeError ''Project has an incomplete sandbox promotion; recover it before acquiring another mutation lease.'')
         else
           let current = lease_row r s in
           case current of
             Some c \<Rightarrow>
               if pl_status c = ProjectLeaseStatus_ACTIVE \<and> moment < pl_expires_at c \<and> pl_holder_id c \<noteq> holder
               then let c' = c\<lparr>pl_events := pl_events c @
                       [lease_event ProjectLeaseEventKind_CONTENDED holder workflow
                         (''Lease held by '' @ pl_holder_id c @ '' until '' @ isoformat (pl_expires_at c) @ ''.'') moment]\<rparr>
                    in Inr (\<lparr>pla_acquired = False, pla_reclaimed = False, pla_lease = c'\<rparr>, set_lease r c' s)
               else if pl_status c = ProjectLeaseStatus_ACTIVE \<and> moment < pl_expires_at c \<and> pl_holder_id c = holder
               then let c' = c\<lparr>pl_renewed_at := moment, pl_expires_at := moment + seconds_delta ttl,
                       pl_workflow_id := or_text workflow (pl_workflow_id c),
                       pl_events := pl_events c @
                         [lease_event ProjectLeaseEventKind_RENEWED holder workflow
                           ''Lease renewed by its current holder.'' moment]\<rparr>
                    in Inr (\<lparr>pla_acquired = True, pla_reclaimed = False, pla_lease = c'\<rparr>, put_lease r c' s)
               else
                 let reclaimed = (pl_status c = ProjectLeaseStatus_ACTIVE \<and> pl_expires_at c \<le> moment);
                     l = \<lparr>pl_id = new_id, pl_project_root = env_resolve e project_root, pl_project_id = project,
                       pl_holder_id = holder, pl_workflow_id = workflow, pl_fencing_token = pl_fencing_token c + 1,
                       pl_status = ProjectLeaseStatus_ACTIVE, pl_acquired_at = moment, pl_renewed_at = moment,
                       pl_expires_at = moment + seconds_delta ttl, pl_released_at = None,
                       pl_events = pl_events c @
                         [if reclaimed
                          then lease_event ProjectLeaseEventKind_RECLAIMED holder workflow
                            ''Expired lease reclaimed by a new holder.'' moment
                          else lease_event ProjectLeaseEventKind_ACQUIRED holder workflow
                            ''Exclusive project mutation lease acquired.'' moment]\<rparr>
                 in Inr (\<lparr>pla_acquired = True, pla_reclaimed = reclaimed, pla_lease = l\<rparr>, put_lease r l s)
           | None \<Rightarrow>
               let l = \<lparr>pl_id = new_id, pl_project_root = env_resolve e project_root, pl_project_id = project,
                     pl_holder_id = holder, pl_workflow_id = workflow, pl_fencing_token = 1,
                     pl_status = ProjectLeaseStatus_ACTIVE, pl_acquired_at = moment, pl_renewed_at = moment,
                     pl_expires_at = moment + seconds_delta ttl, pl_released_at = None,
                     pl_events = [lease_event ProjectLeaseEventKind_ACQUIRED holder workflow
                       ''Exclusive project mutation lease acquired.'' moment]\<rparr>
               in Inr (\<lparr>pla_acquired = True, pla_reclaimed = False, pla_lease = l\<rparr>, put_lease r l s))"

definition renew_project_lease ::
  "env \<Rightarrow> py_time \<Rightarrow> string \<Rightarrow> string \<Rightarrow> int \<Rightarrow> rat \<Rightarrow> store \<Rightarrow> (project_lease \<times> store) result" where
  "renew_project_lease e moment project_root holder token ttl s =
     (let r = canonical_root e project_root in
      case lease_row r s of
        None \<Rightarrow> Inl (RuntimeError ''Project lease no longer exists.'')
      | Some l \<Rightarrow>
          if pl_status l \<noteq> ProjectLeaseStatus_ACTIVE \<or> pl_holder_id l \<noteq> holder \<or>
             pl_fencing_token l \<noteq> token \<or> pl_expires_at l \<le> moment
          then Inl (RuntimeError ''Project lease is stale or owned by another process.'')
          else
            let l' = l\<lparr>pl_renewed_at := moment, pl_expires_at := moment + seconds_delta ttl,
                  pl_events := pl_events l @ [lease_event ProjectLeaseEventKind_RENEWED holder
                    (pl_workflow_id l) ''Exclusive mutation lease renewed.'' moment]\<rparr>
            in Inr (l', set_lease r l' s))"

definition record_project_lease_event ::
  "env \<Rightarrow> py_time \<Rightarrow> string \<Rightarrow> string \<Rightarrow> int \<Rightarrow> project_lease_event_kind \<Rightarrow> string \<Rightarrow> string option \<Rightarrow> store
   \<Rightarrow> (project_lease \<times> store) result" where
  "record_project_lease_event e moment project_root holder token kind detail workflow s =
     (let r = canonical_root e project_root in
      case lease_row r s of
        None \<Rightarrow> Inl (RuntimeError ''Project lease no longer exists.'')
      | Some l \<Rightarrow>
          if pl_holder_id l \<noteq> holder \<or> pl_fencing_token l \<noteq> token \<or> pl_status l \<noteq> ProjectLeaseStatus_ACTIVE
          then Inl (RuntimeError ''Project lease is stale or owned by another process.'')
          else
            let l1 = l\<lparr>pl_events := pl_events l @
                  [lease_event kind holder (or_text workflow (pl_workflow_id l)) detail moment]\<rparr>;
                l2 = (if kind = ProjectLeaseEventKind_RELEASED
                      then l1\<lparr>pl_status := ProjectLeaseStatus_RELEASED, pl_released_at := Some moment\<rparr>
                      else l1)
            in Inr (l2, set_lease r l2 s))"

definition release_project_lease ::
  "env \<Rightarrow> py_time \<Rightarrow> string \<Rightarrow> string \<Rightarrow> int \<Rightarrow> store \<Rightarrow> (project_lease \<times> store) result" where
  "release_project_lease e moment project_root holder token s =
     record_project_lease_event e moment project_root holder token ProjectLeaseEventKind_RELEASED
       ''Exclusive project mutation lease released.'' None s"

section \<open>Reading the lease table\<close>

lemma lease_row_put [simp]: "lease_row r (put_lease r' l s) = (if r = r' then Some l else lease_row r s)"
  by (simp add: lease_row_def put_lease_def lookup_upsert)

lemma lease_row_set [simp]:
  "lease_row r (set_lease r' l s) = (if r = r' \<and> lease_row r s \<noteq> None then Some l else lease_row r s)"
proof -
  have "r \<in> fst ` set (st_leases s) \<longleftrightarrow> lookup_row fst r (st_leases s) \<noteq> None"
    by (simp add: lookup_row_None)
  then show ?thesis by (auto simp: lease_row_def set_lease_def lookup_update_row)
qed

text \<open>The lease table as an interface: what a later reader finds at a root.\<close>

interpretation lease_table: keyed_table "\<lambda>(r, l). put_lease r l"
    "\<lambda>r s. map_option (Pair r) (lease_row r s)" fst
  by unfold_locales auto

lemma put_lease_frame [simp]:
  "st_sandboxes (put_lease r l s) = st_sandboxes s" "st_sandboxes (set_lease r l s) = st_sandboxes s"
  "unfinished_journals e q (put_lease r l s) = unfinished_journals e q s"
  "unfinished_journals e q (set_lease r l s) = unfinished_journals e q s"
  by (simp_all add: put_lease_def set_lease_def unfinished_journals_def)

section \<open>What a lease promises\<close>

text \<open>The abstract lease of one project: the current fencing token, and who may mutate until when.
  A project that was never leased has token 0.\<close>

record abs_lease =
  al_token :: int
  al_owner :: "(string \<times> py_time) option"

definition abs_of_lease :: "project_lease option \<Rightarrow> abs_lease" where
  "abs_of_lease l =
     (case l of
        None \<Rightarrow> \<lparr>al_token = 0, al_owner = None\<rparr>
      | Some c \<Rightarrow> \<lparr>al_token = pl_fencing_token c,
          al_owner = (if pl_status c = ProjectLeaseStatus_ACTIVE
                      then Some (pl_holder_id c, pl_expires_at c) else None)\<rparr>)"

definition lease_at :: "env \<Rightarrow> string \<Rightarrow> store \<Rightarrow> abs_lease" where
  "lease_at e project_root s = abs_of_lease (lease_row (canonical_root e project_root) s)"

definition owner_at :: "py_time \<Rightarrow> abs_lease \<Rightarrow> string option" where
  "owner_at now a = (case al_owner a of None \<Rightarrow> None | Some (h, until) \<Rightarrow> if now < until then Some h else None)"

definition abs_acquire :: "py_time \<Rightarrow> int \<Rightarrow> string \<Rightarrow> abs_lease \<Rightarrow> bool \<times> abs_lease" where
  "abs_acquire now ttl h a =
     (case owner_at now a of
        None \<Rightarrow> (True, \<lparr>al_token = al_token a + 1, al_owner = Some (h, now + ttl)\<rparr>)
      | Some h' \<Rightarrow> if h' = h then (True, a\<lparr>al_owner := Some (h, now + ttl)\<rparr>) else (False, a))"

definition abs_renew :: "py_time \<Rightarrow> int \<Rightarrow> string \<Rightarrow> int \<Rightarrow> abs_lease \<Rightarrow> abs_lease option" where
  "abs_renew now ttl h k a =
     (if owner_at now a = Some h \<and> al_token a = k
      then Some (a\<lparr>al_owner := Some (h, now + ttl)\<rparr>) else None)"

definition abs_release :: "string \<Rightarrow> int \<Rightarrow> abs_lease \<Rightarrow> abs_lease option" where
  "abs_release h k a =
     (case al_owner a of
        None \<Rightarrow> None
      | Some (h', until) \<Rightarrow> if h' = h \<and> al_token a = k then Some (a\<lparr>al_owner := None\<rparr>) else None)"

lemmas abs_lease_defs = abs_of_lease_def lease_at_def owner_at_def abs_acquire_def abs_renew_def abs_release_def

lemma abs_acquire_lasts:
  "abs_acquire now d h a = (True, a') \<Longrightarrow> t < now + d \<Longrightarrow> owner_at t a' = Some h"
  by (auto simp: abs_acquire_def owner_at_def split: option.splits if_splits)

lemma abs_acquire_refused:
  "owner_at now a = Some h' \<Longrightarrow> h' \<noteq> h \<Longrightarrow> abs_acquire now d h a = (b, a') \<Longrightarrow> \<not> b \<and> a' = a"
  by (auto simp: abs_acquire_def)

lemma abs_acquire_token:
  "abs_acquire now d h a = (True, a') \<Longrightarrow>
     al_token a' = (if owner_at now a = Some h then al_token a else al_token a + 1)"
  by (auto simp: abs_acquire_def split: option.splits if_splits)

lemma abs_acquire_mono: "abs_acquire now d h a = (b, a') \<Longrightarrow> al_token a \<le> al_token a'"
  by (auto simp: abs_acquire_def split: option.splits if_splits)

lemma abs_release_frees:
  "abs_release h k a = Some a' \<Longrightarrow> owner_at t a' = None \<and> al_token a' = al_token a \<and> k = al_token a"
  by (auto simp: abs_release_def owner_at_def split: option.splits if_splits)

lemma abs_renew_token: "abs_renew now d h k a = Some a' \<Longrightarrow> al_token a' = al_token a"
  by (auto simp: abs_renew_def split: if_splits)

lemma acquire_abs:
  assumes "acquire_project_lease e now i path h w ttl rec s = Inr (acq, s')"
  shows "abs_acquire now (seconds_delta ttl) h (lease_at e path s) = (pla_acquired acq, lease_at e path s')"
    and "q \<noteq> canonical_root e path \<Longrightarrow> lease_row q s' = lease_row q s"
    and "lease_row (canonical_root e path) s' = Some (pla_lease acq)"
  using assms
  by (cases "lease_row (canonical_root e path) s";
      force simp: acquire_project_lease_def abs_lease_defs Let_def split: if_splits)+

lemma renew_abs:
  "renew_project_lease e now path h k ttl s = Inr (l, s') \<Longrightarrow>
     abs_renew now (seconds_delta ttl) h k (lease_at e path s) = Some (lease_at e path s') \<and>
     (\<forall>q. q \<noteq> canonical_root e path \<longrightarrow> lease_row q s' = lease_row q s)"
  by (auto simp: renew_project_lease_def abs_lease_defs Let_def split: option.splits if_splits)

lemma renew_abs_error:
  "renew_project_lease e now path h k ttl s = Inl x \<Longrightarrow>
     abs_renew now (seconds_delta ttl) h k (lease_at e path s) = None"
  by (auto simp: renew_project_lease_def abs_lease_defs Let_def split: option.splits if_splits)

lemma release_abs:
  "release_project_lease e now path h k s = Inr (l, s') \<Longrightarrow>
     abs_release h k (lease_at e path s) = Some (lease_at e path s') \<and>
     (\<forall>q. q \<noteq> canonical_root e path \<longrightarrow> lease_row q s' = lease_row q s)"
  by (auto simp: release_project_lease_def record_project_lease_event_def abs_lease_defs Let_def
      split: option.splits if_splits)

lemma release_abs_error:
  "release_project_lease e now path h k s = Inl x \<Longrightarrow> abs_release h k (lease_at e path s) = None"
  by (auto simp: release_project_lease_def record_project_lease_event_def abs_lease_defs Let_def
      split: option.splits if_splits)

lemma record_event_abs:
  assumes "record_project_lease_event e now path h k kind d w s = Inr (l, s')"
  shows "al_token (lease_at e path s') = al_token (lease_at e path s)"
    and "q \<noteq> canonical_root e path \<Longrightarrow> lease_row q s' = lease_row q s"
    and "kind \<noteq> ProjectLeaseEventKind_RELEASED \<Longrightarrow> lease_at e path s' = lease_at e path s"
  using assms
  by (auto simp: record_project_lease_event_def abs_lease_defs Let_def split: option.splits if_splits)

section \<open>The lease as an interface\<close>

text \<open>What a component that mutates a project relies on. The state may be anything; \<open>owner\<close> is who
  may mutate at a time, \<open>acquire\<close> returns whether the caller got the lease, and \<open>span\<close> is the
  length of the grant.\<close>

locale fenced_lease =
  fixes owner :: "py_time \<Rightarrow> 's \<Rightarrow> string option"
    and token :: "'s \<Rightarrow> int"
    and span :: "'ttl \<Rightarrow> int"
    and acquire :: "'ttl \<Rightarrow> string \<Rightarrow> py_time \<Rightarrow> 's \<Rightarrow> bool \<times> 's"
    and release :: "string \<Rightarrow> int \<Rightarrow> py_time \<Rightarrow> 's \<Rightarrow> 's option"
  assumes acquire_lasts:
      "acquire d h now s = (True, s') \<Longrightarrow> t < now + span d \<Longrightarrow> owner t s' = Some h"
    and acquire_refused:
      "owner now s = Some h' \<Longrightarrow> h' \<noteq> h \<Longrightarrow> acquire d h now s = (b, s') \<Longrightarrow>
         \<not> b \<and> owner t s' = owner t s \<and> token s' = token s"
    and acquire_token:
      "acquire d h now s = (True, s') \<Longrightarrow> token s' = (if owner now s = Some h then token s else token s + 1)"
    and release_frees:
      "release h k now s = Some s' \<Longrightarrow> owner t s' = None \<and> token s' = token s \<and> k = token s"
begin

lemma race:
  assumes "acquire d a now s = (True, s1)" and "later < now + span d" and "a \<noteq> b"
    and "acquire d' b later s1 = (r, s2)"
  shows "\<not> r \<and> owner t s2 = owner t s1 \<and> token s2 = token s1"
  using acquire_refused [OF acquire_lasts [OF assms(1,2)] assms(3,4)] by blast

lemma takeover_raises_token:
  assumes "owner now s \<noteq> Some b" and "acquire d b now s = (True, s')"
  shows "token s < token s'"
  using acquire_token [OF assms(2)] assms(1) by simp

text \<open>Releasing and taking the lease again gives a token no earlier holder has.\<close>

lemma handover_token:
  assumes "release a k now s = Some s1" and "acquire d b now s1 = (True, s2)"
  shows "k < token s2"
proof -
  from release_frees [OF assms(1)] have "owner now s1 = None" "token s1 = token s" "k = token s"
    by blast+
  with takeover_raises_token [OF _ assms(2)] show ?thesis by simp
qed

end

definition try_acquire ::
  "env \<Rightarrow> string \<Rightarrow> string \<Rightarrow> string option \<Rightarrow> string option \<Rightarrow> rat \<Rightarrow> string \<Rightarrow> py_time \<Rightarrow> store \<Rightarrow> bool \<times> store" where
  "try_acquire e i path w rec ttl h now s =
     (case acquire_project_lease e now i path h w ttl rec s of
        Inl _ \<Rightarrow> (False, s) | Inr (acq, s') \<Rightarrow> (pla_acquired acq, s'))"

definition try_release :: "env \<Rightarrow> string \<Rightarrow> string \<Rightarrow> int \<Rightarrow> py_time \<Rightarrow> store \<Rightarrow> store option" where
  "try_release e path h k now s =
     (case release_project_lease e now path h k s of Inl _ \<Rightarrow> None | Inr (l, s') \<Rightarrow> Some s')"

lemma try_acquire_cases:
  assumes "try_acquire e i path w rec ttl h now s = (b, s')"
  shows "(\<not> b \<and> s' = s) \<or> abs_acquire now (seconds_delta ttl) h (lease_at e path s) = (b, lease_at e path s')"
proof (cases "acquire_project_lease e now i path h w ttl rec s")
  case (Inl x)
  with assms show ?thesis by (simp add: try_acquire_def)
next
  case (Inr y)
  then obtain acq s2 where y: "acquire_project_lease e now i path h w ttl rec s = Inr (acq, s2)"
    by (cases y) simp
  with assms have "b = pla_acquired acq" "s' = s2" by (simp_all add: try_acquire_def)
  with acquire_abs(1) [OF y] show ?thesis by simp
qed

interpretation project_lease: fenced_lease
  "\<lambda>t s. owner_at t (lease_at e path s)" "\<lambda>s. al_token (lease_at e path s)" seconds_delta
  "try_acquire e i path w rec" "try_release e path"
  for e i path w rec
proof unfold_locales
  fix d h now s s' t
  assume "try_acquire e i path w rec d h now s = (True, s')" and "t < now + seconds_delta d"
  then show "owner_at t (lease_at e path s') = Some h"
    by (auto dest!: try_acquire_cases intro: abs_acquire_lasts)
next
  fix now s h' h d b s' t
  assume "owner_at now (lease_at e path s) = Some h'" and "h' \<noteq> h"
    and "try_acquire e i path w rec d h now s = (b, s')"
  then show "\<not> b \<and> owner_at t (lease_at e path s') = owner_at t (lease_at e path s) \<and>
      al_token (lease_at e path s') = al_token (lease_at e path s)"
    using try_acquire_cases abs_acquire_refused by metis
next
  fix d h now s s'
  assume "try_acquire e i path w rec d h now s = (True, s')"
  then show "al_token (lease_at e path s') =
      (if owner_at now (lease_at e path s) = Some h then al_token (lease_at e path s)
       else al_token (lease_at e path s) + 1)"
    by (auto dest!: try_acquire_cases abs_acquire_token)
next
  fix h k now s s' t
  assume "try_release e path h k now s = Some s'"
  then obtain l where "release_project_lease e now path h k s = Inr (l, s')"
    by (auto simp: try_release_def split: sum.splits)
  from release_abs [OF this] show "owner_at t (lease_at e path s') = None \<and>
      al_token (lease_at e path s') = al_token (lease_at e path s) \<and> k = al_token (lease_at e path s)"
    by (blast dest: abs_release_frees)
qed

section \<open>Runs of lease operations\<close>

text \<open>Any process may call any lease operation with any arguments at any time; the rest of the
  program may change everything but the lease table in between.\<close>

inductive lease_step :: "env \<Rightarrow> store \<Rightarrow> store \<Rightarrow> bool" for e where
  step_acquire:
    "acquire_project_lease e now i path h w ttl rec s = Inr (acq, t) \<Longrightarrow> lease_step e s t"
| step_renew:
    "renew_project_lease e now path h k ttl s = Inr (l, t) \<Longrightarrow> lease_step e s t"
| step_record:
    "record_project_lease_event e now path h k kind d w s = Inr (l, t) \<Longrightarrow> lease_step e s t"
| step_other:
    "st_leases t = st_leases s \<Longrightarrow> lease_step e s t"

definition token_at :: "string \<Rightarrow> store \<Rightarrow> int" where
  "token_at r s = al_token (abs_of_lease (lease_row r s))"

definition lease_inv :: "store \<Rightarrow> bool" where
  "lease_inv s \<longleftrightarrow> (\<forall>r l. lease_row r s = Some l \<longrightarrow> 1 \<le> pl_fencing_token l)"

lemma lease_at_token [simp]: "al_token (lease_at e path s) = token_at (canonical_root e path) s"
  by (simp add: lease_at_def token_at_def)

lemma token_at_None: "lease_row r s = None \<Longrightarrow> token_at r s = 0"
  by (simp add: token_at_def abs_of_lease_def)

lemma token_at_Some: "lease_row r s = Some l \<Longrightarrow> token_at r s = pl_fencing_token l"
  by (simp add: token_at_def abs_of_lease_def)

lemma lease_step_token:
  assumes "lease_step e s t"
  shows "token_at r s \<le> token_at r t"
  using assms
proof cases
  case (step_acquire now i path h w ttl rec acq)
  show ?thesis
  proof (cases "r = canonical_root e path")
    case True
    from abs_acquire_mono [OF acquire_abs(1) [OF step_acquire]] show ?thesis
      by (simp add: True)
  next
    case False
    from acquire_abs(2) [OF step_acquire False] show ?thesis by (simp add: token_at_def)
  qed
next
  case (step_renew now path h k ttl l)
  from renew_abs [OF step_renew] have "al_token (lease_at e path t) = al_token (lease_at e path s)"
    and "r \<noteq> canonical_root e path \<Longrightarrow> lease_row r t = lease_row r s"
    by (blast dest: abs_renew_token)+
  then show ?thesis by (cases "r = canonical_root e path") (simp_all add: token_at_def lease_at_def)
next
  case (step_record now path h k kind d w l)
  from record_event_abs(1) [OF step_record] record_event_abs(2) [OF step_record, of r] show ?thesis
    by (cases "r = canonical_root e path") (auto simp: token_at_def lease_at_def)
next
  case step_other
  then show ?thesis by (simp add: token_at_def lease_row_def)
qed

lemma lease_step_inv: "lease_step e s t \<Longrightarrow> lease_inv s \<Longrightarrow> lease_inv t"
proof -
  assume step: "lease_step e s t" and inv: "lease_inv s"
  have "1 \<le> pl_fencing_token l" if l: "lease_row r t = Some l" for r l
  proof (cases "lease_row r s")
    case (Some l')
    with inv have "1 \<le> token_at r s" by (simp add: lease_inv_def token_at_Some)
    with lease_step_token [OF step, of r] l show ?thesis by (simp add: token_at_Some)
  next
    case None
    from step show ?thesis
    proof cases
      case (step_acquire now i path h w ttl rec acq)
      with None l show ?thesis
        by (cases "r = canonical_root e path")
          (auto simp: acquire_project_lease_def Let_def split: if_splits option.splits)
    qed (use None l in \<open>auto simp: renew_project_lease_def record_project_lease_event_def Let_def
        lease_row_def set_lease_def lookup_update_row split: if_splits option.splits\<close>)
  qed
  then show "lease_inv t" by (simp add: lease_inv_def)
qed

interpretation lease_run: monotone_system "lease_step e" lease_inv "token_at r" for e r
  by unfold_locales (auto intro: lease_step_inv lease_step_token)

text \<open>The events of a lease are an append-only trail: they survive renewal, release and takeover.\<close>

definition trail_at :: "string \<Rightarrow> store \<Rightarrow> project_lease_event list" where
  "trail_at r s = (case lease_row r s of None \<Rightarrow> [] | Some l \<Rightarrow> pl_events l)"

lemma lease_step_trail:
  assumes "lease_step e s t"
  shows "\<exists>es. trail_at r t = trail_at r s @ es"
  using assms
proof cases
  case (step_acquire now i path h w ttl rec acq)
  then show ?thesis
    by (cases "r = canonical_root e path")
      (auto simp: trail_at_def acquire_project_lease_def Let_def split: option.splits if_splits)
next
  case (step_renew now path h k ttl l)
  then show ?thesis
    by (cases "r = canonical_root e path")
      (auto simp: trail_at_def renew_project_lease_def Let_def split: option.splits if_splits)
next
  case (step_record now path h k kind d w l)
  then show ?thesis
    by (cases "r = canonical_root e path")
      (auto simp: trail_at_def record_project_lease_event_def Let_def split: option.splits if_splits)
next
  case step_other
  then show ?thesis by (simp add: trail_at_def lease_row_def)
qed

interpretation lease_trail: invariant_system "lease_step e" "\<lambda>t. \<exists>es. trail_at r t = trail @ es" for e r trail
  by unfold_locales (metis lease_step_trail append_assoc)

lemma token_mismatch_rejected:
  assumes "lease_row (canonical_root e path) t \<noteq> None" and "token_at (canonical_root e path) t \<noteq> k"
  shows "renew_project_lease e now path h k ttl t =
           Inl (RuntimeError ''Project lease is stale or owned by another process.'')"
    and "record_project_lease_event e now path h k kind d w t =
           Inl (RuntimeError ''Project lease is stale or owned by another process.'')"
  using assms
  by (auto simp: renew_project_lease_def record_project_lease_event_def token_at_Some Let_def split: option.splits)

section \<open>Properties\<close>

text \<open>C38: Acquiring a project lease implements the abstract fenced lease: it raises exactly when the
  project has an unfinished sandbox promotion the caller does not claim to recover; otherwise it
  refuses a live lease of another holder, extends a live lease of the caller, and else grants a
  new one with the next fencing token, and it touches no other project's lease.\<close>

theorem acquire_project_lease_refines:
  "case acquire_project_lease e now i path h w ttl rec s of
     Inl x \<Rightarrow> unfinished_journals e (canonical_root e path) s \<noteq> [] \<and>
              rec \<notin> Some ` set (map smj_id (unfinished_journals e (canonical_root e path) s))
   | Inr (acq, s') \<Rightarrow>
       (unfinished_journals e (canonical_root e path) s = [] \<or>
        rec \<in> Some ` set (map smj_id (unfinished_journals e (canonical_root e path) s))) \<and>
       abs_acquire now (seconds_delta ttl) h (lease_at e path s) = (pla_acquired acq, lease_at e path s') \<and>
       lease_row (canonical_root e path) s' = Some (pla_lease acq) \<and>
       (\<forall>q. q \<noteq> canonical_root e path \<longrightarrow> lease_row q s' = lease_row q s)"
proof (cases "acquire_project_lease e now i path h w ttl rec s")
  case (Inl x)
  then show ?thesis
    by (auto simp: acquire_project_lease_def Let_def split: option.splits if_splits)
next
  case (Inr y)
  then obtain acq s' where y: "acquire_project_lease e now i path h w ttl rec s = Inr (acq, s')"
    by (cases y) simp
  then have "unfinished_journals e (canonical_root e path) s = [] \<or>
      rec \<in> Some ` set (map smj_id (unfinished_journals e (canonical_root e path) s))"
    by (auto simp: acquire_project_lease_def Let_def split: option.splits if_splits)
  then show ?thesis using acquire_abs [OF y] y by simp
qed

theorem acquire_project_lease_refines_witness:
  "case acquire_project_lease plain_env 0 ''L1'' ''/p'' ''a'' None 120 None empty_store of
     Inl x \<Rightarrow> False
   | Inr (acq, s') \<Rightarrow> pla_acquired acq \<and> lease_at plain_env ''/p'' s' =
       \<lparr>al_token = 1, al_owner = Some (''a'', 120000000)\<rparr>"
  using acquire_project_lease_refines
    [where e = plain_env and now = 0 and i = "''L1''" and path = "''/p''" and h = "''a''" and w = None
      and ttl = 120 and rec = None and s = empty_store]
  by (simp add: acquire_project_lease_def unfinished_journals_def empty_store_def plain_env_def
      canonical_root_def lease_row_def lookup_row_def put_lease_def upsert_def abs_lease_defs Let_def
      List.map_filter_def seconds_delta_def round_half_even_def py_casefold_def py_lower_def lower_char_def)

text \<open>Mutual exclusion over time: from the moment a lease is granted until it expires, no other
  holder can acquire it, whatever arguments it passes; the attempt changes neither who holds the
  lease nor the fencing token.\<close>

theorem lease_exclusive_until_expiry:
  assumes "acquire_project_lease e now i path a w ttl rec s = Inr (acq, s1)" and "pla_acquired acq"
    and "later < now + seconds_delta ttl" and "a \<noteq> b"
    and "acquire_project_lease e later j path b w' ttl' rec' s1 = Inr (acq', s2)"
  shows "\<not> pla_acquired acq' \<and> owner_at later (lease_at e path s2) = Some a \<and>
    token_at (canonical_root e path) s2 = token_at (canonical_root e path) s1"
proof -
  from assms(1,2) have first: "try_acquire e i path w rec ttl a now s = (True, s1)"
    by (simp add: try_acquire_def)
  from assms(5) have second: "try_acquire e j path w' rec' ttl' b later s1 = (pla_acquired acq', s2)"
    by (simp add: try_acquire_def)
  have held: "owner_at later (lease_at e path s1) = Some a"
    by (rule project_lease.acquire_lasts [OF first assms(3)])
  from project_lease.acquire_refused [OF held \<open>a \<noteq> b\<close> second] held show ?thesis by simp
qed

text \<open>The grant of a concrete first lease, used by the concrete runs below.\<close>

definition first_grant :: "project_lease_acquisition \<times> store" where
  "first_grant = projr (acquire_project_lease plain_env 0 ''L1'' ''/p'' ''a'' None 120 None empty_store)"

lemmas lease_eval = acquire_project_lease_def unfinished_journals_def empty_store_def plain_env_def
  canonical_root_def lease_row_def lookup_row_def put_lease_def set_lease_def upsert_def update_row_def
  abs_lease_defs Let_def List.map_filter_def seconds_delta_def round_half_even_def
  py_casefold_def py_lower_def lower_char_def

lemma first_grant_eq:
  "acquire_project_lease plain_env 0 ''L1'' ''/p'' ''a'' None 120 None empty_store =
     Inr (fst first_grant, snd first_grant)"
  "pla_acquired (fst first_grant)"
  "lease_row ''/p'' (snd first_grant) = Some (pla_lease (fst first_grant))"
  "pl_fencing_token (pla_lease (fst first_grant)) = 1"
  "st_sandboxes (snd first_grant) = []"
  by (simp_all add: first_grant_def lease_eval)

theorem lease_exclusive_until_expiry_witness:
  "\<exists>acq s2. acquire_project_lease plain_env 60000000 ''L2'' ''/p'' ''b'' None 120 None (snd first_grant)
      = Inr (acq, s2) \<and> \<not> pla_acquired acq \<and> owner_at 60000000 (lease_at plain_env ''/p'' s2) = Some ''a''"
proof (cases "acquire_project_lease plain_env 60000000 ''L2'' ''/p'' ''b'' None 120 None (snd first_grant)")
  case (Inl x)
  then show ?thesis
    using acquire_project_lease_refines
      [where e = plain_env and now = 60000000 and i = "''L2''" and path = "''/p''" and h = "''b''"
        and w = None and ttl = 120 and rec = None and s = "snd first_grant"]
    by (simp add: unfinished_journals_def List.map_filter_def first_grant_eq)
next
  case (Inr y)
  then obtain acq s2 where y: "acquire_project_lease plain_env 60000000 ''L2'' ''/p'' ''b'' None 120 None
      (snd first_grant) = Inr (acq, s2)" by (cases y) simp
  have "(60000000::int) < 0 + seconds_delta 120" by (simp add: seconds_delta_def round_half_even_def)
  from lease_exclusive_until_expiry [OF first_grant_eq(1,2) this _ y] y show ?thesis by simp
qed

text \<open>C39: A fencing token that has been superseded is dead for good: once the lease of a project
  carries a larger token, then after any further history of lease operations by any processes,
  renewing, annotating or releasing with the old token raises and changes nothing.\<close>

theorem stale_fencing_token_rejected:
  assumes "lease_inv s" and "1 \<le> k" and "k < token_at (canonical_root e path) s"
    and "run_of (lease_step e) s t"
  shows "renew_project_lease e now path h k ttl t =
           Inl (RuntimeError ''Project lease is stale or owned by another process.'') \<and>
         record_project_lease_event e now path h k kind d w t =
           Inl (RuntimeError ''Project lease is stale or owned by another process.'') \<and>
         release_project_lease e now path h k t =
           Inl (RuntimeError ''Project lease is stale or owned by another process.'')"
proof -
  from lease_run.run_mono [OF assms(4,1)] assms(3)
  have k: "k < token_at (canonical_root e path) t" by (rule order_less_le_trans [rotated])
  then have "lease_row (canonical_root e path) t \<noteq> None"
    using assms(2) token_at_None [of "canonical_root e path" t] by auto
  from token_mismatch_rejected [OF this] k show ?thesis
    by (simp add: release_project_lease_def)
qed

theorem stale_fencing_token_rejected_witness:
  "renew_project_lease plain_env 200000000 ''/p'' ''a'' 1 120
     (put_lease ''/p'' ((pla_lease (fst first_grant))\<lparr>pl_holder_id := ''b'', pl_fencing_token := 2\<rparr>) empty_store)
     = Inl (RuntimeError ''Project lease is stale or owned by another process.'')"
proof -
  let ?l = "(pla_lease (fst first_grant))\<lparr>pl_holder_id := ''b'', pl_fencing_token := 2\<rparr>"
  let ?s = "put_lease ''/p'' ?l empty_store"
  have root: "canonical_root plain_env ''/p'' = ''/p''"
    by (simp add: lease_eval)
  have empty: "lease_row r empty_store = None" for r
    by (simp add: lease_row_def lookup_row_def empty_store_def)
  have inv: "lease_inv ?s" by (auto simp: lease_inv_def empty)
  have "1 < token_at (canonical_root plain_env ''/p'') ?s" by (simp add: root token_at_Some)
  with stale_fencing_token_rejected [OF inv _ this run_of.run_refl] show ?thesis by simp
qed

text \<open>Renewal and release implement the abstract lease: they succeed exactly when the caller is
  the current owner with the current token (renewal also needs the lease to be unexpired), renewal
  moves the expiry, release frees the lease, and no other project's lease changes.\<close>

theorem renew_release_refine:
  "(case renew_project_lease e now path h k ttl s of
      Inl x \<Rightarrow> abs_renew now (seconds_delta ttl) h k (lease_at e path s) = None
    | Inr (l, s') \<Rightarrow> abs_renew now (seconds_delta ttl) h k (lease_at e path s) = Some (lease_at e path s') \<and>
        lease_row (canonical_root e path) s' = Some l \<and>
        (\<forall>q. q \<noteq> canonical_root e path \<longrightarrow> lease_row q s' = lease_row q s)) \<and>
   (case release_project_lease e now path h k s of
      Inl x \<Rightarrow> abs_release h k (lease_at e path s) = None
    | Inr (l, s') \<Rightarrow> abs_release h k (lease_at e path s) = Some (lease_at e path s') \<and>
        pl_released_at l = Some now \<and> lease_row (canonical_root e path) s' = Some l \<and>
        (\<forall>q. q \<noteq> canonical_root e path \<longrightarrow> lease_row q s' = lease_row q s))"
proof -
  have r: "renew_project_lease e now path h k ttl s = Inr (l, s') \<Longrightarrow>
      lease_row (canonical_root e path) s' = Some l" for l s'
    by (auto simp: renew_project_lease_def Let_def split: option.splits if_splits)
  have d: "release_project_lease e now path h k s = Inr (l, s') \<Longrightarrow>
      pl_released_at l = Some now \<and> lease_row (canonical_root e path) s' = Some l" for l s'
    by (auto simp: release_project_lease_def record_project_lease_event_def Let_def
        split: option.splits if_splits)
  show ?thesis
    using renew_abs renew_abs_error release_abs release_abs_error r d
    by (simp split: sum.splits prod.splits)
qed

theorem renew_release_refine_witness:
  "\<exists>l s'. release_project_lease plain_env 5 ''/p'' ''a'' 1 (snd first_grant) = Inr (l, s') \<and>
     lease_at plain_env ''/p'' s' = \<lparr>al_token = 1, al_owner = None\<rparr>"
proof -
  have at: "lease_at plain_env ''/p'' (snd first_grant) = \<lparr>al_token = 1, al_owner = Some (''a'', 120000000)\<rparr>"
    by (simp add: first_grant_def lease_eval)
  then have ok: "abs_release ''a'' 1 (lease_at plain_env ''/p'' (snd first_grant)) =
      Some \<lparr>al_token = 1, al_owner = None\<rparr>"
    by (simp add: abs_release_def)
  then show ?thesis
    using renew_release_refine [where e = plain_env and now = 5 and path = "''/p''" and h = "''a''"
        and k = 1 and ttl = 1 and s = "snd first_grant"]
    by (auto split: sum.splits)
qed

text \<open>The event trail of a project's lease is append-only under every history of lease
  operations, takeovers included.\<close>

theorem lease_trail_append_only:
  assumes "run_of (lease_step e) s t"
  shows "\<exists>es. trail_at r t = trail_at r s @ es"
  by (rule lease_trail.run_inv [OF assms]) simp

theorem lease_trail_append_only_witness:
  "\<exists>es. trail_at ''/p'' (snd first_grant) = trail_at ''/p'' empty_store @ es"
  by (rule lease_trail_append_only [OF run_of_one, OF lease_step.step_acquire, OF first_grant_eq(1)])

end
