(* ===== verification/Task_Graph.thy ===== *)
theory Task_Graph
  imports Json
begin

text \<open>
  The persistent, evidence-gated task graph above disposable workers
  (\<open>src/rlmgraph/project_task_graph.py\<close>). The state is the table \<open>project_tasks\<close>; JSON columns
  (dependencies, memory references, result, evidence) are read as the values they hold. Every
  operation is one transaction on the table; the UUID of a new task lease and the text of the
  current time are arguments.
\<close>

section \<open>State\<close>

record task_row =
  tr_task_id :: int
  tr_objective :: string
  tr_acceptance :: string
  tr_dependencies :: "int list"
  tr_priority :: int
  tr_status :: string
  tr_attempt_count :: int
  tr_lease_id :: string
  tr_memory_refs :: "string list"
  tr_result :: json
  tr_evidence :: "json list"
  tr_failure :: string
  tr_completed_at :: string
  tr_invalidated_reason :: string

record task_lease =
  tl_task_id :: int
  tl_objective :: string
  tl_acceptance :: string
  tl_dependencies :: "int list"
  tl_attempt :: int
  tl_lease_id :: string
  tl_prior_failure :: string

text \<open>A task description handed to \<open>initialize\<close>; the keys \<open>acceptance\<close>, \<open>dependencies\<close> and
  \<open>priority\<close> are optional.\<close>

record task_spec =
  ts_task_id :: int
  ts_objective :: string
  ts_acceptance :: "string option"
  ts_dependencies :: "int list option"
  ts_priority :: "int option"

type_synonym task_table = "task_row list"

section \<open>Operations\<close>

definition new_row :: "task_spec \<Rightarrow> task_row" where
  "new_row t =
     \<lparr>tr_task_id = ts_task_id t, tr_objective = ts_objective t,
      tr_acceptance = (case ts_acceptance t of None \<Rightarrow> ts_objective t | Some a \<Rightarrow> a),
      tr_dependencies = (case ts_dependencies t of None \<Rightarrow> [] | Some d \<Rightarrow> d),
      tr_priority = (case ts_priority t of None \<Rightarrow> 0 | Some p \<Rightarrow> p),
      tr_status = ''PENDING'', tr_attempt_count = 0, tr_lease_id = [], tr_memory_refs = [],
      tr_result = JObj [], tr_evidence = [], tr_failure = [], tr_completed_at = [],
      tr_invalidated_reason = []\<rparr>"

definition initialize :: "task_spec list \<Rightarrow> task_table \<Rightarrow> task_table" where
  "initialize ts tbl = fold (\<lambda>t. insert_ignore tr_task_id (new_row t)) ts tbl"

definition status_rank :: "string \<Rightarrow> int" where
  "status_rank s = (if s = ''FAILED'' then 0 else if s = ''INVALIDATED'' then 1 else 2)"

definition claimable :: "int \<Rightarrow> task_row \<Rightarrow> bool" where
  "claimable max_attempts r \<longleftrightarrow>
     tr_status r \<in> {''PENDING'', ''READY'', ''FAILED'', ''INVALIDATED''} \<and> tr_attempt_count r < max_attempts"

text \<open>\<open>ORDER BY CASE status ... END, priority DESC, task_id\<close>, as a chain of stable sorts.\<close>

definition claim_order :: "task_row list \<Rightarrow> task_row list" where
  "claim_order rows =
     sort_key (\<lambda>r. status_rank (tr_status r)) (sort_key (\<lambda>r. - tr_priority r) (sort_key tr_task_id rows))"

definition done_ids :: "task_table \<Rightarrow> int set" where
  "done_ids tbl = set (map tr_task_id (filter (\<lambda>r. tr_status r = ''DONE'') tbl))"

definition update_where :: "(task_row \<Rightarrow> bool) \<Rightarrow> (task_row \<Rightarrow> task_row) \<Rightarrow> task_table \<Rightarrow> task_table" where
  "update_where P f tbl = map (\<lambda>r. if P r then f r else r) tbl"

definition rowcount :: "(task_row \<Rightarrow> bool) \<Rightarrow> task_table \<Rightarrow> nat" where
  "rowcount P tbl = length (filter P tbl)"

definition select_task :: "int \<Rightarrow> task_table \<Rightarrow> task_row option" where
  "select_task max_attempts tbl =
     find (\<lambda>r. set (tr_dependencies r) \<subseteq> done_ids tbl) (claim_order (filter (claimable max_attempts) tbl))"

definition claim_next :: "int \<Rightarrow> string \<Rightarrow> task_table \<Rightarrow> task_lease option \<times> task_table" where
  "claim_next max_attempts lease_id tbl =
     (case select_task max_attempts tbl of
        None \<Rightarrow> (None, tbl)
      | Some r \<Rightarrow>
          (let attempt = tr_attempt_count r + 1 in
           (Some \<lparr>tl_task_id = tr_task_id r, tl_objective = tr_objective r, tl_acceptance = tr_acceptance r,
              tl_dependencies = tr_dependencies r, tl_attempt = attempt, tl_lease_id = lease_id,
              tl_prior_failure = tr_failure r\<rparr>,
            update_where (\<lambda>x. tr_task_id x = tr_task_id r)
              (\<lambda>x. x\<lparr>tr_status := ''IN_PROGRESS'', tr_attempt_count := attempt, tr_lease_id := lease_id\<rparr>) tbl)))"

definition stale_lease :: "task_table result" where
  "stale_lease = Inl (RuntimeError ''Task lease is stale or task is in an invalid state.'')"

definition begin_verification :: "task_lease \<Rightarrow> json \<Rightarrow> string list \<Rightarrow> task_table \<Rightarrow> task_table result" where
  "begin_verification l result refs tbl =
     (let P = (\<lambda>r. tr_task_id r = tl_task_id l \<and> tr_lease_id r = tl_lease_id l \<and> tr_status r = ''IN_PROGRESS'')
      in if rowcount P tbl \<noteq> 1 then stale_lease
         else Inr (update_where P (\<lambda>r. r\<lparr>tr_status := ''VERIFYING'', tr_result := result, tr_memory_refs := refs\<rparr>) tbl))"

definition transition_leased ::
  "task_lease \<Rightarrow> string \<Rightarrow> (task_row \<Rightarrow> task_row) \<Rightarrow> task_table \<Rightarrow> task_table result" where
  "transition_leased l status cols tbl =
     (let P = (\<lambda>r. tr_task_id r = tl_task_id l \<and> tr_lease_id r = tl_lease_id l \<and>
                tr_status r \<in> {''IN_PROGRESS'', ''VERIFYING''})
      in if rowcount P tbl \<noteq> 1 then stale_lease
         else Inr (update_where P (\<lambda>r. cols (r\<lparr>tr_status := status, tr_lease_id := []\<rparr>)) tbl))"

definition set_refs :: "string list option \<Rightarrow> task_row \<Rightarrow> task_row" where
  "set_refs refs r = (case refs of None \<Rightarrow> r | Some m \<Rightarrow> r\<lparr>tr_memory_refs := m\<rparr>)"

definition complete :: "string \<Rightarrow> task_lease \<Rightarrow> json list \<Rightarrow> string list option \<Rightarrow> task_table \<Rightarrow> task_table result" where
  "complete now l evidence refs tbl =
     (if evidence = [] then Inl (ValueError ''Completion requires verification evidence.'')
      else transition_leased l ''DONE''
        (\<lambda>r. set_refs refs (r\<lparr>tr_evidence := evidence, tr_failure := [], tr_completed_at := now\<rparr>)) tbl)"

definition fail :: "task_lease \<Rightarrow> string \<Rightarrow> json list \<Rightarrow> string list option \<Rightarrow> task_table \<Rightarrow> task_table result" where
  "fail l reason evidence refs tbl =
     transition_leased l ''FAILED''
       (\<lambda>r. set_refs refs (r\<lparr>tr_failure := take 2000 reason, tr_evidence := evidence\<rparr>)) tbl"

definition block_exhausted :: "int \<Rightarrow> task_table \<Rightarrow> nat \<times> task_table" where
  "block_exhausted max_attempts tbl =
     (let P = (\<lambda>r. tr_status r = ''FAILED'' \<and> max_attempts \<le> tr_attempt_count r)
      in (rowcount P tbl, update_where P (\<lambda>r. r\<lparr>tr_status := ''BLOCKED''\<rparr>) tbl))"

text \<open>The loop of \<open>invalidate\<close>: passes over the rows that add every task with an affected
  dependency, until a pass adds nothing.\<close>

fun taint_pass :: "task_row list \<Rightarrow> int set \<Rightarrow> int set" where
  "taint_pass [] A = A"
| "taint_pass (r # rs) A =
     taint_pass rs (if tr_task_id r \<notin> A \<and> A \<inter> set (tr_dependencies r) \<noteq> {} then insert (tr_task_id r) A else A)"

lemma taint_pass_mono: "A \<subseteq> taint_pass rs A"
  by (induction rs A rule: taint_pass.induct) (auto split: if_splits)

lemma taint_pass_bound: "taint_pass rs A \<subseteq> A \<union> tr_task_id ` set rs"
  by (induction rs A rule: taint_pass.induct) (auto split: if_splits)

function taint_loop :: "task_row list \<Rightarrow> int set \<Rightarrow> int set" where
  "taint_loop rs A = (if taint_pass rs A = A then A else taint_loop rs (taint_pass rs A))"
  by pat_completeness auto
termination
proof (relation "measure (\<lambda>(rs, A). card (tr_task_id ` set rs - A))")
  fix rs A
  assume "taint_pass rs A \<noteq> A"
  with taint_pass_mono have "\<exists>x. x \<in> taint_pass rs A \<and> x \<notin> A" by blast
  then obtain x where "x \<in> taint_pass rs A" and "x \<notin> A" by blast
  moreover have "x \<in> tr_task_id ` set rs" using calculation taint_pass_bound by blast
  ultimately have "tr_task_id ` set rs - taint_pass rs A \<subset> tr_task_id ` set rs - A"
    using taint_pass_mono [of A rs] by blast
  then show "((rs, taint_pass rs A), rs, A) \<in> measure (\<lambda>(rs, A). card (tr_task_id ` set rs - A))"
    by (simp add: psubset_card_mono)
qed simp

declare taint_loop.simps [simp del]

definition invalidate :: "int \<Rightarrow> string \<Rightarrow> task_table \<Rightarrow> task_table result" where
  "invalidate task_id reason tbl =
     (case lookup_row tr_task_id task_id tbl of
        None \<Rightarrow> Inl (ValueError ''Only completed tasks can be invalidated.'')
      | Some r \<Rightarrow>
          if tr_status r \<noteq> ''DONE'' then Inl (ValueError ''Only completed tasks can be invalidated.'')
          else
            let affected = taint_loop tbl {task_id}
            in Inr (update_where (\<lambda>r. tr_task_id r \<in> affected)
                 (\<lambda>r. r\<lparr>tr_status := ''INVALIDATED'', tr_invalidated_reason := take 2000 reason,
                    tr_completed_at := [], tr_attempt_count := 0, tr_failure := []\<rparr>) tbl))"

definition recover_interrupted :: "task_table \<Rightarrow> nat \<times> task_table" where
  "recover_interrupted tbl =
     (let P = (\<lambda>r. tr_status r \<in> {''IN_PROGRESS'', ''VERIFYING''})
      in (rowcount P tbl,
          update_where P (\<lambda>r. r\<lparr>tr_status := ''FAILED'', tr_lease_id := [],
            tr_failure := ''Worker interrupted before verification completed''\<rparr>) tbl))"

definition reconcile_complete :: "string \<Rightarrow> int \<Rightarrow> json \<Rightarrow> task_table \<Rightarrow> bool \<times> task_table" where
  "reconcile_complete now task_id evidence tbl =
     (case lookup_row tr_task_id task_id tbl of
        None \<Rightarrow> (False, tbl)
      | Some row \<Rightarrow>
          if tr_status row = ''DONE'' then (False, tbl)
          else
            let P = (\<lambda>r. tr_task_id r = task_id) in
            (rowcount P tbl = 1,
             update_where P (\<lambda>r. r\<lparr>tr_status := ''DONE'', tr_evidence := tr_evidence row @ [evidence],
               tr_failure := [], tr_completed_at := now, tr_invalidated_reason := []\<rparr>) tbl))"

definition snapshot :: "task_table \<Rightarrow> task_row list" where
  "snapshot tbl = sort_key tr_task_id tbl"

definition progress :: "task_table \<Rightarrow> int py_dict" where
  "progress tbl =
     fold (\<lambda>r counts. dict_set (tr_status r) (dict_get_default 0 (tr_status r) counts + 1) counts)
       (snapshot tbl) [(''TOTAL'', int (length (snapshot tbl)))]"

section \<open>The invariant of the table\<close>

definition task_statuses :: "string set" where
  "task_statuses = {''PENDING'', ''READY'', ''IN_PROGRESS'', ''VERIFYING'', ''DONE'', ''FAILED'', ''BLOCKED'', ''INVALIDATED''}"

definition leased :: "task_row \<Rightarrow> bool" where
  "leased r \<longleftrightarrow> tr_status r \<in> {''IN_PROGRESS'', ''VERIFYING''}"

text \<open>A row is sound with respect to the completed tasks: done means verified by evidence, and a
  task is only worked on while everything it depends on is done.\<close>

definition row_sound :: "int set \<Rightarrow> task_row \<Rightarrow> bool" where
  "row_sound D r \<longleftrightarrow> tr_status r \<in> task_statuses \<and> (tr_status r = ''DONE'' \<longrightarrow> tr_evidence r \<noteq> []) \<and>
     (leased r \<longrightarrow> set (tr_dependencies r) \<subseteq> D)"

definition graph_inv :: "task_table \<Rightarrow> bool" where
  "graph_inv tbl \<longleftrightarrow> unique_rows tr_task_id tbl \<and> (\<forall>r\<in>set tbl. row_sound (done_ids tbl) r)"

lemma in_done_ids: "x \<in> done_ids tbl \<longleftrightarrow> (\<exists>r\<in>set tbl. tr_task_id r = x \<and> tr_status r = ''DONE'')"
  by (auto simp: done_ids_def)

lemma set_update_where: "set (update_where P f tbl) = (\<lambda>r. if P r then f r else r) ` set tbl"
  by (simp add: update_where_def)

lemma unique_update_where:
  assumes "\<And>r. tr_task_id (f r) = tr_task_id r" and "unique_rows tr_task_id tbl"
  shows "unique_rows tr_task_id (update_where P f tbl)"
proof -
  have "map tr_task_id (update_where P f tbl) = map tr_task_id tbl"
    by (auto simp: update_where_def assms(1))
  with assms(2) show ?thesis by (simp add: unique_rows_def)
qed

lemma row_sound_mono: "row_sound D r \<Longrightarrow> D \<subseteq> D' \<Longrightarrow> row_sound D' r"
  by (auto simp: row_sound_def)

lemma done_ids_grow:
  assumes "\<And>r. tr_task_id (f r) = tr_task_id r" and "\<And>r. r \<in> set tbl \<Longrightarrow> P r \<Longrightarrow> tr_status r \<noteq> ''DONE''"
  shows "done_ids tbl \<subseteq> done_ids (update_where P f tbl)"
  using assms by (force simp: in_done_ids set_update_where)

text \<open>An update that takes no task out of \<open>DONE\<close> keeps the invariant when the rows it writes are
  sound.\<close>

lemma graph_inv_update:
  assumes inv: "graph_inv tbl" and id: "\<And>r. tr_task_id (f r) = tr_task_id r"
    and open_rows: "\<And>r. r \<in> set tbl \<Longrightarrow> P r \<Longrightarrow> tr_status r \<noteq> ''DONE''"
    and sound: "\<And>r. r \<in> set tbl \<Longrightarrow> P r \<Longrightarrow> row_sound (done_ids tbl) r \<Longrightarrow> row_sound (done_ids tbl) (f r)"
  shows "graph_inv (update_where P f tbl)"
proof -
  have grow: "done_ids tbl \<subseteq> done_ids (update_where P f tbl)"
    by (rule done_ids_grow [OF id open_rows])
  have "row_sound (done_ids (update_where P f tbl)) r" if "r \<in> set (update_where P f tbl)" for r
  proof -
    from that obtain x where "x \<in> set tbl" and "r = (if P x then f x else x)"
      by (auto simp: set_update_where)
    with inv sound have "row_sound (done_ids tbl) r" by (auto simp: graph_inv_def)
    then show ?thesis using grow by (rule row_sound_mono)
  qed
  moreover from inv have "unique_rows tr_task_id (update_where P f tbl)"
    by (simp add: graph_inv_def unique_update_where id)
  ultimately show ?thesis by (simp add: graph_inv_def)
qed

subsection \<open>The affected tasks of an invalidation\<close>

lemma taint_loop_mono: "A \<subseteq> taint_loop rs A"
proof (induction rs A rule: taint_loop.induct)
  case (1 rs A)
  then show ?case
    using taint_pass_mono [of A rs] by (subst taint_loop.simps) auto
qed

lemma taint_loop_stable: "taint_pass rs (taint_loop rs A) = taint_loop rs A"
proof (induction rs A rule: taint_loop.induct)
  case (1 rs A)
  then show ?case by (subst (1 2) taint_loop.simps) simp
qed

lemma taint_pass_stable_closed:
  "taint_pass rs A = A \<Longrightarrow> r \<in> set rs \<Longrightarrow> A \<inter> set (tr_dependencies r) \<noteq> {} \<Longrightarrow> tr_task_id r \<in> A"
proof (induction rs A rule: taint_pass.induct)
  case (1 A)
  then show ?case by simp
next
  case (2 x rs A)
  let ?B = "if tr_task_id x \<notin> A \<and> A \<inter> set (tr_dependencies x) \<noteq> {} then insert (tr_task_id x) A else A"
  from "2.prems"(1) taint_pass_mono [of ?B rs] have "?B = A" by (auto split: if_splits)
  with "2.prems" "2.IH" show ?case by (auto split: if_splits)
qed

definition depends :: "task_table \<Rightarrow> (int \<times> int) set" where
  "depends tbl = {(x, y). \<exists>r\<in>set tbl. tr_task_id r = x \<and> y \<in> set (tr_dependencies r)}"

lemma taint_pass_sound:
  assumes "set rs \<subseteq> set tbl" and "\<And>x. x \<in> A \<Longrightarrow> (x, t) \<in> (depends tbl)\<^sup>*" and "x \<in> taint_pass rs A"
  shows "(x, t) \<in> (depends tbl)\<^sup>*"
  using assms
proof (induction rs A arbitrary: x rule: taint_pass.induct)
  case (1 A)
  then show ?case by simp
next
  case (2 r rs A)
  let ?B = "if tr_task_id r \<notin> A \<and> A \<inter> set (tr_dependencies r) \<noteq> {} then insert (tr_task_id r) A else A"
  have "(y, t) \<in> (depends tbl)\<^sup>*" if "y \<in> ?B" for y
  proof (cases "y \<in> A")
    case True
    then show ?thesis by (rule "2.prems"(2))
  next
    case False
    with that have y: "y = tr_task_id r" and "A \<inter> set (tr_dependencies r) \<noteq> {}"
      by (auto split: if_splits)
    then obtain z where "z \<in> A" and "z \<in> set (tr_dependencies r)" by blast
    with "2.prems"(1) y have "(y, z) \<in> depends tbl" by (auto simp: depends_def)
    also from "2.prems"(2) \<open>z \<in> A\<close> have "(z, t) \<in> (depends tbl)\<^sup>*" by blast
    finally show ?thesis .
  qed
  with "2.prems"(1,3) "2.IH" show ?case by simp
qed

lemma taint_loop_sound:
  assumes "\<And>x. x \<in> A \<Longrightarrow> (x, t) \<in> (depends tbl)\<^sup>*" and "x \<in> taint_loop tbl A"
  shows "(x, t) \<in> (depends tbl)\<^sup>*"
  using assms
proof (induction tbl A rule: taint_loop.induct)
  case (1 rs A)
  show ?case
  proof (cases "taint_pass rs A = A")
    case True
    with "1.prems" show ?thesis by (subst (asm) taint_loop.simps) simp
  next
    case False
    with "1.prems"(2) have "x \<in> taint_loop rs (taint_pass rs A)"
      by (subst (asm) taint_loop.simps) simp
    with False show ?thesis
      by (intro "1.IH" taint_pass_sound [OF subset_refl "1.prems"(1)])
  qed
qed

text \<open>The loop computes exactly the tasks that depend, directly or not, on the invalidated one.\<close>

lemma taint_loop_eq: "taint_loop tbl {t} = {x. (x, t) \<in> (depends tbl)\<^sup>*}"
proof (intro set_eqI iffI)
  fix x assume "x \<in> taint_loop tbl {t}"
  then show "x \<in> {x. (x, t) \<in> (depends tbl)\<^sup>*}"
    using taint_loop_sound [of "{t}" t tbl x] by simp
next
  fix x assume "x \<in> {x. (x, t) \<in> (depends tbl)\<^sup>*}"
  then have "(x, t) \<in> (depends tbl)\<^sup>*" by simp
  then show "x \<in> taint_loop tbl {t}"
  proof (induction rule: converse_rtrancl_induct)
    case base
    show ?case using taint_loop_mono [of "{t}" tbl] by blast
  next
    case (step y z)
    then obtain r where "r \<in> set tbl" "tr_task_id r = y" "z \<in> set (tr_dependencies r)"
      by (auto simp: depends_def)
    with step.IH taint_pass_stable_closed [OF taint_loop_stable, of r tbl "{t}"] show ?case by blast
  qed
qed

subsection \<open>Every operation keeps the invariant\<close>

lemma set_claim_order [simp]: "set (claim_order rows) = set rows"
  by (simp add: claim_order_def)

lemma select_task_Some:
  assumes "select_task m tbl = Some r"
  shows "r \<in> set tbl" and "claimable m r" and "set (tr_dependencies r) \<subseteq> done_ids tbl"
  using find_Some_set [OF assms [unfolded select_task_def]] by auto

lemma select_task_None:
  "select_task m tbl = None \<longleftrightarrow>
     (\<forall>r\<in>set tbl. claimable m r \<longrightarrow> \<not> set (tr_dependencies r) \<subseteq> done_ids tbl)"
  by (auto simp: select_task_def find_None_conv)

lemma claim_next_Some:
  "claim_next m u tbl = (Some l, tbl') \<longleftrightarrow>
     (\<exists>r. select_task m tbl = Some r \<and>
        l = \<lparr>tl_task_id = tr_task_id r, tl_objective = tr_objective r, tl_acceptance = tr_acceptance r,
             tl_dependencies = tr_dependencies r, tl_attempt = tr_attempt_count r + 1, tl_lease_id = u,
             tl_prior_failure = tr_failure r\<rparr> \<and>
        tbl' = update_where (\<lambda>x. tr_task_id x = tr_task_id r)
          (\<lambda>x. x\<lparr>tr_status := ''IN_PROGRESS'', tr_attempt_count := tr_attempt_count r + 1, tr_lease_id := u\<rparr>) tbl)"
  by (auto simp: claim_next_def Let_def split: option.splits)

lemma same_id_same_row:
  "graph_inv tbl \<Longrightarrow> r \<in> set tbl \<Longrightarrow> x \<in> set tbl \<Longrightarrow> tr_task_id x = tr_task_id r \<Longrightarrow> x = r"
  by (auto simp: graph_inv_def unique_rows_def distinct_map inj_on_def)

lemma claim_next_inv:
  assumes "graph_inv tbl" and "claim_next m u tbl = (l, tbl')"
  shows "graph_inv tbl'"
proof (cases l)
  case None
  with assms show ?thesis by (auto simp: claim_next_def Let_def split: option.splits)
next
  case (Some l')
  with assms(2) obtain r where r: "select_task m tbl = Some r"
    and t: "tbl' = update_where (\<lambda>x. tr_task_id x = tr_task_id r)
      (\<lambda>x. x\<lparr>tr_status := ''IN_PROGRESS'', tr_attempt_count := tr_attempt_count r + 1, tr_lease_id := u\<rparr>) tbl"
    by (auto simp: claim_next_Some)
  note sel = select_task_Some [OF r]
  have same: "x = r" if "x \<in> set tbl" "tr_task_id x = tr_task_id r" for x
    by (rule same_id_same_row [OF assms(1) sel(1) that])
  have open_task: "tr_status r \<noteq> ''DONE''" using sel(2) by (auto simp: claimable_def)
  show ?thesis
    unfolding t
  proof (rule graph_inv_update [OF assms(1)])
    show "tr_status x \<noteq> ''DONE''" if "x \<in> set tbl" "tr_task_id x = tr_task_id r" for x
      using same [OF that] open_task by simp
    show "row_sound (done_ids tbl) (x\<lparr>tr_status := ''IN_PROGRESS'',
        tr_attempt_count := tr_attempt_count r + 1, tr_lease_id := u\<rparr>)"
      if "x \<in> set tbl" "tr_task_id x = tr_task_id r" for x
      using same [OF that] sel(3) by (simp add: row_sound_def leased_def task_statuses_def)
  qed simp
qed

lemma begin_verification_inv:
  "graph_inv tbl \<Longrightarrow> begin_verification l res refs tbl = Inr tbl' \<Longrightarrow> graph_inv tbl'"
  by (auto simp: begin_verification_def stale_lease_def Let_def row_sound_def leased_def task_statuses_def
      split: if_splits intro!: graph_inv_update)

lemma set_refs_simps [simp]:
  "tr_task_id (set_refs refs r) = tr_task_id r" "tr_status (set_refs refs r) = tr_status r"
  "tr_evidence (set_refs refs r) = tr_evidence r" "tr_dependencies (set_refs refs r) = tr_dependencies r"
  "tr_lease_id (set_refs refs r) = tr_lease_id r"
  by (simp_all add: set_refs_def split: option.split)

lemma complete_inv: "graph_inv tbl \<Longrightarrow> complete now l ev refs tbl = Inr tbl' \<Longrightarrow> graph_inv tbl'"
  by (auto simp: complete_def transition_leased_def stale_lease_def Let_def row_sound_def leased_def
      task_statuses_def split: if_splits intro!: graph_inv_update)

lemma fail_inv: "graph_inv tbl \<Longrightarrow> fail l reason ev refs tbl = Inr tbl' \<Longrightarrow> graph_inv tbl'"
  by (auto simp: fail_def transition_leased_def stale_lease_def Let_def row_sound_def leased_def
      task_statuses_def split: if_splits intro!: graph_inv_update)

lemma block_exhausted_inv: "graph_inv tbl \<Longrightarrow> graph_inv (snd (block_exhausted m tbl))"
  by (auto simp: block_exhausted_def Let_def row_sound_def leased_def task_statuses_def intro!: graph_inv_update)

lemma recover_interrupted_inv: "graph_inv tbl \<Longrightarrow> graph_inv (snd (recover_interrupted tbl))"
  by (auto simp: recover_interrupted_def Let_def row_sound_def leased_def task_statuses_def intro!: graph_inv_update)

lemma reconcile_complete_inv: "graph_inv tbl \<Longrightarrow> graph_inv (snd (reconcile_complete now k ev tbl))"
proof (cases "lookup_row tr_task_id k tbl")
  case (Some row)
  assume inv: "graph_inv tbl"
  from lookup_row_Some [OF Some] have row: "row \<in> set tbl" "tr_task_id row = k" by simp_all
  then have "x = row" if "x \<in> set tbl" "tr_task_id x = k" for x
    using same_id_same_row [OF inv row(1) that(1)] that(2) by simp
  with Some inv show ?thesis
    by (auto simp: reconcile_complete_def Let_def row_sound_def leased_def task_statuses_def
        intro!: graph_inv_update)
qed (simp add: reconcile_complete_def)

lemma initialize_inv: "graph_inv tbl \<Longrightarrow> graph_inv (initialize ts tbl)"
  unfolding initialize_def
proof (induction ts arbitrary: tbl)
  case Nil
  then show ?case by simp
next
  case (Cons t ts)
  have "graph_inv (insert_ignore tr_task_id (new_row t) tbl)"
  proof (cases "\<exists>x\<in>set tbl. tr_task_id x = ts_task_id t")
    case True
    then have "insert_ignore tr_task_id (new_row t) tbl = tbl"
      by (simp add: insert_ignore_def new_row_def)
    with Cons.prems show ?thesis by simp
  next
    case False
    then have new: "insert_ignore tr_task_id (new_row t) tbl = tbl @ [new_row t]"
      by (simp add: insert_ignore_def new_row_def)
    have "done_ids (tbl @ [new_row t]) = done_ids tbl"
      by (auto simp: in_done_ids new_row_def)
    with False Cons.prems show ?thesis
      unfolding new by (auto simp: graph_inv_def unique_rows_def row_sound_def leased_def task_statuses_def new_row_def)
  qed
  with Cons.IH show ?case by simp
qed

lemma invalidate_Inr:
  assumes "invalidate t reason tbl = Inr tbl'"
  shows "tbl' = update_where (\<lambda>r. (tr_task_id r, t) \<in> (depends tbl)\<^sup>*)
      (\<lambda>r. r\<lparr>tr_status := ''INVALIDATED'', tr_invalidated_reason := take 2000 reason,
         tr_completed_at := [], tr_attempt_count := 0, tr_failure := []\<rparr>) tbl"
    and "t \<in> tr_task_id ` set tbl"
  using assms
  by (auto simp: invalidate_def Let_def taint_loop_eq split: option.splits if_splits dest: lookup_row_Some)

lemma invalidate_inv:
  assumes inv: "graph_inv tbl" and "invalidate t reason tbl = Inr tbl'"
  shows "graph_inv tbl'"
proof -
  let ?P = "\<lambda>r. (tr_task_id r, t) \<in> (depends tbl)\<^sup>*"
  let ?f = "\<lambda>r. r\<lparr>tr_status := ''INVALIDATED'', tr_invalidated_reason := take 2000 reason,
         tr_completed_at := [], tr_attempt_count := 0, tr_failure := []\<rparr>"
  have t: "tbl' = update_where ?P ?f tbl" by (rule invalidate_Inr(1) [OF assms(2)])
  have kept: "x \<in> done_ids tbl'" if "x \<in> done_ids tbl" "(x, t) \<notin> (depends tbl)\<^sup>*" for x
    using that by (force simp: t in_done_ids set_update_where)
  have "row_sound (done_ids tbl') r'" if "r' \<in> set tbl'" for r'
  proof -
    from that obtain r where r: "r \<in> set tbl" and r': "r' = (if ?P r then ?f r else r)"
      by (auto simp: t set_update_where)
    show ?thesis
    proof (cases "?P r")
      case True
      with r' show ?thesis by (simp add: row_sound_def leased_def task_statuses_def)
    next
      case False
      have "(y, t) \<notin> (depends tbl)\<^sup>*" if "y \<in> set (tr_dependencies r)" for y
      proof
        assume "(y, t) \<in> (depends tbl)\<^sup>*"
        moreover from r that have "(tr_task_id r, y) \<in> depends tbl" by (auto simp: depends_def)
        ultimately show False using False by (meson converse_rtrancl_into_rtrancl)
      qed
      moreover from inv r have "row_sound (done_ids tbl) r" by (simp add: graph_inv_def)
      ultimately show ?thesis using False r' kept by (auto simp: row_sound_def)
    qed
  qed
  moreover from inv have "unique_rows tr_task_id tbl'"
    unfolding t graph_inv_def by (intro unique_update_where) simp_all
  ultimately show ?thesis by (simp add: graph_inv_def)
qed

section \<open>Runs\<close>

text \<open>A step of the graph: any operation with any arguments. \<open>u\<close> is a lease id that no later claim
  draws again (UUIDs are fresh).\<close>

inductive graph_step :: "string \<Rightarrow> task_table \<Rightarrow> task_table \<Rightarrow> bool" for u where
  step_initialize: "graph_step u tbl (initialize ts tbl)"
| step_claim: "claim_next m v tbl = (l, tbl') \<Longrightarrow> v \<noteq> u \<Longrightarrow> graph_step u tbl tbl'"
| step_begin: "begin_verification l res refs tbl = Inr tbl' \<Longrightarrow> graph_step u tbl tbl'"
| step_complete: "complete now l ev refs tbl = Inr tbl' \<Longrightarrow> graph_step u tbl tbl'"
| step_fail: "fail l reason ev refs tbl = Inr tbl' \<Longrightarrow> graph_step u tbl tbl'"
| step_block: "graph_step u tbl (snd (block_exhausted m tbl))"
| step_invalidate: "invalidate t reason tbl = Inr tbl' \<Longrightarrow> graph_step u tbl tbl'"
| step_recover: "graph_step u tbl (snd (recover_interrupted tbl))"
| step_reconcile: "graph_step u tbl (snd (reconcile_complete now k e tbl))"

lemma graph_step_inv:
  assumes "graph_step u s t" and inv: "graph_inv s"
  shows "graph_inv t"
  using assms(1)
proof cases
  case (step_initialize ts)
  show ?thesis unfolding step_initialize by (rule initialize_inv [OF inv])
next
  case (step_claim m v l)
  show ?thesis by (rule claim_next_inv [OF inv step_claim(1)])
next
  case (step_begin l res refs)
  show ?thesis by (rule begin_verification_inv [OF inv step_begin])
next
  case (step_complete now l ev refs)
  show ?thesis by (rule complete_inv [OF inv step_complete])
next
  case (step_fail l reason ev refs)
  show ?thesis by (rule fail_inv [OF inv step_fail])
next
  case (step_block m)
  show ?thesis unfolding step_block by (rule block_exhausted_inv [OF inv])
next
  case (step_invalidate k reason)
  show ?thesis by (rule invalidate_inv [OF inv step_invalidate])
next
  case step_recover
  show ?thesis unfolding step_recover by (rule recover_interrupted_inv [OF inv])
next
  case (step_reconcile now k e)
  show ?thesis unfolding step_reconcile by (rule reconcile_complete_inv [OF inv])
qed

interpretation task_graph: invariant_system "graph_step u" graph_inv for u
  by unfold_locales (rule graph_step_inv)

text \<open>The lease \<open>u\<close> is dead when no task that is being worked on carries it; it then stays dead.\<close>

definition dead_lease :: "string \<Rightarrow> task_table \<Rightarrow> bool" where
  "dead_lease u tbl \<longleftrightarrow> (\<forall>r\<in>set tbl. leased r \<longrightarrow> tr_lease_id r \<noteq> u)"

lemma dead_lease_update:
  assumes "dead_lease u tbl" and "\<And>r. r \<in> set tbl \<Longrightarrow> P r \<Longrightarrow> leased (f r) \<Longrightarrow> tr_lease_id (f r) \<noteq> u"
  shows "dead_lease u (update_where P f tbl)"
  using assms by (auto simp: dead_lease_def set_update_where)

lemma dead_lease_initialize: "dead_lease u tbl \<Longrightarrow> dead_lease u (initialize ts tbl)"
  unfolding initialize_def
proof (induction ts arbitrary: tbl)
  case Nil
  then show ?case by simp
next
  case (Cons t ts)
  have "\<not> leased (new_row t)" by (simp add: leased_def new_row_def)
  with Cons.prems have "dead_lease u (insert_ignore tr_task_id (new_row t) tbl)"
    by (simp add: dead_lease_def insert_ignore_def)
  with Cons.IH show ?case by simp
qed

lemma dead_lease_step:
  assumes "graph_step u s t" and "dead_lease u s"
  shows "dead_lease u t"
  using assms(1)
proof cases
  case (step_initialize ts)
  show ?thesis unfolding step_initialize by (rule dead_lease_initialize [OF assms(2)])
next
  case (step_claim m v l)
  then show ?thesis
    using assms(2) by (auto simp: claim_next_def Let_def split: option.splits intro!: dead_lease_update)
next
  case (step_begin l res refs)
  then show ?thesis
    using assms(2)
    by (auto simp: begin_verification_def stale_lease_def Let_def dead_lease_def leased_def set_update_where
        split: if_splits)
next
  case (step_complete now l ev refs)
  then show ?thesis
    using assms(2)
    by (auto simp: complete_def transition_leased_def stale_lease_def Let_def leased_def
        split: if_splits intro!: dead_lease_update)
next
  case (step_fail l reason ev refs)
  then show ?thesis
    using assms(2)
    by (auto simp: fail_def transition_leased_def stale_lease_def Let_def leased_def
        split: if_splits intro!: dead_lease_update)
next
  case (step_block m)
  then show ?thesis
    using assms(2) by (auto simp: block_exhausted_def Let_def leased_def intro!: dead_lease_update)
next
  case (step_invalidate k reason)
  show ?thesis
    unfolding invalidate_Inr(1) [OF step_invalidate]
    by (rule dead_lease_update [OF assms(2)]) (simp add: leased_def)
next
  case step_recover
  then show ?thesis
    using assms(2) by (auto simp: recover_interrupted_def Let_def leased_def intro!: dead_lease_update)
next
  case (step_reconcile now k e)
  then show ?thesis
    using assms(2)
    by (auto simp: reconcile_complete_def Let_def leased_def split: option.splits intro!: dead_lease_update)
qed

interpretation dead_leases: invariant_system "graph_step u" "dead_lease u" for u
  by unfold_locales (rule dead_lease_step)

lemma dead_lease_rejected:
  assumes "dead_lease (tl_lease_id l) tbl"
  shows "begin_verification l res refs tbl = stale_lease" and "transition_leased l st f tbl = stale_lease"
proof -
  have "filter (\<lambda>r. tr_task_id r = tl_task_id l \<and> tr_lease_id r = tl_lease_id l \<and> tr_status r = ''IN_PROGRESS'') tbl = []"
    and "filter (\<lambda>r. tr_task_id r = tl_task_id l \<and> tr_lease_id r = tl_lease_id l \<and>
      tr_status r \<in> {''IN_PROGRESS'', ''VERIFYING''}) tbl = []"
    using assms by (auto simp: dead_lease_def leased_def filter_empty_conv)
  then show "begin_verification l res refs tbl = stale_lease" "transition_leased l st f tbl = stale_lease"
    by (simp_all add: begin_verification_def transition_leased_def rowcount_def Let_def)
qed

section \<open>Properties\<close>

text \<open>C37: Evidence-gated, dependency-safe progress: in every state a history of operations leads to, a
  completed task has verification evidence, and a task that is being worked on or verified has
  every dependency completed; task ids stay unique.\<close>

theorem task_graph_sound:
  assumes "run_of (graph_step u) [] tbl"
  shows "unique_rows tr_task_id tbl \<and>
    (\<forall>r\<in>set tbl. (tr_status r = ''DONE'' \<longrightarrow> tr_evidence r \<noteq> []) \<and>
       (tr_status r \<in> {''IN_PROGRESS'', ''VERIFYING''} \<longrightarrow>
          (\<forall>d\<in>set (tr_dependencies r). \<exists>x\<in>set tbl. tr_task_id x = d \<and> tr_status x = ''DONE'')))"
proof -
  have "graph_inv []" by (simp add: graph_inv_def)
  with task_graph.run_inv [OF assms] have "graph_inv tbl" .
  then show ?thesis
    by (auto simp: graph_inv_def row_sound_def leased_def subset_iff simp flip: in_done_ids)
qed

definition demo_specs :: "task_spec list" where
  "demo_specs =
     [\<lparr>ts_task_id = 1, ts_objective = ''parse'', ts_acceptance = None, ts_dependencies = None, ts_priority = None\<rparr>,
      \<lparr>ts_task_id = 2, ts_objective = ''link'', ts_acceptance = None, ts_dependencies = Some [1], ts_priority = Some 9\<rparr>]"

theorem task_graph_sound_witness:
  "\<exists>r\<in>set (snd (claim_next 2 ''v'' (initialize demo_specs []))).
     tr_status r = ''IN_PROGRESS'' \<and>
     (tr_status r \<in> {''IN_PROGRESS'', ''VERIFYING''} \<longrightarrow> (\<forall>d\<in>set (tr_dependencies r).
        \<exists>x\<in>set (snd (claim_next 2 ''v'' (initialize demo_specs []))). tr_task_id x = d \<and> tr_status x = ''DONE''))"
proof -
  let ?t = "snd (claim_next 2 ''v'' (initialize demo_specs []))"
  let ?i = "initialize demo_specs []"
  have "graph_step ''u'' [] ?i" by (rule step_initialize)
  moreover have "graph_step ''u'' ?i ?t"
    by (rule step_claim [where l = "fst (claim_next 2 ''v'' ?i)" and m = 2 and v = "''v''"])
      (simp_all add: prod_eq_iff)
  ultimately have "run_of (graph_step ''u'') [] ?t" by (rule run_step [OF run_of_one])
  moreover have "\<exists>r\<in>set ?t. tr_status r = ''IN_PROGRESS''"
    by (simp add: demo_specs_def initialize_def insert_ignore_def new_row_def claim_next_def select_task_def
        claim_order_def claimable_def done_ids_def update_where_def status_rank_def Let_def)
  ultimately show ?thesis using task_graph_sound by blast
qed

definition before :: "task_row \<Rightarrow> task_row \<Rightarrow> bool" where
  "before x y \<longleftrightarrow>
     status_rank (tr_status x) < status_rank (tr_status y) \<or>
     (status_rank (tr_status x) = status_rank (tr_status y) \<and>
        (tr_priority y < tr_priority x \<or> (tr_priority x = tr_priority y \<and> tr_task_id x < tr_task_id y)))"

lemma claim_order_sorted:
  assumes "distinct (map tr_task_id rows)"
  shows "sorted_wrt before (claim_order rows)"
proof -
  have s: "sorted_wrt (\<lambda>x y. tr_task_id x < tr_task_id y \<or> (tr_task_id x = tr_task_id y \<and> True))
      (sort_key tr_task_id rows)"
    by (intro sort_key_wrt) (induction rows; simp)
  have "distinct (map tr_task_id (sort_key tr_task_id rows))"
    using assms by (metis distinct_map distinct_sort set_sort)
  then have "sorted_wrt (\<lambda>x y. tr_task_id x \<noteq> tr_task_id y) (sort_key tr_task_id rows)"
    by (auto simp: distinct_map distinct_conv_nth sorted_wrt_iff_nth_less)
  with s have "sorted_wrt (\<lambda>x y. tr_task_id x < tr_task_id y) (sort_key tr_task_id rows)"
    by (auto simp: sorted_wrt_iff_nth_less)
  from sort_key_wrt [OF sort_key_wrt [OF this, of "\<lambda>r. - tr_priority r"],
      of "\<lambda>r. status_rank (tr_status r)"]
  show ?thesis
    unfolding claim_order_def by (rule sorted_wrt_mono_rel [rotated]) (auto simp: before_def)
qed

lemma find_sorted_wrt_first:
  assumes "sorted_wrt R xs" and "find P xs = Some x" and "y \<in> set xs" and "P y"
  shows "x = y \<or> R x y"
  using assms by (induction xs) (auto split: if_splits)

text \<open>Claiming work: the claimed task was waiting, within its attempt bound and had all
  dependencies completed; no task that is also ready comes before it (failed before invalidated
  before new, then by priority, then by id); exactly its row changes, to in progress with one more
  attempt under the new lease; and nothing is claimed only if no task is ready.\<close>

theorem claim_next_correct:
  assumes "graph_inv tbl"
  shows "case claim_next m u tbl of
     (None, tbl') \<Rightarrow> tbl' = tbl \<and>
        (\<forall>r\<in>set tbl. claimable m r \<longrightarrow> \<not> set (tr_dependencies r) \<subseteq> done_ids tbl)
   | (Some l, tbl') \<Rightarrow> \<exists>r\<in>set tbl. claimable m r \<and> set (tr_dependencies r) \<subseteq> done_ids tbl \<and>
        (\<forall>y\<in>set tbl. claimable m y \<and> set (tr_dependencies y) \<subseteq> done_ids tbl \<longrightarrow> r = y \<or> before r y) \<and>
        tl_task_id l = tr_task_id r \<and> tl_lease_id l = u \<and> tl_attempt l = tr_attempt_count r + 1 \<and>
        tbl' = map (\<lambda>x. if x = r then r\<lparr>tr_status := ''IN_PROGRESS'',
                       tr_attempt_count := tr_attempt_count r + 1, tr_lease_id := u\<rparr> else x) tbl"
proof (cases "select_task m tbl")
  case None
  then show ?thesis using select_task_None [of m tbl] by (simp add: claim_next_def)
next
  case (Some r)
  note sel = select_task_Some [OF Some]
  have "distinct (map tr_task_id (filter (claimable m) tbl))"
    using assms by (simp add: graph_inv_def unique_rows_def distinct_map_filter_key)
  from find_sorted_wrt_first [OF claim_order_sorted [OF this] Some [unfolded select_task_def]]
  have first: "\<forall>y\<in>set tbl. claimable m y \<and> set (tr_dependencies y) \<subseteq> done_ids tbl \<longrightarrow> r = y \<or> before r y"
    by simp
  have "map (\<lambda>x. if tr_task_id x = tr_task_id r then x\<lparr>tr_status := ''IN_PROGRESS'',
            tr_attempt_count := tr_attempt_count r + 1, tr_lease_id := u\<rparr> else x) tbl =
        map (\<lambda>x. if x = r then r\<lparr>tr_status := ''IN_PROGRESS'',
            tr_attempt_count := tr_attempt_count r + 1, tr_lease_id := u\<rparr> else x) tbl"
    by (rule map_cong [OF refl]) (auto dest: same_id_same_row [OF assms sel(1)])
  with sel first Some show ?thesis
    by (auto simp: claim_next_def Let_def update_where_def)
qed

theorem claim_next_correct_witness:
  "\<exists>l. fst (claim_next 2 ''v'' (initialize demo_specs [])) = Some l \<and> tl_task_id l = 1"
proof -
  have "graph_inv []" by (simp add: graph_inv_def)
  from claim_next_correct [OF initialize_inv [OF this, of demo_specs], of 2 "''v''"] show ?thesis
    by (simp add: demo_specs_def initialize_def insert_ignore_def new_row_def claim_next_def select_task_def
        claim_order_def claimable_def done_ids_def update_where_def status_rank_def Let_def)
qed

text \<open>C40: Invalidating a completed task terminates and marks exactly the tasks that depend on it,
  directly or through others, as invalidated, with a fresh attempt budget and no completion time;
  every other row is untouched. A task that is not completed cannot be invalidated.\<close>

theorem invalidate_exact:
  "case invalidate t reason tbl of
     Inl x \<Rightarrow> x = ValueError ''Only completed tasks can be invalidated.'' \<and>
       (\<forall>r. lookup_row tr_task_id t tbl = Some r \<longrightarrow> tr_status r \<noteq> ''DONE'')
   | Inr tbl' \<Rightarrow> tbl' = map (\<lambda>r. if (tr_task_id r, t) \<in> (depends tbl)\<^sup>*
         then r\<lparr>tr_status := ''INVALIDATED'', tr_invalidated_reason := take 2000 reason,
                tr_completed_at := [], tr_attempt_count := 0, tr_failure := []\<rparr> else r) tbl"
  by (auto simp: invalidate_def Let_def taint_loop_eq update_where_def split: option.splits)

theorem invalidate_exact_witness:
  "\<exists>x. invalidate 2 ''changed'' (initialize demo_specs []) = Inl x \<and>
     x = ValueError ''Only completed tasks can be invalidated.''"
  using invalidate_exact [where t = 2 and reason = "''changed''" and tbl = "initialize demo_specs []"]
  by (auto simp: invalidate_def demo_specs_def initialize_def insert_ignore_def new_row_def lookup_row_def)

text \<open>An interrupted worker cannot come back: after the recovery of interrupted work, the lease of
  any earlier worker is rejected in every later state, whatever happens in between, provided the
  same UUID is not drawn again.\<close>

theorem recovered_lease_rejected:
  assumes "run_of (graph_step (tl_lease_id l)) (snd (recover_interrupted tbl)) tbl'"
  shows "begin_verification l res refs tbl' = stale_lease \<and>
    (ev \<noteq> [] \<longrightarrow> complete now l ev mrefs tbl' = stale_lease) \<and> fail l reason ev mrefs tbl' = stale_lease"
proof -
  have "dead_lease (tl_lease_id l) (snd (recover_interrupted tbl))"
    by (auto simp: recover_interrupted_def Let_def dead_lease_def leased_def set_update_where)
  from dead_leases.run_inv [OF assms this] show ?thesis
    by (simp add: dead_lease_rejected complete_def fail_def)
qed

theorem recovered_lease_rejected_witness:
  "begin_verification (the (fst (claim_next 2 ''v'' (initialize demo_specs [])))) JNull []
     (snd (recover_interrupted (snd (claim_next 2 ''v'' (initialize demo_specs []))))) = stale_lease"
  using recovered_lease_rejected [OF run_of.run_refl] by blast

lemma length_filter_eq_distinct: "distinct xs \<Longrightarrow> r \<in> set xs \<Longrightarrow> length (filter (\<lambda>x. x = r) xs) = 1"
  by (induction xs) (auto simp: filter_empty_conv)

text \<open>Final reconciliation completes a task from any state, not only a previously failed one: it
  returns true exactly for an existing task that is not done yet, and then the task is done with
  the new evidence appended.\<close>

theorem reconcile_completes_any_open_task:
  assumes "graph_inv tbl" and "r \<in> set tbl"
  shows "fst (reconcile_complete now (tr_task_id r) e tbl) = (tr_status r \<noteq> ''DONE'') \<and>
    (tr_status r \<noteq> ''DONE'' \<longrightarrow>
       r\<lparr>tr_status := ''DONE'', tr_evidence := tr_evidence r @ [e], tr_failure := [],
         tr_completed_at := now, tr_invalidated_reason := []\<rparr>
         \<in> set (snd (reconcile_complete now (tr_task_id r) e tbl)))"
proof -
  from assms have look: "lookup_row tr_task_id (tr_task_id r) tbl = Some r"
    by (simp add: graph_inv_def lookup_row_unique)
  have "x = r \<longleftrightarrow> tr_task_id x = tr_task_id r" if "x \<in> set tbl" for x
    using same_id_same_row [OF assms that] by blast
  then have "filter (\<lambda>x. tr_task_id x = tr_task_id r) tbl = filter (\<lambda>x. x = r) tbl"
    by (intro filter_cong) auto
  moreover have "distinct tbl"
    using assms(1) by (auto simp: graph_inv_def unique_rows_def distinct_map)
  ultimately have "rowcount (\<lambda>x. tr_task_id x = tr_task_id r) tbl = 1"
    using assms(2) by (simp add: rowcount_def length_filter_eq_distinct)
  with look assms(2) show ?thesis
    by (force simp: reconcile_complete_def Let_def set_update_where)
qed

theorem reconcile_completes_any_open_task_witness:
  "fst (reconcile_complete ''t'' 2 JNull (initialize demo_specs []))"
proof -
  have "graph_inv []" by (simp add: graph_inv_def)
  from initialize_inv [OF this, of demo_specs] have inv: "graph_inv (initialize demo_specs [])" .
  let ?r = "new_row (demo_specs ! 1)"
  have "?r \<in> set (initialize demo_specs [])" and "tr_task_id ?r = 2" and "tr_status ?r \<noteq> ''DONE''"
    by (simp_all add: demo_specs_def initialize_def insert_ignore_def new_row_def)
  with reconcile_completes_any_open_task [OF inv, of ?r "''t''" JNull] show ?thesis by simp
qed

end
