(* ===== verification/Canonical_Json.thy ===== *)
theory Canonical_Json
  imports Json
begin

text \<open>
  Canonical JSON texts determine their value: escapes, decimal numbers, lists and objects are all
  self-delimiting, so two values with the same text are equal up to the order of object members
  (\<open>canonical_json_inj\<close>). Every digest the program binds a decision to is the hash of such a text,
  so equal digests mean equal contents or a collision of the hash function (\<open>digest_binds\<close>).
\<close>

section \<open>Escaped texts\<close>

text \<open>Decoding of one escaped character; only used to show that escapes cannot be confused.\<close>

definition hex_value :: "char \<Rightarrow> nat" where
  "hex_value c = (let n = (of_char c :: nat) in if n < 58 then n - 48 else n - 87)"

definition unescape :: "string \<Rightarrow> (char \<times> string) option" where
  "unescape s =
     (case s of
        [] \<Rightarrow> None
      | c # r \<Rightarrow>
          if c = CHR 0x22 then None
          else if c \<noteq> CHR 0x5C then Some (c, r)
          else (case r of
              [] \<Rightarrow> None
            | d # r' \<Rightarrow>
                if d = CHR ''n'' then Some (char_of (10 :: nat), r')
                else if d = CHR ''r'' then Some (char_of (13 :: nat), r')
                else if d = CHR ''t'' then Some (char_of (9 :: nat), r')
                else if d = CHR ''b'' then Some (char_of (8 :: nat), r')
                else if d = CHR ''f'' then Some (char_of (12 :: nat), r')
                else if d = CHR ''u'' then
                  Some (char_of (16 * hex_value (r' ! 2) + hex_value (r' ! 3)), drop 4 r')
                else Some (d, r')))"

lemma char_by_code: "(of_char c :: nat) = n \<Longrightarrow> c = char_of n"
  by (metis char_of_char)

lemma hex_value_digit: "n < 16 \<Longrightarrow> hex_value (hex_digit n) = n"
  by (auto simp: hex_value_def hex_digit_def Let_def)

lemma char_of_quote: "char_of (34 :: nat) = CHR 0x22" and char_of_backslash: "char_of (92 :: nat) = CHR 0x5C"
  by code_simp+

lemma unescape_escape: "unescape (escape_char c @ r) = Some (c, r)"
proof -
  let ?n = "of_char c :: nat"
  consider "?n = 34" | "?n = 92" | "?n = 10" | "?n = 13" | "?n = 9" | "?n = 8" | "?n = 12"
    | "?n < 32" "?n \<notin> {8, 9, 10, 12, 13}" | "32 \<le> ?n" "?n \<noteq> 34" "?n \<noteq> 92"
    by fastforce
  then show ?thesis
  proof cases
    case 1
    then have "c = CHR 0x22" by (metis char_of_char char_of_quote)
    then show ?thesis by (simp add: escape_char_def unescape_def)
  next
    case 2
    then have "c = CHR 0x5C" by (metis char_of_char char_of_backslash)
    then show ?thesis by (simp add: escape_char_def unescape_def)
  next
    case 8
    have "16 * (?n div 16) + ?n mod 16 = ?n" by presburger
    moreover from 8 have "?n div 16 < 16" and "?n mod 16 < 16" by auto
    ultimately have "char_of (16 * hex_value (hex_digit (?n div 16)) + hex_value (hex_digit (?n mod 16))) = c"
      by (simp only: hex_value_digit) simp
    with 8 show ?thesis by (simp add: escape_char_def unescape_def Let_def numeral_2_eq_2 numeral_3_eq_3)
  next
    case 9
    then have "c \<noteq> CHR 0x22" and "c \<noteq> CHR 0x5C" by auto
    with 9 show ?thesis by (simp add: escape_char_def unescape_def Let_def)
  qed (auto simp: escape_char_def unescape_def Let_def dest: char_by_code)
qed

lemma escape_char_cancel: "escape_char c @ r = escape_char d @ r' \<longleftrightarrow> c = d \<and> r = r'"
  by (metis unescape_escape option.inject prod.inject)

lemma escape_char_no_quote: "escape_char c @ r \<noteq> CHR 0x22 # r'"
proof
  assume "escape_char c @ r = CHR 0x22 # r'"
  then have "unescape (escape_char c @ r) = None" by (simp add: unescape_def)
  then show False by (simp add: unescape_escape)
qed

lemma quote_text_cancel: "quote_text s @ r = quote_text t @ r' \<longleftrightarrow> s = t \<and> r = r'"
proof -
  have "concat (map escape_char s) @ CHR 0x22 # r = concat (map escape_char t) @ CHR 0x22 # r'
      \<longleftrightarrow> s = t \<and> r = r'"
  proof (induction s arbitrary: t)
    case Nil
    show ?case by (cases t) (auto dest: escape_char_no_quote [THEN notE, OF sym])
  next
    case (Cons c s)
    show ?case
    proof (cases t)
      case Nil
      then show ?thesis by (auto dest: escape_char_no_quote [THEN notE])
    next
      case (Cons d t')
      then show ?thesis using Cons.IH [of t'] by (auto simp: escape_char_cancel)
    qed
  qed
  then show ?thesis by (simp add: quote_text_def)
qed

subsection \<open>Integers\<close>

definition is_digit :: "char \<Rightarrow> bool" where
  "is_digit c \<longleftrightarrow> (let n = (of_char c :: nat) in 48 \<le> n \<and> n \<le> 57)"

definition no_digit :: "string \<Rightarrow> bool" where
  "no_digit s \<longleftrightarrow> (case s of [] \<Rightarrow> True | c # _ \<Rightarrow> \<not> is_digit c)"

definition digits_value :: "string \<Rightarrow> nat" where
  "digits_value s = foldl (\<lambda>v c. 10 * v + (of_char c - 48)) 0 s"

lemma digit_code: "n < 10 \<Longrightarrow> (of_char (char_of (48 + n) :: char) :: nat) = 48 + n"
  by simp

lemma nat_digits_value: "digits_value (nat_digits n) = n"
proof (induction n rule: nat_digits.induct)
  case (1 n)
  show ?case
  proof (cases "n < 10")
    case True
    then show ?thesis by (simp add: nat_digits.simps [of n] digits_value_def)
  next
    case False
    have "n mod 10 < 10" by simp
    from digit_code [OF this] have "digits_value (nat_digits n) = 10 * digits_value (nat_digits (n div 10)) + n mod 10"
      using False by (simp add: nat_digits.simps [of n] digits_value_def)
    also have "\<dots> = n" using 1 [OF False] by simp
    finally show ?thesis .
  qed
qed

lemma nat_digits_digits: "c \<in> set (nat_digits n) \<Longrightarrow> is_digit c"
proof (induction n rule: nat_digits.induct)
  case (1 n)
  have "n mod 10 < 10" by simp
  from digit_code [OF this] have last: "is_digit (char_of (48 + n mod 10))"
    using \<open>n mod 10 < 10\<close> by (simp only: is_digit_def Let_def) linarith
  show ?case
  proof (cases "n < 10")
    case True
    with "1.prems" last show ?thesis by (simp add: nat_digits.simps [of n])
  next
    case False
    with "1.prems" have "c \<in> set (nat_digits (n div 10)) \<or> c = char_of (48 + n mod 10)"
      by (subst (asm) nat_digits.simps) auto
    with last 1(1) [OF False] show ?thesis by blast
  qed
qed

lemma takeWhile_digits: "no_digit r \<Longrightarrow> takeWhile is_digit (nat_digits n @ r) = nat_digits n"
  using nat_digits_digits by (subst takeWhile_append2) (auto simp: no_digit_def split: list.splits)

lemma nat_digits_cancel:
  assumes "nat_digits n @ r = nat_digits m @ r'" and "no_digit r" and "no_digit r'"
  shows "n = m \<and> r = r'"
proof -
  from assms have "nat_digits n = nat_digits m" by (metis takeWhile_digits)
  with assms(1) show ?thesis by (metis nat_digits_value append_same_eq same_append_eq)
qed

lemma nat_digits_not_Nil: "nat_digits n \<noteq> []"
  by (simp add: nat_digits.simps [of n])

lemma nat_digits_first: "nat_digits n = c # s \<Longrightarrow> is_digit c"
  using nat_digits_digits [of c n] by simp

lemma minus_no_digit: "\<not> is_digit (CHR ''-'')"
  by code_simp

lemma py_str_int_cancel:
  assumes "py_str_int i @ r = py_str_int j @ r'" and "no_digit r" and "no_digit r'"
  shows "i = j \<and> r = r'"
proof -
  have clash: "nat_digits n @ x \<noteq> CHR ''-'' # y" for n x y
    using nat_digits_not_Nil [of n] nat_digits_first [of n] minus_no_digit by (cases "nat_digits n") auto
  consider "i < 0" "j < 0" | "\<not> i < 0" "\<not> j < 0" | "(i < 0) \<noteq> (j < 0)" by blast
  then show ?thesis
  proof cases
    case 1
    with assms(1) have "nat_digits (nat (- i)) @ r = nat_digits (nat (- j)) @ r'" by (simp add: py_str_int_def)
    from nat_digits_cancel [OF this assms(2,3)] 1 show ?thesis by auto
  next
    case 2
    with assms(1) have "nat_digits (nat i) @ r = nat_digits (nat j) @ r'" by (simp add: py_str_int_def)
    from nat_digits_cancel [OF this assms(2,3)] 2 show ?thesis by auto
  next
    case 3
    with assms(1) clash show ?thesis by (auto simp: py_str_int_def split: if_splits) (metis clash)+
  qed
qed

subsection \<open>Values\<close>

text \<open>The value with the members of every object in the order of their keys.\<close>

fun sort_keys :: "json \<Rightarrow> json" where
  "sort_keys (JList xs) = JList (map sort_keys xs)"
| "sort_keys (JObj ms) = JObj (sort_key fst (map (\<lambda>m. (fst m, sort_keys (snd m))) ms))"
| "sort_keys v = v"

lemma insort_key_map_fst:
  "insort_key fst (fst a, f (snd a)) (map (\<lambda>m. (fst m, f (snd m))) xs) =
     map (\<lambda>m. (fst m, f (snd m))) (insort_key fst a xs)"
  by (induction xs) auto

lemma sort_key_map_fst:
  "sort_key fst (map (\<lambda>m. (fst m, f (snd m))) xs) = map (\<lambda>m. (fst m, f (snd m))) (sort_key fst xs)"
  by (induction xs) (auto simp: insort_key_map_fst)

definition member_text :: "string \<times> json \<Rightarrow> string" where
  "member_text m = quote_text (fst m) @ '':'' @ canonical_json (snd m)"

lemma dumps_canonical: "dumps '','' '':'' = canonical_json"
  by (rule ext) (simp add: canonical_json_def)

lemma canonical_json_simps:
  "canonical_json JNull = ''null''" "canonical_json (JBool b) = (if b then ''true'' else ''false'')"
  "canonical_json (JInt i) = py_str_int i" "canonical_json (JStr s) = quote_text s"
  "canonical_json (JList xs) = ''['' @ py_join '','' (map canonical_json xs) @ '']''"
  "canonical_json (JObj ms) = ''{'' @ py_join '','' (map member_text (sort_key fst ms)) @ ''}''"
  by (simp_all add: flip: dumps_canonical)
    (simp_all add: sort_key_map_fst comp_def member_text_def [abs_def] flip: dumps_canonical)

text \<open>A sequence of texts that are each recognisable, separated by commas and closed by a bracket,
  is recognisable.\<close>

definition self_delimiting :: "('a \<Rightarrow> string) \<Rightarrow> ('a \<Rightarrow> 'b) \<Rightarrow> 'a \<Rightarrow> bool" where
  "self_delimiting D S x \<longleftrightarrow>
     (\<forall>y r r'. D x @ r = D y @ r' \<longrightarrow> no_digit r \<longrightarrow> no_digit r' \<longrightarrow> S x = S y \<and> r = r')"

definition opens :: "char \<Rightarrow> ('a \<Rightarrow> string) \<Rightarrow> bool" where
  "opens close D \<longleftrightarrow> (\<forall>y. \<exists>c s. D y = c # s \<and> c \<noteq> close)"

lemma join_step:
  "py_join '','' (x # xs) @ rest = x @ (if xs = [] then rest else CHR '','' # py_join '','' xs @ rest)"
  by (cases xs) auto

lemma join_cancel:
  assumes "\<forall>x\<in>set xs. self_delimiting D S x" and "opens close D"
    and "\<not> is_digit close" and "close \<noteq> CHR '',''"
    and "py_join '','' (map D xs) @ close # r = py_join '','' (map D ys) @ close # r'"
  shows "map S xs = map S ys \<and> r = r'"
  using assms(1,5)
proof (induction xs arbitrary: ys)
  case Nil
  then show ?case
    using assms(2) by (cases ys) (auto simp: join_step opens_def dest: spec [of _ "hd ys"])
next
  case (Cons x xs)
  show ?case
  proof (cases ys)
    case Nil
    with Cons.prems(2) assms(2) show ?thesis
      by (auto simp: join_step opens_def dest: spec [of _ x])
  next
    case ys: (Cons y ys')
    have comma: "\<not> is_digit (CHR '','')" by code_simp
    let ?k = "\<lambda>zs q. if zs = [] then close # q else CHR '','' # py_join '','' (map D zs) @ close # q"
    from Cons.prems(2) ys have "D x @ ?k xs r = D y @ ?k ys' r'" by (simp add: join_step)
    moreover have "no_digit (?k zs q)" for zs q
      using assms(3) comma by (simp add: no_digit_def)
    moreover from Cons.prems(1) have "self_delimiting D S x" by simp
    ultimately have eq: "S x = S y" "?k xs r = ?k ys' r'"
      unfolding self_delimiting_def by blast+
    have "map S xs = map S ys' \<and> r = r'"
    proof (cases "xs = [] \<or> ys' = []")
      case True
      with eq(2) assms(4) show ?thesis by (auto split: if_splits)
    next
      case False
      with eq(2) have "py_join '','' (map D xs) @ close # r = py_join '','' (map D ys') @ close # r'" by simp
      with Cons.IH [of ys'] Cons.prems(1) show ?thesis by simp
    qed
    with eq(1) ys show ?thesis by simp
  qed
qed

datatype json_shape = KWord char | Number | Text | Seq | Object

definition shape_of :: "string \<Rightarrow> json_shape" where
  "shape_of s =
     (let c = hd s in
      if c = CHR 0x22 then Text else if c = CHR ''['' then Seq else if c = CHR ''{'' then Object
      else if c = CHR ''-'' \<or> is_digit c then Number else KWord c)"

fun shape :: "json \<Rightarrow> json_shape" where
  "shape JNull = KWord (CHR ''n'')"
| "shape (JBool b) = KWord (if b then CHR ''t'' else CHR ''f'')"
| "shape (JInt i) = Number"
| "shape (JStr s) = Text"
| "shape (JList xs) = Seq"
| "shape (JObj ms) = Object"

lemma py_str_int_first: "\<exists>c s. py_str_int i = c # s \<and> (c = CHR ''-'' \<or> is_digit c)"
  using nat_digits_not_Nil nat_digits_first
  by (cases "i < 0"; cases "nat_digits (nat i)") (auto simp: py_str_int_def)

lemma word_no_digit:
  "\<not> is_digit (CHR ''n'')" "\<not> is_digit (CHR ''t'')" "\<not> is_digit (CHR ''f'')" "\<not> is_digit (CHR '']'')"
  "\<not> is_digit (CHR ''}'')" "\<not> is_digit (CHR 0x22)" "\<not> is_digit (CHR ''['')" "\<not> is_digit (CHR ''{'')"
  by code_simp+

lemma canonical_json_shape: "shape_of (canonical_json v @ r) = shape v"
proof (cases v)
  case (JInt i)
  obtain c s where "py_str_int i = c # s" "c = CHR ''-'' \<or> is_digit c"
    using py_str_int_first by blast
  with JInt word_no_digit show ?thesis
    by (auto simp: shape_of_def canonical_json_simps)
qed (auto simp: shape_of_def canonical_json_simps quote_text_def word_no_digit Let_def)

lemma canonical_json_opens: "opens (CHR '']'') canonical_json"
proof -
  have "\<exists>c s. canonical_json v = c # s \<and> c \<noteq> CHR '']''" for v
  proof (cases v)
    case (JInt i)
    with py_str_int_first [of i] word_no_digit show ?thesis by (auto simp: canonical_json_simps)
  qed (auto simp: canonical_json_simps quote_text_def)
  then show ?thesis by (simp add: opens_def)
qed

lemma member_text_opens: "opens (CHR ''}'') member_text"
  by (auto simp: opens_def member_text_def quote_text_def)

lemma member_delimited:
  assumes "self_delimiting canonical_json sort_keys (snd m)"
  shows "self_delimiting member_text (\<lambda>m. (fst m, sort_keys (snd m))) m"
  unfolding self_delimiting_def
proof (intro allI impI)
  fix n r r'
  assume "member_text m @ r = member_text n @ r'" and nd: "no_digit r" "no_digit r'"
  then have "quote_text (fst m) @ '':'' @ canonical_json (snd m) @ r =
      quote_text (fst n) @ '':'' @ canonical_json (snd n) @ r'"
    by (simp only: member_text_def append_assoc)
  then have "fst m = fst n" and "canonical_json (snd m) @ r = canonical_json (snd n) @ r'"
    by (simp_all only: quote_text_cancel same_append_eq simp_thms)
  with assms nd show "(fst m, sort_keys (snd m)) = (fst n, sort_keys (snd n)) \<and> r = r'"
    unfolding self_delimiting_def by blast
qed

lemma canonical_json_delimited: "self_delimiting canonical_json sort_keys v"
proof (induction v)
  case (JList xs)
  show ?case
    unfolding self_delimiting_def
  proof (intro allI impI)
    fix w r r'
    assume eq: "canonical_json (JList xs) @ r = canonical_json w @ r'"
    then have "shape w = Seq" by (metis canonical_json_shape shape.simps(5))
    then obtain ys where w: "w = JList ys" by (cases w) auto
    have "map sort_keys xs = map sort_keys ys \<and> r = r'"
    proof (rule join_cancel [OF _ canonical_json_opens])
      show "\<forall>x\<in>set xs. self_delimiting canonical_json sort_keys x" using JList by blast
      show "py_join '','' (map canonical_json xs) @ CHR '']'' # r = py_join '','' (map canonical_json ys) @ CHR '']'' # r'"
        using eq w by (simp add: canonical_json_simps)
    qed (simp_all add: word_no_digit)
    with w show "sort_keys (JList xs) = sort_keys w \<and> r = r'" by simp
  qed
next
  case (JObj ms)
  let ?S = "\<lambda>m. (fst m, sort_keys (snd m))"
  have member: "self_delimiting member_text ?S m" if "m \<in> set ms" for m
  proof -
    from that have "self_delimiting canonical_json sort_keys (snd m)"
      by (rule JObj) (cases m, simp)
    then show ?thesis by (rule member_delimited)
  qed
  show ?case
    unfolding self_delimiting_def
  proof (intro allI impI)
    fix w r r'
    assume eq: "canonical_json (JObj ms) @ r = canonical_json w @ r'"
    then have "shape w = Object" by (metis canonical_json_shape shape.simps(6))
    then obtain ns where w: "w = JObj ns" by (cases w) auto
    have "map ?S (sort_key fst ms) = map ?S (sort_key fst ns) \<and> r = r'"
    proof (rule join_cancel [OF _ member_text_opens])
      show "\<forall>m\<in>set (sort_key fst ms). self_delimiting member_text ?S m" using member by simp
      show "py_join '','' (map member_text (sort_key fst ms)) @ CHR ''}'' # r =
          py_join '','' (map member_text (sort_key fst ns)) @ CHR ''}'' # r'"
        using eq w by (simp add: canonical_json_simps)
    qed (simp_all add: word_no_digit)
    with w show "sort_keys (JObj ms) = sort_keys w \<and> r = r'"
      by (simp add: sort_key_map_fst)
  qed
next
  case (JInt i)
  show ?case
    unfolding self_delimiting_def
  proof (intro allI impI)
    fix w r r'
    assume eq: "canonical_json (JInt i) @ r = canonical_json w @ r'" and nd: "no_digit r" "no_digit r'"
    from eq have "shape w = Number" by (metis canonical_json_shape shape.simps(3))
    then obtain j where w: "w = JInt j" by (cases w) auto
    from py_str_int_cancel [OF _ nd, of i j] eq w show "sort_keys (JInt i) = sort_keys w \<and> r = r'"
      by (simp add: canonical_json_simps)
  qed
next
  case (JStr s)
  show ?case
    unfolding self_delimiting_def
  proof (intro allI impI)
    fix w r r'
    assume eq: "canonical_json (JStr s) @ r = canonical_json w @ r'"
    then have "shape w = Text" by (metis canonical_json_shape shape.simps(4))
    then obtain t where w: "w = JStr t" by (cases w) auto
    with eq show "sort_keys (JStr s) = sort_keys w \<and> r = r'"
      by (simp add: canonical_json_simps quote_text_cancel)
  qed
next
  case (JBool b)
  show ?case
    unfolding self_delimiting_def
  proof (intro allI impI)
    fix w r r'
    assume eq: "canonical_json (JBool b) @ r = canonical_json w @ r'"
    then have "shape w = KWord (if b then CHR ''t'' else CHR ''f'')" by (metis canonical_json_shape shape.simps(2))
    then have w: "w = JBool b" by (cases w) (auto split: if_splits)
    with eq show "sort_keys (JBool b) = sort_keys w \<and> r = r'" by simp
  qed
next
  case JNull
  show ?case
    unfolding self_delimiting_def
  proof (intro allI impI)
    fix w r r'
    assume eq: "canonical_json JNull @ r = canonical_json w @ r'"
    then have "shape w = KWord (CHR ''n'')" by (metis canonical_json_shape shape.simps(1))
    then have w: "w = JNull" by (cases w) (auto split: if_splits)
    with eq show "sort_keys JNull = sort_keys w \<and> r = r'" by simp
  qed
qed

text \<open>Two values with the same canonical text are the same up to the order of object members; two
  values with the same digest are the same, or the digest function has a collision.\<close>

lemma canonical_json_inj: "canonical_json v = canonical_json w \<Longrightarrow> sort_keys v = sort_keys w"
  using canonical_json_delimited [of v] unfolding self_delimiting_def
  by (metis append_Nil2 list.case(1) no_digit_def)

definition collision :: "(string \<Rightarrow> string) \<Rightarrow> bool" where
  "collision h \<longleftrightarrow> (\<exists>x y. x \<noteq> y \<and> h x = h y)"

lemma digest_binds: "h (canonical_json v) = h (canonical_json w) \<Longrightarrow> sort_keys v = sort_keys w \<or> collision h"
  using canonical_json_inj collision_def by blast

text \<open>Objects with distinct keys agree member by member.\<close>

lemma map_of_set_cong:
  assumes "distinct (map fst xs)" and "distinct (map fst ys)" and "set xs = set ys"
  shows "map_of xs = map_of ys"
  using assms by (simp add: map_of_inject_set)

lemma sort_keys_member:
  assumes "sort_keys (JObj ms) = sort_keys (JObj ns)"
    and "distinct (map fst ms)" and "distinct (map fst ns)"
  shows "map_option sort_keys (map_of ms k) = map_option sort_keys (map_of ns k)"
proof -
  let ?f = "\<lambda>m. (fst m, sort_keys (snd m))"
  have of: "map_of (map ?f xs) k = map_option sort_keys (map_of xs k)" for xs
    by (induction xs) auto
  from assms(1) have "set (sort_key fst (map ?f ms)) = set (sort_key fst (map ?f ns))" by simp
  then have "set (map ?f ms) = set (map ?f ns)" by (simp only: set_sort)
  moreover have "map fst (map ?f xs) = map fst xs" for xs :: "(string \<times> json) list"
    by (induction xs) auto
  ultimately have "map_of (map ?f ms) = map_of (map ?f ns)"
    using assms(2,3) by (intro map_of_set_cong) (simp_all only:)
  then show ?thesis by (simp only: of [symmetric])
qed

end
