(* ===== verification/Governance.thy ===== *)
theory Governance
  imports Store Canonical_Json
begin

text \<open>
  Project governance (\<open>src/rlmgraph/governance.py\<close>): the durable policy of one registered project,
  the digest a decision is bound to, the recording of decisions by role, and their evaluation
  against the rules of the current policy version. Objects the code creates take their identifier
  and time from the arguments \<open>new_id\<close>/\<open>ids\<close> and \<open>now\<close>.
\<close>

section \<open>Projects and their scope\<close>

definition overlaps :: "string \<Rightarrow> string \<Rightarrow> bool" where
  "overlaps wanted candidate \<longleftrightarrow>
     (case commonpath wanted candidate of
        None \<Rightarrow> False
      | Some common \<Rightarrow> py_casefold common = wanted \<or> py_casefold common = candidate)"

definition governed_project :: "env \<Rightarrow> store \<Rightarrow> string \<Rightarrow> project_record result" where
  "governed_project e s project_id =
     (let registered = ValueError ''Governance requires an explicitly registered read-only project.'' in
      case find (\<lambda>p. pr_id p = project_id) (st_projects s) of
        None \<Rightarrow> Inl registered
      | Some project \<Rightarrow>
          if \<not> pr_explicitly_selected project \<or> \<not> pr_read_only project then Inl registered
          else
            let wanted = canonical_root e (pr_root project) in
            if length (filter (\<lambda>p. canonical_root e (pr_root p) = wanted) (st_projects s)) \<noteq> 1 then
              Inl (ValueError ''Registered project roots must map to exactly one project identity.'')
            else if \<exists>other\<in>set (st_projects s). pr_id other \<noteq> pr_id project \<and>
                overlaps wanted (canonical_root e (pr_root other)) then
              Inl (ValueError ''Registered project roots must not overlap or contain one another.'')
            else Inr project)"

section \<open>Policies\<close>

definition budget_dump :: "ticket_budget \<Rightarrow> rat py_dict" where
  "budget_dump b =
     [(''max_tokens'', of_int (tb_max_tokens b)), (''max_model_calls'', of_int (tb_max_model_calls b)),
      (''max_worker_calls'', of_int (tb_max_worker_calls b)),
      (''max_wall_time_seconds'', tb_max_wall_time_seconds b),
      (''max_branch_depth'', of_int (tb_max_branch_depth b))]"

definition policy_revision :: "project_governance_policy \<Rightarrow> project_policy_revision" where
  "policy_revision p =
     \<lparr>ppr_version = pol_version p, ppr_permitted_worker_ids = pol_permitted_worker_ids p,
      ppr_required_validation_categories = pol_required_validation_categories p,
      ppr_plan_approvers = pol_plan_approvers p, ppr_promotion_approvers = pol_promotion_approvers p,
      ppr_actor_roles = pol_actor_roles p, ppr_authority_mode = pol_authority_mode p,
      ppr_authority_organization_id = pol_authority_organization_id p,
      ppr_authenticated_role_bindings = pol_authenticated_role_bindings p,
      ppr_approval_rules = pol_approval_rules p,
      ppr_artifact_validation_requirements = pol_artifact_validation_requirements p,
      ppr_max_ticket_budget = budget_dump (pol_max_ticket_budget p),
      ppr_configured_by = pol_configured_by p, ppr_reason = pol_reason p,
      ppr_created_at = pol_updated_at p\<rparr>"

definition default_rules :: "approval_policy_rule list" where
  "default_rules =
     map (\<lambda>(i, a). \<lparr>apr_id = i, apr_action = a, apr_required_roles = [], apr_minimum_approvals = 1,
                   apr_artifact_kinds = [], apr_required_validation_categories = []\<rparr>)
       [(''PLAN-APPROVAL'', ''PLAN''), (''PROMOTION-APPROVAL'', ''PROMOTION''),
        (''VALIDATION-ATTESTATION'', ''ATTESTATION'')]"

definition default_budget :: ticket_budget where
  "default_budget =
     \<lparr>tb_max_tokens = 50000, tb_max_model_calls = 10, tb_max_worker_calls = 10,
      tb_max_wall_time_seconds = 900, tb_max_branch_depth = 4\<rparr>"

definition default_policy :: "string \<Rightarrow> py_time \<Rightarrow> string \<Rightarrow> string \<Rightarrow> project_governance_policy" where
  "default_policy new_id now project_id project_root =
     \<lparr>pol_id = new_id, pol_project_id = project_id, pol_project_root = project_root,
      pol_permitted_worker_ids = [''*''], pol_required_validation_categories = [],
      pol_plan_approvers = [''*''], pol_promotion_approvers = [''*''], pol_actor_roles = [],
      pol_authority_mode = ''INDIVIDUAL_LOCAL'', pol_authority_organization_id = None,
      pol_authenticated_role_bindings = [], pol_approval_rules = default_rules,
      pol_artifact_validation_requirements = [], pol_max_ticket_budget = default_budget,
      pol_configured_by = ''RLMGraph default governance'',
      pol_reason = ''Compatibility policy created for an explicitly registered project.'',
      pol_version = 1, pol_revision_history = [], pol_updated_at = now\<rparr>"

definition append_revision :: "project_governance_policy \<Rightarrow> project_governance_policy" where
  "append_revision p = p\<lparr>pol_revision_history := pol_revision_history p @ [policy_revision p]\<rparr>"

definition validate_binding :: "env \<Rightarrow> project_governance_policy \<Rightarrow> project_record \<Rightarrow> unit result" where
  "validate_binding e policy project =
     (if pol_project_id policy \<noteq> pr_id project \<or>
         canonical_root e (pol_project_root policy) \<noteq> canonical_root e (pr_root project)
      then Inl (ValueError ''Project governance policy identity does not match its registered root.'')
      else Inr ())"

definition existing_policy :: "store \<Rightarrow> string \<Rightarrow> project_governance_policy option" where
  "existing_policy s project_id =
     find (\<lambda>p. pol_project_id p = project_id) (project_governance_policies s)"

definition governance_policy ::
  "env \<Rightarrow> string \<Rightarrow> py_time \<Rightarrow> string \<Rightarrow> store \<Rightarrow> project_governance_policy result \<times> store" where
  "governance_policy e new_id now project_id s =
     (case governed_project e s project_id of
        Inl x \<Rightarrow> (Inl x, s)
      | Inr project \<Rightarrow>
          (case existing_policy s project_id of
             Some p \<Rightarrow> (case validate_binding e p project of Inl x \<Rightarrow> (Inl x, s) | Inr _ \<Rightarrow> (Inr p, s))
           | None \<Rightarrow>
               let p = append_revision (default_policy new_id now (pr_id project) (env_resolve e (pr_root project)))
               in (Inr p, save_project_governance_policy p s)))"

text \<open>The keyword arguments of \<open>configure\<close>; the optional ones default to the current policy.\<close>

record policy_request =
  rq_permitted_worker_ids :: "string list"
  rq_required_validation_categories :: "string list"
  rq_plan_approvers :: "string list"
  rq_promotion_approvers :: "string list"
  rq_max_ticket_budget :: ticket_budget
  rq_actor :: string
  rq_reason :: string
  rq_actor_roles :: "string list py_dict option"
  rq_approval_rules :: "approval_policy_rule list option"
  rq_artifact_validation_requirements :: "string list py_dict option"
  rq_authority_mode :: "string option"
  rq_authority_organization_id :: "string option"
  rq_authenticated_role_bindings :: "string list py_dict option"

definition given_or :: "'a option \<Rightarrow> 'b option \<Rightarrow> ('b \<Rightarrow> 'a) \<Rightarrow> 'a \<Rightarrow> 'a" where
  "given_or given current f otherwise =
     (case given of Some x \<Rightarrow> x | None \<Rightarrow> (case current of Some c \<Rightarrow> f c | None \<Rightarrow> otherwise))"

definition authority_modes :: "string list" where
  "authority_modes = [''INDIVIDUAL_LOCAL'', ''AUTHENTICATED_TEAM'']"

definition validate_rules :: "project_governance_policy \<Rightarrow> unit result" where
  "validate_rules p =
     (if pol_authority_mode p \<notin> set authority_modes then
        Inl (ValueError ''Authority mode must be INDIVIDUAL_LOCAL or AUTHENTICATED_TEAM.'')
      else if pol_authority_mode p = ''AUTHENTICATED_TEAM'' \<and>
          (pol_authority_organization_id p = None \<or> pol_authority_organization_id p = Some []) then
        Inl (ValueError ''Authenticated team policy requires an organization identity.'')
      else if pol_authority_mode p = ''AUTHENTICATED_TEAM'' \<and> pol_authenticated_role_bindings p = [] then
        Inl (ValueError ''Authenticated team policy requires durable subject role bindings.'')
      else if \<not> distinct (map apr_id (pol_approval_rules p)) then
        Inl (ValueError ''Project approval policy rule IDs must be unique.'')
      else
        (case find (\<lambda>action. \<not> (\<exists>r\<in>set (pol_approval_rules p). py_upper (apr_action r) = action))
            [''PLAN'', ''PROMOTION'', ''ATTESTATION''] of
           None \<Rightarrow> Inr ()
         | Some action \<Rightarrow>
             Inl (ValueError (''Project policy requires at least one '' @ action @ '' rule.''))))"

definition configured_policy ::
  "env \<Rightarrow> string \<Rightarrow> py_time \<Rightarrow> project_record \<Rightarrow> project_governance_policy option \<Rightarrow> policy_request
     \<Rightarrow> project_governance_policy" where
  "configured_policy e new_id now project current q =
     \<lparr>pol_id = (case current of Some c \<Rightarrow> pol_id c | None \<Rightarrow> new_id),
      pol_project_id = pr_id project,
      pol_project_root = env_resolve e (pr_root project),
      pol_permitted_worker_ids = dict_fromkeys (rq_permitted_worker_ids q),
      pol_required_validation_categories = dict_fromkeys (map py_upper (rq_required_validation_categories q)),
      pol_plan_approvers = dict_fromkeys (rq_plan_approvers q),
      pol_promotion_approvers = dict_fromkeys (rq_promotion_approvers q),
      pol_actor_roles = given_or (rq_actor_roles q) current pol_actor_roles [],
      pol_authority_mode =
        (case rq_authority_mode q of
           Some (c # m) \<Rightarrow> c # m
         | _ \<Rightarrow> (case current of Some c \<Rightarrow> pol_authority_mode c | None \<Rightarrow> ''INDIVIDUAL_LOCAL'')),
      pol_authority_organization_id =
        (case rq_authority_organization_id q of
           Some x \<Rightarrow> Some x
         | None \<Rightarrow> (case current of Some c \<Rightarrow> pol_authority_organization_id c | None \<Rightarrow> None)),
      pol_authenticated_role_bindings =
        given_or (rq_authenticated_role_bindings q) current pol_authenticated_role_bindings [],
      pol_approval_rules = given_or (rq_approval_rules q) current pol_approval_rules default_rules,
      pol_artifact_validation_requirements =
        dict_of_pairs (map (\<lambda>(k, v). (py_upper k, dict_fromkeys (map py_upper v)))
          (given_or (rq_artifact_validation_requirements q) current pol_artifact_validation_requirements [])),
      pol_max_ticket_budget = rq_max_ticket_budget q,
      pol_configured_by = py_strip (rq_actor q),
      pol_reason = py_strip (rq_reason q),
      pol_version = (case current of Some c \<Rightarrow> pol_version c + 1 | None \<Rightarrow> 1),
      pol_revision_history = (case current of Some c \<Rightarrow> pol_revision_history c | None \<Rightarrow> []),
      pol_updated_at = now\<rparr>"

definition configure ::
  "env \<Rightarrow> string \<Rightarrow> py_time \<Rightarrow> string \<Rightarrow> policy_request \<Rightarrow> store \<Rightarrow> project_governance_policy result \<times> store" where
  "configure e new_id now project_id q s =
     (case governed_project e s project_id of
        Inl x \<Rightarrow> (Inl x, s)
      | Inr project \<Rightarrow>
          if blank (rq_actor q) \<or> blank (rq_reason q) then
            (Inl (ValueError ''Project policy changes require an attributable actor and reason.''), s)
          else
            (case find (\<lambda>(label, values). values = [] \<or> (\<exists>v\<in>set values. blank v))
                [(''permitted workers'', rq_permitted_worker_ids q),
                 (''plan approvers'', rq_plan_approvers q),
                 (''promotion approvers'', rq_promotion_approvers q)] of
               Some (label, _) \<Rightarrow> (Inl (ValueError (''Project policy requires explicit '' @ label @ ''.'')), s)
             | None \<Rightarrow>
                 let p = configured_policy e new_id now project (existing_policy s project_id) q in
                 (case validate_rules p of
                    Inl x \<Rightarrow> (Inl x, s)
                  | Inr _ \<Rightarrow>
                      let p' = append_revision p in (Inr p', save_project_governance_policy p' s))))"

section \<open>Bindings\<close>

definition binding :: "env \<Rightarrow> (string \<times> json) list \<Rightarrow> string" where
  "binding e values = env_sha256 e (canonical_json (JObj values))"

definition evidence_json :: "evidence \<Rightarrow> json" where
  "evidence_json v =
     JObj [(''path'', JStr (ev_path v)), (''detail'', JStr (ev_detail v)), (''line'', JOptInt (ev_line v))]"

definition artifact_kind_of :: "string \<Rightarrow> string" where
  "artifact_kind_of path =
     (case map_of
        [(''.py'', ''PYTHON''), (''.pyi'', ''PYTHON''), (''.cpp'', ''CPP''), (''.cc'', ''CPP''), (''.cxx'', ''CPP''),
         (''.h'', ''CPP''), (''.hpp'', ''CPP''), (''.uasset'', ''UNREAL_ASSET''), (''.umap'', ''UNREAL_MAP''),
         (''.ini'', ''CONFIG''), (''.json'', ''CONFIG''), (''.uproject'', ''UNREAL_PROJECT''),
         (''.uplugin'', ''UNREAL_PLUGIN'')] (py_lower (path_suffix path)) of
        Some k \<Rightarrow> k | None \<Rightarrow> ''FILE'')"

definition artifact_kinds :: "string list \<Rightarrow> string list" where
  "artifact_kinds paths = sorted_set (map artifact_kind_of paths)"

definition plan_requirements_sha :: "env \<Rightarrow> project_workspace_record \<Rightarrow> string" where
  "plan_requirements_sha e plan =
     binding e [(''validation_requirements'', JStrs (pwr_validation_requirements plan)),
                (''affected_paths'', JStrs (pwr_affected_paths plan)),
                (''steps'', JStrs (pwr_steps plan)),
                (''risks'', JStrs (pwr_risks plan))]"

definition plan_evidence_sha :: "env \<Rightarrow> project_workspace_record \<Rightarrow> string" where
  "plan_evidence_sha e plan = binding e [(''evidence'', JList (map evidence_json (pwr_evidence plan)))]"

definition plan_binding ::
  "env \<Rightarrow> project_governance_policy \<Rightarrow> project_workspace_record \<Rightarrow> string \<times> string \<times> string" where
  "plan_binding e policy plan =
     (let requirements = plan_requirements_sha e plan; evidence = plan_evidence_sha e plan
      in (binding e
            [(''project_id'', JStr (pwr_project_id plan)),
             (''project_root'', JStr (canonical_root e (pwr_project_root plan))),
             (''artifact_id'', JStr (pwr_id plan)),
             (''source_manifest_sha256'', JStr (pwr_final_manifest_sha256 plan)),
             (''requirements_sha256'', JStr requirements),
             (''evidence_sha256'', JStr evidence),
             (''policy_id'', JStr (pol_id policy)),
             (''policy_version'', JInt (pol_version policy))],
          requirements, evidence))"

definition attempt_requirements_sha :: "env \<Rightarrow> implementation_sandbox_attempt \<Rightarrow> string" where
  "attempt_requirements_sha e attempt =
     binding e [(''decisions'', JList (map (\<lambda>d. JObj
       [(''id'', JStr (svd_id d)), (''path'', JStr (svd_path d)), (''artifact_kind'', JStr (svd_artifact_kind d)),
        (''category'', JStr (svd_category d)), (''requirement'', JStr (svd_requirement d)),
        (''requires_unreal_editor'', JBool (svd_requires_unreal_editor d))])
       (isa_validation_decisions attempt)))]"

definition attempt_evidence_sha :: "env \<Rightarrow> implementation_sandbox_attempt \<Rightarrow> string" where
  "attempt_evidence_sha e attempt =
     binding e [(''decisions'', JList (map (\<lambda>d. JObj
       [(''id'', JStr (svd_id d)), (''status'', JStr (svd_status d)),
        (''worker_execution_id'', JOptStr (svd_worker_execution_id d)),
        (''external_report_id'', JOptStr (svd_external_report_id d)),
        (''evidence'', JList (map evidence_json (svd_evidence d)))])
       (isa_validation_decisions attempt)))]"

definition attempt_binding ::
  "env \<Rightarrow> project_governance_policy \<Rightarrow> implementation_sandbox_attempt \<Rightarrow> string \<Rightarrow> string \<times> string \<times> string" where
  "attempt_binding e policy attempt patch_sha256 =
     (let requirements = attempt_requirements_sha e attempt; evidence = attempt_evidence_sha e attempt
      in (binding e
            [(''project_id'', JStr (isa_project_id attempt)),
             (''project_root'', JStr (canonical_root e (isa_project_root attempt))),
             (''artifact_id'', JStr (isa_id attempt)),
             (''source_manifest_sha256'', JStr (isa_initial_manifest_sha256 attempt)),
             (''patch_sha256'', JStr patch_sha256),
             (''requirements_sha256'', JStr requirements),
             (''evidence_sha256'', JStr evidence),
             (''policy_id'', JStr (pol_id policy)),
             (''policy_version'', JInt (pol_version policy))],
          requirements, evidence))"

section \<open>Decisions\<close>

definition policy_rules ::
  "project_governance_policy \<Rightarrow> string \<Rightarrow> string list \<Rightarrow> approval_policy_rule list result" where
  "policy_rules policy action kinds =
     (let rules = filter (\<lambda>r. py_upper (apr_action r) = py_upper action \<and>
            (apr_artifact_kinds r = [] \<or> set (map py_upper kinds) \<inter> set (apr_artifact_kinds r) \<noteq> {}))
          (pol_approval_rules policy)
      in if rules = [] then
           Inl (ValueError (''Project policy has no rule for '' @ py_upper action @ '' decisions.''))
         else Inr rules)"

record authenticated_identity =
  ai_subject :: string
  ai_organization_id :: string
  ai_session_id :: string
  ai_authentication_method :: string
  ai_authenticated_at :: py_time
  ai_expires_at :: py_time

record decision_request =
  dr_action :: string
  dr_artifact_id :: string
  dr_artifact_kinds :: "string list"
  dr_decision :: string
  dr_actor :: string
  dr_reason :: string
  dr_binding_sha256 :: string
  dr_source_manifest_sha256 :: "string option"
  dr_patch_sha256 :: "string option"
  dr_requirements_sha256 :: "string option"
  dr_evidence_sha256 :: "string option"
  dr_identity :: "authenticated_identity option"

definition actor_roles :: "project_governance_policy \<Rightarrow> decision_request \<Rightarrow> string list result" where
  "actor_roles policy q =
     (if pol_authority_mode policy = ''AUTHENTICATED_TEAM'' then
        (case dr_identity q of
           None \<Rightarrow> Inl (ValueError ''Team approval requires an authenticated, unexpired session.'')
         | Some i \<Rightarrow>
             if py_strip (dr_actor q) \<noteq> ai_subject i then
               Inl (ValueError ''Actor label does not match the authenticated subject.'')
             else if Some (ai_organization_id i) \<noteq> pol_authority_organization_id policy then
               Inl (ValueError ''Authenticated identity belongs to a different organization.'')
             else Inr (dict_get_default [] (ai_subject i) (pol_authenticated_role_bindings policy)))
      else Inr (dict_get_default [] (py_strip (dr_actor q)) (pol_actor_roles policy)))"

definition role_allowed :: "string list \<Rightarrow> approval_policy_rule \<Rightarrow> bool" where
  "role_allowed roles rule \<longleftrightarrow> apr_required_roles rule = [] \<or> set roles \<inter> set (apr_required_roles rule) \<noteq> {}"

definition new_decision ::
  "project_governance_policy \<Rightarrow> decision_request \<Rightarrow> string list \<Rightarrow> string \<Rightarrow> py_time \<Rightarrow> approval_policy_rule
     \<Rightarrow> governance_decision" where
  "new_decision policy q roles new_id now rule =
     \<lparr>gd_id = new_id, gd_project_id = pol_project_id policy, gd_project_root = pol_project_root policy,
      gd_action = py_upper (dr_action q), gd_artifact_id = dr_artifact_id q,
      gd_decision = py_upper (dr_decision q), gd_actor = py_strip (dr_actor q), gd_actor_roles = roles,
      gd_authenticated_subject = map_option ai_subject (dr_identity q),
      gd_authentication_method = map_option ai_authentication_method (dr_identity q),
      gd_organization_id = map_option ai_organization_id (dr_identity q),
      gd_session_id = map_option ai_session_id (dr_identity q),
      gd_reason = py_strip (dr_reason q), gd_policy_id = pol_id policy, gd_policy_version = pol_version policy,
      gd_rule_id = apr_id rule, gd_binding_sha256 = dr_binding_sha256 q,
      gd_source_manifest_sha256 = dr_source_manifest_sha256 q, gd_patch_sha256 = dr_patch_sha256 q,
      gd_requirements_sha256 = dr_requirements_sha256 q, gd_evidence_sha256 = dr_evidence_sha256 q,
      gd_valid = True, gd_expiration_reason = None, gd_created_at = now\<rparr>"

text \<open>The record of the \<open>k\<close>-th matching rule takes the \<open>k\<close>-th fresh identifier and clock reading.\<close>

definition record_decisions ::
  "(nat \<Rightarrow> string) \<Rightarrow> (nat \<Rightarrow> py_time) \<Rightarrow> project_governance_policy \<Rightarrow> decision_request
     \<Rightarrow> governance_decision list result" where
  "record_decisions ids clock policy q =
     (if py_upper (dr_decision q) \<notin> {''APPROVED'', ''DENIED''} \<or> blank (dr_actor q) \<or> blank (dr_reason q) then
        Inl (ValueError ''Governance decisions require an actor, reason, and APPROVED or DENIED decision.'')
      else
        (case policy_rules policy (py_upper (dr_action q)) (dr_artifact_kinds q) of
           Inl x \<Rightarrow> Inl x
         | Inr rules \<Rightarrow>
             (case actor_roles policy q of
                Inl x \<Rightarrow> Inl x
              | Inr roles \<Rightarrow>
                  let matching = filter (role_allowed roles) rules in
                  if matching = [] then
                    Inl (ValueError (''Actor lacks a role required by the applicable policy rules: '' @
                      py_join '', '' (sorted_set (concat (map apr_required_roles rules)))))
                  else Inr (map (\<lambda>(k, rule). new_decision policy q roles (ids k) (clock k) rule)
                              (enumerate 0 matching)))))"

text \<open>The approvals a rule may count: bound to the current policy version and to the content now
  under review; in team mode, given by the authenticated subject itself.\<close>

definition candidates ::
  "project_governance_policy \<Rightarrow> string \<Rightarrow> string \<Rightarrow> governance_decision list \<Rightarrow> approval_policy_rule
     \<Rightarrow> governance_decision list" where
  "candidates policy action bind history rule =
     (let found = filter (\<lambda>d. gd_action d = py_upper action \<and> gd_rule_id d = apr_id rule \<and>
            gd_decision d = ''APPROVED'' \<and> gd_policy_id d = pol_id policy \<and>
            gd_policy_version d = pol_version policy \<and> gd_binding_sha256 d = bind) history
      in if pol_authority_mode policy = ''AUTHENTICATED_TEAM'' then
           filter (\<lambda>d. gd_authenticated_subject d = Some (gd_actor d) \<and>
             gd_organization_id d = pol_authority_organization_id policy \<and>
             gd_authentication_method d \<notin> {None, Some []}) found
         else found)"

definition counted_actors :: "project_governance_policy \<Rightarrow> governance_decision list \<Rightarrow> nat" where
  "counted_actors policy ds =
     (if pol_authority_mode policy = ''AUTHENTICATED_TEAM'' then card (set (map gd_authenticated_subject ds))
      else card (set (map gd_actor ds)))"

definition rule_missing ::
  "project_governance_policy \<Rightarrow> string \<Rightarrow> string \<Rightarrow> governance_decision list \<Rightarrow> approval_policy_rule \<Rightarrow> string list" where
  "rule_missing policy action bind history rule =
     (let ds = candidates policy action bind history rule; n = int (counted_actors policy ds)
      in (if n < apr_minimum_approvals rule then
            [apr_id rule @ '': '' @ py_str_int (apr_minimum_approvals rule - n) @
               '' additional independent approval(s)'']
          else []) @
         map (\<lambda>role. apr_id rule @ '': reviewer role '' @ role)
           (filter (\<lambda>role. \<not> (\<exists>d\<in>set ds. role \<in> set (gd_actor_roles d))) (apr_required_roles rule)))"

definition expiration ::
  "project_governance_policy \<Rightarrow> string \<Rightarrow> string \<Rightarrow> governance_decision \<Rightarrow> string option" where
  "expiration policy action bind d =
     (if gd_action d \<noteq> py_upper action then None
      else if gd_policy_id d \<noteq> pol_id policy \<or> gd_policy_version d \<noteq> pol_version policy then
        Some (gd_id d @ '': policy version changed'')
      else if gd_binding_sha256 d \<noteq> bind then
        Some (gd_id d @ '': bound source, patch, requirements, or evidence changed'')
      else None)"

definition evaluate ::
  "project_governance_policy \<Rightarrow> string \<Rightarrow> string list \<Rightarrow> string \<Rightarrow> governance_decision list
     \<Rightarrow> (bool \<times> string list \<times> string list) result" where
  "evaluate policy action kinds bind history =
     (case policy_rules policy action kinds of
        Inl x \<Rightarrow> Inl x
      | Inr rules \<Rightarrow>
          let missing = concat (map (rule_missing policy action bind history) rules)
          in Inr (missing = [], missing, dict_fromkeys (List.map_filter (expiration policy action bind) history)))"

section \<open>Checks\<close>

definition artifact_validation_categories ::
  "project_governance_policy \<Rightarrow> string list \<Rightarrow> string list result" where
  "artifact_validation_categories policy kinds =
     (case policy_rules policy ''PROMOTION'' kinds of
        Inl x \<Rightarrow> Inl x
      | Inr rules \<Rightarrow>
          Inr (dict_fromkeys
            (pol_required_validation_categories policy @
             concat (map (\<lambda>k. dict_get_default [] (py_upper k) (pol_artifact_validation_requirements policy)) kinds) @
             concat (map apr_required_validation_categories rules))))"

definition budget_limits :: "(string \<times> (ticket_budget \<Rightarrow> rat)) list" where
  "budget_limits =
     [(''max_tokens'', \<lambda>b. of_int (tb_max_tokens b)), (''max_model_calls'', \<lambda>b. of_int (tb_max_model_calls b)),
      (''max_worker_calls'', \<lambda>b. of_int (tb_max_worker_calls b)),
      (''max_wall_time_seconds'', tb_max_wall_time_seconds),
      (''max_branch_depth'', \<lambda>b. of_int (tb_max_branch_depth b))]"

definition assert_budget :: "project_governance_policy \<Rightarrow> ticket_budget \<Rightarrow> unit result" where
  "assert_budget policy budget =
     (let exceeded = map fst (filter (\<lambda>(_, f). f (pol_max_ticket_budget policy) < f budget) budget_limits)
      in if exceeded \<noteq> [] then
           Inl (ValueError (''Policy rule BUDGET-CEILING denied: Ticket budget exceeds project policy: '' @
             py_join '', '' exceeded))
         else Inr ())"

definition assert_actor :: "string list \<Rightarrow> string \<Rightarrow> string \<Rightarrow> unit result" where
  "assert_actor allowed actor action =
     (if ''*'' \<notin> set allowed \<and> actor \<notin> set allowed then
        Inl (ValueError (''Policy rule ACTOR-ALLOWLIST denied '' @ py_lower action @ '': actor is not authorized.''))
      else Inr ())"

definition assert_worker :: "project_governance_policy \<Rightarrow> string \<Rightarrow> unit result" where
  "assert_worker policy worker_id =
     (if ''*'' \<notin> set (pol_permitted_worker_ids policy) \<and> worker_id \<notin> set (pol_permitted_worker_ids policy) then
        Inl (ValueError ''Policy rule WORKER-ALLOWLIST denied: validation worker is not permitted.'')
      else Inr ())"

definition assert_required_validations ::
  "project_governance_policy \<Rightarrow> sandbox_validation_decision list \<Rightarrow> string list option \<Rightarrow> unit result" where
  "assert_required_validations policy decisions kinds =
     (let satisfied = map (\<lambda>d. py_upper (svd_category d))
            (filter (\<lambda>d. svd_status d \<in> {''PASSED'', ''SATISFIED''}) decisions)
      in case artifact_validation_categories policy
            (case kinds of Some (k # ks) \<Rightarrow> k # ks | _ \<Rightarrow> map svd_artifact_kind decisions) of
           Inl x \<Rightarrow> Inl x
         | Inr required \<Rightarrow>
             let missing = sorted_set (filter (\<lambda>c. c \<notin> set satisfied) required)
             in if missing \<noteq> [] then
                  Inl (ValueError (''Policy rule REQUIRED-VALIDATION requires validation categories: '' @
                    py_join '', '' missing))
                else Inr ())"

section \<open>What the evaluation counts\<close>

definition approves ::
  "project_governance_policy \<Rightarrow> string \<Rightarrow> string \<Rightarrow> approval_policy_rule \<Rightarrow> governance_decision \<Rightarrow> bool" where
  "approves policy action bind rule d \<longleftrightarrow>
     gd_action d = py_upper action \<and> gd_rule_id d = apr_id rule \<and> gd_decision d = ''APPROVED'' \<and>
     gd_policy_id d = pol_id policy \<and> gd_policy_version d = pol_version policy \<and> gd_binding_sha256 d = bind \<and>
     (pol_authority_mode policy = ''AUTHENTICATED_TEAM'' \<longrightarrow>
        gd_authenticated_subject d = Some (gd_actor d) \<and>
        gd_organization_id d = pol_authority_organization_id policy \<and>
        gd_authentication_method d \<notin> {None, Some []})"

lemma set_candidates: "set (candidates policy action bind history rule) = {d \<in> set history. approves policy action bind rule d}"
  by (auto simp: candidates_def approves_def Let_def)

lemma counted_candidates:
  "counted_actors policy (candidates policy action bind history rule) =
     card (gd_actor ` {d \<in> set history. approves policy action bind rule d})"
proof (cases "pol_authority_mode policy = ''AUTHENTICATED_TEAM''")
  case True
  let ?D = "{d \<in> set history. approves policy action bind rule d}"
  have "gd_authenticated_subject ` ?D = Some ` gd_actor ` ?D"
    using True by (auto simp: approves_def image_image intro!: image_cong)
  moreover have "card (Some ` gd_actor ` ?D) = card (gd_actor ` ?D)"
    by (rule card_image) simp
  ultimately show ?thesis using True by (simp add: counted_actors_def set_candidates)
next
  case False
  then show ?thesis by (simp add: counted_actors_def set_candidates)
qed

text \<open>The abstract requirement of one rule: enough different actors approved, and every required role
  was held by one of them.\<close>

definition rule_satisfied ::
  "project_governance_policy \<Rightarrow> string \<Rightarrow> string \<Rightarrow> governance_decision list \<Rightarrow> approval_policy_rule \<Rightarrow> bool" where
  "rule_satisfied policy action bind history rule \<longleftrightarrow>
     apr_minimum_approvals rule \<le> int (card (gd_actor ` {d \<in> set history. approves policy action bind rule d})) \<and>
     (\<forall>role\<in>set (apr_required_roles rule).
        \<exists>d\<in>set history. approves policy action bind rule d \<and> role \<in> set (gd_actor_roles d))"

lemma rule_missing_Nil: "rule_missing policy action bind history rule = [] \<longleftrightarrow> rule_satisfied policy action bind history rule"
  by (auto simp: rule_missing_def rule_satisfied_def Let_def counted_candidates set_candidates filter_empty_conv)

definition applicable :: "project_governance_policy \<Rightarrow> string \<Rightarrow> string list \<Rightarrow> approval_policy_rule \<Rightarrow> bool" where
  "applicable policy action kinds rule \<longleftrightarrow> rule \<in> set (pol_approval_rules policy) \<and>
     py_upper (apr_action rule) = py_upper action \<and>
     (apr_artifact_kinds rule = [] \<or> (\<exists>k\<in>set kinds. py_upper k \<in> set (apr_artifact_kinds rule)))"

lemma policy_rules_eq:
  "policy_rules policy action kinds =
     (let rules = filter (applicable policy action kinds) (pol_approval_rules policy)
      in if rules = [] then
           Inl (ValueError (''Project policy has no rule for '' @ py_upper action @ '' decisions.''))
         else Inr rules)"
proof -
  have "filter (\<lambda>r. py_upper (apr_action r) = py_upper action \<and>
            (apr_artifact_kinds r = [] \<or> set (map py_upper kinds) \<inter> set (apr_artifact_kinds r) \<noteq> {}))
          (pol_approval_rules policy) = filter (applicable policy action kinds) (pol_approval_rules policy)"
    by (rule filter_cong [OF refl]) (auto simp: applicable_def)
  then show ?thesis unfolding policy_rules_def by simp
qed

lemma set_policy_rules: "policy_rules policy action kinds = Inr rules \<Longrightarrow> set rules = {r. applicable policy action kinds r}"
  by (auto simp: policy_rules_eq Let_def applicable_def split: if_splits)

lemma policy_rules_Inl: "policy_rules policy action kinds = Inl x \<Longrightarrow> \<not> applicable policy action kinds r"
  by (auto simp: policy_rules_eq Let_def filter_empty_conv applicable_def split: if_splits)

section \<open>The policy table\<close>

definition policy_history_ok :: "project_governance_policy \<Rightarrow> bool" where
  "policy_history_ok p \<longleftrightarrow>
     1 \<le> pol_version p \<and> map ppr_version (pol_revision_history p) = [1..pol_version p] \<and>
     last (pol_revision_history p) = policy_revision p"

definition policies_ok :: "store \<Rightarrow> bool" where
  "policies_ok s \<longleftrightarrow> distinct (map pol_project_id (st_policies s)) \<and> distinct (map pol_id (st_policies s)) \<and>
     (\<forall>p\<in>set (st_policies s). policy_history_ok p)"

definition policy_version :: "store \<Rightarrow> string \<Rightarrow> int" where
  "policy_version s project_id = (case existing_policy s project_id of None \<Rightarrow> 0 | Some p \<Rightarrow> pol_version p)"

lemma existing_policy_Some:
  "existing_policy s k = Some p \<Longrightarrow> p \<in> set (st_policies s) \<and> pol_project_id p = k"
  by (auto simp: existing_policy_def project_governance_policies_def dest!: find_Some_set)

lemma existing_policy_None: "existing_policy s k = None \<longleftrightarrow> (\<forall>p\<in>set (st_policies s). pol_project_id p \<noteq> k)"
  by (auto simp: existing_policy_def project_governance_policies_def find_None_iff)

lemma existing_policy_unique:
  assumes "distinct (map pol_project_id (st_policies s))" and "p \<in> set (st_policies s)"
  shows "existing_policy s (pol_project_id p) = Some p"
proof (cases "existing_policy s (pol_project_id p)")
  case None
  with assms(2) show ?thesis by (auto simp: existing_policy_None)
next
  case (Some q)
  with existing_policy_Some [OF Some] assms show ?thesis by (auto simp: distinct_map inj_on_def)
qed

lemma policies_ok_save:
  assumes "policies_ok s" and "policy_history_ok p"
  shows "policies_ok (save_project_governance_policy p s)"
  using assms
  by (auto simp: policies_ok_def save_project_governance_policy_def distinct_map inj_on_def)

lemma append_revision_ok:
  assumes "1 \<le> pol_version p" and "map ppr_version (pol_revision_history p) = [1..pol_version p - 1]"
  shows "policy_history_ok (append_revision p)"
proof -
  have "[1..pol_version p] = [1..pol_version p - 1] @ [pol_version p]"
    using assms(1) upto_rec2 [of 1 "pol_version p"] by simp
  with assms show ?thesis
    by (simp add: policy_history_ok_def append_revision_def policy_revision_def)
qed

lemma configured_policy_version:
  assumes "policies_ok s" and "q' = configured_policy e i t project (existing_policy s k) q"
  shows "policy_history_ok (append_revision q')"
proof (rule append_revision_ok)
  show "1 \<le> pol_version q'" and "map ppr_version (pol_revision_history q') = [1..pol_version q' - 1]"
    using assms existing_policy_Some [of s k]
    by (auto simp: configured_policy_def policies_ok_def policy_history_ok_def split: option.splits)
qed

text \<open>The outcome of the two operations on the table: nothing, or one saved policy of the project.\<close>

lemma governed_project_id: "governed_project e s k = Inr project \<Longrightarrow> pr_id project = k"
  by (auto simp: governed_project_def Let_def split: option.splits if_splits dest!: find_Some_set)

lemma governance_policy_cases [consumes 1, case_names unchanged created]:
  assumes "governance_policy e i t k s = (r, s')"
  obtains "s' = s" | project :: project_record where "existing_policy s k = None" "pr_id project = k"
    "s' = save_project_governance_policy
       (append_revision (default_policy i t k (env_resolve e (pr_root project)))) s"
proof (cases "governed_project e s k")
  case (Inl x)
  with assms that(1) show thesis by (simp add: governance_policy_def)
next
  case (Inr project)
  note id = governed_project_id [OF Inr]
  show thesis
  proof (cases "existing_policy s k")
    case None
    with assms Inr id show thesis by (intro that(2) [of project]) (simp_all add: governance_policy_def Let_def)
  next
    case (Some p)
    with assms Inr that(1) show thesis by (simp add: governance_policy_def split: sum.splits)
  qed
qed

lemma configure_cases [consumes 1, case_names rejected saved]:
  assumes "configure e i t k q s = (r, s')"
  obtains x where "r = Inl x" "s' = s"
  | project :: project_record and p where "pr_id project = k" "p = configured_policy e i t project (existing_policy s k) q"
      "validate_rules p = Inr ()" "r = Inr (append_revision p)"
      "s' = save_project_governance_policy (append_revision p) s"
proof (cases "\<exists>x. r = Inl x \<and> s' = s")
  case True
  with that(1) show thesis by blast
next
  case False
  then obtain project where gov: "governed_project e s k = Inr project"
    using assms by (cases "governed_project e s k") (auto simp: configure_def)
  let ?p = "configured_policy e i t project (existing_policy s k) q"
  from gov False assms have valid: "validate_rules ?p = Inr ()"
    by (cases "validate_rules ?p") (auto simp: configure_def Let_def split: if_splits option.splits prod.splits)
  with gov False assms have "r = Inr (append_revision ?p)"
    and "s' = save_project_governance_policy (append_revision ?p) s"
    by (auto simp: configure_def Let_def split: if_splits option.splits prod.splits)
  with that(2) governed_project_id [OF gov] valid show thesis by blast
qed

text \<open>A step of the table: a policy is looked up (and created when missing), it is configured, or
  other parts of the store change. Identifiers drawn for new policies are fresh.\<close>

inductive policy_step :: "store \<Rightarrow> store \<Rightarrow> bool" where
  step_policy: "governance_policy e i t k s = (r, s') \<Longrightarrow> i \<notin> pol_id ` set (st_policies s) \<Longrightarrow> policy_step s s'"
| step_configure: "configure e i t k q s = (r, s') \<Longrightarrow> i \<notin> pol_id ` set (st_policies s) \<Longrightarrow> policy_step s s'"
| step_elsewhere: "st_policies s' = st_policies s \<Longrightarrow> policy_step s s'"

lemma policy_version_save:
  assumes "policies_ok s" and "distinct (map pol_project_id (st_policies s'))"
    and s': "s' = save_project_governance_policy p s"
    and own: "\<And>x. x \<in> set (st_policies s) \<Longrightarrow> pol_id x = pol_id p \<Longrightarrow> pol_project_id x = pol_project_id p"
  shows "policy_version s' k = (if k = pol_project_id p then pol_version p else policy_version s k)"
proof (cases "k = pol_project_id p")
  case True
  have "p \<in> set (st_policies s')" by (simp add: s' save_project_governance_policy_def)
  from existing_policy_unique [OF assms(2) this] True show ?thesis by (simp add: policy_version_def)
next
  case False
  have same: "x \<in> set (st_policies s') \<longleftrightarrow> x \<in> set (st_policies s)" if "pol_project_id x = k" for x
    using that False own by (auto simp: s' save_project_governance_policy_def)
  have "existing_policy s' k = existing_policy s k"
  proof (cases "existing_policy s k")
    case None
    with same have "existing_policy s' k = None" unfolding existing_policy_None by blast
    with None show ?thesis by simp
  next
    case (Some x)
    from existing_policy_Some [OF this] same have "x \<in> set (st_policies s')" "pol_project_id x = k" by auto
    with existing_policy_unique [OF assms(2)] Some show ?thesis by auto
  qed
  with False show ?thesis by (simp add: policy_version_def)
qed

lemma policy_step_ok: "policy_step s s' \<Longrightarrow> policies_ok s \<Longrightarrow> policies_ok s'"
proof (induction rule: policy_step.induct)
  case (step_policy e i t k s r s')
  from step_policy.hyps(1) show ?case
  proof (cases rule: governance_policy_cases)
    case unchanged
    with step_policy.prems show ?thesis by simp
  next
    case (created project)
    then show ?thesis
      using step_policy.prems by (auto intro!: policies_ok_save append_revision_ok simp: default_policy_def)
  qed
next
  case (step_configure e i t k q s r s')
  from step_configure.hyps(1) show ?case
  proof (cases rule: configure_cases)
    case rejected
    with step_configure.prems show ?thesis by simp
  next
    case (saved project p)
    then show ?thesis
      using configured_policy_version [OF step_configure.prems saved(2)] step_configure.prems
      by (simp add: policies_ok_save)
  qed
next
  case (step_elsewhere s' s)
  then show ?case by (simp add: policies_ok_def)
qed

lemma policy_step_version:
  assumes "policy_step s s'" and ok: "policies_ok s"
  shows "policy_version s k \<le> policy_version s' k"
  using assms(1)
proof cases
  case (step_policy e i t k' r)
  from step_policy(1) show ?thesis
  proof (cases rule: governance_policy_cases)
    case unchanged
    then show ?thesis by simp
  next
    case (created project)
    let ?p = "append_revision (default_policy i t k' (env_resolve e (pr_root project)))"
    have "policy_version s' k = (if k = pol_project_id ?p then pol_version ?p else policy_version s k)"
    proof (rule policy_version_save [OF ok _ created(3)])
      show "distinct (map pol_project_id (st_policies s'))"
        using policy_step_ok [OF assms] by (simp add: policies_ok_def)
    qed (use step_policy(2) in \<open>auto simp: append_revision_def default_policy_def\<close>)
    moreover have "policy_version s k' = 0" using created(1) by (simp add: policy_version_def)
    ultimately show ?thesis by (simp add: append_revision_def default_policy_def)
  qed
next
  case (step_configure e i t k' q r)
  from step_configure(1) show ?thesis
  proof (cases rule: configure_cases)
    case rejected
    then show ?thesis by simp
  next
    case (saved project p)
    let ?p = "append_revision p"
    have "policy_version s' k = (if k = pol_project_id ?p then pol_version ?p else policy_version s k)"
    proof (rule policy_version_save [OF ok _ saved(5)])
      show "distinct (map pol_project_id (st_policies s'))"
        using policy_step_ok [OF assms] by (simp add: policies_ok_def)
      fix x
      assume x: "x \<in> set (st_policies s)" and "pol_id x = pol_id ?p"
      with step_configure(2) saved(2) obtain c where c: "existing_policy s k' = Some c" and "pol_id x = pol_id c"
        by (auto simp: append_revision_def configured_policy_def split: option.splits)
      with ok x existing_policy_Some [OF c] have "x = c"
        by (auto simp: policies_ok_def distinct_map dest: inj_onD)
      with existing_policy_Some [OF c] saved(1,2) show "pol_project_id x = pol_project_id ?p"
        by (simp add: append_revision_def configured_policy_def)
    qed
    moreover have "pol_project_id ?p = k'" and "policy_version s k' + 1 = pol_version ?p"
      using saved(1,2) by (auto simp: append_revision_def configured_policy_def policy_version_def split: option.splits)
    ultimately show ?thesis by simp
  qed
next
  case step_elsewhere
  then show ?thesis by (simp add: policy_version_def existing_policy_def project_governance_policies_def)
qed

interpretation policy_table: monotone_system policy_step policies_ok policy_version
proof
  show "policies_ok s'" if "policy_step s s'" "policies_ok s" for s s'
    using that by (rule policy_step_ok)
  show "policy_version s \<le> policy_version s'" if "policy_step s s'" "policies_ok s" for s s'
    using policy_step_version [OF that] by (rule le_funI)
qed

section \<open>Properties\<close>

definition demo_project :: project_record where
  "demo_project =
     \<lparr>pr_id = ''p'', pr_root = ''/a'', pr_explicitly_selected = True, pr_read_only = True,
      pr_execution_mode = ProjectExecutionMode_READ_ONLY, pr_latest_scan_id = None, pr_organization = [],
      pr_project_manifest = [], pr_project_goals = [], pr_ideas = [], pr_created_at = 0\<rparr>"

definition demo_store :: store where
  "demo_store = empty_store\<lparr>st_projects := [demo_project]\<rparr>"

definition demo_policy :: project_governance_policy where
  "demo_policy = append_revision (default_policy ''g'' 5 ''p'' ''/a'')"

lemma evaluate_spec:
  "case evaluate policy action kinds bind history of
     Inl x \<Rightarrow> {r. applicable policy action kinds r} = {} \<and>
       x = ValueError (''Project policy has no rule for '' @ py_upper action @ '' decisions.'')
   | Inr (ok, missing, expired) \<Rightarrow>
       ok = (\<forall>rule\<in>{r. applicable policy action kinds r}. rule_satisfied policy action bind history rule) \<and>
       ok = (missing = [])"
proof (cases "policy_rules policy action kinds")
  case (Inl x)
  then show ?thesis
    using policy_rules_Inl [OF Inl]
    by (auto simp: evaluate_def policy_rules_eq Let_def split: if_splits)
next
  case (Inr rules)
  then show ?thesis
    by (simp add: evaluate_def Let_def rule_missing_Nil flip: set_policy_rules [OF Inr])
qed

text \<open>Approval means a quorum under the current policy: when a rule applies, an action is approved
  exactly if, for every applicable rule, enough different actors approved it and each required
  role was held by one of them, counting only approvals bound to this policy version and to the
  content now under review (in team mode: by the authenticated subject of the policy's
  organization). Without an applicable rule the evaluation raises.\<close>

theorem evaluate_quorum:
  "case evaluate policy action kinds bind history of
     Inl x \<Rightarrow> {r. applicable policy action kinds r} = {} \<and>
       x = ValueError (''Project policy has no rule for '' @ py_upper action @ '' decisions.'')
   | Inr (ok, missing, expired) \<Rightarrow>
       ok = (\<forall>rule\<in>{r. applicable policy action kinds r}. rule_satisfied policy action bind history rule) \<and>
       ok = (missing = [])"
  by (rule evaluate_spec)

definition demo_approval :: "int \<Rightarrow> governance_decision" where
  "demo_approval version =
     \<lparr>gd_id = ''d'', gd_project_id = ''p'', gd_project_root = ''/a'', gd_action = ''PLAN'',
       gd_artifact_id = ''r'', gd_decision = ''APPROVED'', gd_actor = ''ann'', gd_actor_roles = [],
       gd_authenticated_subject = None, gd_authentication_method = None, gd_organization_id = None,
       gd_session_id = None, gd_reason = ''ok'', gd_policy_id = ''g'', gd_policy_version = version,
       gd_rule_id = ''PLAN-APPROVAL'', gd_binding_sha256 = ''b'', gd_source_manifest_sha256 = None,
       gd_patch_sha256 = None, gd_requirements_sha256 = None, gd_evidence_sha256 = None, gd_valid = True,
       gd_expiration_reason = None, gd_created_at = 0\<rparr>"

theorem evaluate_quorum_witness:
  "rule_satisfied demo_policy ''plan'' ''b'' [demo_approval 1] (hd default_rules)"
proof -
  have "evaluate demo_policy ''plan'' [] ''b'' [demo_approval 1] = Inr (True, [], [])" by code_simp
  moreover have "applicable demo_policy ''plan'' [] (hd default_rules)" by code_simp
  ultimately show ?thesis
    using evaluate_quorum [of demo_policy "''plan''" "[]" "''b''" "[demo_approval 1]"] by simp
qed

text \<open>Reconfiguring a policy withdraws every earlier approval: after a successful change, decisions
  recorded under the previous version or before count for nothing, so the action is not approved,
  and each of them is reported as expired.\<close>

theorem reconfiguring_expires_approvals:
  assumes "configure e i t k q s = (Inr p, s')" and "existing_policy s k = Some c"
    and "\<forall>d\<in>set history. gd_policy_version d \<le> pol_version c"
    and "applicable p action kinds rule" and "1 \<le> apr_minimum_approvals rule"
  shows "\<exists>missing expired. evaluate p action kinds bind history = Inr (False, missing, expired) \<and>
    (\<forall>d\<in>set history. gd_action d = py_upper action \<longrightarrow> gd_id d @ '': policy version changed'' \<in> set expired)"
proof -
  have newer: "pol_version p = pol_version c + 1"
    using assms(1) assms(2)
    by (cases rule: configure_cases) (auto simp: append_revision_def configured_policy_def)
  obtain rules where rules: "policy_rules p action kinds = Inr rules"
    using assms(4) policy_rules_Inl by (cases "policy_rules p action kinds") blast+
  have "\<not> approves p action bind rule d" if "d \<in> set history" for d
    using assms(3) that newer by (auto simp: approves_def)
  then have none: "{d \<in> set history. approves p action bind rule d} = {}" by blast
  have "\<not> rule_satisfied p action bind history rule"
    unfolding rule_satisfied_def none using assms(5) by simp
  with rules set_policy_rules [OF rules] assms(4)
  have missing: "concat (map (rule_missing p action bind history) rules) \<noteq> []"
    by (auto simp: rule_missing_Nil)
  have "gd_id d @ '': policy version changed'' \<in> set (List.map_filter (expiration p action bind) history)"
    if "d \<in> set history" "gd_action d = py_upper action" for d
    using assms(3) that newer by (auto simp: set_map_filter expiration_def intro!: bexI [of _ d])
  with missing rules show ?thesis by (simp add: evaluate_def Let_def)
qed

definition demo_request :: policy_request where
  "demo_request =
     \<lparr>rq_permitted_worker_ids = [''*''], rq_required_validation_categories = [''tests''],
      rq_plan_approvers = [''ann''], rq_promotion_approvers = [''ann''], rq_max_ticket_budget = default_budget,
      rq_actor = ''ann'', rq_reason = ''tighten'', rq_actor_roles = None, rq_approval_rules = None,
      rq_artifact_validation_requirements = None, rq_authority_mode = None,
      rq_authority_organization_id = None, rq_authenticated_role_bindings = None\<rparr>"

definition demo_governed :: store where
  "demo_governed = save_project_governance_policy demo_policy demo_store"

theorem reconfiguring_expires_approvals_witness:
  "\<exists>missing expired. evaluate (projr (fst (configure plain_env ''h'' 9 ''p'' demo_request demo_governed)))
     ''plan'' [] ''b'' [demo_approval 1] = Inr (False, missing, expired)"
proof -
  let ?c = "configure plain_env ''h'' 9 ''p'' demo_request demo_governed"
  have "isl (fst ?c) = False" and "existing_policy demo_governed ''p'' = Some demo_policy"
    and "applicable (projr (fst ?c)) ''plan'' [] (hd default_rules)" and "pol_version demo_policy = 1"
    and "gd_policy_version (demo_approval 1) = 1" and "apr_minimum_approvals (hd default_rules) = 1"
    by code_simp+
  moreover from this(1) have "?c = (Inr (projr (fst ?c)), snd ?c)"
    by (cases ?c; cases "fst ?c") auto
  ultimately show ?thesis
    using reconfiguring_expires_approvals [of plain_env "''h''" 9 "''p''" demo_request demo_governed
        "projr (fst ?c)" "snd ?c" demo_policy "[demo_approval 1]" "''plan''" "[]" "hd default_rules" "''b''"]
    by auto
qed

text \<open>The policy table of a store that grew from the empty one holds one policy per project, whose
  revision history lists every version from 1 to the current one and ends with the current
  contents; and no later operation lowers the version of a project's policy.\<close>

theorem policy_history_complete:
  assumes "run_of policy_step empty_store s" and "run_of policy_step s s'"
  shows "distinct (map pol_project_id (st_policies s)) \<and>
    (\<forall>p\<in>set (st_policies s). map ppr_version (pol_revision_history p) = [1..pol_version p] \<and>
       last (pol_revision_history p) = policy_revision p) \<and>
    policy_version s k \<le> policy_version s' k"
proof -
  have "policies_ok empty_store" by (simp add: policies_ok_def empty_store_def)
  with policy_table.run_inv [OF assms(1)] have ok: "policies_ok s" .
  moreover from policy_table.run_mono [OF assms(2) ok] have "policy_version s k \<le> policy_version s' k"
    by (rule le_funD)
  ultimately show ?thesis by (simp add: policies_ok_def policy_history_ok_def)
qed

theorem policy_history_complete_witness:
  "policy_version demo_governed ''p'' \<le>
     policy_version (snd (configure plain_env ''h'' 9 ''p'' demo_request demo_governed)) ''p''"
proof -
  have "policy_step empty_store demo_store" by (rule step_elsewhere) (simp add: demo_store_def)
  moreover have "policy_step demo_store demo_governed"
  proof (rule step_policy)
    show "governance_policy plain_env ''g'' 5 ''p'' demo_store = (Inr demo_policy, demo_governed)" by code_simp
    show "''g'' \<notin> pol_id ` set (st_policies demo_store)" by code_simp
  qed
  ultimately have "run_of policy_step empty_store demo_governed" by (rule run_step [OF run_of_one])
  moreover have "policy_step demo_governed (snd (configure plain_env ''h'' 9 ''p'' demo_request demo_governed))"
  proof (rule step_configure)
    show "configure plain_env ''h'' 9 ''p'' demo_request demo_governed =
        (fst (configure plain_env ''h'' 9 ''p'' demo_request demo_governed),
         snd (configure plain_env ''h'' 9 ''p'' demo_request demo_governed))" by simp
    show "''h'' \<notin> pol_id ` set (st_policies demo_governed)" by code_simp
  qed
  ultimately show ?thesis using policy_history_complete [OF _ run_of_one] by blast
qed

text \<open>A normalised absolute POSIX path is the text of its components.\<close>

definition normal_path :: "string \<Rightarrow> bool" where
  "normal_path p \<longleftrightarrow> p = ''/'' @ py_join ''/'' (path_parts p)"

lemma common_prefix_prefix: "common_prefix xs (xs @ ys) = xs"
  by (induction xs) (auto simp: common_prefix.simps(2) neq_Nil_conv)

lemma normal_path_absolute: "normal_path p \<Longrightarrow> is_absolute p"
  unfolding normal_path_def is_absolute_def by (metis append_Cons take0 take_Suc_Cons One_nat_def)

lemma overlaps_nested:
  assumes "normal_path a" and "is_absolute b" and "path_parts b = path_parts a @ rest" and "py_casefold a = a"
  shows "overlaps a b"
proof -
  from assms(1) have "is_absolute a" by (rule normal_path_absolute)
  with assms have "commonpath a b = Some (''/'' @ py_join ''/'' (path_parts a))"
    by (simp add: commonpath_def common_prefix_prefix)
  with assms(1,4) show ?thesis by (simp add: overlaps_def normal_path_def)
qed

lemma overlaps_comm: "overlaps a b = overlaps b a"
  by (auto simp: overlaps_def commonpath_comm [of a b] split: option.splits)

text \<open>Scope isolation: a project accepted for governance is the registered, explicitly selected,
  read-only one, and no other registered project has the same root, a root inside it or a root
  around it. Resolved roots are normalised absolute paths.\<close>

theorem governed_scope_isolated:
  assumes "\<forall>q\<in>set (st_projects s). normal_path (canonical_root e (pr_root q))"
    and "governed_project e s k = Inr p"
  shows "p \<in> set (st_projects s) \<and> pr_id p = k \<and> pr_explicitly_selected p \<and> pr_read_only p \<and>
    (\<forall>q\<in>set (st_projects s). pr_id q \<noteq> k \<longrightarrow>
       (\<forall>rest. path_parts (canonical_root e (pr_root q)) \<noteq> path_parts (canonical_root e (pr_root p)) @ rest \<and>
               path_parts (canonical_root e (pr_root p)) \<noteq> path_parts (canonical_root e (pr_root q)) @ rest))"
proof -
  have fold: "py_casefold (canonical_root e x) = canonical_root e x" for x
    by (simp add: canonical_root_def)
  from assms(2) have p: "p \<in> set (st_projects s)" "pr_id p = k" "pr_explicitly_selected p" "pr_read_only p"
    and apart: "\<And>q. q \<in> set (st_projects s) \<Longrightarrow> pr_id q \<noteq> k \<Longrightarrow>
        \<not> overlaps (canonical_root e (pr_root p)) (canonical_root e (pr_root q))"
    by (auto simp: governed_project_def Let_def split: option.splits if_splits dest!: find_Some_set)
  have "path_parts (canonical_root e (pr_root q)) \<noteq> path_parts (canonical_root e (pr_root p)) @ rest \<and>
      path_parts (canonical_root e (pr_root p)) \<noteq> path_parts (canonical_root e (pr_root q)) @ rest"
    if "q \<in> set (st_projects s)" "pr_id q \<noteq> k" for q rest
  proof -
    have "normal_path (canonical_root e (pr_root p))" "normal_path (canonical_root e (pr_root q))"
      using assms(1) p(1) that(1) by blast+
    then show ?thesis
      using apart [OF that] overlaps_nested [OF _ normal_path_absolute _ fold] overlaps_comm by metis
  qed
  with p show ?thesis by blast
qed

definition two_projects :: store where
  "two_projects = empty_store\<lparr>st_projects := [demo_project, demo_project\<lparr>pr_id := ''q'', pr_root := ''/ab''\<rparr>]\<rparr>"

theorem governed_scope_isolated_witness:
  "governed_project plain_env two_projects ''p'' = Inr demo_project \<and>
   (\<forall>rest. path_parts ''/ab'' \<noteq> path_parts ''/a'' @ rest)"
proof -
  have "\<forall>q\<in>set (st_projects two_projects). normal_path (canonical_root plain_env (pr_root q))" by code_simp
  moreover have g: "governed_project plain_env two_projects ''p'' = Inr demo_project" by code_simp
  ultimately have "\<forall>q\<in>set (st_projects two_projects). pr_id q \<noteq> ''p'' \<longrightarrow> (\<forall>rest.
      path_parts (canonical_root plain_env (pr_root q)) \<noteq> path_parts (canonical_root plain_env (pr_root demo_project)) @ rest)"
    using governed_scope_isolated by blast
  moreover have "canonical_root plain_env ''/ab'' = ''/ab''" "canonical_root plain_env ''/a'' = ''/a''" by code_simp+
  ultimately have "\<forall>rest. path_parts ''/ab'' \<noteq> path_parts ''/a'' @ rest"
    by (simp add: two_projects_def demo_project_def)
  with g show ?thesis by blast
qed

text \<open>A recorded decision is attributable and bound: recording succeeds only for an approval or a
  denial with an actor and a reason; in team mode the actor is the authenticated subject of the
  policy's organization; each record belongs to an applicable rule whose role requirement the
  actor's durable roles meet, and carries the policy's id and version and the given binding; every
  such rule gets a record.\<close>

theorem record_decisions_bound:
  "case record_decisions ids clock policy q of
     Inl x \<Rightarrow> \<exists>message. x = ValueError message
   | Inr ds \<Rightarrow>
       ds \<noteq> [] \<and> py_upper (dr_decision q) \<in> {''APPROVED'', ''DENIED''} \<and> \<not> blank (dr_actor q) \<and> \<not> blank (dr_reason q) \<and>
       (\<exists>roles. actor_roles policy q = Inr roles \<and>
          gd_rule_id ` set ds = apr_id ` {r. applicable policy (py_upper (dr_action q)) (dr_artifact_kinds q) r \<and>
             role_allowed roles r} \<and>
          (\<forall>d\<in>set ds. gd_actor d = py_strip (dr_actor q) \<and> gd_actor_roles d = roles \<and>
             gd_decision d = py_upper (dr_decision q) \<and> gd_policy_id d = pol_id policy \<and>
             gd_policy_version d = pol_version policy \<and> gd_binding_sha256 d = dr_binding_sha256 q)) \<and>
       (pol_authority_mode policy = ''AUTHENTICATED_TEAM'' \<longrightarrow>
          (\<exists>i. dr_identity q = Some i \<and> py_strip (dr_actor q) = ai_subject i \<and>
             pol_authority_organization_id policy = Some (ai_organization_id i)))"
proof (cases "py_upper (dr_decision q) \<in> {''APPROVED'', ''DENIED''} \<and> \<not> blank (dr_actor q) \<and> \<not> blank (dr_reason q)")
  case False
  then show ?thesis by (auto simp: record_decisions_def)
next
  case given: True
  show ?thesis
  proof (cases "policy_rules policy (py_upper (dr_action q)) (dr_artifact_kinds q)")
    case (Inl x)
    then have "\<exists>m. x = ValueError m" by (auto simp: policy_rules_def Let_def split: if_splits)
    with Inl given show ?thesis by (auto simp: record_decisions_def)
  next
    case rules: (Inr rules)
    show ?thesis
    proof (cases "actor_roles policy q")
      case (Inl x)
      then have "\<exists>m. x = ValueError m" by (auto simp: actor_roles_def split: if_splits option.splits)
      with Inl rules given show ?thesis by (auto simp: record_decisions_def)
    next
      case (Inr roles)
      let ?m = "filter (role_allowed roles) rules"
      have team: "pol_authority_mode policy = ''AUTHENTICATED_TEAM'' \<longrightarrow>
          (\<exists>i. dr_identity q = Some i \<and> py_strip (dr_actor q) = ai_subject i \<and>
             pol_authority_organization_id policy = Some (ai_organization_id i))"
        using Inr by (auto simp: actor_roles_def split: if_splits option.splits)
      have ids: "gd_rule_id ` set (map (\<lambda>(k, rule). new_decision policy q roles (ids k) (clock k) rule) (enumerate 0 ?m))
          = apr_id ` set ?m"
      proof -
        have "gd_rule_id \<circ> (\<lambda>(k, rule). new_decision policy q roles (ids k) (clock k) rule) = apr_id \<circ> snd"
          by (auto simp: fun_eq_iff new_decision_def)
        then have "gd_rule_id ` set (map (\<lambda>(k, rule). new_decision policy q roles (ids k) (clock k) rule) (enumerate 0 ?m))
            = apr_id ` set (map snd (enumerate 0 ?m))"
          by (simp only: set_map image_comp)
        then show ?thesis by (simp only: map_snd_enumerate)
      qed
      have "set ?m = {r. applicable policy (py_upper (dr_action q)) (dr_artifact_kinds q) r \<and> role_allowed roles r}"
        using set_policy_rules [OF rules] by auto
      note ids' = ids [unfolded this]
      let ?ds = "map (\<lambda>(k, rule). new_decision policy q roles (ids k) (clock k) rule) (enumerate 0 ?m)"
      have each: "\<forall>d\<in>set ?ds. gd_actor d = py_strip (dr_actor q) \<and> gd_actor_roles d = roles \<and>
             gd_decision d = py_upper (dr_decision q) \<and> gd_policy_id d = pol_id policy \<and>
             gd_policy_version d = pol_version policy \<and> gd_binding_sha256 d = dr_binding_sha256 q"
        by (auto simp: new_decision_def)
      have eq: "record_decisions ids clock policy q =
          (if ?m = [] then Inl (ValueError (''Actor lacks a role required by the applicable policy rules: '' @
             py_join '', '' (sorted_set (concat (map apr_required_roles rules))))) else Inr ?ds)"
        using Inr rules given by (simp add: record_decisions_def Let_def)
      show ?thesis
      proof (cases "?m = []")
        case True
        with eq show ?thesis by simp
      next
        case False
        then have "?ds \<noteq> []" by (cases ?m) simp_all
        with False Inr given team each ids' show ?thesis unfolding eq by (simp only: if_False sum.case) blast
      qed
    qed
  qed
qed

definition demo_decision_request :: decision_request where
  "demo_decision_request =
     \<lparr>dr_action = ''plan'', dr_artifact_id = ''r'', dr_artifact_kinds = [], dr_decision = ''approved'',
      dr_actor = '' ann '', dr_reason = ''ok'', dr_binding_sha256 = ''b'', dr_source_manifest_sha256 = None,
      dr_patch_sha256 = None, dr_requirements_sha256 = None, dr_evidence_sha256 = None, dr_identity = None\<rparr>"

theorem record_decisions_bound_witness:
  "\<exists>ds. record_decisions (\<lambda>_. ''n'') (\<lambda>_. 3) demo_policy demo_decision_request = Inr ds \<and>
     ds \<noteq> [] \<and> (\<forall>d\<in>set ds. gd_actor d = ''ann'')"
  (is "\<exists>ds. ?r = Inr ds \<and> _")
proof -
  have "isl ?r = False" and strip: "py_strip (dr_actor demo_decision_request) = ''ann''" by code_simp+
  then obtain ds where ds: "?r = Inr ds" by (cases ?r) auto
  with record_decisions_bound [where ids = "\<lambda>_. ''n''" and clock = "\<lambda>_. 3" and policy = demo_policy
      and q = demo_decision_request] strip
  show ?thesis by auto
qed

lemma binding_members:
  assumes "binding e ms = binding e ns" and "\<not> collision (env_sha256 e)"
    and "distinct (map fst ms)" and "map fst ns = map fst ms"
  shows "map_option sort_keys (map_of ms k) = map_option sort_keys (map_of ns k)"
proof -
  from assms(1,2) have "sort_keys (JObj ms) = sort_keys (JObj ns)"
    unfolding binding_def using digest_binds by blast
  from sort_keys_member [OF this assms(3)] assms(3,4) show ?thesis by simp
qed

lemma JStrs_inject: "sort_keys (JStrs xs) = sort_keys (JStrs ys) \<longleftrightarrow> xs = ys"
proof -
  have "sort_keys \<circ> JStr = JStr" by (simp add: fun_eq_iff)
  moreover have "map JStr xs = map JStr ys \<longleftrightarrow> xs = ys" by (rule inj_map_eq_map) (simp add: inj_def)
  ultimately show ?thesis by (simp add: JStrs_def)
qed

lemma evidence_json_inject: "sort_keys (evidence_json v) = sort_keys (evidence_json w) \<longleftrightarrow> v = w"
proof
  assume "sort_keys (evidence_json v) = sort_keys (evidence_json w)"
  from sort_keys_member [OF this [unfolded evidence_json_def]]
  have "map_option sort_keys (map_of [(''path'', JStr (ev_path v)), (''detail'', JStr (ev_detail v)), (''line'', JOptInt (ev_line v))] k) =
      map_option sort_keys (map_of [(''path'', JStr (ev_path w)), (''detail'', JStr (ev_detail w)), (''line'', JOptInt (ev_line w))] k)" for k
    by simp
  from this [of "''path''"] this [of "''detail''"] this [of "''line''"]
  show "v = w" by (cases v; cases w) (auto simp: JOptInt_def split: option.splits)
qed simp

lemma evidence_list_inject:
  "sort_keys (JList (map evidence_json vs)) = sort_keys (JList (map evidence_json ws)) \<longleftrightarrow> vs = ws"
proof -
  have "map (\<lambda>v. sort_keys (evidence_json v)) vs = map (\<lambda>v. sort_keys (evidence_json v)) ws \<longleftrightarrow> vs = ws"
    by (rule inj_map_eq_map) (simp add: inj_def evidence_json_inject)
  then show ?thesis by (simp add: comp_def)
qed

text \<open>What an approver saw is what gets executed: two plans with the same binding under their
  policies agree in project, root, identity, source manifest, requirements, affected paths, steps,
  risks, evidence, policy and policy version, unless two different texts with the same SHA-256
  digest are known.\<close>

theorem plan_binding_binds:
  assumes "fst (plan_binding e p x) = fst (plan_binding e q y)"
  shows "(pwr_project_id x = pwr_project_id y \<and>
      canonical_root e (pwr_project_root x) = canonical_root e (pwr_project_root y) \<and>
      pwr_id x = pwr_id y \<and> pwr_final_manifest_sha256 x = pwr_final_manifest_sha256 y \<and>
      pwr_validation_requirements x = pwr_validation_requirements y \<and>
      pwr_affected_paths x = pwr_affected_paths y \<and> pwr_steps x = pwr_steps y \<and>
      pwr_risks x = pwr_risks y \<and> pwr_evidence x = pwr_evidence y \<and>
      pol_id p = pol_id q \<and> pol_version p = pol_version q) \<or> collision (env_sha256 e)"
proof (cases "collision (env_sha256 e)")
  case False
  note outer = binding_members [OF assms [unfolded plan_binding_def Let_def fst_conv] False]
  have top: "pwr_project_id x = pwr_project_id y" "canonical_root e (pwr_project_root x) = canonical_root e (pwr_project_root y)"
    "pwr_id x = pwr_id y" "pwr_final_manifest_sha256 x = pwr_final_manifest_sha256 y"
    "pol_id p = pol_id q" "pol_version p = pol_version q"
    and req: "plan_requirements_sha e x = plan_requirements_sha e y"
    and ev: "plan_evidence_sha e x = plan_evidence_sha e y"
    using outer [of "''project_id''"] outer [of "''project_root''"] outer [of "''artifact_id''"]
      outer [of "''source_manifest_sha256''"] outer [of "''policy_id''"] outer [of "''policy_version''"]
      outer [of "''requirements_sha256''"] outer [of "''evidence_sha256''"]
    by simp_all
  note inner = binding_members [OF req [unfolded plan_requirements_sha_def] False]
  have "pwr_validation_requirements x = pwr_validation_requirements y" "pwr_affected_paths x = pwr_affected_paths y"
    "pwr_steps x = pwr_steps y" "pwr_risks x = pwr_risks y"
    using inner [of "''validation_requirements''"] inner [of "''affected_paths''"] inner [of "''steps''"] inner [of "''risks''"]
    by (simp_all add: JStrs_inject del: sort_keys.simps)
  moreover have "pwr_evidence x = pwr_evidence y"
    using binding_members [OF ev [unfolded plan_evidence_sha_def] False, of "''evidence''"]
    by (simp add: evidence_list_inject del: sort_keys.simps)
  ultimately show ?thesis using top by blast
qed simp

definition demo_plan :: project_workspace_record where
  "demo_plan =
     \<lparr>pwr_id = ''r'', pwr_project_id = ''p'', pwr_project_root = ''/a'', pwr_project_name
      = [], pwr_kind = [], pwr_prompt = [], pwr_acceptance_criteria = [], pwr_status = [],
      pwr_answer = [], pwr_affected_file_ids = [], pwr_affected_paths = [], pwr_dependency_ids =
      [], pwr_dependency_paths = [], pwr_evidence = [], pwr_impact_groups = [], pwr_steps =
      [''edit''], pwr_risks = [], pwr_validation_requirements = [], pwr_validation_commands =
      [], pwr_unresolved_questions = [], pwr_source_result_id = None, pwr_index_scan_id = [],
      pwr_indexed_manifest_sha256 = [], pwr_final_manifest_sha256 = [],
      pwr_stale_evidence_rejected = False, pwr_source_integrity_verified = False,
      pwr_read_only_verified = False, pwr_approval_required = False, pwr_approval_status = None,
      pwr_approval_history = [], pwr_approval_missing = [], pwr_approval_expiration_reasons =
      [], pwr_execution_authorized = False, pwr_ticket_id = None, pwr_tokens_used = 0,
      pwr_model_calls_used = 0, pwr_worker_calls_used = 0, pwr_branch_depth_used = 0,
      pwr_elapsed_seconds = 0, pwr_created_at = 0\<rparr>"

theorem plan_binding_binds_witness:
  "fst (plan_binding plain_env demo_policy demo_plan) \<noteq>
     fst (plan_binding plain_env demo_policy (demo_plan\<lparr>pwr_steps := [''delete'']\<rparr>))"
proof -
  have "\<not> collision (env_sha256 plain_env)" by (simp add: collision_def plain_env_def)
  moreover have "pwr_steps demo_plan \<noteq> pwr_steps (demo_plan\<lparr>pwr_steps := [''delete'']\<rparr>)"
    by (simp add: demo_plan_def)
  ultimately show ?thesis
    using plan_binding_binds [of plain_env demo_policy demo_plan demo_policy "demo_plan\<lparr>pwr_steps := [''delete'']\<rparr>"]
    by blast
qed

definition required_categories :: "project_governance_policy \<Rightarrow> string list \<Rightarrow> string set" where
  "required_categories policy kinds =
     set (pol_required_validation_categories policy) \<union>
     (\<Union>k\<in>set kinds. set (dict_get_default [] (py_upper k) (pol_artifact_validation_requirements policy))) \<union>
     (\<Union>r\<in>{r. applicable policy ''PROMOTION'' kinds r}. set (apr_required_validation_categories r))"

definition satisfied_categories :: "sandbox_validation_decision list \<Rightarrow> string set" where
  "satisfied_categories ds =
     {py_upper (svd_category d) |d. d \<in> set ds \<and> (svd_status d = ''PASSED'' \<or> svd_status d = ''SATISFIED'')}"

lemma artifact_validation_categories_set:
  "artifact_validation_categories policy kinds = Inr cs \<Longrightarrow> set cs = required_categories policy kinds"
  by (auto simp: artifact_validation_categories_def required_categories_def set_policy_rules split: sum.splits)

text \<open>Promotion is gated by validation: the check passes exactly when every category required by the
  policy itself, by the kinds of the artifacts, or by an applicable promotion rule has a passed or
  satisfied decision; otherwise it raises and names the missing categories in order.\<close>

theorem required_validations_gate:
  assumes "kinds \<noteq> []" and "\<exists>r. applicable policy ''PROMOTION'' kinds r"
  shows "(assert_required_validations policy ds (Some kinds) = Inr ()) =
      (required_categories policy kinds \<subseteq> satisfied_categories ds) \<and>
    (\<not> required_categories policy kinds \<subseteq> satisfied_categories ds \<longrightarrow>
      (\<exists>missing. set missing = required_categories policy kinds - satisfied_categories ds \<and>
         sorted missing \<and> distinct missing \<and>
         assert_required_validations policy ds (Some kinds) =
           Inl (ValueError (''Policy rule REQUIRED-VALIDATION requires validation categories: '' @
             py_join '', '' missing))))"
proof -
  obtain cs where cs: "artifact_validation_categories policy kinds = Inr cs"
    using assms(2) policy_rules_Inl
    by (cases "policy_rules policy ''PROMOTION'' kinds") (auto simp: artifact_validation_categories_def)
  from assms(1) obtain k ks where kinds: "kinds = k # ks" by (cases kinds) auto
  let ?sat = "set (map (\<lambda>d. py_upper (svd_category d)) (filter (\<lambda>d. svd_status d \<in> {''PASSED'', ''SATISFIED''}) ds))"
  let ?missing = "sorted_set (filter (\<lambda>c. c \<notin> ?sat) cs)"
  have sat: "?sat = satisfied_categories ds" by (auto simp: satisfied_categories_def)
  have missing: "set ?missing = required_categories policy kinds - satisfied_categories ds"
    unfolding sat using artifact_validation_categories_set [OF cs] by auto
  have eq: "assert_required_validations policy ds (Some kinds) =
      (if ?missing \<noteq> [] then Inl (ValueError (''Policy rule REQUIRED-VALIDATION requires validation categories: '' @
         py_join '', '' ?missing)) else Inr ())"
    using cs kinds by (simp add: assert_required_validations_def Let_def)
  have empty: "?missing = [] \<longleftrightarrow> required_categories policy kinds \<subseteq> satisfied_categories ds"
    using missing by (metis Diff_eq_empty_iff set_empty)
  show ?thesis
  proof (cases "?missing = []")
    case True
    with eq empty show ?thesis by simp
  next
    case False
    with eq empty missing show ?thesis by (auto intro!: exI [of _ ?missing])
  qed
qed

theorem required_validations_gate_witness:
  "assert_required_validations (demo_policy\<lparr>pol_required_validation_categories := [''a'', ''b'']\<rparr>) [] (Some [''k'']) \<noteq> Inr ()"
proof -
  let ?p = "demo_policy\<lparr>pol_required_validation_categories := [''a'', ''b'']\<rparr>"
  have "applicable ?p ''PROMOTION'' [''k''] (default_rules ! 1)" by code_simp
  moreover have "\<not> required_categories ?p [''k''] \<subseteq> satisfied_categories []"
    by (auto simp: required_categories_def satisfied_categories_def)
  ultimately show ?thesis using required_validations_gate [of "[''k'']" ?p "[]"] by blast
qed

end
