(* ===== verification/Provenance.thy ===== *)
theory Provenance
  imports Store Canonical_Json
begin

text \<open>
  Provenance of claims (\<open>src/rlmgraph/provenance.py\<close>, with the fingerprints of
  \<open>src/rlmgraph/fingerprint.py\<close> it compares): the source files a claim rests on, the assessment
  of a claim against the index or the file tree, and the history of its validity. A claim object
  that the code mutates is returned changed. The commit of the repository (\<open>git rev-parse\<close>) and
  the current time are arguments.
\<close>

section \<open>Fingerprints\<close>

text \<open>\<open>sorted\<close> on pairs of texts.\<close>

definition sorted_pairs :: "(string \<times> string) list \<Rightarrow> (string \<times> string) list" where
  "sorted_pairs ps = sort_key fst (sort_key snd ps)"

definition indexed_project_fingerprint :: "env \<Rightarrow> string \<Rightarrow> (string \<times> string) list \<Rightarrow> string" where
  "indexed_project_fingerprint e project_root entries =
     env_sha256 e (spaced_json (JObj
       [(''root'', JStr (env_resolve e project_root)),
        (''files'', JList (map (\<lambda>(p, h). JStrs [p, h]) (sorted_pairs entries)))]))"

definition task_fingerprint :: "env \<Rightarrow> string \<Rightarrow> string \<Rightarrow> string" where
  "task_fingerprint e question project_state =
     env_sha256 e (spaced_json (JObj
       [(''question'', JStr (squeeze_spaces (py_lower question))), (''project_state'', JStr project_state)]))"

section \<open>Source files\<close>

definition posix_path :: "string \<Rightarrow> string" where
  "posix_path p = replace_char (CHR 0x5C) (CHR ''/'') p"

definition supporting_paths :: "claim \<Rightarrow> string list" where
  "supporting_paths c =
     (let evidence_paths = map ev_path (cl_evidence c)
      in dict_fromkeys (map posix_path (if evidence_paths \<noteq> [] then evidence_paths else cl_files_examined c)))"

definition evidence_lines :: "claim \<Rightarrow> string \<Rightarrow> int list" where
  "evidence_lines c path =
     sorted_set (List.map_filter (\<lambda>v. if posix_path (ev_path v) = path then ev_line v else None) (cl_evidence c))"

definition capture_source_files :: "env \<Rightarrow> string \<Rightarrow> claim \<Rightarrow> source_file list" where
  "capture_source_files e project_root c =
     (let base = env_resolve e project_root in
      List.map_filter (\<lambda>relative.
          let candidate = env_resolve e (join_path base relative) in
          if path_inside base candidate then
            map_option (\<lambda>h. \<lparr>sf_path = relative, sf_content_hash = h, sf_evidence_lines = evidence_lines c relative\<rparr>)
              (env_file_hash e candidate)
          else None)
        (supporting_paths c))"

definition indexed_hashes :: "project_file list \<Rightarrow> string py_dict" where
  "indexed_hashes fs = dict_of_pairs (map (\<lambda>f. (pf_path f, pf_content_hash f)) fs)"

definition capture_indexed_source_files :: "claim \<Rightarrow> project_file list \<Rightarrow> source_file list" where
  "capture_indexed_source_files c fs =
     List.map_filter (\<lambda>path.
         map_option (\<lambda>h. \<lparr>sf_path = path, sf_content_hash = h, sf_evidence_lines = evidence_lines c path\<rparr>)
           (dict_get path (indexed_hashes fs)))
       (supporting_paths c)"

section \<open>Assessment\<close>

definition superseded_prefix :: "claim \<Rightarrow> string" where
  "superseded_prefix c =
     (if truthy (cl_superseded_by_claim_id c)
      then ''Superseded by '' @ the (cl_superseded_by_claim_id c) @ ''; '' else [])"

definition assess_claim_from_index :: "claim \<Rightarrow> project_file list \<Rightarrow> string \<Rightarrow> bool \<times> string" where
  "assess_claim_from_index c fs project_state =
     (if cl_source_files c = [] then
        (if cl_project_fingerprint c = project_state
         then (True, ''Ungrounded claim is restricted to its exact indexed project state.'')
         else (False, ''Ungrounded claim was learned in a different indexed project state.''))
      else
        let hashes = indexed_hashes fs;
            changed = map sf_path (filter (\<lambda>s. dict_get (sf_path s) hashes \<noteq> Some (sf_content_hash s)) (cl_source_files c))
        in if changed \<noteq> [] then
             (False, superseded_prefix c @ ''indexed supporting evidence changed or disappeared: '' @
                py_join '', '' changed)
           else
             (True, if truthy (cl_superseded_by_claim_id c)
                    then ''Historical indexed state restored; supporting evidence matches again.''
                    else ''Every indexed supporting source still matches its learned content hash.''))"

definition assess_claim :: "env \<Rightarrow> claim \<Rightarrow> string \<Rightarrow> string \<Rightarrow> bool \<times> string" where
  "assess_claim e c project_root project_state =
     (if cl_source_files c = [] then
        (if cl_project_fingerprint c = project_state
         then (True, ''Ungrounded claim is restricted to its exact repository state.'')
         else (False, ''Ungrounded claim was learned in a different repository state.''))
      else
        let base = env_resolve e project_root;
            changed = map sf_path (filter (\<lambda>s.
                let candidate = env_resolve e (join_path base (sf_path s)) in
                \<not> path_inside base candidate \<or> env_file_hash e candidate \<noteq> Some (sf_content_hash s))
              (cl_source_files c))
        in if changed \<noteq> [] then
             (False, superseded_prefix c @ ''supporting evidence changed or disappeared: '' @ py_join '', '' changed)
           else
             (True, if truthy (cl_superseded_by_claim_id c)
                    then ''Historical repository state restored; supporting evidence matches again.''
                    else ''Every supporting source file still matches its learned content hash.''))"

section \<open>Validity\<close>

definition record_validity :: "py_time \<Rightarrow> claim \<Rightarrow> bool \<Rightarrow> string \<Rightarrow> string \<Rightarrow> bool \<times> claim" where
  "record_validity now c valid project_state reason =
     (let target =
        (if valid then ClaimValidity_CURRENT
         else if truthy (cl_superseded_by_claim_id c) then ClaimValidity_SUPERSEDED
         else ClaimValidity_INVALIDATED)
      in if cl_validity_status c = target \<and> cl_validity_reason c = reason then (False, c)
         else (True, c\<lparr>cl_validity_status := target, cl_validity_reason := reason,
                 cl_valid_until := (if valid then None else Some project_state),
                 cl_validity_history := cl_validity_history c @
                   [\<lparr>ve_status = target, ve_project_fingerprint = project_state, ve_reason = reason,
                     ve_observed_at = now\<rparr>]\<rparr>))"

definition supersede :: "py_time \<Rightarrow> claim \<Rightarrow> claim \<Rightarrow> string \<Rightarrow> claim" where
  "supersede now old replacement project_state =
     (let reason = ''Superseded by replacement claim '' @ cl_id replacement @ ''.'' in
      old\<lparr>cl_validity_status := ClaimValidity_SUPERSEDED,
          cl_superseded_by_claim_id := Some (cl_id replacement),
          cl_valid_until := Some project_state,
          cl_validity_reason := reason,
          cl_validity_history := cl_validity_history old @
            [\<lparr>ve_status = ClaimValidity_SUPERSEDED, ve_project_fingerprint = project_state,
              ve_reason = reason, ve_observed_at = now\<rparr>]\<rparr>)"

definition or_else :: "string option \<Rightarrow> string option \<Rightarrow> string option" where
  "or_else x y = (if truthy x then x else y)"

definition initialize_provenance ::
  "env \<Rightarrow> string option \<Rightarrow> py_time \<Rightarrow> task \<Rightarrow> claim \<Rightarrow> claim" where
  "initialize_provenance e commit now t c =
     (let c1 = c\<lparr>cl_project_root := (if cl_project_root c \<noteq> [] then cl_project_root c else env_resolve e (tk_project_root t)),
            cl_source_task_id := or_else (cl_source_task_id c) (Some (tk_id t)),
            cl_source_claim_ids :=
              dict_fromkeys (cl_source_claim_ids c @ tk_source_claim_ids t @ cl_resolved_claim_ids c)\<rparr>;
          c2 = c1\<lparr>cl_source_files :=
              (if cl_source_files c1 \<noteq> [] then cl_source_files c1 else capture_source_files e (tk_project_root t) c1),
            cl_source_commit := or_else (cl_source_commit c1) commit,
            cl_valid_from := or_else (cl_valid_from c1) (Some (tk_project_fingerprint t)),
            cl_validity_status := ClaimValidity_CURRENT\<rparr>;
          c3 = c2\<lparr>cl_validity_reason :=
              (if cl_source_files c2 \<noteq> []
               then ''Every supporting source file still matches its learned content hash.''
               else ''Ungrounded claim is restricted to its exact repository state.'')\<rparr>;
          c4 = (if cl_validity_history c3 \<noteq> [] then c3
                else c3\<lparr>cl_validity_history :=
                  [\<lparr>ve_status = ClaimValidity_CURRENT, ve_project_fingerprint = tk_project_fingerprint t,
                    ve_reason = cl_validity_reason c3, ve_observed_at = now\<rparr>]\<rparr>)
      in if cl_memory_tier c4 = MemoryTier_WORKING then
           c4\<lparr>cl_tier_history :=
                (if cl_tier_history c4 \<noteq> [] then cl_tier_history c4
                 else [\<lparr>tt_from_tier = None, tt_to_tier = MemoryTier_WORKING,
                        tt_reason = ''Transient result produced while the task was executing.'',
                        tt_decision_id = None, tt_transitioned_at = now\<rparr>]) @
                [\<lparr>tt_from_tier = Some MemoryTier_WORKING, tt_to_tier = MemoryTier_EPISODIC,
                  tt_reason = ''Completed task experience persisted as episodic memory.'',
                  tt_decision_id = None, tt_transitioned_at = now\<rparr>],
              cl_memory_tier := MemoryTier_EPISODIC\<rparr>
         else c4)"

section \<open>Steps of a claim's validity\<close>

text \<open>A claim is revalidated against an index or against the file tree, or superseded.\<close>

inductive validity_step :: "claim \<Rightarrow> claim \<Rightarrow> bool" where
  step_index: "assess_claim_from_index c fs st = (valid, reason) \<Longrightarrow>
     validity_step c (snd (record_validity now c valid st reason))"
| step_tree: "assess_claim e c path st = (valid, reason) \<Longrightarrow>
     validity_step c (snd (record_validity now c valid st reason))"
| step_supersede: "validity_step c (supersede now c replacement st)"

text \<open>The history ends with the status and reason the claim shows.\<close>

definition history_shown :: "claim \<Rightarrow> bool" where
  "history_shown c \<longleftrightarrow>
     cl_validity_history c \<noteq> [] \<and>
     ve_status (last (cl_validity_history c)) = cl_validity_status c \<and>
     ve_reason (last (cl_validity_history c)) = cl_validity_reason c \<and>
     (cl_validity_status c = ClaimValidity_SUPERSEDED \<longrightarrow> cl_superseded_by_claim_id c \<noteq> None)"

lemma record_validity_shown:
  "history_shown c \<Longrightarrow> history_shown (snd (record_validity now c valid st reason))"
  by (auto simp: history_shown_def record_validity_def Let_def truthy_def)

lemma supersede_shown: "history_shown (supersede now c replacement st)"
  by (simp add: history_shown_def supersede_def Let_def)

lemma validity_step_shown: "validity_step c c' \<Longrightarrow> history_shown c \<Longrightarrow> history_shown c'"
  by (induction rule: validity_step.induct) (simp_all add: record_validity_shown supersede_shown)

lemma record_validity_grows:
  "\<exists>events. cl_validity_history (snd (record_validity now c valid st reason)) = cl_validity_history c @ events"
  by (simp add: record_validity_def Let_def)

lemma validity_step_grows:
  "validity_step c c' \<Longrightarrow> \<exists>events. cl_validity_history c' = cl_validity_history c @ events"
  by (induction rule: validity_step.induct) (simp_all add: record_validity_grows supersede_def Let_def)

lemma validity_step_sources:
  "validity_step c c' \<Longrightarrow> cl_source_files c' = cl_source_files c \<and> cl_project_fingerprint c' = cl_project_fingerprint c"
  by (induction rule: validity_step.induct) (simp_all add: record_validity_def supersede_def Let_def)

interpretation claim_validity_steps: invariant_system validity_step history_shown
  by unfold_locales (rule validity_step_shown)

interpretation claim_history_steps: invariant_system validity_step
    "\<lambda>c. \<exists>events. cl_validity_history c = h @ events" for h
proof
  fix c c' :: claim
  assume "validity_step c c'" and "\<exists>events. cl_validity_history c = h @ events"
  with validity_step_grows [of c c'] show "\<exists>events. cl_validity_history c' = h @ events" by force
qed

interpretation claim_source_steps: invariant_system validity_step
    "\<lambda>c. cl_source_files c = fs \<and> cl_project_fingerprint c = p" for fs p
  by unfold_locales (use validity_step_sources in auto)

section \<open>Properties\<close>

text \<open>The index supports a claim: every source file is indexed with the hash it was learned with; a
  claim without source files is tied to its exact project state.\<close>

definition supported :: "claim \<Rightarrow> project_file list \<Rightarrow> string \<Rightarrow> bool" where
  "supported c fs st \<longleftrightarrow>
     (if cl_source_files c = [] then cl_project_fingerprint c = st
      else \<forall>x\<in>set (cl_source_files c). dict_get (sf_path x) (indexed_hashes fs) = Some (sf_content_hash x))"

lemma assess_index_supported: "fst (assess_claim_from_index c fs st) = supported c fs st"
  by (auto simp: assess_claim_from_index_def supported_def Let_def filter_empty_conv)

text \<open>C34: Validity is decided by the present evidence alone: however often and in whatever order a claim
  was revalidated and superseded before, revalidating it against an index makes it current exactly
  if the index supports the sources it was learned from (so an old state that comes back restores
  it); the earlier history is kept, and its last event is the status and reason shown.\<close>

theorem validity_tracks_index:
  assumes "run_of validity_step c0 c" and "history_shown c0"
    and "assess_claim_from_index c fs st = (valid, reason)"
    and "c' = snd (record_validity now c valid st reason)"
  shows "(cl_validity_status c' = ClaimValidity_CURRENT) = supported c0 fs st \<and>
    (\<exists>events. cl_validity_history c' = cl_validity_history c0 @ events) \<and>
    ve_status (last (cl_validity_history c')) = cl_validity_status c' \<and>
    ve_reason (last (cl_validity_history c')) = cl_validity_reason c'"
proof -
  have last: "run_of validity_step c0 c'"
    using run_step [OF assms(1) step_index [OF assms(3)]] assms(4) by simp
  have shown: "history_shown c'"
    using claim_validity_steps.run_inv [OF last assms(2)] .
  have grown: "\<exists>events. cl_validity_history c' = cl_validity_history c0 @ events"
    using claim_history_steps.run_inv [OF last, of "cl_validity_history c0"] by simp
  have "cl_source_files c = cl_source_files c0 \<and> cl_project_fingerprint c = cl_project_fingerprint c0"
    using claim_source_steps.run_inv [OF assms(1)] by blast
  then have same: "supported c fs st = supported c0 fs st" by (simp add: supported_def)
  have "(cl_validity_status c' = ClaimValidity_CURRENT) = valid"
    using assms(4) by (auto simp: record_validity_def Let_def)
  with assms(3) same assess_index_supported [of c fs st]
  have "(cl_validity_status c' = ClaimValidity_CURRENT) = supported c0 fs st" by simp
  with shown grown show ?thesis by (simp add: history_shown_def)
qed

definition demo_claim :: claim where
  "demo_claim =
     \<lparr>cl_id = ''c'', cl_fingerprint = [], cl_project_fingerprint = ''s'',
      cl_project_root = ''/a'', cl_subject = [], cl_producer = [], cl_kind =
      ClaimKind_DISCOVERY, cl_resolution_task_id = None, cl_resolved_claim_ids = [],
      cl_conclusion = [], cl_confidence = 0, cl_evidence = [], cl_files_examined = [''x'',
      ''y''], cl_files_changed = [], cl_unresolved_questions = [], cl_assertions = [],
      cl_created_at = 0, cl_source_task_id = None, cl_source_claim_ids = [], cl_source_files =
      [], cl_source_commit = None, cl_learned_at = 0, cl_valid_from = None, cl_valid_until =
      None, cl_validity_status = ClaimValidity_CURRENT, cl_validity_reason = [],
      cl_validity_history = [\<lparr>ve_status = ClaimValidity_CURRENT, ve_project_fingerprint
      = ''s'', ve_reason = [], ve_observed_at = 0\<rparr>], cl_superseded_by_claim_id = None,
      cl_memory_tier = MemoryTier_WORKING, cl_memory_lifecycle = MemoryLifecycle_ACTIVE,
      cl_tier_history = [], cl_promoted_to_claim_id = None, cl_successful_reuse_count = 0,
      cl_memory_policy_decision_id = None, cl_conflict_verdict_id = None\<rparr>"

definition demo_file :: project_file where
  "demo_file =
     \<lparr>pf_id = ''f'', pf_project_id = ''p'', pf_path = ''x'', pf_content_hash = ''h'',
      pf_size_bytes = 0, pf_modified_time_ns = 0, pf_language = [], pf_is_test = False,
      pf_lifecycle = FileLifecycle_ACTIVE, pf_last_scan_id = []\<rparr>"

theorem validity_tracks_index_witness:
  "cl_validity_status (snd (record_validity 9 (supersede 5 demo_claim demo_claim ''t'') True ''s''
     (snd (assess_claim_from_index (supersede 5 demo_claim demo_claim ''t'') [] ''s'')))) = ClaimValidity_CURRENT"
proof -
  let ?c = "supersede 5 demo_claim demo_claim ''t''"
  have "run_of validity_step demo_claim ?c" by (rule run_of_one) (rule step_supersede)
  moreover have "history_shown demo_claim" by (simp add: history_shown_def demo_claim_def)
  moreover have "assess_claim_from_index ?c [] ''s'' = (True, snd (assess_claim_from_index ?c [] ''s''))"
    and "supported demo_claim [] ''s''" by code_simp+
  ultimately show ?thesis using validity_tracks_index by blast
qed

text \<open>A claim grounded in an index stays valid exactly as long as the files it was grounded in keep
  their hashes: captured from one index and assessed against another, it is valid if and only if
  both agree on every supporting path the first one had.\<close>

theorem captured_sources_valid_while_unchanged:
  assumes "sources = capture_indexed_source_files c fs" and "sources \<noteq> []"
  shows "fst (assess_claim_from_index (c\<lparr>cl_source_files := sources\<rparr>) fs' st) =
    (\<forall>p\<in>set (supporting_paths c). dict_get p (indexed_hashes fs) \<noteq> None \<longrightarrow>
       dict_get p (indexed_hashes fs') = dict_get p (indexed_hashes fs))"
proof -
  have members: "x \<in> set sources \<longleftrightarrow> (\<exists>p\<in>set (supporting_paths c). \<exists>h. dict_get p (indexed_hashes fs) = Some h \<and>
      x = \<lparr>sf_path = p, sf_content_hash = h, sf_evidence_lines = evidence_lines c p\<rparr>)" for x
    by (auto simp: assms(1) capture_indexed_source_files_def set_map_filter)
  have "(\<forall>x\<in>set sources. dict_get (sf_path x) (indexed_hashes fs') = Some (sf_content_hash x)) =
    (\<forall>p\<in>set (supporting_paths c). dict_get p (indexed_hashes fs) \<noteq> None \<longrightarrow>
       dict_get p (indexed_hashes fs') = dict_get p (indexed_hashes fs))"
    (is "?l = ?r")
  proof
    assume ?l
    show ?r
    proof (intro ballI impI)
      fix p
      assume p: "p \<in> set (supporting_paths c)" "dict_get p (indexed_hashes fs) \<noteq> None"
      then obtain h where h: "dict_get p (indexed_hashes fs) = Some h" by blast
      with p(1) members have "\<lparr>sf_path = p, sf_content_hash = h, sf_evidence_lines = evidence_lines c p\<rparr> \<in> set sources" by blast
      with \<open>?l\<close> h show "dict_get p (indexed_hashes fs') = dict_get p (indexed_hashes fs)" by fastforce
    qed
  next
    assume ?r
    then show ?l by (force simp: members)
  qed
  with assms(2) show ?thesis by (simp add: assess_index_supported supported_def)
qed

theorem captured_sources_valid_while_unchanged_witness:
  "\<not> fst (assess_claim_from_index
     (demo_claim\<lparr>cl_source_files := capture_indexed_source_files demo_claim [demo_file]\<rparr>) [] ''s'')"
proof -
  have "capture_indexed_source_files demo_claim [demo_file] \<noteq> []"
    and "''x'' \<in> set (supporting_paths demo_claim)"
    and "dict_get ''x'' (indexed_hashes [demo_file]) = Some ''h''"
    and "dict_get ''x'' (indexed_hashes []) = None"
    by code_simp+
  then show ?thesis
    using captured_sources_valid_while_unchanged [OF refl, of demo_claim "[demo_file]" "[]" "''s''"] by auto
qed

text \<open>Grounding never leaves the project: every captured source file resolves to a path inside the
  resolved root and carries the hash found there, and a claim assessed with the files it was just
  captured from is valid.\<close>

theorem captured_tree_sources_inside:
  assumes "sources = capture_source_files e path c" and "sources \<noteq> []"
  shows "(\<forall>x\<in>set sources. path_inside (env_resolve e path) (env_resolve e (join_path (env_resolve e path) (sf_path x))) \<and>
      env_file_hash e (env_resolve e (join_path (env_resolve e path) (sf_path x))) = Some (sf_content_hash x)) \<and>
    fst (assess_claim e (c\<lparr>cl_source_files := sources\<rparr>) path st)"
proof -
  have "\<forall>x\<in>set sources. path_inside (env_resolve e path) (env_resolve e (join_path (env_resolve e path) (sf_path x))) \<and>
      env_file_hash e (env_resolve e (join_path (env_resolve e path) (sf_path x))) = Some (sf_content_hash x)"
    by (auto simp: assms(1) capture_source_files_def set_map_filter Let_def split: if_splits)
  moreover from this assms(2) have "fst (assess_claim e (c\<lparr>cl_source_files := sources\<rparr>) path st)"
    by (auto simp: assess_claim_def Let_def filter_empty_conv)
  ultimately show ?thesis ..
qed

theorem captured_tree_sources_inside_witness:
  "fst (assess_claim (plain_env\<lparr>env_file_hash := \<lambda>_. Some ''h''\<rparr>)
     (demo_claim\<lparr>cl_source_files := capture_source_files (plain_env\<lparr>env_file_hash := \<lambda>_. Some ''h''\<rparr>) ''/a'' demo_claim\<rparr>)
     ''/a'' ''s'')"
proof -
  have "capture_source_files (plain_env\<lparr>env_file_hash := \<lambda>_. Some ''h''\<rparr>) ''/a'' demo_claim \<noteq> []" by code_simp
  with captured_tree_sources_inside [OF refl] show ?thesis by blast
qed

end
