(* ===== verification/Ticket_Evidence.thy ===== *)
theory Ticket_Evidence
  imports Governance Provenance
begin

text \<open>
  The eligibility of implementation evidence for a ticket (\<open>assess_evidence\<close> and the functions
  it calls in \<open>src/rlmgraph/ticketing.py\<close>): workspace results, validation results, and the
  artifacts of an implementation sandbox. A validation may link a workspace result, and a sandbox
  decision may link a worker execution or an external report, so the assessment is recursive; a
  cyclic link makes Python raise \<open>RecursionError\<close>, which is the error value
  \<open>recursion_error\<close>. The recursion is bounded by the number of objects it can pass through.
\<close>

definition recursion_error :: py_error where
  "recursion_error = RuntimeError ''maximum recursion depth exceeded''"

section \<open>Reasons\<close>

text \<open>A chain of \<open>if not reason and condition: reason = text\<close>: the first condition that holds.\<close>

fun first_reason :: "(bool \<times> string) list \<Rightarrow> string" where
  "first_reason [] = []"
| "first_reason ((c, t) # rest) = (if c then t else first_reason rest)"

definition or_unknown :: "string option \<Rightarrow> string" where
  "or_unknown x = (if truthy x then the x else ''unknown'')"

definition scope_reason :: "project_ticket \<Rightarrow> string option \<Rightarrow> string option \<Rightarrow> string" where
  "scope_reason t ticket_id project_id =
     (if ticket_id \<noteq> Some (pt_id t) then
        ''artifact belongs to ticket '' @ or_unknown ticket_id @ '', not '' @ pt_id t
      else if project_id \<noteq> Some (pt_project_id t) then
        ''artifact belongs to project '' @ or_unknown project_id @ '', not '' @ pt_project_id t
      else [])"

definition assessment ::
  "py_time \<Rightarrow> string \<Rightarrow> string \<Rightarrow> string option \<Rightarrow> string option \<Rightarrow> string option \<Rightarrow> string
     \<Rightarrow> string option \<Rightarrow> string option \<Rightarrow> ticket_evidence_assessment" where
  "assessment now evidence_id artifact_type ticket_id project_id status reason source_manifest patch =
     \<lparr>tea_evidence_id = evidence_id, tea_artifact_type = artifact_type, tea_eligible = (reason = []),
      tea_reason = (if reason \<noteq> [] then reason else ''eligible current implementation evidence''),
      tea_ticket_id = ticket_id, tea_project_id = project_id, tea_status = status,
      tea_source_manifest_sha256 = source_manifest, tea_patch_sha256 = patch, tea_assessed_at = now\<rparr>"

section \<open>The manifest of the project now\<close>

definition manifest_entry :: "env \<Rightarrow> string \<Rightarrow> project_file \<Rightarrow> (string \<times> string) option" where
  "manifest_entry e base f =
     (let path = env_resolve e (join_path base (pf_path f)) in
      if env_exists e path \<and> path_inside base path then map_option (Pair (pf_path f)) (env_file_hash e path)
      else None)"

definition current_project_manifest :: "env \<Rightarrow> store \<Rightarrow> project_ticket \<Rightarrow> string option" where
  "current_project_manifest e s t =
     (let base = env_resolve e (pt_project_root t);
          entries = map (manifest_entry e base) (project_files s (pt_project_id t))
      in if env_exists e base \<and> None \<notin> set entries
         then Some (indexed_project_fingerprint e base (map the entries)) else None)"

section \<open>Artifacts of a sandbox\<close>

datatype sandbox_artifact =
    Artifact_Attempt
  | Artifact_Decision sandbox_validation_decision
  | Artifact_Execution sandbox_validation_worker_execution
  | Artifact_Report sandbox_external_validation_report
  | Artifact_Promotion sandbox_promotion_record
  | Artifact_Reconciliation sandbox_promotion_reconciliation

fun artifact_type :: "sandbox_artifact \<Rightarrow> string" where
  "artifact_type Artifact_Attempt = ''IMPLEMENTATION_SANDBOX_ATTEMPT''"
| "artifact_type (Artifact_Decision d) = ''SANDBOX_VALIDATION_DECISION''"
| "artifact_type (Artifact_Execution x) = ''SANDBOX_VALIDATION_WORKER_EXECUTION''"
| "artifact_type (Artifact_Report r) = ''SANDBOX_EXTERNAL_VALIDATION_REPORT''"
| "artifact_type (Artifact_Promotion p) = ''SANDBOX_PROMOTION''"
| "artifact_type (Artifact_Reconciliation r) = ''SANDBOX_RECONCILIATION''"

definition reconciliation_of :: "implementation_sandbox_attempt \<Rightarrow> sandbox_promotion_reconciliation option" where
  "reconciliation_of a = (case isa_promotion a of None \<Rightarrow> None | Some p \<Rightarrow> sprom_reconciliation p)"

definition find_artifact :: "implementation_sandbox_attempt \<Rightarrow> string \<Rightarrow> sandbox_artifact option" where
  "find_artifact a evidence_id =
     (if isa_id a = evidence_id then Some Artifact_Attempt
      else case find (\<lambda>d. svd_id d = evidence_id) (isa_validation_decisions a) of
        Some d \<Rightarrow> Some (Artifact_Decision d)
      | None \<Rightarrow> (case find (\<lambda>x. swe_id x = evidence_id) (isa_validation_worker_executions a) of
        Some x \<Rightarrow> Some (Artifact_Execution x)
      | None \<Rightarrow> (case find (\<lambda>r. sxr_id r = evidence_id) (isa_external_validation_reports a) of
        Some r \<Rightarrow> Some (Artifact_Report r)
      | None \<Rightarrow> (case isa_promotion a of
        None \<Rightarrow> None
      | Some p \<Rightarrow>
          if sprom_id p = evidence_id then Some (Artifact_Promotion p)
          else (case sprom_reconciliation p of
              None \<Rightarrow> None
            | Some r \<Rightarrow> if spr_id r = evidence_id then Some (Artifact_Reconciliation r) else None)))))"

text \<open>The checks of the attempt itself, before those of the artifact.\<close>

definition attempt_reason :: "project_ticket \<Rightarrow> implementation_sandbox_attempt \<Rightarrow> string" where
  "attempt_reason t a =
     (let scope = scope_reason t (Some (isa_ticket_id a)) (Some (isa_project_id a)); st = isa_status a in
      if scope \<noteq> [] then scope
      else first_reason
        [(st \<in> {''FAILED'', ''REJECTED'', ''DISCARDED'', ''PROMOTION_REJECTED''},
          ''originating sandbox is '' @ py_lower st),
         (st \<notin> {''READY_FOR_REVIEW'', ''PROMOTED''},
          ''originating sandbox status '' @ st @ '' is not reviewable or promoted''),
         (st = ''READY_FOR_REVIEW'', ''sandbox proposal has not been promoted and reconciled''),
         (st = ''READY_FOR_REVIEW'' \<and> (\<not> isa_original_unchanged a \<or>
            isa_final_manifest_sha256 a \<noteq> Some (isa_initial_manifest_sha256 a)),
          ''sandbox source-integrity evidence is stale or incomplete''),
         (st = ''PROMOTED'' \<and> (case isa_promotion a of None \<Rightarrow> True | Some p \<Rightarrow> sprom_status p \<noteq> ''PROMOTED''),
          ''sandbox promotion is missing or not successful''),
         (st = ''PROMOTED'' \<and> (case reconciliation_of a of None \<Rightarrow> True | Some r \<Rightarrow> spr_status r \<noteq> ''RECONCILED''),
          ''promoted sandbox has not been reconciled with the current graph'')])"

definition newer_attempt :: "store \<Rightarrow> implementation_sandbox_attempt \<Rightarrow> bool" where
  "newer_attempt s a \<longleftrightarrow>
     (\<exists>x\<in>set (implementation_sandboxes s (Some (isa_ticket_id a))).
        isa_ticket_id x = isa_ticket_id a \<and> isa_id x \<noteq> isa_id a \<and> isa_created_at a < isa_created_at x \<and>
        isa_status x \<in> {''READY_FOR_REVIEW'', ''PROMOTED''})"

definition expected_manifest :: "implementation_sandbox_attempt \<Rightarrow> string option" where
  "expected_manifest a =
     (case isa_promotion a of
        Some p \<Rightarrow> if isa_status a = ''PROMOTED'' then sprom_final_manifest_sha256 p
                  else Some (isa_initial_manifest_sha256 a)
      | None \<Rightarrow> Some (isa_initial_manifest_sha256 a))"

definition currency_reason :: "env \<Rightarrow> store \<Rightarrow> project_ticket \<Rightarrow> implementation_sandbox_attempt \<Rightarrow> string" where
  "currency_reason e s t a =
     first_reason
       [(isa_status a = ''READY_FOR_REVIEW'' \<and> newer_attempt s a,
         ''sandbox evidence was superseded by a newer implementation attempt''),
        (truthy (current_project_manifest e s t) \<and> expected_manifest a \<noteq> current_project_manifest e s t,
         ''implementation evidence is stale against the current project manifest'')]"

text \<open>The status, source manifest, patch and reason an artifact contributes once its attempt passed;
  \<open>linked\<close> assesses another artifact of the same attempt (\<open>Inr None\<close>: not found).\<close>

type_synonym artifact_view = "string \<times> string option \<times> string option \<times> string"

definition link_reason ::
  "(string \<Rightarrow> ticket_evidence_assessment option result) \<Rightarrow> string option \<Rightarrow> string \<Rightarrow> string result" where
  "link_reason linked evidence_id text =
     (case linked (the evidence_id) of
        Inl x \<Rightarrow> Inl x
      | Inr None \<Rightarrow> Inr text
      | Inr (Some a) \<Rightarrow> Inr (if tea_eligible a then [] else text))"

definition decision_reason ::
  "(string \<Rightarrow> ticket_evidence_assessment option result) \<Rightarrow> sandbox_validation_decision \<Rightarrow> string result" where
  "decision_reason linked d =
    (if svd_status d \<notin> {''PASSED'', ''SATISFIED''} then
        Inr (''validation decision status is '' @ svd_status d @ '', not PASSED or SATISFIED'')
      else if truthy (svd_worker_execution_id d) then
        link_reason linked (svd_worker_execution_id d) ''validation decision's worker evidence is ineligible''
      else if truthy (svd_external_report_id d) then
        link_reason linked (svd_external_report_id d) ''validation decision's external report is ineligible''
      else Inr [])"

definition artifact_view ::
  "(string \<Rightarrow> ticket_evidence_assessment option result) \<Rightarrow> implementation_sandbox_attempt \<Rightarrow> sandbox_artifact
     \<Rightarrow> artifact_view result" where
  "artifact_view linked a art =
     (let st = isa_status a; sm = Some (isa_initial_manifest_sha256 a); patch = isa_patch_sha256 a in
      case art of
        Artifact_Attempt \<Rightarrow>
          Inr (st, sm, patch, first_reason
            [(st \<notin> {''READY_FOR_REVIEW'', ''PROMOTED''},
              ''sandbox status '' @ st @ '' is not reviewable or promoted''),
             (\<not> truthy patch \<or> isa_changes a = [], ''sandbox has no current implementation patch'')])
      | Artifact_Decision d \<Rightarrow>
          map_sum id (\<lambda>r. (svd_status d, sm, patch, r))
            (decision_reason linked d)
      | Artifact_Execution x \<Rightarrow>
          Inr (swe_status x, Some (swe_source_manifest_sha256 x), Some (swe_patch_sha256 x), first_reason
            [(swe_status x \<noteq> ''PASSED'', ''worker execution status is '' @ swe_status x @ '', not PASSED''),
             (Some (swe_source_manifest_sha256 x) \<noteq> sm \<or> Some (swe_patch_sha256 x) \<noteq> patch,
              ''worker execution is stale or bound to a superseded patch'')])
      | Artifact_Report r \<Rightarrow>
          Inr (sxr_status r, Some (sxr_source_manifest_sha256 r), Some (sxr_patch_sha256 r), first_reason
            [(sxr_status r \<noteq> ''PASSED'', ''external report status is '' @ sxr_status r @ '', not PASSED''),
             (Some (sxr_source_manifest_sha256 r) \<noteq> sm \<or> Some (sxr_patch_sha256 r) \<noteq> patch,
              ''external report is stale or bound to a superseded patch'')])
      | Artifact_Promotion p \<Rightarrow>
          Inr (sprom_status p, sprom_final_manifest_sha256 p, patch, first_reason
            [(sprom_status p \<noteq> ''PROMOTED'', ''promotion status is '' @ sprom_status p @ '', not PROMOTED'')])
      | Artifact_Reconciliation r \<Rightarrow>
          Inr (spr_status r, Some (spr_new_manifest_sha256 r), patch, first_reason
            [(spr_status r \<noteq> ''RECONCILED'' \<or> \<not> spr_source_unchanged_during_reconciliation r,
              ''reconciliation is incomplete or source integrity was not verified'')]))"

fun assess_sandbox_upto ::
  "nat \<Rightarrow> env \<Rightarrow> py_time \<Rightarrow> store \<Rightarrow> project_ticket \<Rightarrow> implementation_sandbox_attempt \<Rightarrow> string
     \<Rightarrow> ticket_evidence_assessment option result" where
  "assess_sandbox_upto 0 e now s t a evidence_id = Inl recursion_error"
| "assess_sandbox_upto (Suc n) e now s t a evidence_id =
     (case find_artifact a evidence_id of
        None \<Rightarrow> Inr None
      | Some art \<Rightarrow>
          (let first = attempt_reason t a in
           case (if first \<noteq> [] then Inr (isa_status a, Some (isa_initial_manifest_sha256 a), isa_patch_sha256 a, first)
                 else artifact_view (assess_sandbox_upto n e now s t a) a art) of
             Inl x \<Rightarrow> Inl x
           | Inr (status, sm, patch, reason) \<Rightarrow>
               Inr (Some (assessment now evidence_id (artifact_type art) (Some (isa_ticket_id a))
                 (Some (isa_project_id a)) (Some status)
                 (if reason \<noteq> [] then reason else currency_reason e s t a) sm patch))))"

definition assess_sandbox_artifact ::
  "env \<Rightarrow> py_time \<Rightarrow> store \<Rightarrow> project_ticket \<Rightarrow> implementation_sandbox_attempt \<Rightarrow> string
     \<Rightarrow> ticket_evidence_assessment option result" where
  "assess_sandbox_artifact e now s t a evidence_id =
     assess_sandbox_upto (length (isa_validation_decisions a) + 2) e now s t a evidence_id"

section \<open>Evidence of a ticket\<close>

fun first_assessed ::
  "('a \<Rightarrow> ticket_evidence_assessment option result) \<Rightarrow> 'a list \<Rightarrow> ticket_evidence_assessment option result" where
  "first_assessed f [] = Inr None"
| "first_assessed f (x # xs) =
     (case f x of
        Inl err \<Rightarrow> Inl err
      | Inr (Some a) \<Rightarrow> Inr (Some a)
      | Inr None \<Rightarrow> first_assessed f xs)"

definition workspace_reason :: "project_ticket \<Rightarrow> project_workspace_record \<Rightarrow> string" where
  "workspace_reason t r =
     (let scope = scope_reason t (pwr_ticket_id r) (Some (pwr_project_id r)) in
      if scope \<noteq> [] then scope
      else first_reason
        [(py_upper (pwr_status r) \<noteq> ''COMPLETED'',
          ''workspace result status is '' @ pwr_status r @ '', not COMPLETED''),
         (\<not> pwr_source_integrity_verified r \<or> \<not> pwr_read_only_verified r,
          ''workspace result lacks source-integrity or read-only verification''),
         (pwr_indexed_manifest_sha256 r \<noteq> pwr_final_manifest_sha256 r,
          ''workspace result is stale because its source manifests differ'')])"

definition validation_project :: "store \<Rightarrow> ticket_validation_result \<Rightarrow> string option" where
  "validation_project s v =
     (if truthy (tvr_project_id v) then tvr_project_id v
      else map_option pt_project_id (lookup_row pt_id (tvr_ticket_id v) (st_tickets s)))"

definition validation_reason :: "env \<Rightarrow> store \<Rightarrow> project_ticket \<Rightarrow> ticket_validation_result \<Rightarrow> string" where
  "validation_reason e s t v =
     (let scope = scope_reason t (Some (tvr_ticket_id v)) (validation_project s v) in
      if scope \<noteq> [] then scope
      else first_reason
        [(truthy (tvr_project_root v) \<and>
            canonical_root e (the (tvr_project_root v)) \<noteq> canonical_root e (pt_project_root t),
          ''validation project root does not match its ticket boundary''),
         (tvr_status v \<noteq> ''PASSED'', ''validation status is '' @ tvr_status v @ '', not PASSED'')])"

fun assess_evidence_upto ::
  "nat \<Rightarrow> env \<Rightarrow> py_time \<Rightarrow> store \<Rightarrow> project_ticket \<Rightarrow> string \<Rightarrow> ticket_evidence_assessment result" where
  "assess_evidence_upto 0 e now s t evidence_id = Inl recursion_error"
| "assess_evidence_upto (Suc n) e now s t evidence_id =
     (case lookup_row pwr_id evidence_id (st_workspace_records s) of
        Some r \<Rightarrow>
          Inr (assessment now evidence_id ''PROJECT_WORKSPACE_RECORD'' (pwr_ticket_id r) (Some (pwr_project_id r))
            (Some (pwr_status r)) (workspace_reason t r) (Some (pwr_final_manifest_sha256 r)) None)
      | None \<Rightarrow> (case lookup_row tvr_id evidence_id (st_validations s) of
        Some v \<Rightarrow>
          (let reason = validation_reason e s t v in
           case (if reason = [] \<and> truthy (tvr_workspace_record_id v) then
                   map_sum id (\<lambda>l. if tea_eligible l then []
                       else ''linked workspace result is ineligible: '' @ tea_reason l)
                     (assess_evidence_upto n e now s t (the (tvr_workspace_record_id v)))
                 else Inr reason) of
             Inl x \<Rightarrow> Inl x
           | Inr r \<Rightarrow>
               Inr (assessment now evidence_id ''TICKET_VALIDATION_RESULT'' (Some (tvr_ticket_id v))
                 (validation_project s v) (Some (tvr_status v)) r None None))
      | None \<Rightarrow>
          (case first_assessed (\<lambda>a. assess_sandbox_artifact e now s t a evidence_id) (implementation_sandboxes s None) of
             Inl x \<Rightarrow> Inl x
           | Inr (Some a) \<Rightarrow> Inr a
           | Inr None \<Rightarrow>
               Inr (assessment now evidence_id ''UNKNOWN'' None None None
                 ''artifact does not belong to this ticket or is not an accepted implementation-evidence type''
                 None None))))"

definition assess_evidence ::
  "env \<Rightarrow> py_time \<Rightarrow> store \<Rightarrow> project_ticket \<Rightarrow> string \<Rightarrow> ticket_evidence_assessment result" where
  "assess_evidence e now s t evidence_id =
     assess_evidence_upto (length (st_validations s) + 2) e now s t evidence_id"

definition attempt_evidence_ids :: "implementation_sandbox_attempt \<Rightarrow> string list" where
  "attempt_evidence_ids a =
     isa_id a # map svd_id (isa_validation_decisions a) @ map swe_id (isa_validation_worker_executions a) @
     map sxr_id (isa_external_validation_reports a) @
     (case isa_promotion a of
        None \<Rightarrow> []
      | Some p \<Rightarrow> sprom_id p # (case sprom_reconciliation p of None \<Rightarrow> [] | Some r \<Rightarrow> [spr_id r]))"

definition evidence_catalog ::
  "env \<Rightarrow> py_time \<Rightarrow> store \<Rightarrow> project_ticket \<Rightarrow> ticket_evidence_assessment list result" where
  "evidence_catalog e now s t =
     traverse (assess_evidence e now s t) (dict_fromkeys
       (map pwr_id (filter (\<lambda>r. pwr_ticket_id r = Some (pt_id t)) (st_workspace_records s)) @
        map tvr_id (filter (\<lambda>v. tvr_ticket_id v = pt_id t) (st_validations s)) @
        concat (map attempt_evidence_ids (implementation_sandboxes s (Some (pt_id t))))))"

section \<open>What an eligible assessment rests on\<close>

lemma scope_reason_Nil: "scope_reason t x y = [] \<longleftrightarrow> x = Some (pt_id t) \<and> y = Some (pt_project_id t)"
  by (simp add: scope_reason_def)

lemma first_reason_Nil: "(\<forall>c\<in>set cs. snd c \<noteq> []) \<Longrightarrow> first_reason cs = [] \<longleftrightarrow> (\<forall>c\<in>set cs. \<not> fst c)"
  by (induction cs rule: first_reason.induct) auto

lemma eligible_assessment [simp]: "tea_eligible (assessment now i ty tid pid st r sm p) = (r = [])"
  by (simp add: assessment_def)

lemma assessment_scope [simp]:
  "tea_ticket_id (assessment now i ty tid pid st r sm p) = tid"
  "tea_project_id (assessment now i ty tid pid st r sm p) = pid"
  "tea_reason (assessment now i ty tid pid st r sm p) = (if r \<noteq> [] then r else ''eligible current implementation evidence'')"
  by (simp_all add: assessment_def)

text \<open>A sandbox attempt backs evidence only when its proposal was promoted and the promotion was
  reconciled with the graph.\<close>

definition promoted_and_reconciled :: "project_ticket \<Rightarrow> implementation_sandbox_attempt \<Rightarrow> bool" where
  "promoted_and_reconciled t a \<longleftrightarrow>
     isa_ticket_id a = pt_id t \<and> isa_project_id a = pt_project_id t \<and> isa_status a = ''PROMOTED'' \<and>
     (\<exists>p r. isa_promotion a = Some p \<and> sprom_status p = ''PROMOTED'' \<and>
        sprom_reconciliation p = Some r \<and> spr_status r = ''RECONCILED'')"

lemma attempt_reason_Nil: "attempt_reason t a = [] \<longleftrightarrow> promoted_and_reconciled t a"
proof (cases "scope_reason t (Some (isa_ticket_id a)) (Some (isa_project_id a)) = []")
  case True
  then have scope: "isa_ticket_id a = pt_id t \<and> isa_project_id a = pt_project_id t"
    by (simp add: scope_reason_Nil)
  show ?thesis
  proof (cases "isa_status a = ''PROMOTED''")
    case promoted: True
    with True scope show ?thesis
      by (cases "isa_promotion a")
        (auto simp: attempt_reason_def promoted_and_reconciled_def reconciliation_of_def Let_def split: option.splits)
  next
    case False
    with True show ?thesis by (simp add: attempt_reason_def promoted_and_reconciled_def Let_def)
  qed
next
  case False
  then show ?thesis
    by (auto simp: attempt_reason_def promoted_and_reconciled_def Let_def scope_reason_Nil)
qed

text \<open>Its manifest is that of the project now, when that can be computed.\<close>

definition manifest_current :: "env \<Rightarrow> store \<Rightarrow> project_ticket \<Rightarrow> implementation_sandbox_attempt \<Rightarrow> bool" where
  "manifest_current e s t a \<longleftrightarrow>
     truthy (current_project_manifest e s t) \<longrightarrow> expected_manifest a = current_project_manifest e s t"

lemma assess_sandbox_eligible:
  assumes "assess_sandbox_upto n e now s t a i = Inr (Some r)"
  shows "tea_ticket_id r = Some (isa_ticket_id a) \<and> tea_project_id r = Some (isa_project_id a) \<and>
    (tea_eligible r \<longrightarrow> promoted_and_reconciled t a \<and> manifest_current e s t a)"
proof (cases n)
  case 0
  with assms show ?thesis by simp
next
  case (Suc m)
  with assms show ?thesis
    by (auto simp: Let_def attempt_reason_Nil manifest_current_def currency_reason_def promoted_and_reconciled_def
        split: option.splits sum.splits if_splits)
qed

lemma first_assessed_Some:
  "first_assessed f xs = Inr (Some a) \<Longrightarrow> \<exists>x\<in>set xs. f x = Inr (Some a)"
  by (induction xs) (auto split: sum.splits option.splits)

definition workspace_backs :: "project_ticket \<Rightarrow> project_workspace_record \<Rightarrow> bool" where
  "workspace_backs t r \<longleftrightarrow>
     pwr_ticket_id r = Some (pt_id t) \<and> pwr_project_id r = pt_project_id t \<and>
     py_upper (pwr_status r) = ''COMPLETED'' \<and> pwr_source_integrity_verified r \<and> pwr_read_only_verified r \<and>
     pwr_indexed_manifest_sha256 r = pwr_final_manifest_sha256 r"

lemma workspace_reason_Nil: "workspace_reason t r = [] \<longleftrightarrow> workspace_backs t r"
  by (auto simp: workspace_reason_def workspace_backs_def Let_def scope_reason_Nil)

definition validation_backs :: "env \<Rightarrow> store \<Rightarrow> project_ticket \<Rightarrow> ticket_validation_result \<Rightarrow> bool" where
  "validation_backs e s t v \<longleftrightarrow>
     tvr_ticket_id v = pt_id t \<and> validation_project s v = Some (pt_project_id t) \<and> tvr_status v = ''PASSED'' \<and>
     (truthy (tvr_project_root v) \<longrightarrow> canonical_root e (the (tvr_project_root v)) = canonical_root e (pt_project_root t))"

lemma validation_reason_Nil: "validation_reason e s t v = [] \<longleftrightarrow> validation_backs e s t v"
  by (auto simp: validation_reason_def validation_backs_def Let_def scope_reason_Nil)

text \<open>An identifier is backed by evidence of the ticket: an intact workspace result, a passed
  validation whose linked result (if any) is itself backed, or a promoted and reconciled sandbox.\<close>

inductive backed :: "env \<Rightarrow> store \<Rightarrow> project_ticket \<Rightarrow> string \<Rightarrow> bool" for e s t where
  backed_workspace: "r \<in> set (st_workspace_records s) \<Longrightarrow> pwr_id r = i \<Longrightarrow> workspace_backs t r \<Longrightarrow> backed e s t i"
| backed_validation: "v \<in> set (st_validations s) \<Longrightarrow> tvr_id v = i \<Longrightarrow> validation_backs e s t v \<Longrightarrow>
     (truthy (tvr_workspace_record_id v) \<Longrightarrow> backed e s t (the (tvr_workspace_record_id v))) \<Longrightarrow> backed e s t i"
| backed_sandbox: "a \<in> set (st_sandboxes s) \<Longrightarrow> find_artifact a i \<noteq> None \<Longrightarrow> promoted_and_reconciled t a \<Longrightarrow>
     manifest_current e s t a \<Longrightarrow> backed e s t i"

lemma assess_sandbox_found: "assess_sandbox_upto n e now s t a i = Inr (Some r) \<Longrightarrow> find_artifact a i \<noteq> None"
  by (cases n) (auto split: option.splits)

lemma assess_evidence_upto_sound:
  "assess_evidence_upto n e now s t i = Inr a \<Longrightarrow> tea_eligible a \<Longrightarrow>
     backed e s t i \<and> tea_ticket_id a = Some (pt_id t) \<and> tea_project_id a = Some (pt_project_id t)"
proof (induction n e now s t i arbitrary: a rule: assess_evidence_upto.induct)
  case (1 e now s t i)
  then show ?case by simp
next
  case (2 n e now s t i)
  show ?case
  proof (cases "lookup_row pwr_id i (st_workspace_records s)")
    case (Some r)
    with "2.prems" have "workspace_backs t r" and a: "tea_ticket_id a = pwr_ticket_id r" "tea_project_id a = Some (pwr_project_id r)"
      by (auto simp: workspace_reason_Nil)
    with lookup_row_Some [OF Some] show ?thesis
      by (auto intro: backed_workspace simp: workspace_backs_def)
  next
    case no_record: None
    show ?thesis
    proof (cases "lookup_row tvr_id i (st_validations s)")
      case (Some v)
      note v = lookup_row_Some [OF this]
      have ok: "validation_backs e s t v"
        using "2.prems" no_record Some
        by (auto simp: Let_def validation_reason_Nil split: sum.splits if_splits)
      have scope: "tea_ticket_id a = Some (tvr_ticket_id v)" "tea_project_id a = validation_project s v"
        using "2.prems" no_record Some by (auto simp: Let_def split: sum.splits)
      have "backed e s t (the (tvr_workspace_record_id v))" if link: "truthy (tvr_workspace_record_id v)"
      proof -
        have nil: "validation_reason e s t v = []" using ok by (simp add: validation_reason_Nil)
        obtain l where l: "assess_evidence_upto n e now s t (the (tvr_workspace_record_id v)) = Inr l"
          using "2.prems"(1) no_record Some nil link
          by (cases "assess_evidence_upto n e now s t (the (tvr_workspace_record_id v))") (simp_all add: Let_def)
        with "2.prems" no_record Some nil link have "tea_eligible l"
          by (auto simp: Let_def split: if_splits)
        with "2.IH" [OF no_record Some refl _ l] nil link show ?thesis by simp
      qed
      with v ok scope show ?thesis
        by (auto intro: backed_validation simp: validation_backs_def)
    next
      case None
      with "2.prems" no_record obtain x where
        found: "first_assessed (\<lambda>a. assess_sandbox_artifact e now s t a i) (implementation_sandboxes s None) = Inr (Some x)"
        by (auto split: sum.splits option.splits)
      with "2.prems" no_record None have x: "x = a" by simp
      from first_assessed_Some [OF found] x obtain b where
        b: "b \<in> set (st_sandboxes s)" "assess_sandbox_artifact e now s t b i = Inr (Some a)"
        by (auto simp: implementation_sandboxes_def)
      note b' = b(2) [unfolded assess_sandbox_artifact_def]
      from assess_sandbox_eligible [OF b'] assess_sandbox_found [OF b'] b(1) "2.prems"(2)
      show ?thesis by (auto intro: backed_sandbox simp: promoted_and_reconciled_def)
    qed
  qed
qed

section \<open>The assessment returns\<close>

text \<open>Links lead to objects that link no further: a validation to a workspace result (what
  \<open>record_validation\<close> checks), a sandbox decision to an execution or a report.\<close>

definition decision_links :: "sandbox_validation_decision \<Rightarrow> string set" where
  "decision_links d =
     {x. (truthy (svd_worker_execution_id d) \<and> svd_worker_execution_id d = Some x) \<or>
         (truthy (svd_external_report_id d) \<and> svd_external_report_id d = Some x)}"

definition links_resolved :: "store \<Rightarrow> bool" where
  "links_resolved s \<longleftrightarrow>
     (\<forall>v\<in>set (st_validations s). truthy (tvr_workspace_record_id v) \<longrightarrow>
        lookup_row pwr_id (the (tvr_workspace_record_id v)) (st_workspace_records s) \<noteq> None) \<and>
     (\<forall>a\<in>set (st_sandboxes s). \<forall>d\<in>set (isa_validation_decisions a). \<forall>x\<in>decision_links d.
        \<forall>d'. find_artifact a x \<noteq> Some (Artifact_Decision d'))"

lemma assess_sandbox_leaf:
  assumes "\<forall>d. find_artifact a i \<noteq> Some (Artifact_Decision d)"
  shows "\<exists>x. assess_sandbox_upto (Suc n) e now s t a i = Inr x"
proof (cases "find_artifact a i")
  case None
  then show ?thesis by simp
next
  case (Some art)
  have "\<exists>y. (if attempt_reason t a \<noteq> []
        then Inr (isa_status a, Some (isa_initial_manifest_sha256 a), isa_patch_sha256 a, attempt_reason t a)
        else artifact_view (assess_sandbox_upto n e now s t a) a art) = (Inr y :: artifact_view result)"
    using assms Some by (cases art) (auto simp: artifact_view_def Let_def)
  then show ?thesis using Some by (auto simp: Let_def split: prod.splits)
qed

lemma find_artifact_decision:
  "find_artifact a i = Some (Artifact_Decision d) \<Longrightarrow> d \<in> set (isa_validation_decisions a)"
  by (auto simp: find_artifact_def split: if_splits option.splits dest!: find_Some_set)

lemma link_reason_returns:
  assumes "\<exists>x. linked (the y) = Inr x"
  shows "\<exists>r. link_reason linked y text = Inr r"
  using assms by (auto simp: link_reason_def split: option.splits)

lemma assess_sandbox_returns:
  assumes "links_resolved s" and "a \<in> set (st_sandboxes s)"
  shows "\<exists>x. assess_sandbox_upto (Suc (Suc n)) e now s t a i = Inr x"
proof (cases "\<exists>d. find_artifact a i = Some (Artifact_Decision d)")
  case False
  then show ?thesis using assess_sandbox_leaf by blast
next
  case True
  then obtain d where d: "find_artifact a i = Some (Artifact_Decision d)" by blast
  let ?linked = "assess_sandbox_upto (Suc n) e now s t a"
  have leaf: "\<exists>x. ?linked y = Inr x" if "y \<in> decision_links d" for y
    using assess_sandbox_leaf [of a y] assms find_artifact_decision [OF d] that
    unfolding links_resolved_def by blast
  have "\<exists>r. link_reason ?linked (svd_worker_execution_id d) m = Inr r" if "truthy (svd_worker_execution_id d)" for m
    using that by (intro link_reason_returns leaf) (auto simp: decision_links_def truthy_def)
  moreover have "\<exists>r. link_reason ?linked (svd_external_report_id d) m = Inr r" if "truthy (svd_external_report_id d)" for m
    using that by (intro link_reason_returns leaf) (auto simp: decision_links_def truthy_def)
  ultimately have "\<exists>r. decision_reason ?linked d = Inr r"
    unfolding decision_reason_def by (simp only: split: if_splits) blast
  then have "\<exists>y. artifact_view ?linked a (Artifact_Decision d) = Inr y"
    by (auto simp: artifact_view_def Let_def simp del: assess_sandbox_upto.simps)
  then have "\<exists>y. (if attempt_reason t a \<noteq> []
        then Inr (isa_status a, Some (isa_initial_manifest_sha256 a), isa_patch_sha256 a, attempt_reason t a)
        else artifact_view ?linked a (Artifact_Decision d)) = (Inr y :: artifact_view result)" by auto
  then show ?thesis
    using d by (subst assess_sandbox_upto.simps) (auto simp: Let_def simp del: assess_sandbox_upto.simps split: prod.splits)
qed

lemma first_assessed_returns:
  "\<forall>x\<in>set xs. \<exists>y. f x = Inr y \<Longrightarrow> \<exists>y. first_assessed f xs = Inr y"
  by (induction xs) (auto split: option.splits)

lemma assess_evidence_other:
  assumes "links_resolved s" and "lookup_row tvr_id i (st_validations s) = None \<or> lookup_row pwr_id i (st_workspace_records s) \<noteq> None"
  shows "\<exists>x. assess_evidence_upto (Suc n) e now s t i = Inr x"
proof (cases "lookup_row pwr_id i (st_workspace_records s)")
  case (Some r)
  then show ?thesis by simp
next
  case None
  have "\<forall>a\<in>set (implementation_sandboxes s None). \<exists>y. assess_sandbox_artifact e now s t a i = Inr y"
    using assess_sandbox_returns [OF assms(1)] by (simp add: implementation_sandboxes_def assess_sandbox_artifact_def)
  from first_assessed_returns [OF this] obtain y where
    "first_assessed (\<lambda>a. assess_sandbox_artifact e now s t a i) (implementation_sandboxes s None) = Inr y" by blast
  with None assms(2) show ?thesis by (cases y) simp_all
qed

lemma assess_evidence_total:
  assumes "links_resolved s"
  shows "\<exists>a. assess_evidence e now s t i = Inr a"
proof (cases "lookup_row tvr_id i (st_validations s) = None \<or> lookup_row pwr_id i (st_workspace_records s) \<noteq> None")
  case True
  from assess_evidence_other [OF assms this] show ?thesis by (simp add: assess_evidence_def del: assess_evidence_upto.simps)
next
  case False
  then obtain v where v: "lookup_row tvr_id i (st_validations s) = Some v" and none: "lookup_row pwr_id i (st_workspace_records s) = None"
    by auto
  let ?link = "assess_evidence_upto (Suc (length (st_validations s))) e now s t (the (tvr_workspace_record_id v))"
  have "truthy (tvr_workspace_record_id v) \<longrightarrow> (\<exists>l. ?link = Inr l)"
    using assess_evidence_other [OF assms] lookup_row_Some [OF v] assms unfolding links_resolved_def by blast
  then have "\<exists>x. assess_evidence_upto (Suc (Suc (length (st_validations s)))) e now s t i = Inr x"
    using v none by (cases ?link)
      (auto simp: assess_evidence_upto.simps(2) [where n = "Suc (length (st_validations s))"] Let_def simp del: assess_evidence_upto.simps)
  then show ?thesis by (simp add: assess_evidence_def del: assess_evidence_upto.simps)
qed

section \<open>Properties\<close>

definition demo_ticket :: project_ticket where
  "demo_ticket =
     \<lparr>pt_id = ''t'', pt_project_id = ''p'', pt_project_root = ''/a'', pt_title =
      ''fix'', pt_description = ''bug'', pt_priority = ''HIGH'', pt_status = ''ACTIVE'',
      pt_acceptance_criteria = [], pt_constraints = [], pt_dependency_ticket_ids = [],
      pt_dependency_scopes = [], pt_source_claim_ids = [], pt_governance_policy_id = None,
      pt_governance_policy_version = None, pt_budget_policy_rule_id = [], pt_budget =
      default_budget, pt_usage = \<lparr>tu_tokens = 0, tu_model_calls = 0, tu_worker_calls =
      0, tu_wall_time_seconds = 0, tu_deepest_branch = 0\<rparr>, pt_execution_authorized =
      False, pt_created_by = [], pt_created_at = 0, pt_updated_at = 0, pt_satisfied_at = None,
      pt_closure_decisions = []\<rparr>"

definition demo_reconciliation :: sandbox_promotion_reconciliation where
  "demo_reconciliation =
     \<lparr>spr_id = ''rc'', spr_attempt_id = [], spr_promotion_id = [], spr_ticket_id = [],
      spr_project_id = [], spr_project_root = [], spr_status = ''RECONCILED'',
      spr_previous_manifest_sha256 = [], spr_new_manifest_sha256 = [], spr_scan_id = [],
      spr_changed_paths = [], spr_dependent_paths = [], spr_parsed_paths = [],
      spr_reused_file_ids = [], spr_invalidated_claim_ids = [], spr_superseded_claim_ids = [],
      spr_invalidated_workspace_record_ids = [], spr_superseded_validation_decision_ids = [],
      spr_replacement_claim_ids = [], spr_replacement_task_ids = [], spr_evidence = [],
      spr_checkpoints = [], spr_source_unchanged_during_reconciliation = False, spr_created_at
      = 0, spr_completed_at = None\<rparr>"

definition demo_promotion :: sandbox_promotion_record where
  "demo_promotion =
     \<lparr>sprom_id = ''pr'', sprom_project_id = None, sprom_project_root = None,
      sprom_approval_id = [], sprom_status = ''PROMOTED'', sprom_initial_manifest_sha256 = [],
      sprom_applied_manifest_sha256 = None, sprom_final_manifest_sha256 = Some ''m'',
      sprom_validations = [], sprom_rollback_validations = [], sprom_rollback_verified = None,
      sprom_failure_reason = None, sprom_lease_id = None, sprom_fencing_token = None,
      sprom_evidence = [], sprom_checkpoints = [], sprom_mutation_journal = None,
      sprom_reconciliation = Some demo_reconciliation, sprom_created_at = 0,
      sprom_completed_at = None\<rparr>"

definition demo_attempt :: implementation_sandbox_attempt where
  "demo_attempt =
     \<lparr>isa_id = ''x'', isa_ticket_id = ''t'', isa_plan_record_id = [], isa_project_id =
      ''p'', isa_project_root = ''/a'', isa_status = ''PROMOTED'', isa_authorized_paths = [],
      isa_changes = [\<lparr>pc_path = ''x'', pc_before_hash = [], pc_after_hash = [],
      pc_unified_diff = [], pc_change_reason = None, pc_before_content = None,
      pc_after_content = None, pc_before_bytes_base64 = None, pc_after_bytes_base64 =
      None\<rparr>], isa_patch_sha256 = Some ''d'', isa_validations = [],
      isa_validation_decisions = [], isa_validation_evidence = [],
      isa_validation_worker_executions = [], isa_external_validation_reports = [],
      isa_promotion_approval = None, isa_promotion_approval_history = [],
      isa_promotion_approval_missing = [], isa_promotion_approval_expiration_reasons = [],
      isa_promotion = Some demo_promotion, isa_checkpoints = [], isa_worker = [],
      isa_worker_configuration = [], isa_files_read = [], isa_process_policy = [],
      isa_network_policy = [], isa_estimated_cost_usd = None, isa_cost_basis = [],
      isa_worker_calls = 0, isa_model_calls = 0, isa_elapsed_seconds = 0,
      isa_initial_manifest_sha256 = [], isa_final_manifest_sha256 = None,
      isa_original_unchanged = False, isa_filesystem_disposed = False, isa_failure_reason =
      None, isa_execution_authorized = False, isa_created_at = 0, isa_completed_at = None,
      isa_discarded_at = None\<rparr>"

definition demo_result :: project_workspace_record where
  "demo_result = demo_plan\<lparr>pwr_ticket_id := Some ''t'', pwr_status := ''completed'',
     pwr_source_integrity_verified := True, pwr_read_only_verified := True\<rparr>"

definition demo_evidence_store :: store where
  "demo_evidence_store = empty_store\<lparr>st_projects := [demo_project], st_files := [demo_file],
     st_tickets := [demo_ticket], st_workspace_records := [demo_result], st_sandboxes := [demo_attempt]\<rparr>"

text \<open>C3: Evidence is never borrowed or unfinished: an artifact assessed as eligible belongs to this ticket
  and its project, and is an intact completed workspace result, a passed validation whose linked
  result is itself eligible, or part of a sandbox whose proposal was promoted and reconciled and
  whose final manifest is that of the project now whenever that manifest can be computed.\<close>

theorem eligible_evidence_backed:
  assumes "assess_evidence e now s t i = Inr a" and "tea_eligible a"
  shows "backed e s t i \<and> tea_ticket_id a = Some (pt_id t) \<and> tea_project_id a = Some (pt_project_id t)"
  using assess_evidence_upto_sound [OF assms(1) [unfolded assess_evidence_def] assms(2)] .

theorem eligible_evidence_backed_witness:
  "backed plain_env demo_evidence_store demo_ticket ''r''"
proof -
  let ?a = "assess_evidence plain_env 0 demo_evidence_store demo_ticket ''r''"
  have "isl ?a = False" and "tea_eligible (projr ?a)" by code_simp+
  then show ?thesis using eligible_evidence_backed [of plain_env 0 demo_evidence_store demo_ticket "''r''" "projr ?a"]
    by (cases ?a) auto
qed



text \<open>The staleness check fails open: as soon as one indexed file of the project cannot be read (for
  instance because it was deleted), no manifest is computed and a promoted, reconciled sandbox stays
  eligible evidence whatever manifest it was promoted with.\<close>

theorem unreadable_file_skips_staleness:
  assumes "f \<in> set (project_files s (pt_project_id t))"
    and "env_file_hash e (env_resolve e (join_path (env_resolve e (pt_project_root t)) (pf_path f))) = None"
    and "promoted_and_reconciled t a" and "truthy (isa_patch_sha256 a)" and "isa_changes a \<noteq> []"
  shows "\<exists>r. assess_sandbox_artifact e now s t a (isa_id a) = Inr (Some r) \<and> tea_eligible r"
proof -
  have "manifest_entry e (env_resolve e (pt_project_root t)) f = None"
    using assms(2) by (simp add: manifest_entry_def Let_def)
  with assms(1) have none: "current_project_manifest e s t = None"
    by (force simp: current_project_manifest_def Let_def)
  have status: "isa_status a = ''PROMOTED''" and nil: "attempt_reason t a = []"
    using assms(3) by (simp_all add: promoted_and_reconciled_def attempt_reason_Nil)
  have "find_artifact a (isa_id a) = Some Artifact_Attempt" by (simp add: find_artifact_def)
  moreover have "currency_reason e s t a = []"
    using none status by (simp add: currency_reason_def truthy_def)
  ultimately show ?thesis
    using nil status assms(4,5) by (simp add: assess_sandbox_artifact_def artifact_view_def Let_def)
qed

theorem unreadable_file_skips_staleness_witness:
  "\<exists>r. assess_sandbox_artifact plain_env 0 demo_evidence_store demo_ticket demo_attempt ''x'' = Inr (Some r) \<and> tea_eligible r"
proof -
  have "demo_file \<in> set (project_files demo_evidence_store (pt_project_id demo_ticket))"
    by (simp add: project_files_def demo_evidence_store_def demo_file_def demo_ticket_def)
  moreover have "promoted_and_reconciled demo_ticket demo_attempt"
    by (simp add: promoted_and_reconciled_def demo_ticket_def demo_attempt_def demo_promotion_def demo_reconciliation_def)
  moreover have "truthy (isa_patch_sha256 demo_attempt)" and "isa_changes demo_attempt \<noteq> []" and "isa_id demo_attempt = ''x''"
    by (simp_all add: demo_attempt_def truthy_def)
  ultimately show ?thesis
    using unreadable_file_skips_staleness [of demo_file demo_evidence_store demo_ticket plain_env demo_attempt 0]
    by (simp add: plain_env_def)
qed

end
