(* ===== verification/Ticketing.thy ===== *)
theory Ticketing
  imports Ticket_Evidence
begin

text \<open>
  Tickets (\<open>TicketManager\<close> of \<open>src/rlmgraph/ticketing.py\<close>): creation under an explicit scope
  and budget, criteria and their resolution, validations, plan approval, attached results, and the
  closure gates. An operation takes the clock and the identifiers it draws (\<open>ids k\<close> is the
  \<open>k\<close>-th) as arguments and returns its value or error together with the store it leaves, since
  some errors are raised after a write. Texts outside ASCII are given by their UTF-8 bytes.
\<close>

section \<open>Reading a ticket\<close>

definition scope_check :: "string py_dict \<Rightarrow> project_ticket \<Rightarrow> ticket_dependency_scope \<Rightarrow> unit result" where
  "scope_check projects t sc =
     (if dict_get (tds_ticket_id sc) projects \<noteq> Some (tds_project_id sc) then
        Inl (ValueError ''Ticket dependency project identity is stale or mismatched.'')
      else if tds_project_id sc \<noteq> pt_project_id t \<and> \<not> tds_read_only sc then
        Inl (ValueError ''Cross-project ticket dependencies must remain read-only.'')
      else Inr ())"

definition get_ticket :: "env \<Rightarrow> store \<Rightarrow> string \<Rightarrow> project_ticket result" where
  "get_ticket e s ticket_id =
     (case lookup_row pt_id ticket_id (st_tickets s) of
        None \<Rightarrow> Inl (ValueError (''Ticket not found: '' @ ticket_id))
      | Some t \<Rightarrow>
          (case governed_project e s (pt_project_id t) of
             Inl x \<Rightarrow> Inl x
           | Inr project \<Rightarrow>
               if canonical_root e (pt_project_root t) \<noteq> canonical_root e (pr_root project) then
                 Inl (ValueError ''Ticket project identity does not match its registered root.'')
               else
                 (case traverse (scope_check (dict_of_pairs (map (\<lambda>x. (pt_id x, pt_project_id x)) (st_tickets s))) t)
                     (pt_dependency_scopes t) of
                    Inl x \<Rightarrow> Inl x
                  | Inr _ \<Rightarrow> Inr t)))"

definition ticket_event ::
  "string \<Rightarrow> py_time \<Rightarrow> string \<Rightarrow> string \<Rightarrow> string \<Rightarrow> string \<Rightarrow> string list \<Rightarrow> store \<Rightarrow> store" where
  "ticket_event new_id now ticket_id kind detail actor artifact_ids s =
     (let t = lookup_row pt_id ticket_id (st_tickets s) in
      save_ticket_event
        \<lparr>te_id = new_id, te_ticket_id = ticket_id, te_project_id = map_option pt_project_id t,
         te_project_root = map_option pt_project_root t, te_kind = kind, te_detail = detail,
         te_actor = actor, te_artifact_ids = artifact_ids, te_created_at = now\<rparr> s)"

section \<open>Source claims\<close>

definition revalidated ::
  "py_time \<Rightarrow> project_file list \<Rightarrow> string \<Rightarrow> claim \<Rightarrow> bool \<times> claim" where
  "revalidated now fs state c =
     (if cl_validity_status c = ClaimValidity_CURRENT then
        (let (valid, reason) = assess_claim_from_index c fs state in record_validity now c valid state reason)
      else (False, c))"

definition write_back :: "(bool \<times> claim) option \<Rightarrow> store \<Rightarrow> store" where
  "write_back x s = (case x of Some (True, c) \<Rightarrow> update_claim c s | _ \<Rightarrow> s)"

definition claim_unusable :: "env \<Rightarrow> project_record \<Rightarrow> claim \<Rightarrow> bool" where
  "claim_unusable e project c \<longleftrightarrow>
     cl_validity_status c \<noteq> ClaimValidity_CURRENT \<or> cl_project_root c = [] \<or>
     env_resolve e (cl_project_root c) \<noteq> env_resolve e (pr_root project)"

definition assert_current_claims ::
  "env \<Rightarrow> py_time \<Rightarrow> project_record \<Rightarrow> string list \<Rightarrow> store \<Rightarrow> unit result \<times> store" where
  "assert_current_claims e now project claim_ids s =
     (let fs = project_files s (pr_id project);
          state = indexed_project_fingerprint e (pr_root project) (map (\<lambda>f. (pf_path f, pf_content_hash f)) fs);
          checked = map (\<lambda>i. map_option (revalidated now fs state) (get_claim s i)) claim_ids;
          s' = fold write_back checked s;
          invalid = map fst (filter (\<lambda>(i, x). case x of None \<Rightarrow> True | Some (_, c) \<Rightarrow> claim_unusable e project c)
            (zip claim_ids checked))
      in (if invalid \<noteq> [] then
            Inl (ValueError (''Ticket source claims must be current and belong to the selected project: '' @
              py_join '', '' invalid))
          else Inr (), s'))"

definition assert_current_source_claims ::
  "env \<Rightarrow> py_time \<Rightarrow> project_ticket \<Rightarrow> store \<Rightarrow> unit result \<times> store" where
  "assert_current_source_claims e now t s =
     (case find (\<lambda>p. pr_id p = pt_project_id t) (st_projects s) of
        None \<Rightarrow> (Inl (ValueError ''Ticket project is no longer registered.''), s)
      | Some project \<Rightarrow> assert_current_claims e now project (pt_source_claim_ids t) s)"

section \<open>Creation\<close>

definition priorities :: "string list" where
  "priorities = [''LOW'', ''MEDIUM'', ''HIGH'', ''URGENT'']"

record ticket_request =
  kr_project_id :: string
  kr_title :: string
  kr_description :: string
  kr_acceptance_criteria :: "string list"
  kr_constraints :: "string list"
  kr_priority :: string
  kr_dependency_ticket_ids :: "string list"
  kr_budget :: ticket_budget
  kr_created_by :: string
  kr_source_claim_ids :: "string list"

definition given_lines :: "string list \<Rightarrow> string list" where
  "given_lines xs = map squeeze_spaces (filter (\<lambda>x. \<not> blank x) xs)"

definition new_criterion :: "string \<Rightarrow> string \<Rightarrow> ticket_acceptance_criterion" where
  "new_criterion new_id description =
     \<lparr>tac_id = new_id, tac_description = description, tac_status = ''PENDING'', tac_evidence_ids = [],
      tac_waiver_reason = None, tac_blocker_reason = None, tac_resolved_by = None, tac_resolved_at = None,
      tac_evidence_assessments = []\<rparr>"

definition dependency_scope :: "store \<Rightarrow> string \<Rightarrow> string \<Rightarrow> ticket_dependency_scope" where
  "dependency_scope s project_id dep =
     (let owner = (case lookup_row pt_id dep (st_tickets s) of Some t \<Rightarrow> pt_project_id t | None \<Rightarrow> []) in
      \<lparr>tds_ticket_id = dep, tds_project_id = owner, tds_read_only = (owner \<noteq> project_id),
       tds_separately_authorized = False\<rparr>)"

definition new_ticket ::
  "env \<Rightarrow> (nat \<Rightarrow> string) \<Rightarrow> py_time \<Rightarrow> ticket_request \<Rightarrow> project_record \<Rightarrow> project_governance_policy \<Rightarrow> store
     \<Rightarrow> project_ticket" where
  "new_ticket e ids now q project policy s =
     (let criteria = given_lines (kr_acceptance_criteria q); constraints = given_lines (kr_constraints q) in
      \<lparr>pt_id = ids 1, pt_project_id = pr_id project, pt_project_root = env_resolve e (pr_root project),
       pt_title = squeeze_spaces (kr_title q), pt_description = squeeze_spaces (kr_description q),
       pt_priority = py_upper (kr_priority q), pt_status = ''DRAFT'',
       pt_acceptance_criteria = map (\<lambda>(k, d). new_criterion (ids (3 + 2 * k)) d) (enumerate 0 criteria),
       pt_constraints = map (\<lambda>(k, d). \<lparr>tco_id = ids (4 + 2 * k), tco_description = d\<rparr>) (enumerate 0 constraints),
       pt_dependency_ticket_ids = dict_fromkeys (kr_dependency_ticket_ids q),
       pt_dependency_scopes = map (dependency_scope s (pr_id project)) (dict_fromkeys (kr_dependency_ticket_ids q)),
       pt_source_claim_ids = dict_fromkeys (kr_source_claim_ids q),
       pt_governance_policy_id = Some (pol_id policy), pt_governance_policy_version = Some (pol_version policy),
       pt_budget_policy_rule_id = ''BUDGET-CEILING'', pt_budget = kr_budget q,
       pt_usage = \<lparr>tu_tokens = 0, tu_model_calls = 0, tu_worker_calls = 0, tu_wall_time_seconds = 0,
         tu_deepest_branch = 0\<rparr>,
       pt_execution_authorized = False, pt_created_by = kr_created_by q, pt_created_at = now,
       pt_updated_at = now, pt_satisfied_at = None, pt_closure_decisions = []\<rparr>)"

definition ticket_project :: "ticket_request \<Rightarrow> store \<Rightarrow> project_record result" where
  "ticket_project q s =
     (if squeeze_spaces (kr_title q) = [] then Inl (ValueError ''Ticket title is required.'')
      else if squeeze_spaces (kr_description q) = [] then Inl (ValueError ''Ticket description is required.'')
      else if given_lines (kr_acceptance_criteria q) = [] then
        Inl (ValueError ''At least one acceptance criterion is required.'')
      else if py_upper (kr_priority q) \<notin> set priorities then
        Inl (ValueError (''Priority must be one of: '' @ py_join '', '' (sort priorities) @ ''.''))
      else
        (case find (\<lambda>p. pr_id p = kr_project_id q) (st_projects s) of
           None \<Rightarrow> Inl (ValueError ''Ticket project must be explicitly registered read-only.'')
         | Some project \<Rightarrow>
             if \<not> pr_read_only project \<or> \<not> pr_explicitly_selected project then
               Inl (ValueError ''Ticket project must be explicitly registered read-only.'')
             else if pr_execution_mode project = ProjectExecutionMode_READ_ONLY then
               Inl (ValueError ''Read-only projects cannot create implementation tickets.'')
             else Inr project))"

definition create_ticket ::
  "env \<Rightarrow> (nat \<Rightarrow> string) \<Rightarrow> py_time \<Rightarrow> ticket_request \<Rightarrow> store \<Rightarrow> project_ticket result \<times> store" where
  "create_ticket e ids now q s =
     (case ticket_project q s of
        Inl x \<Rightarrow> (Inl x, s)
      | Inr project \<Rightarrow>
          let claim_ids = dict_fromkeys (kr_source_claim_ids q) in
          case assert_current_claims e now project claim_ids s of
            (Inl x, s1) \<Rightarrow> (Inl x, s1)
          | (Inr _, s1) \<Rightarrow>
              let missing = sorted_set (filter (\<lambda>d. d \<notin> pt_id ` set (st_tickets s1)) (kr_dependency_ticket_ids q)) in
              if missing \<noteq> [] then
                (Inl (ValueError (''Unknown ticket dependencies: '' @ py_join '', '' missing)), s1)
              else
                (case governance_policy e (ids 0) now (pr_id project) s1 of
                   (Inl x, s2) \<Rightarrow> (Inl x, s2)
                 | (Inr policy, s2) \<Rightarrow>
                     (case assert_budget policy (kr_budget q) of
                        Inl x \<Rightarrow> (Inl x, s2)
                      | Inr _ \<Rightarrow>
                          let t = new_ticket e ids now q project policy s1;
                              s3 = fold (\<lambda>c. save_edge \<lparr>ge_source = pt_id t, ge_relation = ''DERIVED_FROM'', ge_target = c\<rparr>)
                                     claim_ids (save_project_ticket t s2)
                          in (Inr t, ticket_event (ids 2) now (pt_id t) ''CREATED''
                                ''Ticket created with explicit scope and budget.'' (kr_created_by q) [] s3))))"

section \<open>Closure\<close>

definition criterion_gate ::
  "ticket_acceptance_criterion \<Rightarrow> ticket_evidence_assessment list \<Rightarrow> bool \<times> string \<times> string option" where
  "criterion_gate c assessments =
     (if tac_status c = ''EVIDENCED'' then
        if assessments \<noteq> [] \<and> (\<forall>a\<in>set assessments. tea_eligible a) then
          (True, ''Current implementation evidence accepted ('' @ py_str_nat (length assessments) @ '' artifact(s)).'', None)
        else
          (False,
           if assessments = [] then ''No evidence is attached.''
           else ''Evidence is no longer eligible: '' @
             py_join ''; '' (map tea_reason (filter (\<lambda>a. \<not> tea_eligible a) assessments)),
           Some (''criterion lacks current eligible evidence: '' @ tac_description c))
      else if tac_status c = ''WAIVED'' then
        if truthy (tac_waiver_reason c) \<and> truthy (tac_resolved_by c) then
          (True, ''Explicitly waived by '' @ the (tac_resolved_by c) @ '': '' @ the (tac_waiver_reason c), None)
        else (False, ''Waiver requires a reason and attribution.'',
              Some (''criterion lacks attributed waiver: '' @ tac_description c))
      else if tac_status c = ''BLOCKED'' then
        if truthy (tac_blocker_reason c) \<and> truthy (tac_resolved_by c) then
          (True, ''Explicitly blocked by '' @ the (tac_resolved_by c) @ '': '' @ the (tac_blocker_reason c), None)
        else (False, ''Blocker requires a reason and attribution.'',
              Some (''criterion lacks attributed blocker: '' @ tac_description c))
      else (False, ''Criterion remains pending.'', Some (''criterion remains pending: '' @ tac_description c)))"

definition closure_gate ::
  "ticket_acceptance_criterion \<Rightarrow> ticket_evidence_assessment list \<Rightarrow> ticket_criterion_closure_gate" where
  "closure_gate c assessments =
     (let (resolved, explanation, _) = criterion_gate c assessments in
      \<lparr>tcg_criterion_id = tac_id c, tcg_description = tac_description c, tcg_status = tac_status c,
       tcg_resolved = resolved, tcg_explanation = explanation, tcg_resolved_by = tac_resolved_by c,
       tcg_resolved_at = tac_resolved_at c, tcg_evidence_assessments = assessments\<rparr>)"

definition dependency_failures :: "store \<Rightarrow> project_ticket \<Rightarrow> string list" where
  "dependency_failures s t =
     map (\<lambda>d. ''dependency is not satisfied: '' @ d)
       (filter (\<lambda>d. case lookup_row pt_id d (st_tickets s) of
            None \<Rightarrow> True | Some x \<Rightarrow> pt_status x \<notin> {''SATISFIED'', ''CLOSED''}) (pt_dependency_ticket_ids t))"

definition criterion_assessments ::
  "env \<Rightarrow> py_time \<Rightarrow> store \<Rightarrow> project_ticket \<Rightarrow> ticket_acceptance_criterion
     \<Rightarrow> (ticket_acceptance_criterion \<times> ticket_evidence_assessment list) result" where
  "criterion_assessments e now s t c =
     map_sum id (Pair c) (traverse (assess_evidence e now s t) (tac_evidence_ids c))"

definition closure_report ::
  "env \<Rightarrow> py_time \<Rightarrow> store \<Rightarrow> project_ticket \<Rightarrow> (ticket_criterion_closure_gate list \<times> string list) result" where
  "closure_report e now s t =
     map_sum id (\<lambda>cas.
         (map (\<lambda>(c, as). closure_gate c as) cas,
          List.map_filter (\<lambda>(c, as). snd (snd (criterion_gate c as))) cas @ dependency_failures s t))
       (traverse (criterion_assessments e now s t) (pt_acceptance_criteria t))"

definition satisfaction_failures :: "env \<Rightarrow> py_time \<Rightarrow> store \<Rightarrow> project_ticket \<Rightarrow> string list result" where
  "satisfaction_failures e now s t = map_sum id snd (closure_report e now s t)"

text \<open>The JSON form of a gate in the fingerprint of a closure decision leaves out the times at which
  its evidence was assessed.\<close>

definition assessment_json :: "ticket_evidence_assessment \<Rightarrow> json" where
  "assessment_json a =
     JObj [(''evidence_id'', JStr (tea_evidence_id a)), (''artifact_type'', JStr (tea_artifact_type a)),
           (''eligible'', JBool (tea_eligible a)), (''reason'', JStr (tea_reason a)),
           (''ticket_id'', JOptStr (tea_ticket_id a)), (''project_id'', JOptStr (tea_project_id a)),
           (''status'', JOptStr (tea_status a)),
           (''source_manifest_sha256'', JOptStr (tea_source_manifest_sha256 a)),
           (''patch_sha256'', JOptStr (tea_patch_sha256 a))]"

definition gate_json :: "ticket_criterion_closure_gate \<Rightarrow> json" where
  "gate_json g =
     JObj [(''criterion_id'', JStr (tcg_criterion_id g)), (''description'', JStr (tcg_description g)),
           (''status'', JStr (tcg_status g)), (''resolved'', JBool (tcg_resolved g)),
           (''explanation'', JStr (tcg_explanation g)), (''resolved_by'', JOptStr (tcg_resolved_by g)),
           (''resolved_at'', JOptStr (map_option json_time (tcg_resolved_at g))),
           (''evidence_assessments'', JList (map assessment_json (tcg_evidence_assessments g)))]"

definition closure_fingerprint ::
  "env \<Rightarrow> string \<Rightarrow> string \<Rightarrow> string \<Rightarrow> string \<Rightarrow> string list \<Rightarrow> ticket_criterion_closure_gate list \<Rightarrow> string" where
  "closure_fingerprint e ticket_id requested actor reason failures gates =
     env_sha256 e (canonical_json (JObj
       [(''ticket_id'', JStr ticket_id), (''requested_status'', JStr requested), (''actor'', JStr actor),
        (''reason'', JStr reason), (''failures'', JStrs failures), (''gates'', JList (map gate_json gates))]))"

definition closure_decision ::
  "env \<Rightarrow> string \<Rightarrow> py_time \<Rightarrow> store \<Rightarrow> project_ticket \<Rightarrow> string \<Rightarrow> string \<Rightarrow> string
     \<Rightarrow> ticket_closure_decision result" where
  "closure_decision e new_id now s t requested actor reason =
     map_sum id (\<lambda>(gates, failures).
         \<lparr>tcd_id = new_id, tcd_ticket_id = pt_id t, tcd_project_id = pt_project_id t,
          tcd_requested_status = requested, tcd_allowed = (failures = []), tcd_actor = actor,
          tcd_reason = py_strip reason,
          tcd_fingerprint = closure_fingerprint e (pt_id t) requested actor reason failures gates,
          tcd_failures = failures, tcd_criterion_gates = gates, tcd_decided_at = now\<rparr>)
       (closure_report e now s t)"

fun update_first :: "('a \<Rightarrow> bool) \<Rightarrow> ('a \<Rightarrow> 'a) \<Rightarrow> 'a list \<Rightarrow> 'a list" where
  "update_first P f [] = []"
| "update_first P f (x # xs) = (if P x then f x # xs else x # update_first P f xs)"

definition persist_closure_decision ::
  "string \<Rightarrow> py_time \<Rightarrow> project_ticket \<Rightarrow> ticket_closure_decision \<Rightarrow> store \<Rightarrow> bool \<times> project_ticket \<times> store" where
  "persist_closure_decision new_id now t d s =
     (if \<exists>x\<in>set (pt_closure_decisions t). tcd_fingerprint x = tcd_fingerprint d then (False, t, s)
      else
        let t' = t\<lparr>pt_closure_decisions := pt_closure_decisions t @ [d],
              pt_acceptance_criteria := fold (\<lambda>g. update_first (\<lambda>c. tac_id c = tcg_criterion_id g)
                  (\<lambda>c. c\<lparr>tac_evidence_assessments := tcg_evidence_assessments g\<rparr>))
                (tcd_criterion_gates d) (pt_acceptance_criteria t),
              pt_updated_at := now, pt_execution_authorized := False\<rparr>
        in (True, t', ticket_event new_id now (pt_id t') ''CLOSURE_DECIDED''
              (tcd_requested_status d @ '' '' @ (if tcd_allowed d then ''allowed'' else ''blocked'') @ '': '' @
               (if tcd_allowed d then ''all completion gates resolved'' else py_join ''; '' (tcd_failures d)))
              (tcd_actor d) (map tea_evidence_id (concat (map tcg_evidence_assessments (tcd_criterion_gates d))))
              (save_project_ticket t' s)))"

definition ticket_statuses :: "string list" where
  "ticket_statuses =
     [''DRAFT'', ''READY'', ''ACTIVE'', ''BLOCKED'', ''AWAITING_REVIEW'', ''SATISFIED'', ''REJECTED'', ''CLOSED'']"

definition set_ticket_status ::
  "(nat \<Rightarrow> string) \<Rightarrow> py_time \<Rightarrow> string \<Rightarrow> string \<Rightarrow> string \<Rightarrow> project_ticket \<Rightarrow> store \<Rightarrow> project_ticket result \<times> store" where
  "set_ticket_status ids now status actor reason t s =
     (let t' = t\<lparr>pt_status := status, pt_updated_at := now, pt_execution_authorized := False\<rparr> in
      (Inr t', ticket_event (ids 2) now (pt_id t') ''STATUS_CHANGED''
         (''Status set to '' @ status @ '': '' @ reason) actor [] (save_project_ticket t' s)))"

definition transition ::
  "env \<Rightarrow> (nat \<Rightarrow> string) \<Rightarrow> py_time \<Rightarrow> string \<Rightarrow> string \<Rightarrow> string \<Rightarrow> string \<Rightarrow> store \<Rightarrow> project_ticket result \<times> store" where
  "transition e ids now ticket_id requested actor reason s =
     (case get_ticket e s ticket_id of
        Inl x \<Rightarrow> (Inl x, s)
      | Inr t \<Rightarrow>
          let status = py_upper requested in
          if status \<notin> set ticket_statuses then (Inl (ValueError (''Unknown ticket status: '' @ status)), s)
          else if status \<notin> {''SATISFIED'', ''CLOSED''} then set_ticket_status ids now status actor reason t s
          else if blank actor \<or> blank reason then
            (Inl (ValueError ''Ticket closure requires an actor and explicit reason.''), s)
          else
            (case closure_decision e (ids 0) now s t status actor reason of
               Inl x \<Rightarrow> (Inl x, s)
             | Inr d \<Rightarrow>
                 (case persist_closure_decision (ids 1) now t d s of
                    (created, t1, s1) \<Rightarrow>
                      if \<not> tcd_allowed d then
                        (Inl (ValueError (''Ticket cannot be '' @ status @ '': '' @ py_join ''; '' (tcd_failures d))), s1)
                      else if \<not> created \<and> pt_status t1 = status then (Inr t1, s1)
                      else set_ticket_status ids now status actor reason
                        (if pt_satisfied_at t1 = None then t1\<lparr>pt_satisfied_at := Some now\<rparr> else t1) s1)))"

section \<open>Criteria and validations\<close>

definition criterion_statuses :: "string list" where
  "criterion_statuses = [''PENDING'', ''EVIDENCED'', ''WAIVED'', ''BLOCKED'']"

definition arrow :: string where
  "arrow = [CHR 0xE2, CHR 0x86, CHR 0x92]"

definition dash :: string where
  "dash = [CHR 0xE2, CHR 0x80, CHR 0x94]"

definition resolved_criterion ::
  "py_time \<Rightarrow> string \<Rightarrow> string list \<Rightarrow> string \<Rightarrow> string \<Rightarrow> ticket_evidence_assessment list
     \<Rightarrow> ticket_acceptance_criterion \<Rightarrow> ticket_acceptance_criterion" where
  "resolved_criterion now status evidence_ids reason actor assessments c =
     c\<lparr>tac_status := status, tac_evidence_ids := dict_fromkeys evidence_ids,
       tac_waiver_reason := (if status = ''WAIVED'' then Some (py_strip reason) else None),
       tac_blocker_reason := (if status = ''BLOCKED'' then Some (py_strip reason) else None),
       tac_resolved_by := Some actor,
       tac_resolved_at := (if status \<noteq> ''PENDING'' then Some now else None),
       tac_evidence_assessments := (if status = ''EVIDENCED'' then assessments else [])\<rparr>"

definition resolve_criterion ::
  "env \<Rightarrow> string \<Rightarrow> py_time \<Rightarrow> string \<Rightarrow> string \<Rightarrow> string \<Rightarrow> string list \<Rightarrow> string \<Rightarrow> string \<Rightarrow> store
     \<Rightarrow> project_ticket result \<times> store" where
  "resolve_criterion e new_id now ticket_id criterion_id requested evidence_ids reason actor s =
     (case get_ticket e s ticket_id of
        Inl x \<Rightarrow> (Inl x, s)
      | Inr t \<Rightarrow>
          (case find (\<lambda>c. tac_id c = criterion_id) (pt_acceptance_criteria t) of
             None \<Rightarrow> (Inl (ValueError (''Acceptance criterion not found: '' @ criterion_id)), s)
           | Some c \<Rightarrow>
               let status = py_upper requested in
               if status \<notin> set criterion_statuses then (Inl (ValueError (''Unknown criterion status: '' @ status)), s)
               else if status \<noteq> ''PENDING'' \<and> blank actor then
                 (Inl (ValueError ''Criterion resolution requires an actor.''), s)
               else
                 (case traverse (assess_evidence e now s t) evidence_ids of
                    Inl x \<Rightarrow> (Inl x, s)
                  | Inr assessments \<Rightarrow>
                      let invalid = filter (\<lambda>a. \<not> tea_eligible a) assessments in
                      if invalid \<noteq> [] then
                        (Inl (ValueError (''Criterion evidence is ineligible: '' @
                           py_join ''; '' (map (\<lambda>a. tea_evidence_id a @ '': '' @ tea_reason a) invalid))), s)
                      else if status = ''EVIDENCED'' \<and> evidence_ids = [] then
                        (Inl (ValueError ''EVIDENCED criteria require at least one attached evidence artifact.''), s)
                      else if status \<in> {''WAIVED'', ''BLOCKED''} \<and> blank reason then
                        (Inl (ValueError (status @ '' criteria require an explicit reason.'')), s)
                      else
                        let t' = t\<lparr>pt_acceptance_criteria := update_first (\<lambda>c. tac_id c = criterion_id)
                                 (resolved_criterion now status evidence_ids reason actor assessments)
                                 (pt_acceptance_criteria t),
                               pt_updated_at := now, pt_execution_authorized := False\<rparr>
                        in (Inr t', ticket_event new_id now (pt_id t') ''CRITERION_RESOLVED''
                              (py_strip (tac_description c @ '' '' @ arrow @ '' '' @ status @ ''. '' @ reason)) actor
                              evidence_ids (save_project_ticket t' s)))))"

definition validation_statuses :: "string list" where
  "validation_statuses = [''PASSED'', ''FAILED'', ''BLOCKED'']"

text \<open>The check of the linked workspace result.\<close>

definition validation_link :: "env \<Rightarrow> py_time \<Rightarrow> store \<Rightarrow> project_ticket \<Rightarrow> string option \<Rightarrow> unit result" where
  "validation_link e now s t link =
     (if \<not> truthy link then Inr ()
      else if \<not> (\<exists>r\<in>set (st_workspace_records s). pwr_id r = the link \<and> pwr_ticket_id r = Some (pt_id t)) then
        Inl (ValueError ''Validation workspace record must belong to this ticket.'')
      else (case assess_evidence e now s t (the link) of
          Inl x \<Rightarrow> Inl x
        | Inr a \<Rightarrow>
            if \<not> tea_eligible a then
              Inl (ValueError (''Validation workspace record is ineligible: '' @ tea_reason a))
            else Inr ()))"

definition record_validation ::
  "env \<Rightarrow> (nat \<Rightarrow> string) \<Rightarrow> py_time \<Rightarrow> string \<Rightarrow> string \<Rightarrow> string \<Rightarrow> string \<Rightarrow> evidence list \<Rightarrow> string option \<Rightarrow> string
     \<Rightarrow> store \<Rightarrow> ticket_validation_result result \<times> store" where
  "record_validation e ids now ticket_id nam requested detail ev link recorded_by s =
     (case get_ticket e s ticket_id of
        Inl x \<Rightarrow> (Inl x, s)
      | Inr t \<Rightarrow>
          let status = py_upper requested in
          if status \<notin> set validation_statuses then (Inl (ValueError (''Unknown validation status: '' @ status)), s)
          else
            (case validation_link e now s t link of
               Inl x \<Rightarrow> (Inl x, s)
             | Inr _ \<Rightarrow>
                 let v = \<lparr>tvr_id = ids 0, tvr_ticket_id = pt_id t, tvr_project_id = Some (pt_project_id t),
                          tvr_project_root = Some (pt_project_root t), tvr_name = squeeze_spaces nam,
                          tvr_status = status, tvr_detail = squeeze_spaces detail, tvr_evidence = ev,
                          tvr_workspace_record_id = link, tvr_recorded_by = recorded_by,
                          tvr_execution_authorized = False, tvr_created_at = now\<rparr>
                 in (Inr v, ticket_event (ids 1) now (pt_id t) ''VALIDATION_RECORDED''
                       (tvr_name v @ '': '' @ tvr_status v @ '' '' @ dash @ '' '' @ tvr_detail v) recorded_by
                       (tvr_id v # (if truthy link then [the link] else []))
                       (save_ticket_validation_result v s))))"

section \<open>Plan approval\<close>

definition reviewable_plan :: "env \<Rightarrow> project_ticket \<Rightarrow> project_workspace_record option \<Rightarrow> string \<Rightarrow> project_workspace_record result" where
  "reviewable_plan e t found reason =
     (case found of
        None \<Rightarrow> Inl (ValueError ''Plan approval requires a ticket-attached change plan.'')
      | Some plan \<Rightarrow>
          if pwr_kind plan \<noteq> ''CHANGE_PLAN'' \<or> \<not> pwr_approval_required plan then
            Inl (ValueError ''Plan approval requires a ticket-attached change plan.'')
          else if pwr_project_id plan \<noteq> pt_project_id t \<or>
              canonical_root e (pwr_project_root plan) \<noteq> canonical_root e (pt_project_root t) then
            Inl (ValueError (''Plan approval cannot cross the ticket's project boundary.''))
          else if blank reason then Inl (ValueError ''Plan approval requires an explicit review reason.'')
          else if \<not> pwr_source_integrity_verified plan \<or> \<not> pwr_read_only_verified plan then
            Inl (ValueError ''Plan approval requires current, read-only source evidence.'')
          else Inr plan)"

definition decided_plan ::
  "env \<Rightarrow> (nat \<Rightarrow> string) \<Rightarrow> py_time \<Rightarrow> project_governance_policy \<Rightarrow> project_workspace_record \<Rightarrow> string \<Rightarrow> string \<Rightarrow> string
     \<Rightarrow> (governance_decision list \<times> project_workspace_record) result" where
  "decided_plan e ids now policy plan actor reason decision =
     (let (bind, requirements, evidence) = plan_binding e policy plan; kinds = artifact_kinds (pwr_affected_paths plan) in
      case record_decisions ids (\<lambda>_. now) policy
          \<lparr>dr_action = ''PLAN'', dr_artifact_id = pwr_id plan, dr_artifact_kinds = kinds, dr_decision = decision,
           dr_actor = actor, dr_reason = reason, dr_binding_sha256 = bind,
           dr_source_manifest_sha256 = Some (pwr_final_manifest_sha256 plan), dr_patch_sha256 = None,
           dr_requirements_sha256 = Some requirements, dr_evidence_sha256 = Some evidence, dr_identity = None\<rparr> of
        Inl x \<Rightarrow> Inl x
      | Inr records \<Rightarrow>
          let history = pwr_approval_history plan @ records in
          (case evaluate policy ''PLAN'' kinds bind history of
             Inl x \<Rightarrow> Inl x
           | Inr (approved, missing, expired) \<Rightarrow>
               Inr (records, plan\<lparr>pwr_approval_history := history, pwr_approval_missing := missing,
                 pwr_approval_expiration_reasons := expired,
                 pwr_approval_status := Some (if py_upper decision = ''DENIED'' then ''DENIED''
                   else if approved then ''APPROVED'' else ''PENDING''),
                 pwr_execution_authorized := False\<rparr>)))"

definition approve_plan ::
  "env \<Rightarrow> (nat \<Rightarrow> string) \<Rightarrow> py_time \<Rightarrow> string \<Rightarrow> string \<Rightarrow> string \<Rightarrow> string \<Rightarrow> string \<Rightarrow> store
     \<Rightarrow> project_workspace_record result \<times> store" where
  "approve_plan e ids now ticket_id plan_record_id actor reason decision s =
     (case get_ticket e s ticket_id of
        Inl x \<Rightarrow> (Inl x, s)
      | Inr t \<Rightarrow>
          (case governance_policy e (ids 0) now (pt_project_id t) s of
             (Inl x, s1) \<Rightarrow> (Inl x, s1)
           | (Inr policy, s1) \<Rightarrow>
               (case assert_actor (pol_plan_approvers policy) actor ''Plan approval'' of
                  Inl x \<Rightarrow> (Inl x, s1)
                | Inr _ \<Rightarrow>
                    (case reviewable_plan e t (find (\<lambda>r. pwr_id r = plan_record_id \<and> pwr_ticket_id r = Some (pt_id t))
                        (st_workspace_records s1)) reason of
                       Inl x \<Rightarrow> (Inl x, s1)
                     | Inr plan \<Rightarrow>
                         (case decided_plan e (\<lambda>k. ids (k + 2)) now policy plan actor reason decision of
                            Inl x \<Rightarrow> (Inl x, s1)
                          | Inr (records, plan') \<Rightarrow>
                              (Inr plan', ticket_event (ids 1) now (pt_id t) ''PLAN_DECISION_RECORDED''
                                (''Plan '' @ pwr_id plan @ '' '' @ py_upper decision @ '' under policy '' @ pol_id policy @
                                 '' v'' @ py_str_int (pol_version policy) @ ''; rules '' @
                                 py_join '', '' (map gd_rule_id records) @ ''. '' @ py_strip reason) actor [pwr_id plan]
                                (save_project_workspace_record plan' s1)))))))"

section \<open>Attached results\<close>

definition safe_relative_path :: "string \<Rightarrow> string result" where
  "safe_relative_path value =
     (let normalized = posix_path value; parts = path_parts normalized in
      if normalized = [] \<or> is_absolute normalized \<or> ''..'' \<in> set parts \<or>
         (parts \<noteq> [] \<and> CHR '':'' \<in> set (hd parts)) then
        Inl (ValueError (''Sandbox path is outside the authorized project boundary: '' @ value))
      else Inr (if parts = [] then ''.'' else py_join ''/'' parts))"

definition attach_sandbox_attempt ::
  "env \<Rightarrow> string \<Rightarrow> py_time \<Rightarrow> string \<Rightarrow> implementation_sandbox_attempt \<Rightarrow> store \<Rightarrow> unit result \<times> store" where
  "attach_sandbox_attempt e new_id now ticket_id attempt s =
     (case get_ticket e s ticket_id of
        Inl x \<Rightarrow> (Inl x, s)
      | Inr t \<Rightarrow>
          if isa_ticket_id attempt \<noteq> pt_id t \<or> isa_project_id attempt \<noteq> pt_project_id t then
            (Inl (ValueError ''Sandbox attempt does not match its originating ticket.''), s)
          else if canonical_root e (isa_project_root attempt) \<noteq> canonical_root e (pt_project_root t) then
            (Inl (ValueError ''Sandbox attempt root does not match its originating ticket.''), s)
          else
            (case traverse safe_relative_path (isa_authorized_paths attempt) of
               Inl x \<Rightarrow> (Inl x, s)
             | Inr authorized \<Rightarrow>
                 (case traverse safe_relative_path (map pc_path (isa_changes attempt)) of
                    Inl x \<Rightarrow> (Inl x, s)
                  | Inr changes \<Rightarrow>
                      let outside = sorted_set (filter (\<lambda>c. c \<notin> set authorized) changes) in
                      if outside \<noteq> [] then
                        (Inl (ValueError (''Sandbox attempt contains changes outside its authorized path boundary: '' @
                           py_join '', '' outside)), s)
                      else
                        let a = attempt\<lparr>isa_execution_authorized := False\<rparr>; u = pt_usage t;
                            t' = t\<lparr>pt_usage := u\<lparr>tu_model_calls := tu_model_calls u + isa_model_calls a,
                                   tu_worker_calls := tu_worker_calls u + isa_worker_calls a,
                                   tu_wall_time_seconds := tu_wall_time_seconds u + isa_elapsed_seconds a\<rparr>,
                                 pt_updated_at := now, pt_execution_authorized := False\<rparr>
                        in (Inr (), ticket_event new_id now (pt_id t') ''SANDBOX_ATTEMPT_ATTACHED''
                              (''Sandbox '' @ isa_id a @ '' finished as '' @ isa_status a @ '' with '' @
                               py_str_nat (length (isa_changes a)) @ '' reviewable changes.'') ''Observer sandbox''
                              [isa_id a, isa_plan_record_id a]
                              (save_project_ticket t' (save_implementation_sandbox a s))))))"

definition attach_workspace_record ::
  "env \<Rightarrow> string \<Rightarrow> py_time \<Rightarrow> string \<Rightarrow> project_workspace_record \<Rightarrow> store \<Rightarrow> unit result \<times> store" where
  "attach_workspace_record e new_id now ticket_id rec s =
     (case get_ticket e s ticket_id of
        Inl x \<Rightarrow> (Inl x, s)
      | Inr t \<Rightarrow>
          if pwr_project_id rec \<noteq> pt_project_id t then
            (Inl (ValueError ''Workspace result project does not match its originating ticket.''), s)
          else if canonical_root e (pwr_project_root rec) \<noteq> canonical_root e (pt_project_root t) then
            (Inl (ValueError ''Workspace result root does not match its originating ticket.''), s)
          else
            let r = rec\<lparr>pwr_ticket_id := Some (pt_id t), pwr_execution_authorized := False\<rparr>; u = pt_usage t;
                t' = t\<lparr>pt_usage := \<lparr>tu_tokens = tu_tokens u + pwr_tokens_used r,
                         tu_model_calls = tu_model_calls u + pwr_model_calls_used r,
                         tu_worker_calls = tu_worker_calls u + pwr_worker_calls_used r,
                         tu_wall_time_seconds = tu_wall_time_seconds u + pwr_elapsed_seconds r,
                         tu_deepest_branch = max (tu_deepest_branch u) (pwr_branch_depth_used r)\<rparr>,
                       pt_updated_at := now, pt_execution_authorized := False\<rparr>
            in (Inr (), ticket_event new_id now (pt_id t') ''WORKSPACE_RESULT_ATTACHED''
                  (pwr_kind r @ '' result attached with '' @ py_str_nat (length (pwr_evidence r)) @ '' evidence items.'')
                  ''Observer workspace''
                  (pwr_id r # (if truthy (pwr_source_result_id r) then [the (pwr_source_result_id r)] else []))
                  (save_project_ticket t' (save_project_workspace_record r s))))"

definition budget_checks :: "project_ticket \<Rightarrow> (bool \<times> string) list" where
  "budget_checks t =
     [(tb_max_tokens (pt_budget t) \<le> tu_tokens (pt_usage t), ''token''),
      (tb_max_model_calls (pt_budget t) \<le> tu_model_calls (pt_usage t), ''model-call''),
      (tb_max_worker_calls (pt_budget t) \<le> tu_worker_calls (pt_usage t), ''worker-call''),
      (tb_max_wall_time_seconds (pt_budget t) \<le> tu_wall_time_seconds (pt_usage t), ''wall-time''),
      (tb_max_branch_depth (pt_budget t) \<le> tu_deepest_branch (pt_usage t), ''branch-depth'')]"

definition check_budget ::
  "env \<Rightarrow> (nat \<Rightarrow> string) \<Rightarrow> py_time \<Rightarrow> string \<Rightarrow> store \<Rightarrow> project_ticket result \<times> store" where
  "check_budget e ids now ticket_id s =
     (case get_ticket e s ticket_id of
        Inl x \<Rightarrow> (Inl x, s)
      | Inr t \<Rightarrow>
          (case governance_policy e (ids 0) now (pt_project_id t) s of
             (Inl x, s1) \<Rightarrow> (Inl x, s1)
           | (Inr policy, s1) \<Rightarrow>
               (case assert_budget policy (pt_budget t) of
                  Inl x \<Rightarrow> (Inl x, s1)
                | Inr _ \<Rightarrow>
                    let exhausted = map snd (filter fst (budget_checks t)) in
                    (if exhausted \<noteq> [] then
                       Inl (RuntimeError (''Ticket compute budget exhausted: '' @ py_join '', '' exhausted))
                     else Inr t, s1))))"

section \<open>What the operations leave alone\<close>

lemma save_project_governance_policy_frame [simp]:
  "st_tickets (save_project_governance_policy p s) = st_tickets s"
  "st_ticket_events (save_project_governance_policy p s) = st_ticket_events s"
  "st_workspace_records (save_project_governance_policy p s) = st_workspace_records s"
  "st_sandboxes (save_project_governance_policy p s) = st_sandboxes s"
  by (simp_all add: save_project_governance_policy_def)

lemma save_project_workspace_record_frame [simp]:
  "st_tickets (save_project_workspace_record r s) = st_tickets s"
  "st_ticket_events (save_project_workspace_record r s) = st_ticket_events s"
  by (simp_all add: save_project_workspace_record_def)

lemma save_ticket_validation_result_frame [simp]:
  "st_tickets (save_ticket_validation_result r s) = st_tickets s"
  "st_ticket_events (save_ticket_validation_result r s) = st_ticket_events s"
  by (simp_all add: save_ticket_validation_result_def)

lemma save_implementation_sandbox_frame [simp]:
  "st_tickets (save_implementation_sandbox a s) = st_tickets s"
  "st_ticket_events (save_implementation_sandbox a s) = st_ticket_events s"
  by (simp_all add: save_implementation_sandbox_def)

lemma update_claim_frame [simp]:
  "st_tickets (update_claim c s) = st_tickets s" "st_ticket_events (update_claim c s) = st_ticket_events s"
  by (simp_all add: update_claim_def)

lemma ticket_event_frame [simp]:
  "st_tickets (ticket_event i now tid k d a arts s) = st_tickets s"
  "st_workspace_records (ticket_event i now tid k d a arts s) = st_workspace_records s"
  "st_sandboxes (ticket_event i now tid k d a arts s) = st_sandboxes s"
  by (simp_all add: ticket_event_def Let_def save_ticket_event_def)

lemma governance_policy_tickets:
  "governance_policy e i now k s = (r, s') \<Longrightarrow> st_tickets s' = st_tickets s \<and> st_ticket_events s' = st_ticket_events s"
  by (auto simp: governance_policy_def Let_def split: sum.splits option.splits)

lemma write_back_frame [simp]:
  "st_tickets (write_back x s) = st_tickets s" "st_ticket_events (write_back x s) = st_ticket_events s"
  by (auto simp: write_back_def split: option.splits prod.splits bool.splits)

lemma update_claims_frame:
  "st_tickets (fold write_back xs s) = st_tickets s \<and> st_ticket_events (fold write_back xs s) = st_ticket_events s"
  by (induction xs arbitrary: s) simp_all

lemma assert_current_claims_tickets:
  "assert_current_claims e now p cs s = (r, s') \<Longrightarrow> st_tickets s' = st_tickets s \<and> st_ticket_events s' = st_ticket_events s"
  by (auto simp: assert_current_claims_def Let_def update_claims_frame)

lemma get_ticket_Inr: "get_ticket e s k = Inr t \<Longrightarrow> t \<in> set (st_tickets s) \<and> pt_id t = k"
  by (auto simp: get_ticket_def dest: lookup_row_Some split: option.splits sum.splits if_splits)

section \<open>The closure gates\<close>

text \<open>A criterion is resolved: by current eligible evidence, or by an attributed waiver or blocker.\<close>

definition criterion_resolved ::
  "env \<Rightarrow> py_time \<Rightarrow> store \<Rightarrow> project_ticket \<Rightarrow> ticket_acceptance_criterion \<Rightarrow> bool" where
  "criterion_resolved e now s t c \<longleftrightarrow>
     (tac_status c = ''EVIDENCED'' \<and> tac_evidence_ids c \<noteq> [] \<and>
        (\<forall>i\<in>set (tac_evidence_ids c). \<exists>a. assess_evidence e now s t i = Inr a \<and> tea_eligible a)) \<or>
     (tac_status c = ''WAIVED'' \<and> truthy (tac_waiver_reason c) \<and> truthy (tac_resolved_by c)) \<or>
     (tac_status c = ''BLOCKED'' \<and> truthy (tac_blocker_reason c) \<and> truthy (tac_resolved_by c))"

definition dependency_satisfied :: "store \<Rightarrow> string \<Rightarrow> bool" where
  "dependency_satisfied s d \<longleftrightarrow>
     (\<exists>x. lookup_row pt_id d (st_tickets s) = Some x \<and> (pt_status x = ''SATISFIED'' \<or> pt_status x = ''CLOSED''))"

lemma criterion_gate_failure: "snd (snd (criterion_gate c as)) = None \<longleftrightarrow> fst (criterion_gate c as)"
  by (simp add: criterion_gate_def)

lemma criterion_gate_resolved:
  assumes "criterion_assessments e now s t c = Inr (c', as)"
  shows "c' = c \<and> fst (criterion_gate c as) = criterion_resolved e now s t c"
proof -
  have c': "c' = c" and as: "list_all2 (\<lambda>i a. assess_evidence e now s t i = Inr a) (tac_evidence_ids c) as"
    using assms by (auto simp: criterion_assessments_def traverse_Inr [symmetric] split: sum.splits)
      (cases "traverse (assess_evidence e now s t) (tac_evidence_ids c)"; simp)+
  have empty: "as = [] \<longleftrightarrow> tac_evidence_ids c = []" using as by auto
  have all: "(\<forall>a\<in>set as. tea_eligible a) =
      (\<forall>i\<in>set (tac_evidence_ids c). \<exists>a. assess_evidence e now s t i = Inr a \<and> tea_eligible a)"
    using as by (induction rule: list_all2_induct) auto
  show ?thesis
    using c' empty all by (auto simp: criterion_gate_def criterion_resolved_def)
qed

lemma map_filter_Nil: "List.map_filter f xs = [] \<longleftrightarrow> (\<forall>x\<in>set xs. f x = None)"
  by (induction xs) (auto simp: List.map_filter_simps split: option.splits)

lemma dependency_failures_Nil:
  "dependency_failures s t = [] \<longleftrightarrow> (\<forall>d\<in>set (pt_dependency_ticket_ids t). dependency_satisfied s d)"
  by (auto simp: dependency_failures_def dependency_satisfied_def filter_empty_conv split: option.splits)

lemma closure_report_failures:
  assumes "closure_report e now s t = Inr (gates, failures)"
  shows "(failures = []) = ((\<forall>c\<in>set (pt_acceptance_criteria t). criterion_resolved e now s t c) \<and>
      (\<forall>d\<in>set (pt_dependency_ticket_ids t). dependency_satisfied s d)) \<and>
    (failures = [] \<longrightarrow> (\<forall>g\<in>set gates. tcg_resolved g))"
proof -
  obtain cas where tr: "traverse (criterion_assessments e now s t) (pt_acceptance_criteria t) = Inr cas"
    and gates: "gates = map (\<lambda>(c, as). closure_gate c as) cas"
    and failures: "failures = List.map_filter (\<lambda>(c, as). snd (snd (criterion_gate c as))) cas @ dependency_failures s t"
    using assms unfolding closure_report_def
    by (cases "traverse (criterion_assessments e now s t) (pt_acceptance_criteria t)") auto
  have pairs: "list_all2 (\<lambda>c ca. criterion_assessments e now s t c = Inr ca) (pt_acceptance_criteria t) cas"
    using tr by (simp add: traverse_Inr)
  have "(\<forall>(c, as)\<in>set cas. fst (criterion_gate c as)) =
      (\<forall>c\<in>set (pt_acceptance_criteria t). criterion_resolved e now s t c)"
    using pairs
  proof (induction rule: list_all2_induct)
    case Nil
    show ?case by simp
  next
    case (Cons c cs ca cas)
    obtain c' as where ca: "ca = (c', as)" by (cases ca)
    from criterion_gate_resolved [OF Cons(1) [unfolded ca]] Cons.IH ca show ?case by auto
  qed
  moreover have "(\<forall>g\<in>set gates. tcg_resolved g) = (\<forall>(c, as)\<in>set cas. fst (criterion_gate c as))"
    by (auto simp: gates closure_gate_def Let_def case_prod_beta)
  moreover have "(failures = []) = ((\<forall>(c, as)\<in>set cas. fst (criterion_gate c as)) \<and> dependency_failures s t = [])"
    by (auto simp: failures map_filter_Nil criterion_gate_failure)
  ultimately show ?thesis by (auto simp: dependency_failures_Nil)
qed

section \<open>The invariant of the tickets\<close>

definition criterion_ok :: "ticket_acceptance_criterion \<Rightarrow> bool" where
  "criterion_ok c \<longleftrightarrow>
     tac_status c \<in> set criterion_statuses \<and>
     (tac_status c = ''EVIDENCED'' \<longrightarrow> tac_evidence_ids c \<noteq> []) \<and>
     (tac_status c = ''WAIVED'' \<longrightarrow> truthy (tac_waiver_reason c)) \<and>
     (tac_status c = ''BLOCKED'' \<longrightarrow> truthy (tac_blocker_reason c))"

text \<open>A recorded decision is what its fingerprint covers.\<close>

definition decision_ok :: "(string \<Rightarrow> string) \<Rightarrow> string \<Rightarrow> ticket_closure_decision \<Rightarrow> bool" where
  "decision_ok h ticket_id d \<longleftrightarrow>
     tcd_allowed d = (tcd_failures d = []) \<and>
     (tcd_allowed d \<longrightarrow> (\<forall>g\<in>set (tcd_criterion_gates d). tcg_resolved g)) \<and>
     (\<exists>reason gates. tcd_fingerprint d = h (canonical_json (JObj
        [(''ticket_id'', JStr ticket_id), (''requested_status'', JStr (tcd_requested_status d)),
         (''actor'', JStr (tcd_actor d)), (''reason'', JStr reason), (''failures'', JStrs (tcd_failures d)),
         (''gates'', JList (map gate_json gates))])))"

definition closed_by_decision :: "project_ticket \<Rightarrow> bool" where
  "closed_by_decision t \<longleftrightarrow>
     pt_satisfied_at t \<noteq> None \<and>
     (\<exists>d\<in>set (pt_closure_decisions t). tcd_allowed d \<and> tcd_requested_status d = pt_status t)"

definition ticket_ok :: "(string \<Rightarrow> string) \<Rightarrow> project_ticket \<Rightarrow> bool" where
  "ticket_ok h t \<longleftrightarrow>
     \<not> pt_execution_authorized t \<and> pt_status t \<in> set ticket_statuses \<and> pt_acceptance_criteria t \<noteq> [] \<and>
     (\<forall>c\<in>set (pt_acceptance_criteria t). criterion_ok c) \<and>
     (\<forall>d\<in>set (pt_closure_decisions t). decision_ok h (pt_id t) d) \<and>
     distinct (map tcd_fingerprint (pt_closure_decisions t)) \<and>
     (pt_status t \<in> {''SATISFIED'', ''CLOSED''} \<longrightarrow> closed_by_decision t \<or> collision h)"

definition tickets_ok :: "(string \<Rightarrow> string) \<Rightarrow> store \<Rightarrow> bool" where
  "tickets_ok h s \<longleftrightarrow> unique_rows pt_id (st_tickets s) \<and> (\<forall>t\<in>set (st_tickets s). ticket_ok h t)"

lemma tickets_ok_same: "st_tickets s' = st_tickets s \<Longrightarrow> tickets_ok h s' = tickets_ok h s"
  by (simp add: tickets_ok_def)

lemma tickets_ok_event [simp]: "tickets_ok h (ticket_event i now tid k d a arts s) = tickets_ok h s"
  by (rule tickets_ok_same) simp

lemma tickets_ok_save: "tickets_ok h s \<Longrightarrow> ticket_ok h t \<Longrightarrow> tickets_ok h (save_project_ticket t s)"
  by (auto simp: tickets_ok_def unique_upsert set_upsert)

text \<open>The ticket an operation read and changed in parts that the invariant does not restrict.\<close>

lemma ticket_ok_usage:
  "ticket_ok h t \<Longrightarrow> ticket_ok h (t\<lparr>pt_usage := u, pt_updated_at := now, pt_execution_authorized := False\<rparr>)"
  by (simp add: ticket_ok_def closed_by_decision_def)

lemma ticket_ok_satisfied: "ticket_ok h t \<Longrightarrow> ticket_ok h (t\<lparr>pt_satisfied_at := Some now\<rparr>)"
  by (auto simp: ticket_ok_def closed_by_decision_def)

lemma set_update_first: "x \<in> set (update_first P f xs) \<Longrightarrow> x \<in> set xs \<or> (\<exists>y\<in>set xs. x = f y)"
  by (induction xs) (auto split: if_splits)

lemma update_first_Nil [simp]: "update_first P f xs = [] \<longleftrightarrow> xs = []"
  by (cases xs) auto

lemma criterion_ok_assessed:
  "criterion_ok (c\<lparr>tac_evidence_assessments := as\<rparr>) = criterion_ok c"
  by (simp add: criterion_ok_def)

lemma record_gates_ok:
  assumes "\<forall>c\<in>set cs. criterion_ok c" and "cs \<noteq> []"
  shows "(\<forall>c\<in>set (fold (\<lambda>g. update_first (\<lambda>c. tac_id c = tcg_criterion_id g)
       (\<lambda>c. c\<lparr>tac_evidence_assessments := tcg_evidence_assessments g\<rparr>)) gs cs). criterion_ok c) \<and>
    fold (\<lambda>g. update_first (\<lambda>c. tac_id c = tcg_criterion_id g)
       (\<lambda>c. c\<lparr>tac_evidence_assessments := tcg_evidence_assessments g\<rparr>)) gs cs \<noteq> []"
  using assms
proof (induction gs arbitrary: cs)
  case Nil
  then show ?case by simp
next
  case (Cons g gs)
  have "\<forall>c\<in>set (update_first (\<lambda>c. tac_id c = tcg_criterion_id g)
       (\<lambda>c. c\<lparr>tac_evidence_assessments := tcg_evidence_assessments g\<rparr>) cs). criterion_ok c"
    using Cons.prems(1) by (auto dest!: set_update_first simp: criterion_ok_assessed)
  with Cons.IH Cons.prems(2) show ?case by simp
qed

lemma resolved_criterion_ok:
  assumes "status \<in> set criterion_statuses" and "status = ''EVIDENCED'' \<longrightarrow> ids \<noteq> []"
    and "status \<in> {''WAIVED'', ''BLOCKED''} \<longrightarrow> \<not> blank reason"
  shows "criterion_ok (resolved_criterion now status ids reason actor as c)"
  using assms by (auto simp: criterion_ok_def resolved_criterion_def truthy_def blank_def)

lemma closure_decision_ok:
  assumes "closure_decision e i now s t st actor reason = Inr d"
  shows "decision_ok (env_sha256 e) (pt_id t) d \<and> tcd_requested_status d = st"
proof -
  obtain gates failures where r: "closure_report e now s t = Inr (gates, failures)"
    using assms by (cases "closure_report e now s t") (auto simp: closure_decision_def)
  with assms have d: "tcd_allowed d = (failures = [])" "tcd_failures d = failures" "tcd_criterion_gates d = gates"
    "tcd_requested_status d = st" "tcd_actor d = actor"
    "tcd_fingerprint d = closure_fingerprint e (pt_id t) st actor reason failures gates"
    by (auto simp: closure_decision_def)
  with closure_report_failures [OF r] show ?thesis
    unfolding decision_ok_def closure_fingerprint_def by metis
qed

text \<open>Decisions with the same fingerprint requested the same status with the same outcome.\<close>

lemma same_fingerprint_same_outcome:
  assumes "decision_ok h k d" and "decision_ok h k d'" and "tcd_fingerprint d = tcd_fingerprint d'"
  shows "(tcd_requested_status d = tcd_requested_status d' \<and> tcd_allowed d = tcd_allowed d') \<or> collision h"
proof -
  let ?v = "\<lambda>d reason gates. JObj
        [(''ticket_id'', JStr k), (''requested_status'', JStr (tcd_requested_status d)),
         (''actor'', JStr (tcd_actor d)), (''reason'', JStr reason), (''failures'', JStrs (tcd_failures d)),
         (''gates'', JList (map gate_json gates))]"
  obtain reason gates reason' gates' where
    "h (canonical_json (?v d reason gates)) = h (canonical_json (?v d' reason' gates'))"
    using assms unfolding decision_ok_def by metis
  from digest_binds [OF this] show ?thesis
  proof
    assume "sort_keys (?v d reason gates) = sort_keys (?v d' reason' gates')"
    note member = sort_keys_member [OF this]
    from member [of "''requested_status''"] have "tcd_requested_status d = tcd_requested_status d'" by simp
    moreover from member [of "''failures''"] have "sort_keys (JStrs (tcd_failures d)) = sort_keys (JStrs (tcd_failures d'))"
      by (simp del: sort_keys.simps)
    then have "tcd_failures d = tcd_failures d'" by (simp add: JStrs_inject)
    ultimately show ?thesis using assms(1,2) by (simp add: decision_ok_def)
  qed simp
qed

lemma persist_closure_ok:
  assumes "persist_closure_decision i now t d s = (created, t1, s1)"
    and ok: "ticket_ok h t" and d: "decision_ok h (pt_id t) d"
    and s: "tickets_ok h s"
  shows "ticket_ok h t1 \<and> pt_id t1 = pt_id t \<and> pt_status t1 = pt_status t \<and> tickets_ok h s1 \<and>
    ((\<exists>x\<in>set (pt_closure_decisions t1). tcd_requested_status x = tcd_requested_status d \<and>
        tcd_allowed x = tcd_allowed d) \<or> collision h)"
proof (cases "\<exists>x\<in>set (pt_closure_decisions t). tcd_fingerprint x = tcd_fingerprint d")
  case True
  then obtain x where x: "x \<in> set (pt_closure_decisions t)" "tcd_fingerprint x = tcd_fingerprint d" by blast
  with ok have "decision_ok h (pt_id t) x" by (simp add: ticket_ok_def)
  from same_fingerprint_same_outcome [OF this d x(2)] x(1) True assms show ?thesis
    by (auto simp: persist_closure_decision_def)
next
  case False
  let ?t = "t\<lparr>pt_closure_decisions := pt_closure_decisions t @ [d],
              pt_acceptance_criteria := fold (\<lambda>g. update_first (\<lambda>c. tac_id c = tcg_criterion_id g)
                  (\<lambda>c. c\<lparr>tac_evidence_assessments := tcg_evidence_assessments g\<rparr>))
                (tcd_criterion_gates d) (pt_acceptance_criteria t),
              pt_updated_at := now, pt_execution_authorized := False\<rparr>"
  have "ticket_ok h ?t"
    using ok d False record_gates_ok [of "pt_acceptance_criteria t" "tcd_criterion_gates d"]
    by (auto simp: ticket_ok_def closed_by_decision_def)
  note t = this tickets_ok_save [OF s this]
  from assms(1) False have eq: "t1 = ?t" "st_tickets s1 = st_tickets (save_project_ticket ?t s)"
    by (simp_all add: persist_closure_decision_def Let_def del: save_project_ticket_frame) auto
  have "d \<in> set (pt_closure_decisions t1)" by (simp add: eq(1))
  with t(1) tickets_ok_same [OF eq(2), of h] t(2) show ?thesis
    unfolding eq(1) by (intro conjI disjI1 bexI [of _ d]) simp_all
qed

lemma set_ticket_status_ok:
  assumes "set_ticket_status ids now st actor reason t s = (r, s')" and "ticket_ok h t" and "tickets_ok h s"
    and "st \<in> set ticket_statuses"
    and "st \<in> {''SATISFIED'', ''CLOSED''} \<Longrightarrow> (pt_satisfied_at t \<noteq> None \<and>
      (\<exists>d\<in>set (pt_closure_decisions t). tcd_allowed d \<and> tcd_requested_status d = st)) \<or> collision h"
  shows "tickets_ok h s'"
proof -
  let ?t = "t\<lparr>pt_status := st, pt_updated_at := now, pt_execution_authorized := False\<rparr>"
  have "ticket_ok h ?t"
    using assms(2,4,5) unfolding ticket_ok_def closed_by_decision_def by (simp del: insert_iff)
  from tickets_ok_save [OF assms(3) this] have "tickets_ok h (save_project_ticket ?t s)" .
  moreover from assms(1) have "s' = ticket_event (ids 2) now (pt_id ?t) ''STATUS_CHANGED''
         (''Status set to '' @ st @ '': '' @ reason) actor [] (save_project_ticket ?t s)"
    by (simp add: set_ticket_status_def Let_def)
  ultimately show ?thesis by simp
qed

subsection \<open>Every operation keeps it\<close>

lemma fold_save_edge_tickets_ok:
  "tickets_ok h (fold (\<lambda>c. save_edge \<lparr>ge_source = x, ge_relation = y, ge_target = c\<rparr>) cs s) = tickets_ok h s"
proof (rule tickets_ok_same)
  show "st_tickets (fold (\<lambda>c. save_edge \<lparr>ge_source = x, ge_relation = y, ge_target = c\<rparr>) cs s) = st_tickets s"
    by (induction cs arbitrary: s) simp_all
qed

lemma new_ticket_ok:
  assumes "given_lines (kr_acceptance_criteria q) \<noteq> []"
  shows "ticket_ok h (new_ticket e ids now q project policy s)"
proof -
  have "set (enumerate 0 (given_lines (kr_acceptance_criteria q))) \<noteq> {}"
    using assms by (metis length_0_conv length_enumerate set_empty)
  then show ?thesis
    by (auto simp: ticket_ok_def new_ticket_def Let_def ticket_statuses_def new_criterion_def criterion_ok_def
        criterion_statuses_def)
qed

lemma create_ticket_ok:
  assumes "create_ticket e ids now q s = (r, s')" and "tickets_ok h s"
  shows "tickets_ok h s'"
proof (cases "ticket_project q s")
  case (Inl x)
  with assms show ?thesis by (simp add: create_ticket_def)
next
  case (Inr project)
  then have criteria: "given_lines (kr_acceptance_criteria q) \<noteq> []" by (auto simp: ticket_project_def split: if_splits)
  obtain r1 s1 where claims: "assert_current_claims e now project (dict_fromkeys (kr_source_claim_ids q)) s = (r1, s1)"
    by (cases "assert_current_claims e now project (dict_fromkeys (kr_source_claim_ids q)) s")
  have ok1: "tickets_ok h s1"
    using assert_current_claims_tickets [OF claims] tickets_ok_same [of s1 s h] assms(2) by simp
  obtain r2 s2 where pol: "governance_policy e (ids 0) now (pr_id project) s1 = (r2, s2)"
    by (cases "governance_policy e (ids 0) now (pr_id project) s1")
  have ok2: "tickets_ok h s2"
    using governance_policy_tickets [OF pol] tickets_ok_same [of s2 s1 h] ok1 by simp
  note save = tickets_ok_save [OF ok2 new_ticket_ok [OF criteria]]
  show ?thesis
    using assms(1) Inr claims pol ok1 ok2 save
    by (auto simp: create_ticket_def Let_def fold_save_edge_tickets_ok split: sum.splits if_splits)
qed

lemma get_ticket_ok: "get_ticket e s k = Inr t \<Longrightarrow> tickets_ok h s \<Longrightarrow> ticket_ok h t"
  using get_ticket_Inr by (auto simp: tickets_ok_def)

lemma transition_ok:
  assumes "transition e ids now k requested actor reason s = (r, s')" and s: "tickets_ok (env_sha256 e) s"
  shows "tickets_ok (env_sha256 e) s'"
proof (cases "get_ticket e s k")
  case (Inl x)
  with assms show ?thesis by (simp add: transition_def)
next
  case (Inr t)
  note t = get_ticket_ok [OF Inr s]
  let ?st = "py_upper requested"
  consider "?st \<notin> set ticket_statuses" | "?st \<in> set ticket_statuses" "?st \<notin> {''SATISFIED'', ''CLOSED''}"
    | "?st \<in> set ticket_statuses" "?st \<in> {''SATISFIED'', ''CLOSED''}" "blank actor \<or> blank reason"
    | "?st \<in> set ticket_statuses" "?st \<in> {''SATISFIED'', ''CLOSED''}" "\<not> (blank actor \<or> blank reason)" by blast
  then show ?thesis
  proof cases
    case 1
    with assms Inr show ?thesis by (simp add: transition_def)
  next
    case 2
    with assms(1) Inr have "set_ticket_status ids now ?st actor reason t s = (r, s')"
      by (simp add: transition_def del: insert_iff)
    with 2 t s show ?thesis by (blast intro: set_ticket_status_ok)
  next
    case 3
    with assms Inr show ?thesis by (simp add: transition_def del: insert_iff)
  next
    case 4
    show ?thesis
    proof (cases "closure_decision e (ids 0) now s t ?st actor reason")
      case (Inl x)
      with 4 assms Inr show ?thesis by (simp add: transition_def del: insert_iff)
    next
      case d: (Inr d)
      obtain created t1 s1 where p: "persist_closure_decision (ids 1) now t d s = (created, t1, s1)"
        by (cases "persist_closure_decision (ids 1) now t d s")
      note dec = closure_decision_ok [OF d]
      note per = persist_closure_ok [OF p t conjunct1 [OF dec] s]
      let ?t2 = "if pt_satisfied_at t1 = None then t1\<lparr>pt_satisfied_at := Some now\<rparr> else t1"
      have t2: "ticket_ok (env_sha256 e) ?t2" using ticket_ok_satisfied conjunct1 [OF per] by simp
      have eq: "(if \<not> tcd_allowed d then
            (Inl (ValueError (''Ticket cannot be '' @ ?st @ '': '' @ py_join ''; '' (tcd_failures d))), s1)
          else if \<not> created \<and> pt_status t1 = ?st then (Inr t1, s1)
          else set_ticket_status ids now ?st actor reason ?t2 s1) = (r, s')"
        using assms(1) Inr 4 d p by (simp add: transition_def Let_def del: insert_iff append_Cons split del: if_split)
      show ?thesis
      proof (cases "\<not> tcd_allowed d \<or> (\<not> created \<and> pt_status t1 = ?st)")
        case True
        with eq per show ?thesis by (auto split: if_splits)
      next
        case False
        then have f: "(\<not> tcd_allowed d) = False" "(\<not> created \<and> pt_status t1 = ?st) = False" by blast+
        from eq have "set_ticket_status ids now ?st actor reason ?t2 s1 = (r, s')"
          unfolding f if_False .
        then show ?thesis
        proof (rule set_ticket_status_ok [OF _ t2])
          show "tickets_ok (env_sha256 e) s1" using per by blast
          show "?st \<in> set ticket_statuses" using 4 by blast
          show "(pt_satisfied_at ?t2 \<noteq> None \<and> (\<exists>d\<in>set (pt_closure_decisions ?t2). tcd_allowed d \<and>
              tcd_requested_status d = ?st)) \<or> collision (env_sha256 e)"
            using per dec False by (cases "pt_satisfied_at t1") auto
        qed
      qed
    qed
  qed
qed

lemma resolve_criterion_ok:
  assumes "resolve_criterion e i now k cid requested ids reason actor s = (r, s')" and s: "tickets_ok h s"
  shows "tickets_ok h s'"
proof (cases "r")
  case (Inl x)
  with assms(1) have "s' = s"
    by (auto simp: resolve_criterion_def Let_def split: sum.splits option.splits if_splits)
  with s show ?thesis by simp
next
  case (Inr t')
  let ?st = "py_upper requested"
  obtain t where t: "get_ticket e s k = Inr t"
    using assms(1) Inr by (cases "get_ticket e s k") (auto simp: resolve_criterion_def)
  obtain c where c: "find (\<lambda>c. tac_id c = cid) (pt_acceptance_criteria t) = Some c"
    using assms(1) Inr t by (cases "find (\<lambda>c. tac_id c = cid) (pt_acceptance_criteria t)") (auto simp: resolve_criterion_def)
  obtain as where as: "traverse (assess_evidence e now s t) ids = Inr as"
    using assms(1) Inr t c
    by (cases "traverse (assess_evidence e now s t) ids") (auto simp: resolve_criterion_def Let_def split: if_splits)
  let ?t = "t\<lparr>pt_acceptance_criteria := update_first (\<lambda>c. tac_id c = cid)
       (resolved_criterion now ?st ids reason actor as) (pt_acceptance_criteria t),
     pt_updated_at := now, pt_execution_authorized := False\<rparr>"
  from assms(1) Inr t c as have st: "?st \<in> set criterion_statuses" "?st = ''EVIDENCED'' \<longrightarrow> ids \<noteq> []"
    "?st \<in> {''WAIVED'', ''BLOCKED''} \<longrightarrow> \<not> blank reason"
    and tickets: "st_tickets s' = st_tickets (save_project_ticket ?t s)"
    by (auto simp: resolve_criterion_def Let_def simp del: save_project_ticket_frame split: if_splits)
  have "ticket_ok h ?t"
    using get_ticket_ok [OF t s] resolved_criterion_ok [OF st]
    by (auto simp: ticket_ok_def closed_by_decision_def dest!: set_update_first)
  from tickets_ok_save [OF s this] tickets_ok_same [OF tickets] show ?thesis by blast
qed

lemma record_validation_tickets:
  "record_validation e ids now k nam st det ev link by s = (r, s') \<Longrightarrow> st_tickets s' = st_tickets s"
  by (auto simp: record_validation_def Let_def split: sum.splits if_splits)

lemma approve_plan_tickets:
  "approve_plan e ids now k plan actor reason decision s = (r, s') \<Longrightarrow> st_tickets s' = st_tickets s"
  by (auto simp: approve_plan_def dest!: governance_policy_tickets split: sum.splits prod.splits if_splits)

lemma attach_sandbox_attempt_ok:
  assumes "attach_sandbox_attempt e i now k a s = (r, s')" and s: "tickets_ok h s"
  shows "tickets_ok h s'"
proof (cases "st_tickets s' = st_tickets s")
  case True
  with tickets_ok_same [OF True] s show ?thesis by blast
next
  case False
  with assms(1) obtain t u where t: "get_ticket e s k = Inr t" and tickets:
    "st_tickets s' = st_tickets (save_project_ticket
       (t\<lparr>pt_usage := u, pt_updated_at := now, pt_execution_authorized := False\<rparr>) s)"
    by (auto simp: attach_sandbox_attempt_def Let_def split: sum.splits if_splits)
  from tickets_ok_save [OF s ticket_ok_usage [OF get_ticket_ok [OF t s]]] tickets_ok_same [OF tickets]
  show ?thesis by blast
qed

lemma attach_workspace_record_ok:
  assumes "attach_workspace_record e i now k w s = (r, s')" and s: "tickets_ok h s"
  shows "tickets_ok h s'"
proof (cases "st_tickets s' = st_tickets s")
  case True
  with tickets_ok_same [OF True] s show ?thesis by blast
next
  case False
  with assms(1) obtain t u where t: "get_ticket e s k = Inr t" and tickets:
    "st_tickets s' = st_tickets (save_project_ticket
       (t\<lparr>pt_usage := u, pt_updated_at := now, pt_execution_authorized := False\<rparr>) s)"
    by (auto simp: attach_workspace_record_def Let_def split: sum.splits if_splits)
  from tickets_ok_save [OF s ticket_ok_usage [OF get_ticket_ok [OF t s]]] tickets_ok_same [OF tickets]
  show ?thesis by blast
qed

lemma check_budget_tickets:
  "check_budget e ids now k s = (r, s') \<Longrightarrow> st_tickets s' = st_tickets s"
  by (auto simp: check_budget_def dest!: governance_policy_tickets split: sum.splits prod.splits if_splits)

section \<open>Steps\<close>

text \<open>What can happen to the store of tickets: the operations of the manager with any arguments
  (all hashing with \<open>h\<close>), and any change that leaves the ticket table alone.\<close>

inductive ticket_step :: "(string \<Rightarrow> string) \<Rightarrow> store \<Rightarrow> store \<Rightarrow> bool" for h where
  step_create: "env_sha256 e = h \<Longrightarrow> create_ticket e ids now q s = (r, s') \<Longrightarrow> ticket_step h s s'"
| step_transition: "env_sha256 e = h \<Longrightarrow> transition e ids now k st actor reason s = (r, s') \<Longrightarrow> ticket_step h s s'"
| step_resolve: "env_sha256 e = h \<Longrightarrow> resolve_criterion e i now k c st evidence_ids reason actor s = (r2, s') \<Longrightarrow>
     ticket_step h s s'"
| step_validation: "env_sha256 e = h \<Longrightarrow> record_validation e ids now k nam st det ev link actor s = (r3, s') \<Longrightarrow>
     ticket_step h s s'"
| step_approve: "env_sha256 e = h \<Longrightarrow> approve_plan e ids now k plan actor reason decision s = (r4, s') \<Longrightarrow>
     ticket_step h s s'"
| step_sandbox: "env_sha256 e = h \<Longrightarrow> attach_sandbox_attempt e i now k a s = (r5, s') \<Longrightarrow> ticket_step h s s'"
| step_workspace: "env_sha256 e = h \<Longrightarrow> attach_workspace_record e i now k w s = (r6, s') \<Longrightarrow> ticket_step h s s'"
| step_budget: "env_sha256 e = h \<Longrightarrow> check_budget e ids now k s = (r, s') \<Longrightarrow> ticket_step h s s'"
| step_elsewhere: "st_tickets s' = st_tickets s \<Longrightarrow> ticket_step h s s'"

lemma ticket_step_ok: "ticket_step h s s' \<Longrightarrow> tickets_ok h s \<Longrightarrow> tickets_ok h s'"
proof (induction rule: ticket_step.induct)
  case step_create
  then show ?case by (blast intro: create_ticket_ok)
next
  case step_transition
  then show ?case using transition_ok by blast
next
  case step_resolve
  then show ?case by (blast intro: resolve_criterion_ok)
next
  case step_validation
  then show ?case using record_validation_tickets tickets_ok_same by blast
next
  case step_approve
  then show ?case using approve_plan_tickets tickets_ok_same by blast
next
  case step_sandbox
  then show ?case by (blast intro: attach_sandbox_attempt_ok)
next
  case step_workspace
  then show ?case by (blast intro: attach_workspace_record_ok)
next
  case step_budget
  then show ?case using check_budget_tickets tickets_ok_same by blast
next
  case step_elsewhere
  then show ?case using tickets_ok_same by blast
qed

interpretation ticket_table_steps: invariant_system "ticket_step h" "tickets_ok h" for h
  by unfold_locales (rule ticket_step_ok)

lemma transition_closing:
  assumes "get_ticket e s k = Inr t" and "py_upper requested \<in> {''SATISFIED'', ''CLOSED''}"
  shows "(\<exists>t'. fst (transition e ids now k requested actor reason s) = Inr t') \<longleftrightarrow>
    \<not> blank actor \<and> \<not> blank reason \<and>
    (\<exists>d. closure_decision e (ids 0) now s t (py_upper requested) actor reason = Inr d \<and> tcd_allowed d)"
proof -
  have known: "py_upper requested \<in> set ticket_statuses" using assms(2) by (auto simp: ticket_statuses_def)
  show ?thesis
  proof (cases "blank actor \<or> blank reason")
    case True
    with assms known show ?thesis by (auto simp: transition_def simp del: insert_iff)
  next
    case False
    show ?thesis
    proof (cases "closure_decision e (ids 0) now s t (py_upper requested) actor reason")
      case (Inl x)
      with assms known False show ?thesis by (simp add: transition_def del: insert_iff)
    next
      case (Inr d)
      with assms known False show ?thesis
        by (cases "tcd_allowed d")
          (auto simp: transition_def Let_def set_ticket_status_def simp del: insert_iff split: prod.splits)
    qed
  qed
qed

lemma traverse_total: "(\<And>x. \<exists>y. f x = Inr y) \<Longrightarrow> \<exists>ys. traverse f xs = Inr ys"
  by (induction xs) (auto split: sum.splits, metis Inr_not_Inl)

lemma closure_report_returns:
  assumes "links_resolved s"
  shows "\<exists>r. closure_report e now s t = Inr r"
proof -
  have "\<exists>r. criterion_assessments e now s t c = Inr r" for c
    using traverse_total [where f = "assess_evidence e now s t" and xs = "tac_evidence_ids c", OF assess_evidence_total [OF assms]]
    by (auto simp: criterion_assessments_def)
  from traverse_total [where f = "criterion_assessments e now s t" and xs = "pt_acceptance_criteria t", OF this] show ?thesis
    by (auto simp: closure_report_def)
qed

definition closure_ready :: "env \<Rightarrow> py_time \<Rightarrow> store \<Rightarrow> project_ticket \<Rightarrow> string \<Rightarrow> string \<Rightarrow> bool" where
  "closure_ready e now s t actor reason \<longleftrightarrow>
     \<not> blank actor \<and> \<not> blank reason \<and>
     (\<forall>c\<in>set (pt_acceptance_criteria t). criterion_resolved e now s t c) \<and>
     (\<forall>d\<in>set (pt_dependency_ticket_ids t). dependency_satisfied s d)"

lemma closing_gate:
  assumes "get_ticket e s k = Inr t" and "py_upper requested \<in> {''SATISFIED'', ''CLOSED''}"
  shows "((\<exists>t'. fst (transition e ids now k requested actor reason s) = Inr t') \<longrightarrow>
      closure_ready e now s t actor reason) \<and>
    (closure_ready e now s t actor reason \<and> links_resolved s \<longrightarrow> (\<exists>t'. fst (transition e ids now k requested actor reason s) = Inr t'))"
proof (cases "closure_report e now s t")
  case (Inl x)
  then have "\<not> links_resolved s" using closure_report_returns [of s e now t] by auto
  moreover have "\<not> (\<exists>t'. fst (transition e ids now k requested actor reason s) = Inr t')"
    unfolding transition_closing [OF assms(1,2)] using Inl by (simp add: closure_decision_def)
  ultimately show ?thesis by blast
next
  case (Inr r)
  obtain gates failures where r: "r = (gates, failures)" by (cases r)
  from Inr r have report: "closure_report e now s t = Inr (gates, failures)" by simp
  have "(\<exists>d. closure_decision e (ids 0) now s t (py_upper requested) actor reason = Inr d \<and> tcd_allowed d) =
      (failures = [])"
    using report by (auto simp: closure_decision_def)
  then have "(\<exists>t'. fst (transition e ids now k requested actor reason s) = Inr t') \<longleftrightarrow>
      closure_ready e now s t actor reason"
    unfolding transition_closing [OF assms(1,2)] closure_ready_def using closure_report_failures [OF report] by blast
  then show ?thesis by blast
qed

text \<open>A successful transition leaves the ticket stored with the requested status.\<close>

lemma transition_stored:
  assumes "transition e ids now k requested actor reason s = (Inr t', s')"
  shows "t' \<in> set (st_tickets s') \<and> pt_status t' = py_upper requested"
proof -
  let ?st = "py_upper requested"
  have set_status: "x \<in> set (st_tickets s') \<and> pt_status x = st"
    if "set_ticket_status ids now st actor reason y r = (Inr x, s')" for x y st r
    using that by (auto simp: set_ticket_status_def Let_def set_upsert)
  obtain t where t: "get_ticket e s k = Inr t"
    using assms by (cases "get_ticket e s k") (auto simp: transition_def)
  show ?thesis
  proof (cases "?st \<in> {''SATISFIED'', ''CLOSED''}")
    case False
    with assms t have "set_ticket_status ids now ?st actor reason t s = (Inr t', s')"
      by (simp add: transition_def Let_def del: insert_iff split: if_splits)
    then show ?thesis by (rule set_status)
  next
    case True
    obtain d where d: "closure_decision e (ids 0) now s t ?st actor reason = Inr d"
      using assms t True by (cases "closure_decision e (ids 0) now s t ?st actor reason")
        (auto simp: transition_def Let_def simp del: insert_iff split: if_splits)
    obtain created t1 s1 where p: "persist_closure_decision (ids 1) now t d s = (created, t1, s1)"
      by (cases "persist_closure_decision (ids 1) now t d s")
    show ?thesis
    proof (cases "\<not> created \<and> pt_status t1 = ?st")
      case same: True
      then have "t1 = t" "s1 = s" using p by (auto simp: persist_closure_decision_def Let_def split: if_splits)
      with assms t True d p same get_ticket_Inr [OF t] show ?thesis
        by (simp add: transition_def Let_def del: insert_iff append_Cons split: if_splits)
    next
      case other: False
      let ?t2 = "if pt_satisfied_at t1 = None then t1\<lparr>pt_satisfied_at := Some now\<rparr> else t1"
      have f: "(\<not> created \<and> pt_status t1 = ?st) = False" using other by blast
      from assms t True d p have "(if \<not> tcd_allowed d then
            (Inl (ValueError (''Ticket cannot be '' @ ?st @ '': '' @ py_join ''; '' (tcd_failures d))), s1)
          else if \<not> created \<and> pt_status t1 = ?st then (Inr t1, s1)
          else set_ticket_status ids now ?st actor reason ?t2 s1) = (Inr t', s')"
        by (simp add: transition_def Let_def del: insert_iff append_Cons split: if_split_asm split del: if_split)
      then have "set_ticket_status ids now ?st actor reason ?t2 s1 = (Inr t', s')"
        unfolding f if_False by (cases "tcd_allowed d") simp_all
      then show ?thesis by (rule set_status)
    qed
  qed
qed

section \<open>Properties\<close>

definition ticket_demo_start :: store where
  "ticket_demo_start = empty_store\<lparr>st_projects :=
     [demo_project\<lparr>pr_execution_mode := ProjectExecutionMode_PROTECTED\<rparr>]\<rparr>"

definition demo_ticket_request :: ticket_request where
  "demo_ticket_request =
     \<lparr>kr_project_id = ''p'', kr_title = ''fix'', kr_description = ''bug'', kr_acceptance_criteria = [''ok''],
      kr_constraints = [], kr_priority = ''high'', kr_dependency_ticket_ids = [], kr_budget = default_budget,
      kr_created_by = ''ann'', kr_source_claim_ids = []\<rparr>"

definition demo_ids :: "nat \<Rightarrow> string" where
  "demo_ids k = replicate (Suc k) (CHR ''i'')"

definition demo_created :: "project_ticket result \<times> store" where
  "demo_created = create_ticket plain_env demo_ids 5 demo_ticket_request ticket_demo_start"

definition demo_waived :: "project_ticket result \<times> store" where
  "demo_waived = resolve_criterion plain_env ''w'' 6 ''ii'' ''iiii'' ''waived'' [] ''later'' ''ann'' (snd demo_created)"

definition demo_closed :: "project_ticket result \<times> store" where
  "demo_closed = transition plain_env (\<lambda>k. replicate (Suc k) (CHR ''j'')) 7 ''ii'' ''closed'' ''ann'' ''done'' (snd demo_waived)"

lemma plain_env_no_collision: "\<not> collision (env_sha256 plain_env)"
  by (simp add: collision_def plain_env_def)

lemma demo_waived_ready:
  "get_ticket plain_env (snd demo_waived) ''ii'' = Inr (hd (st_tickets (snd demo_waived)))"
  "closure_ready plain_env 7 (snd demo_waived) (hd (st_tickets (snd demo_waived))) ''ann'' ''done''"
  "links_resolved (snd demo_waived)"
proof -
  let ?t = "hd (st_tickets (snd demo_waived))"
  show "get_ticket plain_env (snd demo_waived) ''ii'' = Inr ?t" by code_simp
  have facts: "(map tac_status (pt_acceptance_criteria ?t), map tac_waiver_reason (pt_acceptance_criteria ?t),
      map tac_resolved_by (pt_acceptance_criteria ?t), pt_dependency_ticket_ids ?t,
      blank ''ann'', blank ''done'', st_validations (snd demo_waived), st_sandboxes (snd demo_waived)) =
    ([''WAIVED''], [Some ''later''], [Some ''ann''], [], False, False, [], [])" by code_simp
  then show "closure_ready plain_env 7 (snd demo_waived) ?t ''ann'' ''done''"
    by (auto simp: closure_ready_def criterion_resolved_def truthy_def)
  from facts show "links_resolved (snd demo_waived)" by (simp add: links_resolved_def)
qed

lemma closed_upper: "py_upper ''closed'' = ''CLOSED''"
  by code_simp

lemma demo_closed_stored: "\<exists>t\<in>set (st_tickets (snd demo_closed)). pt_status t = ''CLOSED''"
proof -
  have "\<exists>t'. fst demo_closed = Inr t'"
    unfolding demo_closed_def using demo_waived_ready
    by (intro mp [OF conjunct2 [OF closing_gate [OF demo_waived_ready(1)]]]) (simp_all add: closed_upper)
  then obtain t' where "demo_closed = (Inr t', snd demo_closed)" by (metis prod.collapse)
  then have "transition plain_env (\<lambda>k. replicate (Suc k) (CHR ''j'')) 7 ''ii'' ''closed'' ''ann'' ''done'' (snd demo_waived)
      = (Inr t', snd demo_closed)" unfolding demo_closed_def .
  from transition_stored [OF this] closed_upper show ?thesis by auto
qed

lemma demo_closed_run: "run_of (ticket_step (env_sha256 plain_env)) empty_store (snd demo_closed)"
proof -
  let ?step = "ticket_step (env_sha256 plain_env)"
  have "?step empty_store ticket_demo_start" by (rule step_elsewhere) (simp add: ticket_demo_start_def)
  then have "run_of ?step empty_store ticket_demo_start" by (rule run_of_one)
  moreover have "?step ticket_demo_start (snd demo_created)"
    by (rule step_create [OF refl, where r = "fst demo_created"]) (simp add: demo_created_def)
  ultimately have "run_of ?step empty_store (snd demo_created)" by (rule run_step)
  moreover have "?step (snd demo_created) (snd demo_waived)"
    by (rule step_resolve [OF refl, where ?r2.0 = "fst demo_waived"]) (simp add: demo_waived_def)
  ultimately have "run_of ?step empty_store (snd demo_waived)" by (rule run_step)
  moreover have "?step (snd demo_waived) (snd demo_closed)"
    by (rule step_transition [OF refl, where r = "fst demo_closed"]) (simp add: demo_closed_def)
  ultimately show ?thesis by (rule run_step)
qed



text \<open>C2: Closing is gated by exactly the promised conditions: a ticket becomes satisfied or closed only
  when the actor and the reason are given, every acceptance criterion is resolved (by evidence that
  is eligible now, or by an attributed waiver or blocker) and every dependency is satisfied or
  closed; and when all this holds, and the links between evidence are resolved, the request
  succeeds.\<close>

theorem closing_requires_resolution:
  assumes "get_ticket e s k = Inr t" and "py_upper requested \<in> {''SATISFIED'', ''CLOSED''}"
  shows "((\<exists>t'. fst (transition e ids now k requested actor reason s) = Inr t') \<longrightarrow>
      closure_ready e now s t actor reason) \<and>
    (closure_ready e now s t actor reason \<and> links_resolved s \<longrightarrow> (\<exists>t'. fst (transition e ids now k requested actor reason s) = Inr t'))"
  by (rule closing_gate [OF assms])

theorem closing_requires_resolution_witness:
  "\<exists>t'. fst demo_closed = Inr t'"
proof -
  have "py_upper ''closed'' \<in> {''SATISFIED'', ''CLOSED''}" by (simp add: closed_upper)
  from closing_requires_resolution [OF demo_waived_ready(1) this] demo_waived_ready(2,3)
  show ?thesis unfolding demo_closed_def by blast
qed

lemma split_on_append: "split_on c (a @ c # b) = split_on c a @ split_on c b"
proof (induction a)
  case Nil
  show ?case by simp
next
  case (Cons x a)
  show ?case
  proof (cases "split_on c a")
    case Nil
    then show ?thesis by simp
  next
    case (Cons w ws)
    with Cons.IH show ?thesis by (cases "x = c") simp_all
  qed
qed

lemma path_parts_slash: "path_parts (a @ ''/'' @ b) = path_parts a @ path_parts b"
  by (simp add: path_parts_def split_on_append)

lemma safe_path_inside:
  assumes "safe_relative_path v = Inr p"
  shows "''..'' \<notin> set (path_parts (posix_path v)) \<and> \<not> is_absolute (posix_path v) \<and>
    (is_absolute base \<longrightarrow> path_inside base (join_path base (posix_path v)))"
proof -
  have parts: "''..'' \<notin> set (path_parts (posix_path v))" and rel: "\<not> is_absolute (posix_path v)"
    using assms by (auto simp: safe_relative_path_def Let_def split: if_splits)
  have "is_absolute (base @ ''/'' @ posix_path v)" if "is_absolute base"
    using that by (cases base) (auto simp: is_absolute_def)
  with parts rel show ?thesis
    by (auto simp: path_inside_def join_path_def path_parts_slash simp del: append_Cons append_Nil)
qed

text \<open>C6: A sandbox cannot smuggle changes out of its boundary: an attempt is attached only if it belongs
  to the ticket's project, and then every changed path is (after normalisation) one of the authorized
  paths, has no parent component, and lies inside the project wherever the project is; the ticket is
  charged exactly what the attempt used.\<close>

theorem attached_changes_authorized:
  assumes "attach_sandbox_attempt e i now k a s = (Inr (), s')"
  shows "(\<forall>c\<in>set (isa_changes a). \<exists>p. safe_relative_path (pc_path c) = Inr p \<and>
      (\<exists>x\<in>set (isa_authorized_paths a). safe_relative_path x = Inr p) \<and>
      ''..'' \<notin> set (path_parts (posix_path (pc_path c))) \<and>
      (\<forall>base. is_absolute base \<longrightarrow> path_inside base (join_path base (posix_path (pc_path c))))) \<and>
    (\<exists>t t'. get_ticket e s k = Inr t \<and> lookup_row pt_id k (st_tickets s') = Some t' \<and>
       isa_ticket_id a = k \<and> isa_project_id a = pt_project_id t \<and>
       tu_worker_calls (pt_usage t') = tu_worker_calls (pt_usage t) + isa_worker_calls a \<and>
       tu_model_calls (pt_usage t') = tu_model_calls (pt_usage t) + isa_model_calls a \<and>
       tu_wall_time_seconds (pt_usage t') = tu_wall_time_seconds (pt_usage t) + isa_elapsed_seconds a)"
proof -
  obtain t where t: "get_ticket e s k = Inr t"
    using assms by (cases "get_ticket e s k") (auto simp: attach_sandbox_attempt_def)
  note id = conjunct2 [OF get_ticket_Inr [OF t]]
  from assms t have own: "isa_ticket_id a = pt_id t" "isa_project_id a = pt_project_id t"
    by (auto simp: attach_sandbox_attempt_def split: if_splits)
  obtain auth where auth: "traverse safe_relative_path (isa_authorized_paths a) = Inr auth"
    using assms t by (cases "traverse safe_relative_path (isa_authorized_paths a)")
      (auto simp: attach_sandbox_attempt_def split: if_splits)
  obtain ch where ch: "traverse safe_relative_path (map pc_path (isa_changes a)) = Inr ch"
    using assms t auth by (cases "traverse safe_relative_path (map pc_path (isa_changes a))")
      (auto simp: attach_sandbox_attempt_def split: if_splits)
  let ?out = "sorted_set (filter (\<lambda>c. c \<notin> set auth) ch)"
  from assms t auth ch have "?out = []"
    by (auto simp: attach_sandbox_attempt_def Let_def split: if_splits)
  then have "set ?out = {}" by simp
  then have sub: "set ch \<subseteq> set auth" by auto
  have each: "\<exists>p. safe_relative_path (pc_path c) = Inr p \<and> p \<in> set ch" if "c \<in> set (isa_changes a)" for c
    using ch that by (auto simp: traverse_Inr list_all2_conv_all_nth in_set_conv_nth)
  have from_auth: "\<exists>x\<in>set (isa_authorized_paths a). safe_relative_path x = Inr p" if "p \<in> set auth" for p
    using auth that by (fastforce simp: traverse_Inr list_all2_conv_all_nth in_set_conv_nth)
  have "\<forall>c\<in>set (isa_changes a). \<exists>p. safe_relative_path (pc_path c) = Inr p \<and>
      (\<exists>x\<in>set (isa_authorized_paths a). safe_relative_path x = Inr p) \<and>
      ''..'' \<notin> set (path_parts (posix_path (pc_path c))) \<and>
      (\<forall>base. is_absolute base \<longrightarrow> path_inside base (join_path base (posix_path (pc_path c))))"
    using each from_auth sub safe_path_inside by (meson subsetD)
  moreover have "\<exists>t'. lookup_row pt_id k (st_tickets s') = Some t' \<and>
       tu_worker_calls (pt_usage t') = tu_worker_calls (pt_usage t) + isa_worker_calls a \<and>
       tu_model_calls (pt_usage t') = tu_model_calls (pt_usage t) + isa_model_calls a \<and>
       tu_wall_time_seconds (pt_usage t') = tu_wall_time_seconds (pt_usage t) + isa_elapsed_seconds a"
    using assms t auth ch id by (auto simp: attach_sandbox_attempt_def Let_def lookup_upsert split: if_splits)
  ultimately show ?thesis using t own id by auto
qed

definition demo_change :: patch_change where
  "demo_change = \<lparr>pc_path = ''src/x'', pc_before_hash = [], pc_after_hash = [], pc_unified_diff = [], pc_change_reason = None,
     pc_before_content = None, pc_after_content = None, pc_before_bytes_base64 = None, pc_after_bytes_base64 = None\<rparr>"

definition demo_sandbox_run :: implementation_sandbox_attempt where
  "demo_sandbox_run = demo_attempt\<lparr>isa_ticket_id := ''ii'', isa_authorized_paths := [''src//x''],
     isa_changes := [demo_change], isa_worker_calls := 2\<rparr>"

theorem attached_changes_authorized_witness:
  "\<exists>s'. attach_sandbox_attempt plain_env ''e'' 9 ''ii'' demo_sandbox_run (snd demo_created) = (Inr (), s') \<and>
     (\<exists>t'. lookup_row pt_id ''ii'' (st_tickets s') = Some t' \<and> tu_worker_calls (pt_usage t') = 2)"
proof -
  let ?a = "attach_sandbox_attempt plain_env ''e'' 9 ''ii'' demo_sandbox_run (snd demo_created)"
  have "isl (fst ?a) = False" by code_simp
  then have ok: "?a = (Inr (), snd ?a)" by (cases ?a; cases "fst ?a") auto
  have "get_ticket plain_env (snd demo_created) ''ii'' = Inr (hd (st_tickets (snd demo_created)))"
    and "tu_worker_calls (pt_usage (hd (st_tickets (snd demo_created)))) = 0" by code_simp+
  moreover have "isa_worker_calls demo_sandbox_run = 2" by (simp add: demo_sandbox_run_def)
  ultimately have "\<exists>t'. lookup_row pt_id ''ii'' (st_tickets (snd ?a)) = Some t' \<and> tu_worker_calls (pt_usage t') = 2"
    using attached_changes_authorized [OF ok] by auto
  with ok show ?thesis by blast
qed


definition demo_plan_store :: store where
  "demo_plan_store = (snd demo_created)\<lparr>st_workspace_records := [demo_plan\<lparr>pwr_id := ''r'', pwr_ticket_id := Some ''ii'',
     pwr_kind := ''CHANGE_PLAN'', pwr_approval_required := True, pwr_source_integrity_verified := True,
     pwr_read_only_verified := True\<rparr>]\<rparr>"


text \<open>C35: Team mode leaves no way to approve a plan: when the project's policy requires authenticated
  identities, every plan decision raises, because the operation never passes an identity on.\<close>

theorem team_mode_rejects_plan_decisions:
  assumes "get_ticket e s k = Inr t" and "governance_policy e (ids 0) now (pt_project_id t) s = (Inr policy, s1)"
    and "pol_authority_mode policy = ''AUTHENTICATED_TEAM''"
  shows "\<exists>x. approve_plan e ids now k plan_id actor reason decision s = (Inl x, s1)"
proof -
  have "\<exists>x. decided_plan e f now policy plan actor reason decision = Inl x" for f plan
  proof -
    obtain bind req ev where b: "plan_binding e policy plan = (bind, req, ev)"
      by (cases "plan_binding e policy plan")
    have "\<exists>x. record_decisions f (\<lambda>_. now) policy q = Inl x" if "dr_identity q = None" for q
      using that assms(3)
      by (cases "policy_rules policy (py_upper (dr_action q)) (dr_artifact_kinds q)")
        (auto simp: record_decisions_def actor_roles_def)
    from this [of "\<lparr>dr_action = ''PLAN'', dr_artifact_id = pwr_id plan,
           dr_artifact_kinds = artifact_kinds (pwr_affected_paths plan), dr_decision = decision,
           dr_actor = actor, dr_reason = reason, dr_binding_sha256 = bind,
           dr_source_manifest_sha256 = Some (pwr_final_manifest_sha256 plan), dr_patch_sha256 = None,
           dr_requirements_sha256 = Some req, dr_evidence_sha256 = Some ev, dr_identity = None\<rparr>"] b
    show ?thesis by (auto simp: decided_plan_def Let_def)
  qed
  then obtain f where f: "\<And>plan. decided_plan e (\<lambda>j. ids (Suc (Suc j))) now policy plan actor reason decision = Inl (f plan)"
    by metis
  show ?thesis
    using assms(1,2) by (auto simp: approve_plan_def f split: sum.splits)
qed

definition demo_team_store :: store where
  "demo_team_store = demo_plan_store\<lparr>st_policies := map (\<lambda>p. p\<lparr>pol_authority_mode := ''AUTHENTICATED_TEAM''\<rparr>)
     (st_policies demo_plan_store)\<rparr>"

theorem team_mode_rejects_plan_decisions_witness:
  "\<exists>x. fst (approve_plan plain_env demo_ids 9 ''ii'' ''r'' ''ann'' ''ok'' ''approved'' demo_team_store) = Inl x"
proof -
  let ?p = "governance_policy plain_env (demo_ids 0) 9 (pt_project_id (hd (st_tickets demo_team_store))) demo_team_store"
  have "get_ticket plain_env demo_team_store ''ii'' = Inr (hd (st_tickets demo_team_store))" by code_simp
  moreover have facts: "(isl (fst ?p), pol_authority_mode (projr (fst ?p))) = (False, ''AUTHENTICATED_TEAM'')" by code_simp
  then have "?p = (Inr (projr (fst ?p)), snd ?p)" by (cases ?p; cases "fst ?p") auto
  ultimately show ?thesis
    using team_mode_rejects_plan_decisions [of plain_env demo_team_store "''ii''" "hd (st_tickets demo_team_store)"
        demo_ids 9 "projr (fst ?p)" "snd ?p" "''r''" "''ann''" "''ok''" "''approved''"] facts by auto
qed

section \<open>Scope and budget of a ticket\<close>

lemma get_claim_Some: "get_claim s i = Some c \<Longrightarrow> cl_id c = i"
  using lookup_row_Some [of cl_id i "st_claims s" c] by (simp add: get_claim_def)

lemma record_validity_id [simp]: "cl_id (snd (record_validity now c v st r)) = cl_id c"
  by (simp add: record_validity_def Let_def)

lemma record_validity_same: "\<not> fst (record_validity now c v st r) \<Longrightarrow> snd (record_validity now c v st r) = c"
proof -
  let ?same = "cl_validity_status c = (if v then ClaimValidity_CURRENT
     else if truthy (cl_superseded_by_claim_id c) then ClaimValidity_SUPERSEDED
     else ClaimValidity_INVALIDATED) \<and> cl_validity_reason c = r"
  assume "\<not> fst (record_validity now c v st r)"
  moreover have "\<not> ?same \<Longrightarrow> fst (record_validity now c v st r)"
    unfolding record_validity_def Let_def by (simp only: if_False fst_conv)
  moreover have "snd (record_validity now c v st r) = c" if same: ?same
    unfolding record_validity_def Let_def if_P [OF same] by simp
  ultimately show ?thesis by blast
qed

lemma revalidated_id [simp]: "cl_id (snd (revalidated now fs st c)) = cl_id c"
  by (simp add: revalidated_def case_prod_beta)

lemma revalidated_same: "\<not> fst (revalidated now fs st c) \<Longrightarrow> snd (revalidated now fs st c) = c"
  by (simp add: revalidated_def case_prod_beta record_validity_same split: if_splits)

lemma get_claim_update:
  assumes "get_claim s (cl_id c) \<noteq> None"
  shows "get_claim (update_claim c s) i = (if i = cl_id c then Some c else get_claim s i)"
proof -
  from assms obtain x where x: "lookup_row cl_id (cl_id c) (st_claims s) = Some x" by (auto simp: get_claim_def)
  from lookup_row_Some [OF x] have "cl_id c \<in> cl_id ` set (st_claims s)" by (metis imageI)
  then show ?thesis by (simp add: get_claim_def update_claim_def lookup_update_row)
qed

lemma get_claim_write_back:
  assumes "get_claim s a = get_claim s0 a"
  shows "get_claim (write_back (map_option (revalidated now fs st) (get_claim s0 a)) s) j =
    (if j = a then map_option (\<lambda>c. snd (revalidated now fs st c)) (get_claim s0 a) else get_claim s j)"
proof (cases "get_claim s0 a")
  case None
  with assms show ?thesis by (auto simp: write_back_def)
next
  case (Some c)
  obtain b c' where r: "revalidated now fs st c = (b, c')" by (cases "revalidated now fs st c")
  have id: "cl_id c' = a" using revalidated_id [of now fs st c] r get_claim_Some [OF Some] by simp
  show ?thesis
  proof (cases b)
    case True
    with Some assms r id get_claim_update [of s c' j] show ?thesis by (simp add: write_back_def)
  next
    case False
    with revalidated_same [of now fs st c] r have "c' = c" by simp
    with Some assms r False show ?thesis by (auto simp: write_back_def)
  qed
qed

text \<open>Writing back the revalidated claims makes the store hold them.\<close>

lemma written_claims:
  assumes "distinct ids" and "\<And>j. j \<in> set ids \<Longrightarrow> get_claim s j = get_claim s0 j"
  shows "get_claim (fold write_back (map (\<lambda>i. map_option (revalidated now fs st) (get_claim s0 i)) ids) s) i =
    (if i \<in> set ids then map_option (\<lambda>c. snd (revalidated now fs st c)) (get_claim s0 i) else get_claim s i)"
  using assms
proof (induction ids arbitrary: s)
  case Nil
  then show ?case by simp
next
  case (Cons a ids)
  let ?s = "write_back (map_option (revalidated now fs st) (get_claim s0 a)) s"
  have step: "get_claim ?s j = (if j = a then map_option (\<lambda>c. snd (revalidated now fs st c)) (get_claim s0 a) else get_claim s j)" for j
    by (rule get_claim_write_back) (use Cons.prems(2) in simp)
  have "get_claim (fold write_back (map (\<lambda>i. map_option (revalidated now fs st) (get_claim s0 i)) ids) ?s) i =
    (if i \<in> set ids then map_option (\<lambda>c. snd (revalidated now fs st c)) (get_claim s0 i) else get_claim ?s i)"
  proof (rule Cons.IH)
    show "distinct ids" using Cons.prems(1) by simp
    fix j
    assume "j \<in> set ids"
    with Cons.prems have "j \<noteq> a" "get_claim s j = get_claim s0 j" by auto
    then show "get_claim ?s j = get_claim s0 j" using step [of j] by simp
  qed
  with step [of i] Cons.prems(1) show ?case by auto
qed

text \<open>After the check passed, every source claim is current and belongs to the project.\<close>

lemma assert_current_claims_Inr:
  assumes "assert_current_claims e now project ids s = (Inr (), s')" and "distinct ids" and "i \<in> set ids"
  shows "\<exists>c. get_claim s' i = Some c \<and> \<not> claim_unusable e project c"
proof -
  let ?fs = "project_files s (pr_id project)"
  let ?st = "indexed_project_fingerprint e (pr_root project) (map (\<lambda>f. (pf_path f, pf_content_hash f)) ?fs)"
  let ?checked = "map (\<lambda>i. map_option (revalidated now ?fs ?st) (get_claim s i)) ids"
  from assms(1) have s': "s' = fold write_back ?checked s"
    and valid: "filter (\<lambda>(i, x). case x of None \<Rightarrow> True | Some (_, c) \<Rightarrow> claim_unusable e project c) (zip ids ?checked) = []"
    by (auto simp: assert_current_claims_def Let_def split: if_splits)
  have "(i, map_option (revalidated now ?fs ?st) (get_claim s i)) \<in> set (zip ids ?checked)"
    using assms(3) by (auto simp: in_set_zip in_set_conv_nth)
  with valid obtain b c where "map_option (revalidated now ?fs ?st) (get_claim s i) = Some (b, c)"
    and ok: "\<not> claim_unusable e project c"
    by (force simp: filter_empty_conv split: option.splits)
  then have "map_option (\<lambda>c. snd (revalidated now ?fs ?st c)) (get_claim s i) = Some c" by auto
  with written_claims [OF assms(2), of s s now ?fs ?st i] assms(3) s' have "get_claim s' i = Some c" by simp
  with ok show ?thesis by blast
qed

lemma assert_budget_Inr:
  "assert_budget policy b = Inr () \<longleftrightarrow>
     tb_max_tokens b \<le> tb_max_tokens (pol_max_ticket_budget policy) \<and>
     tb_max_model_calls b \<le> tb_max_model_calls (pol_max_ticket_budget policy) \<and>
     tb_max_worker_calls b \<le> tb_max_worker_calls (pol_max_ticket_budget policy) \<and>
     tb_max_wall_time_seconds b \<le> tb_max_wall_time_seconds (pol_max_ticket_budget policy) \<and>
     tb_max_branch_depth b \<le> tb_max_branch_depth (pol_max_ticket_budget policy)"
  by (auto simp: assert_budget_def budget_limits_def Let_def)

lemma save_edges_claims:
  "st_claims (fold (\<lambda>c. save_edge (f c)) cs s) = st_claims s" "st_tickets (fold (\<lambda>c. save_edge (f c)) cs s) = st_tickets s"
  by (induction cs arbitrary: s) simp_all



text \<open>The compute budget is a hard stop: a ticket passes the budget check only while its usage is
  strictly below every limit and its limits are within the project policy; otherwise the check
  raises.\<close>

theorem budget_is_hard_stop:
  assumes "get_ticket e s k = Inr t"
    and "governance_policy e (ids 0) now (pt_project_id t) s = (Inr policy, s1)"
  shows "(\<exists>t' s'. check_budget e ids now k s = (Inr t', s')) \<longleftrightarrow>
    tu_tokens (pt_usage t) < tb_max_tokens (pt_budget t) \<and>
    tu_model_calls (pt_usage t) < tb_max_model_calls (pt_budget t) \<and>
    tu_worker_calls (pt_usage t) < tb_max_worker_calls (pt_budget t) \<and>
    tu_wall_time_seconds (pt_usage t) < tb_max_wall_time_seconds (pt_budget t) \<and>
    tu_deepest_branch (pt_usage t) < tb_max_branch_depth (pt_budget t) \<and>
    tb_max_tokens (pt_budget t) \<le> tb_max_tokens (pol_max_ticket_budget policy) \<and>
    tb_max_model_calls (pt_budget t) \<le> tb_max_model_calls (pol_max_ticket_budget policy) \<and>
    tb_max_worker_calls (pt_budget t) \<le> tb_max_worker_calls (pol_max_ticket_budget policy) \<and>
    tb_max_wall_time_seconds (pt_budget t) \<le> tb_max_wall_time_seconds (pol_max_ticket_budget policy) \<and>
    tb_max_branch_depth (pt_budget t) \<le> tb_max_branch_depth (pol_max_ticket_budget policy)"
proof -
  have "(\<exists>t' s'. check_budget e ids now k s = (Inr t', s')) \<longleftrightarrow>
      assert_budget policy (pt_budget t) = Inr () \<and> (\<forall>c\<in>set (budget_checks t). \<not> fst c)"
    using assms by (cases "assert_budget policy (pt_budget t)")
      (auto simp: check_budget_def Let_def filter_empty_conv)
  then show ?thesis by (simp add: assert_budget_Inr budget_checks_def not_le conj_commute conj_left_commute)
qed

theorem budget_is_hard_stop_witness:
  "\<exists>t' s'. check_budget plain_env demo_ids 9 ''ii'' (snd demo_created) = (Inr t', s')"
proof -
  let ?t = "hd (st_tickets (snd demo_created))"
  let ?p = "governance_policy plain_env (demo_ids 0) 9 (pt_project_id ?t) (snd demo_created)"
  have "get_ticket plain_env (snd demo_created) ''ii'' = Inr ?t" by code_simp
  moreover have facts: "(isl (fst ?p), pol_max_ticket_budget (projr (fst ?p)), pt_budget ?t, pt_usage ?t) =
      (False, default_budget, default_budget, \<lparr>tu_tokens = 0, tu_model_calls = 0, tu_worker_calls = 0,
        tu_wall_time_seconds = 0, tu_deepest_branch = 0\<rparr>)" by code_simp
  then have "?p = (Inr (projr (fst ?p)), snd ?p)" by (cases ?p; cases "fst ?p") auto
  ultimately show ?thesis
    using budget_is_hard_stop [of plain_env "snd demo_created" "''ii''" ?t demo_ids 9 "projr (fst ?p)" "snd ?p"] facts
    by (simp add: default_budget_def)
qed

end
