(* ===== verification/Scheduler.thy ===== *)
theory Scheduler
  imports Ticketing Leases
begin

text \<open>
  The resource-aware scheduler (\<open>src/rlmgraph/scheduler.py\<close>): durable admission of work under
  budgets, concurrency and capacity limits and the project lease, with checkpoints, cooperative
  cancellation, interruption and the disposal of temporary resources. The state is the table of
  scheduled work in the store. An item the code mutates and saves is returned changed. Operations
  that dispose of resources also return the paths they remove, in order. Bounds that pydantic
  enforces when an item or a checkpoint is built are written out as \<open>field_error\<close>.
\<close>

section \<open>Numbers in scheduling reasons\<close>

text \<open>\<open>f"{x:g}"\<close>: six significant digits, correctly rounded, without trailing zeros; exponent form
  when the decimal exponent is below -4 or above 5.\<close>

definition ten_pow :: "int \<Rightarrow> rat" where
  "ten_pow e = (if 0 \<le> e then 10 ^ nat e else 1 / 10 ^ nat (- e))"

definition decimal_exponent :: "rat \<Rightarrow> int" where
  "decimal_exponent a =
     (let (p, q) = quotient_of a;
          d = int (length (nat_digits (nat p))) - int (length (nat_digits (nat q)))
      in if ten_pow d \<le> a then d else d - 1)"

definition strip_zeros :: "string \<Rightarrow> string" where
  "strip_zeros ds = rev (dropWhile (\<lambda>c. c = CHR ''0'') (rev ds))"

definition fmt_g :: "rat \<Rightarrow> string" where
  "fmt_g x =
     (if x = 0 then ''0''
      else
        let a = \<bar>x\<bar>; e0 = decimal_exponent a; m0 = round_half_even (a * ten_pow (5 - e0));
            (m, e) = (if m0 = 1000000 then (100000, e0 + 1) else (m0, e0));
            digits = py_str_int m;
            body =
              (if e < -4 \<or> 6 \<le> e then
                 let frac = strip_zeros (tl digits)
                 in [hd digits] @ (if frac = [] then [] else ''.'' @ frac) @ ''e'' @
                    (if e < 0 then ''-'' else ''+'') @ pad_int 2 \<bar>e\<bar>
               else if 0 \<le> e then
                 let whole = take (nat e + 1) digits; frac = strip_zeros (drop (nat e + 1) digits)
                 in whole @ (if frac = [] then [] else ''.'' @ frac)
               else ''0.'' @ replicate (nat (- e) - 1) (CHR ''0'') @ strip_zeros digits)
        in (if x < 0 then ''-'' else []) @ body)"

section \<open>Status sets and limits\<close>

definition terminal_statuses :: "string list" where
  "terminal_statuses = [''COMPLETED'', ''FAILED'', ''CANCELLED'']"

definition active_statuses :: "string list" where
  "active_statuses = [''RUNNING'', ''CANCELLATION_REQUESTED'']"

definition waiting_statuses :: "string list" where
  "waiting_statuses = [''QUEUED'', ''WAITING_FOR_CAPACITY'', ''WAITING_FOR_LEASE'']"

definition priority_weight :: "string \<Rightarrow> rat" where
  "priority_weight p =
     (if p = ''URGENT'' then 400 else if p = ''HIGH'' then 300 else if p = ''LOW'' then 100 else 200)"

definition is_active :: "scheduled_work_item \<Rightarrow> bool" where
  "is_active i \<longleftrightarrow> swi_status i \<in> set active_statuses"

definition is_waiting :: "scheduled_work_item \<Rightarrow> bool" where
  "is_waiting i \<longleftrightarrow> swi_status i \<in> set waiting_statuses"

definition field_error :: "'a result" where
  "field_error = Inl (ValueError ''Input should be greater than or equal to the declared bound'')"

section \<open>Checkpoints\<close>

definition new_checkpoint ::
  "py_time \<Rightarrow> scheduled_work_item \<Rightarrow> string \<Rightarrow> string \<Rightarrow> int \<Rightarrow> rat \<Rightarrow> string list \<Rightarrow> scheduler_checkpoint" where
  "new_checkpoint now i stage detail calls seconds ev =
     \<lparr>sc_sequence = int (length (swi_checkpoints i)) + 1, sc_stage = stage, sc_detail = detail,
      sc_worker_calls_used = calls, sc_wall_time_seconds_used = seconds, sc_evidence_ids = ev,
      sc_created_at = now\<rparr>"

definition checkpointed ::
  "py_time \<Rightarrow> string \<Rightarrow> string \<Rightarrow> int \<Rightarrow> rat \<Rightarrow> string list \<Rightarrow> scheduled_work_item \<Rightarrow> scheduled_work_item" where
  "checkpointed now stage detail calls seconds ev i =
     i\<lparr>swi_checkpoints := swi_checkpoints i @ [new_checkpoint now i stage detail calls seconds ev],
       swi_updated_at := now\<rparr>"

definition put_checkpoint ::
  "py_time \<Rightarrow> string \<Rightarrow> string \<Rightarrow> scheduled_work_item \<Rightarrow> store \<Rightarrow> scheduled_work_item \<times> store" where
  "put_checkpoint now stage detail i s =
     (let i' = checkpointed now stage detail 0 0 [] i in (i', save_scheduled_work i' s))"

definition block_item :: "py_time \<Rightarrow> string \<Rightarrow> string \<Rightarrow> scheduled_work_item \<Rightarrow> store \<Rightarrow> store" where
  "block_item now status reason i s =
     (if swi_status i \<noteq> status \<or> swi_blocked_reason i \<noteq> Some reason then
        snd (put_checkpoint now status reason (i\<lparr>swi_status := status, swi_blocked_reason := Some reason\<rparr>) s)
      else s)"

definition get_work :: "store \<Rightarrow> string \<Rightarrow> scheduled_work_item result" where
  "get_work s item_id =
     (case find (\<lambda>i. swi_id i = item_id) (st_scheduled s) of
        None \<Rightarrow> Inl (ValueError (''Scheduled work not found: '' @ item_id))
      | Some i \<Rightarrow> Inr i)"

section \<open>Admission\<close>

definition budget_reasons :: "project_ticket \<Rightarrow> int \<Rightarrow> rat \<Rightarrow> string list" where
  "budget_reasons t worker_calls wall_time =
     map snd (filter fst
       [(tb_max_worker_calls (pt_budget t) < tu_worker_calls (pt_usage t) + worker_calls,
         ''Predicted worker calls exceed the ticket budget''),
        (tb_max_wall_time_seconds (pt_budget t) < tu_wall_time_seconds (pt_usage t) + wall_time,
         ''Predicted latency exceeds the ticket wall-time budget''),
        (tb_max_tokens (pt_budget t) \<le> tu_tokens (pt_usage t), ''Ticket token budget is exhausted''),
        (tb_max_model_calls (pt_budget t) \<le> tu_model_calls (pt_usage t), ''Ticket model-call budget is exhausted'')])"

definition lease_contention :: "py_time \<Rightarrow> store \<Rightarrow> scheduled_work_item \<Rightarrow> string option" where
  "lease_contention now s i =
     (if \<not> swi_requires_project_lease i then None
      else case find (\<lambda>l. py_casefold (pl_project_root l) = py_casefold (swi_project_root i)) (project_leases s) of
        None \<Rightarrow> None
      | Some l \<Rightarrow>
          if pl_status l = ProjectLeaseStatus_ACTIVE \<and> now < pl_expires_at l then
            Some (''Project mutation lease is held by '' @ pl_holder_id l @ '' until '' @ isoformat (pl_expires_at l) @ ''.'')
          else None)"

record enqueue_request =
  eq_ticket_id :: string
  eq_work_kind :: string
  eq_artifact_id :: "string option"
  eq_required_validation_categories :: "string list"
  eq_predicted_cost_usd :: rat
  eq_predicted_latency_seconds :: rat
  eq_predicted_worker_calls :: int
  eq_capacity_units :: int
  eq_requires_project_lease :: bool

definition scheduling_score :: "string \<Rightarrow> nat \<Rightarrow> rat \<Rightarrow> rat \<Rightarrow> int \<Rightarrow> rat" where
  "scheduling_score priority validations cost latency units =
     priority_weight priority + of_nat validations * 5 - cost * 10 - latency / 60 - of_int (max 0 (units - 1)) * 2"

definition new_work :: "string \<Rightarrow> py_time \<Rightarrow> enqueue_request \<Rightarrow> project_ticket \<Rightarrow> scheduled_work_item" where
  "new_work new_id now q t =
     (let reasons = budget_reasons t (eq_predicted_worker_calls q) (eq_predicted_latency_seconds q);
          priority = py_upper (pt_priority t);
          validations = sorted_set (eq_required_validation_categories q)
      in \<lparr>swi_id = new_id, swi_ticket_id = pt_id t, swi_project_id = pt_project_id t,
          swi_project_root = pt_project_root t, swi_work_kind = py_upper (eq_work_kind q),
          swi_artifact_id = eq_artifact_id q,
          swi_status = (if reasons \<noteq> [] then ''BLOCKED_BUDGET'' else ''QUEUED''), swi_priority = priority,
          swi_required_validation_categories = validations,
          swi_predicted_cost_usd = eq_predicted_cost_usd q,
          swi_predicted_latency_seconds = eq_predicted_latency_seconds q,
          swi_predicted_worker_calls = eq_predicted_worker_calls q, swi_capacity_units = eq_capacity_units q,
          swi_requires_project_lease = eq_requires_project_lease q,
          swi_scheduling_score = scheduling_score priority (length validations) (eq_predicted_cost_usd q)
            (eq_predicted_latency_seconds q) (eq_capacity_units q),
          swi_scheduling_reasons =
            [''priority='' @ priority, ''predicted_cost_usd='' @ fmt_g (eq_predicted_cost_usd q),
             ''predicted_latency_seconds='' @ fmt_g (eq_predicted_latency_seconds q),
             ''capacity_units='' @ py_str_int (eq_capacity_units q),
             ''validation_needs='' @ (let v = py_join '','' validations in if v = [] then ''none'' else v)],
          swi_blocked_reason = (if reasons \<noteq> [] then Some (py_join ''; '' reasons) else None),
          swi_resumable = True, swi_cancellation_requested = False, swi_cancelled_by = None,
          swi_cancellation_reason = None, swi_temporary_resources = [], swi_resources_disposed = False,
          swi_evidence_ids = [], swi_checkpoints = [], swi_enqueued_at = now, swi_started_at = None,
          swi_updated_at = now, swi_completed_at = None\<rparr>)"

definition enqueue ::
  "env \<Rightarrow> string \<Rightarrow> py_time \<Rightarrow> enqueue_request \<Rightarrow> store \<Rightarrow> scheduled_work_item result \<times> store" where
  "enqueue e new_id now q s =
     (case get_ticket e s (eq_ticket_id q) of
        Inl x \<Rightarrow> (Inl x, s)
      | Inr t \<Rightarrow>
          if eq_predicted_cost_usd q < 0 \<or> eq_predicted_latency_seconds q < 0 \<or> eq_predicted_worker_calls q < 0 \<or>
             eq_capacity_units q < 1 then (field_error, s)
          else
            let i = new_work new_id now q t;
                (i', s') = put_checkpoint now ''ENQUEUED''
                  (if truthy (swi_blocked_reason i) then the (swi_blocked_reason i)
                   else ''Work admitted to the durable queue.'') i s
            in (Inr i', s'))"

text \<open>The order in which work is considered.\<close>

definition ranked :: "scheduled_work_item list \<Rightarrow> scheduled_work_item list" where
  "ranked items = sort_key (\<lambda>i. - swi_scheduling_score i) (sort_key swi_enqueued_at (sort_key swi_id items))"

definition count_where :: "('a \<Rightarrow> bool) \<Rightarrow> 'a list \<Rightarrow> int" where
  "count_where P xs = int (length (filter P xs))"

definition used_units :: "scheduled_work_item list \<Rightarrow> int" where
  "used_units active = sum_list (map swi_capacity_units active)"

definition slot_block :: "scheduler_limits \<Rightarrow> scheduled_work_item list \<Rightarrow> scheduled_work_item \<Rightarrow> (string \<times> string) option" where
  "slot_block limits active i =
     (if sl_per_project_concurrency limits \<le> count_where (\<lambda>x. swi_project_id x = swi_project_id i) active then
        Some (''WAITING_FOR_CAPACITY'', ''Project concurrency limit is occupied.'')
      else if sl_per_ticket_concurrency limits \<le> count_where (\<lambda>x. swi_ticket_id x = swi_ticket_id i) active then
        Some (''WAITING_FOR_CAPACITY'', ''Ticket concurrency limit is occupied.'')
      else if sl_capacity_units limits < swi_capacity_units i + used_units active then
        Some (''WAITING_FOR_CAPACITY'', ''Global capacity units are occupied.'')
      else None)"

definition budget_block :: "project_ticket \<Rightarrow> scheduled_work_item \<Rightarrow> (string \<times> string) option" where
  "budget_block t i =
     (let reasons = budget_reasons t (swi_predicted_worker_calls i) (swi_predicted_latency_seconds i) in
      if reasons \<noteq> [] then Some (''BLOCKED_BUDGET'', py_join ''; '' reasons) else None)"

definition lease_block :: "py_time \<Rightarrow> store \<Rightarrow> scheduled_work_item \<Rightarrow> (string \<times> string) option" where
  "lease_block now s i = map_option (Pair ''WAITING_FOR_LEASE'') (lease_contention now s i)"

fun first_block :: "(string \<times> string) option list \<Rightarrow> (string \<times> string) option" where
  "first_block [] = None"
| "first_block (b # bs) = (case b of None \<Rightarrow> first_block bs | Some x \<Rightarrow> Some x)"

text \<open>Why a candidate cannot be claimed now, in the order of the checks.\<close>

definition admission ::
  "scheduler_limits \<Rightarrow> py_time \<Rightarrow> store \<Rightarrow> scheduled_work_item list \<Rightarrow> project_ticket \<Rightarrow> scheduled_work_item
     \<Rightarrow> (string \<times> string) option" where
  "admission limits now s active t i =
     first_block [budget_block t i, slot_block limits active i, lease_block now s i]"

definition start_work :: "py_time \<Rightarrow> scheduled_work_item \<Rightarrow> store \<Rightarrow> scheduled_work_item \<times> store" where
  "start_work now i s =
     put_checkpoint now ''STARTED'' ''Scheduler capacity and current budget admitted the work.''
       (i\<lparr>swi_status := ''RUNNING'', swi_blocked_reason := None,
          swi_started_at := (case swi_started_at i of Some t \<Rightarrow> Some t | None \<Rightarrow> Some now)\<rparr>) s"

fun claim_loop ::
  "env \<Rightarrow> scheduler_limits \<Rightarrow> py_time \<Rightarrow> scheduled_work_item list \<Rightarrow> scheduled_work_item list \<Rightarrow> store
     \<Rightarrow> scheduled_work_item option result \<times> store" where
  "claim_loop e limits now active [] s = (Inr None, s)"
| "claim_loop e limits now active (i # is) s =
     (case get_ticket e s (swi_ticket_id i) of
        Inl x \<Rightarrow> (Inl x, s)
      | Inr t \<Rightarrow>
          (case admission limits now s active t i of
             Some (status, reason) \<Rightarrow> claim_loop e limits now active is (block_item now status reason i s)
           | None \<Rightarrow> (let (i', s') = start_work now i s in (Inr (Some i'), s'))))"

definition claim_next_work ::
  "env \<Rightarrow> scheduler_limits \<Rightarrow> py_time \<Rightarrow> store \<Rightarrow> scheduled_work_item option result \<times> store" where
  "claim_next_work e limits now s =
     (let items = st_scheduled s; active = filter is_active items in
      if sl_global_concurrency limits \<le> int (length active) then
        (Inr None, fold (block_item now ''WAITING_FOR_CAPACITY'' ''Global concurrency limit is occupied.'')
           (filter (\<lambda>i. swi_status i \<in> {''QUEUED'', ''WAITING_FOR_CAPACITY''}) items) s)
      else claim_loop e limits now active (ranked (filter is_waiting items)) s)"

text \<open>The pass of \<open>try_claim\<close> over the candidates ranked above the target: \<open>Inr True\<close> when one of them
  is admissible, so that the target must wait.\<close>

fun outranked ::
  "env \<Rightarrow> scheduler_limits \<Rightarrow> py_time \<Rightarrow> scheduled_work_item list \<Rightarrow> string \<Rightarrow> scheduled_work_item list \<Rightarrow> store
     \<Rightarrow> bool result \<times> store" where
  "outranked e limits now active target_id [] s = (Inr False, s)"
| "outranked e limits now active target_id (i # is) s =
     (if swi_id i = target_id then (Inr False, s)
      else case get_ticket e s (swi_ticket_id i) of
        Inl x \<Rightarrow> (Inl x, s)
      | Inr t \<Rightarrow>
          (case admission limits now s active t i of
             Some (status, reason) \<Rightarrow> outranked e limits now active target_id is (block_item now status reason i s)
           | None \<Rightarrow> (Inr True, s)))"

definition global_block :: "scheduler_limits \<Rightarrow> scheduled_work_item list \<Rightarrow> (string \<times> string) option" where
  "global_block limits active =
     (if sl_global_concurrency limits \<le> int (length active) then
        Some (''WAITING_FOR_CAPACITY'', ''Global concurrency limit is occupied.'') else None)"

definition try_claim ::
  "env \<Rightarrow> scheduler_limits \<Rightarrow> py_time \<Rightarrow> string \<Rightarrow> store \<Rightarrow> scheduled_work_item option result \<times> store" where
  "try_claim e limits now item_id s =
     (let items = st_scheduled s in
      case find (\<lambda>i. swi_id i = item_id) items of
        None \<Rightarrow> (Inl (ValueError (''Scheduled work not found: '' @ item_id)), s)
      | Some target \<Rightarrow>
          if swi_status target = ''RUNNING'' then (Inr (Some target), s)
          else if \<not> is_waiting target then (Inr None, s)
          else
            let active = filter is_active items in
            (case outranked e limits now active item_id (ranked (filter is_waiting items)) s of
               (Inl x, s1) \<Rightarrow> (Inl x, s1)
             | (Inr True, s1) \<Rightarrow> (Inr None, s1)
             | (Inr False, s1) \<Rightarrow>
                 (case first_block [global_block limits active, slot_block limits active target] of
                    Some (status, reason) \<Rightarrow> (Inr None, block_item now status reason target s1)
                  | None \<Rightarrow>
                      (case get_ticket e s1 (swi_ticket_id target) of
                         Inl x \<Rightarrow> (Inl x, s1)
                       | Inr t \<Rightarrow>
                           (case first_block [budget_block t target, lease_block now s1 target] of
                              Some (status, reason) \<Rightarrow> (Inr None, block_item now status reason target s1)
                            | None \<Rightarrow> (let (i', s') = start_work now target s1 in (Inr (Some i'), s')))))))"

section \<open>Temporary resources\<close>

definition strictly_inside :: "string \<Rightarrow> string \<Rightarrow> bool" where
  "strictly_inside base p \<longleftrightarrow> path_inside base p \<and> length (path_parts base) < length (path_parts p)"

text \<open>The loop over the resources: the paths removed so far are kept when it raises.\<close>

fun remove_resources :: "env \<Rightarrow> string \<Rightarrow> string list \<Rightarrow> string list \<times> unit result" where
  "remove_resources e base [] = ([], Inr ())"
| "remove_resources e base (v # vs) =
     (let target = env_resolve e v in
      if \<not> strictly_inside base target then
        ([], Inl (RuntimeError ''Scheduler refused to dispose a resource outside its temporary root.''))
      else let (removed, r) = remove_resources e base vs in (target # removed, r))"

definition dispose_resources ::
  "env \<Rightarrow> string option \<Rightarrow> scheduled_work_item \<Rightarrow> string list \<times> scheduled_work_item result" where
  "dispose_resources e temporary_root i =
     (if swi_temporary_resources i = [] then ([], Inr (i\<lparr>swi_resources_disposed := True\<rparr>))
      else case temporary_root of
        None \<Rightarrow> ([], Inr (i\<lparr>swi_resources_disposed := False\<rparr>))
      | Some path \<Rightarrow>
          (case remove_resources e (env_resolve e path) (swi_temporary_resources i) of
             (removed, Inl x) \<Rightarrow> (removed, Inl x)
           | (removed, Inr _) \<Rightarrow> (removed, Inr (i\<lparr>swi_resources_disposed := True\<rparr>))))"

type_synonym disposal = "scheduled_work_item result \<times> store \<times> string list"

definition finish_work ::
  "env \<Rightarrow> string option \<Rightarrow> py_time \<Rightarrow> string \<Rightarrow> string \<Rightarrow> scheduled_work_item \<Rightarrow> store \<Rightarrow> disposal" where
  "finish_work e temporary_root now stage detail i s =
     (case dispose_resources e temporary_root (i\<lparr>swi_completed_at := Some now\<rparr>) of
        (removed, Inl x) \<Rightarrow> (Inl x, s, removed)
      | (removed, Inr i1) \<Rightarrow> (let (i2, s2) = put_checkpoint now stage detail i1 s in (Inr i2, s2, removed)))"

definition complete_work ::
  "env \<Rightarrow> string option \<Rightarrow> py_time \<Rightarrow> string \<Rightarrow> string \<Rightarrow> string \<Rightarrow> store \<Rightarrow> disposal" where
  "complete_work e temporary_root now item_id requested detail s =
     (let status = py_upper requested in
      if status \<notin> {''COMPLETED'', ''FAILED''} then
        (Inl (ValueError ''Scheduled completion status must be COMPLETED or FAILED.''), s, [])
      else case get_work s item_id of
        Inl x \<Rightarrow> (Inl x, s, [])
      | Inr i \<Rightarrow> finish_work e temporary_root now status detail (i\<lparr>swi_status := status\<rparr>) s)"

definition cancel_work ::
  "env \<Rightarrow> string option \<Rightarrow> py_time \<Rightarrow> string \<Rightarrow> string \<Rightarrow> scheduled_work_item \<Rightarrow> store \<Rightarrow> disposal" where
  "cancel_work e temporary_root now actor reason i s =
     finish_work e temporary_root now ''CANCELLED'' (py_strip reason)
       (i\<lparr>swi_cancellation_requested := True, swi_cancelled_by := Some (py_strip actor),
          swi_cancellation_reason := Some (py_strip reason), swi_status := ''CANCELLED''\<rparr>) s"

definition cancel ::
  "env \<Rightarrow> string option \<Rightarrow> py_time \<Rightarrow> string \<Rightarrow> string \<Rightarrow> string \<Rightarrow> store \<Rightarrow> disposal" where
  "cancel e temporary_root now item_id actor reason s =
     (case get_work s item_id of
        Inl x \<Rightarrow> (Inl x, s, [])
      | Inr i \<Rightarrow> cancel_work e temporary_root now actor reason i s)"

definition request_cancellation ::
  "env \<Rightarrow> string option \<Rightarrow> py_time \<Rightarrow> string \<Rightarrow> string \<Rightarrow> string \<Rightarrow> store \<Rightarrow> disposal" where
  "request_cancellation e temporary_root now item_id actor reason s =
     (case get_work s item_id of
        Inl x \<Rightarrow> (Inl x, s, [])
      | Inr i \<Rightarrow>
          if swi_status i \<in> set terminal_statuses then (Inr i, s, [])
          else if blank actor \<or> blank reason then
            (Inl (ValueError ''Cancellation requires an actor and reason.''), s, [])
          else
            let i1 = i\<lparr>swi_cancellation_requested := True, swi_cancelled_by := Some (py_strip actor),
                       swi_cancellation_reason := Some (py_strip reason)\<rparr> in
            if is_waiting i \<or> swi_status i \<in> {''BLOCKED_BUDGET'', ''INTERRUPTED''} then
              cancel_work e temporary_root now actor reason i1 s
            else
              let (i2, s2) = put_checkpoint now ''CANCELLATION_REQUESTED'' (py_strip reason)
                    (i1\<lparr>swi_status := ''CANCELLATION_REQUESTED''\<rparr>) s
              in (Inr i2, s2, []))"

definition work_checkpoint ::
  "env \<Rightarrow> string option \<Rightarrow> py_time \<Rightarrow> string \<Rightarrow> string \<Rightarrow> string \<Rightarrow> int \<Rightarrow> rat \<Rightarrow> string list \<Rightarrow> store \<Rightarrow> disposal" where
  "work_checkpoint e temporary_root now item_id stage detail calls seconds ev s =
     (case get_work s item_id of
        Inl x \<Rightarrow> (Inl x, s, [])
      | Inr i \<Rightarrow>
          if swi_cancellation_requested i then
            (case cancel_work e temporary_root now
                (if truthy (swi_cancelled_by i) then the (swi_cancelled_by i) else ''scheduler'')
                (if truthy (swi_cancellation_reason i) then the (swi_cancellation_reason i)
                 else ''Cancellation requested.'') i s of
               (Inl x, s1, removed) \<Rightarrow> (Inl x, s1, removed)
             | (Inr _, s1, removed) \<Rightarrow>
                 (Inl (SchedulingCancelled (if truthy (swi_cancellation_reason i) then the (swi_cancellation_reason i)
                    else ''Scheduled work was cancelled.'')), s1, removed))
          else if calls < 0 \<or> seconds < 0 then (field_error, s, [])
          else
            let i' = checkpointed now stage detail calls seconds ev
                       (i\<lparr>swi_evidence_ids := extend_missing (swi_evidence_ids i) ev\<rparr>)
            in (Inr i', save_scheduled_work i' s, []))"

section \<open>Interruption and evidence\<close>

definition resume_work :: "py_time \<Rightarrow> string \<Rightarrow> store \<Rightarrow> scheduled_work_item result \<times> store" where
  "resume_work now item_id s =
     (case get_work s item_id of
        Inl x \<Rightarrow> (Inl x, s)
      | Inr i \<Rightarrow>
          if swi_status i \<noteq> ''INTERRUPTED'' \<or> \<not> swi_resumable i then
            (Inl (ValueError ''Only resumable interrupted work can return to the queue.''), s)
          else
            let (i', s') = put_checkpoint now ''RESUMED'' ''Interrupted work returned to the durable queue.''
                  (i\<lparr>swi_status := ''QUEUED'', swi_blocked_reason := None\<rparr>) s
            in (Inr i', s'))"

definition register_temporary_resource ::
  "env \<Rightarrow> string \<Rightarrow> string \<Rightarrow> store \<Rightarrow> scheduled_work_item result \<times> store" where
  "register_temporary_resource e item_id path s =
     (case get_work s item_id of
        Inl x \<Rightarrow> (Inl x, s)
      | Inr i \<Rightarrow>
          let resolved = env_resolve e path;
              i' = i\<lparr>swi_temporary_resources := (if resolved \<in> set (swi_temporary_resources i)
                        then swi_temporary_resources i else swi_temporary_resources i @ [resolved]),
                     swi_resources_disposed := False\<rparr>
          in (Inr i', save_scheduled_work i' s))"

definition attach_evidence :: "py_time \<Rightarrow> string \<Rightarrow> string list \<Rightarrow> store \<Rightarrow> scheduled_work_item result \<times> store" where
  "attach_evidence now item_id ev s =
     (case get_work s item_id of
        Inl x \<Rightarrow> (Inl x, s)
      | Inr i \<Rightarrow>
          let i' = i\<lparr>swi_evidence_ids := extend_missing (swi_evidence_ids i) ev, swi_updated_at := now\<rparr>
          in (Inr i', save_scheduled_work i' s))"

definition interrupt_item :: "py_time \<Rightarrow> scheduled_work_item \<Rightarrow> store \<Rightarrow> scheduled_work_item \<times> store" where
  "interrupt_item now i s =
     put_checkpoint now ''INTERRUPTED'' ''Scheduler process restarted while work was active.''
       (i\<lparr>swi_status := ''INTERRUPTED'', swi_blocked_reason := Some ''Scheduler process restarted while work was active.''\<rparr>) s"

definition restore_interrupted :: "py_time \<Rightarrow> store \<Rightarrow> scheduled_work_item list \<times> store" where
  "restore_interrupted now s =
     fold (\<lambda>i (acc, s). let (i', s') = interrupt_item now i s in (acc @ [i'], s'))
       (filter is_active (st_scheduled s)) ([], s)"

end
