(* ===== verification/Scheduler_Invariants.thy ===== *)
theory Scheduler_Invariants
  imports Scheduler
begin

text \<open>
  What the scheduler keeps in every run: the state typing of work items, and the concurrency and
  capacity limits over the active ones. The limits are four kinds of charge against one notion of
  load, so that one argument serves all of them.
\<close>

section \<open>Load\<close>

datatype charge_kind = Everywhere | In_project string | In_ticket string | Units

fun charged :: "charge_kind \<Rightarrow> scheduled_work_item \<Rightarrow> int" where
  "charged Everywhere i = 1"
| "charged (In_project p) i = (if swi_project_id i = p then 1 else 0)"
| "charged (In_ticket t) i = (if swi_ticket_id i = t then 1 else 0)"
| "charged Units i = swi_capacity_units i"

fun limit_of :: "scheduler_limits \<Rightarrow> charge_kind \<Rightarrow> int" where
  "limit_of L Everywhere = sl_global_concurrency L"
| "limit_of L (In_project p) = sl_per_project_concurrency L"
| "limit_of L (In_ticket t) = sl_per_ticket_concurrency L"
| "limit_of L Units = sl_capacity_units L"

definition load :: "charge_kind \<Rightarrow> scheduled_work_item list \<Rightarrow> int" where
  "load d A = sum_list (map (charged d) A)"

definition within_limits :: "scheduler_limits \<Rightarrow> scheduled_work_item list \<Rightarrow> bool" where
  "within_limits L A \<longleftrightarrow> (\<forall>d. load d A \<le> limit_of L d)"

abbreviation active_work :: "store \<Rightarrow> scheduled_work_item list" where
  "active_work s \<equiv> filter is_active (st_scheduled s)"

lemma load_simps [simp]:
  "load d [] = 0" "load d (i # A) = charged d i + load d A" "load d (A @ B) = load d A + load d B"
  by (simp_all add: load_def)

lemma load_count:
  "load Everywhere A = int (length A)"
  "load (In_project p) A = count_where (\<lambda>x. swi_project_id x = p) A"
  "load (In_ticket t) A = count_where (\<lambda>x. swi_ticket_id x = t) A"
  "load Units A = used_units A"
  by (induction A) (simp_all add: count_where_def used_units_def)

lemma load_filter_le: "\<forall>i\<in>set A. 0 \<le> charged d i \<Longrightarrow> load d (filter P A) \<le> load d A"
  by (induction A) auto

lemma load_remove:
  "distinct (map swi_id A) \<Longrightarrow> i \<in> set A \<Longrightarrow>
     load d A = charged d i + load d (filter (\<lambda>x. swi_id x \<noteq> swi_id i) A)"
proof (induction A)
  case Nil
  then show ?case by simp
next
  case (Cons a A)
  show ?case
  proof (cases "a = i")
    case True
    with Cons.prems(1) have "swi_id i \<notin> swi_id ` set A" by simp
    then have "\<forall>x\<in>set A. swi_id x \<noteq> swi_id i" by (metis image_eqI)
    then have "filter (\<lambda>x. swi_id x \<noteq> swi_id i) A = A" by (simp add: filter_id_conv)
    with True show ?thesis by simp
  next
    case False
    with Cons.prems have "i \<in> set A" and "swi_id a \<noteq> swi_id i" by auto
    with Cons show ?thesis by simp
  qed
qed

section \<open>State typing of work items\<close>

definition work_statuses :: "string list" where
  "work_statuses = waiting_statuses @ active_statuses @ terminal_statuses @ [''BLOCKED_BUDGET'', ''INTERRUPTED'']"

text \<open>The checkpoints of an item are numbered from 1 without gaps, and their evidence is evidence of
  the item.\<close>

definition trail_ok :: "scheduled_work_item \<Rightarrow> bool" where
  "trail_ok i \<longleftrightarrow>
     map sc_sequence (swi_checkpoints i) = [1..int (length (swi_checkpoints i))] \<and>
     (\<forall>c\<in>set (swi_checkpoints i). set (sc_evidence_ids c) \<subseteq> set (swi_evidence_ids i) \<and>
        0 \<le> sc_worker_calls_used c \<and> 0 \<le> sc_wall_time_seconds_used c)"

definition amounts_ok :: "scheduled_work_item \<Rightarrow> bool" where
  "amounts_ok i \<longleftrightarrow>
     1 \<le> swi_capacity_units i \<and> 0 \<le> swi_predicted_cost_usd i \<and>
     0 \<le> swi_predicted_latency_seconds i \<and> 0 \<le> swi_predicted_worker_calls i \<and>
     swi_scheduling_score i = scheduling_score (swi_priority i)
       (length (swi_required_validation_categories i)) (swi_predicted_cost_usd i)
       (swi_predicted_latency_seconds i) (swi_capacity_units i)"

definition phase_ok :: "scheduled_work_item \<Rightarrow> bool" where
  "phase_ok i \<longleftrightarrow>
     swi_status i \<in> set work_statuses \<and>
     (is_active i \<longrightarrow> swi_started_at i \<noteq> None) \<and>
     (swi_status i \<in> set terminal_statuses \<longrightarrow> swi_completed_at i \<noteq> None) \<and>
     (swi_status i \<in> {''WAITING_FOR_CAPACITY'', ''WAITING_FOR_LEASE'', ''BLOCKED_BUDGET'', ''INTERRUPTED''} \<longrightarrow>
        swi_blocked_reason i \<noteq> None) \<and>
     (swi_status i \<in> {''CANCELLATION_REQUESTED'', ''CANCELLED''} \<longrightarrow> swi_cancellation_requested i) \<and>
     (swi_cancellation_requested i \<longrightarrow> swi_cancelled_by i \<noteq> None \<and> swi_cancellation_reason i \<noteq> None)"

definition item_ok :: "scheduled_work_item \<Rightarrow> bool" where
  "item_ok i \<longleftrightarrow> trail_ok i \<and> amounts_ok i \<and> phase_ok i"

text \<open>The cancellation of the items in \<open>K\<close> has been requested.\<close>

definition requested :: "string \<Rightarrow> store \<Rightarrow> bool" where
  "requested k s \<longleftrightarrow> (\<exists>i. lookup_row swi_id k (st_scheduled s) = Some i \<and> swi_cancellation_requested i)"

definition sched_ok :: "scheduler_limits \<Rightarrow> string set \<Rightarrow> store \<Rightarrow> bool" where
  "sched_ok L K s \<longleftrightarrow>
     unique_rows swi_id (st_scheduled s) \<and> (\<forall>i\<in>set (st_scheduled s). item_ok i) \<and>
     within_limits L (active_work s) \<and> (\<forall>k\<in>K. requested k s)"

lemmas status_defs =
  waiting_statuses_def active_statuses_def terminal_statuses_def work_statuses_def
  is_active_def is_waiting_def

lemma charged_nonneg: "item_ok i \<Longrightarrow> 0 \<le> charged d i"
  by (cases d) (auto simp: item_ok_def amounts_ok_def)

section \<open>What saving an item does to the load\<close>

lemma active_upsert:
  "filter is_active (upsert swi_id i rows) =
     filter (\<lambda>x. swi_id x \<noteq> swi_id i) (filter is_active rows) @ (if is_active i then [i] else [])"
  by (simp add: upsert_def conj_commute)

lemma within_limits_filter:
  "within_limits L A \<Longrightarrow> \<forall>i\<in>set A. item_ok i \<Longrightarrow> within_limits L (filter P A)"
  unfolding within_limits_def by (meson charged_nonneg load_filter_le order_trans)

lemma sched_ok_upsert:
  assumes "sched_ok L K s" and "item_ok i" and "swi_id i \<in> K \<Longrightarrow> swi_cancellation_requested i"
    and "st_scheduled s' = upsert swi_id i (st_scheduled s)"
    and "within_limits L (active_work s')"
  shows "sched_ok L K s'"
  using assms by (auto simp: sched_ok_def requested_def row_simps)

lemma requested_row:
  assumes "sched_ok L K s" and "i \<in> set (st_scheduled s)" and "swi_id i \<in> K"
  shows "swi_cancellation_requested i"
  using assms lookup_row_unique [of swi_id "st_scheduled s" i] by (auto simp: sched_ok_def requested_def)

lemma sched_ok_inactive:
  assumes ok: "sched_ok L K s" and i: "item_ok i" "\<not> is_active i"
    and req: "swi_id i \<in> K \<Longrightarrow> swi_cancellation_requested i"
    and s': "st_scheduled s' = upsert swi_id i (st_scheduled s)"
  shows "sched_ok L K s'"
proof (rule sched_ok_upsert [OF ok i(1) req s'])
  from ok have "within_limits L (active_work s)" and "\<forall>x\<in>set (active_work s). item_ok x"
    by (simp_all add: sched_ok_def)
  then have "within_limits L (filter (\<lambda>x. swi_id x \<noteq> swi_id i) (active_work s))"
    by (rule within_limits_filter)
  with i(2) s' show "within_limits L (active_work s')" by (simp add: active_upsert)
qed

text \<open>A change of an item that neither activates it nor moves it to another project, ticket or
  size, nor forgets a requested cancellation.\<close>

definition settles :: "scheduled_work_item \<Rightarrow> scheduled_work_item \<Rightarrow> bool" where
  "settles i i' \<longleftrightarrow>
     swi_id i' = swi_id i \<and> (\<forall>d. charged d i' = charged d i) \<and> (is_active i' \<longrightarrow> is_active i) \<and>
     (swi_cancellation_requested i \<longrightarrow> swi_cancellation_requested i') \<and> (item_ok i \<longrightarrow> item_ok i')"

lemma sched_ok_settles:
  assumes ok: "sched_ok L K s" and i: "i \<in> set (st_scheduled s)" and i': "settles i i'"
    and s': "st_scheduled s' = upsert swi_id i' (st_scheduled s)"
  shows "sched_ok L K s'"
proof -
  have item: "item_ok i'" using ok i i' by (auto simp: sched_ok_def settles_def)
  have req: "swi_cancellation_requested i'" if "swi_id i' \<in> K"
    using requested_row [OF ok i] i' that by (simp add: settles_def)
  show ?thesis
  proof (cases "is_active i'")
    case False
    then show ?thesis using sched_ok_inactive [OF ok item _ req s'] by blast
  next
    case True
    with i i' have mem: "i \<in> set (active_work s)" by (auto simp: settles_def)
    have dist: "distinct (map swi_id (active_work s))"
      using ok by (auto simp: sched_ok_def unique_rows_def distinct_map_filter_key)
    have "load d (active_work s') = load d (active_work s)" for d
      using load_remove [OF dist mem, of d] True i' s' by (simp add: active_upsert settles_def)
    then have "within_limits L (active_work s')" using ok by (simp add: sched_ok_def within_limits_def)
    with sched_ok_upsert [OF ok item req s'] show ?thesis by blast
  qed
qed

text \<open>The grant of a free slot.\<close>

lemma sched_ok_grant:
  assumes ok: "sched_ok L K s" and i: "i \<in> set (st_scheduled s)" "\<not> is_active i"
    and i': "swi_id i' = swi_id i" "item_ok i'" "is_active i'"
      "swi_cancellation_requested i' = swi_cancellation_requested i"
    and free: "\<And>d. load d (active_work s) + charged d i' \<le> limit_of L d"
    and s': "st_scheduled s' = upsert swi_id i' (st_scheduled s)"
  shows "sched_ok L K s'"
proof (rule sched_ok_upsert [OF ok i'(2) _ s'])
  show "swi_cancellation_requested i'" if "swi_id i' \<in> K"
    using requested_row [OF ok i(1)] i' that by simp
  have "\<forall>x\<in>set (active_work s). swi_id x \<noteq> swi_id i"
  proof
    fix x assume "x \<in> set (active_work s)"
    then have x: "x \<in> set (st_scheduled s)" "is_active x" by auto
    have u: "unique_rows swi_id (st_scheduled s)" using ok by (simp add: sched_ok_def)
    show "swi_id x \<noteq> swi_id i"
      by (metis i lookup_row_unique option.inject u x)
  qed
  then have "filter (\<lambda>x. swi_id x \<noteq> swi_id i') (active_work s) = active_work s"
    using i'(1) by (auto intro: filter_cong)
  then show "within_limits L (active_work s')"
    using free i'(3) s' by (simp add: active_upsert within_limits_def)
qed

section \<open>Checkpoints keep an item well typed\<close>

lemma checkpointed_fields [simp]:
  "swi_id (checkpointed now a b c d ev i) = swi_id i"
  "swi_status (checkpointed now a b c d ev i) = swi_status i"
  "swi_evidence_ids (checkpointed now a b c d ev i) = swi_evidence_ids i"
  "swi_cancellation_requested (checkpointed now a b c d ev i) = swi_cancellation_requested i"
  "is_active (checkpointed now a b c d ev i) = is_active i"
  "is_waiting (checkpointed now a b c d ev i) = is_waiting i"
  "charged k (checkpointed now a b c d ev i) = charged k i"
  "amounts_ok (checkpointed now a b c d ev i) = amounts_ok i"
  "phase_ok (checkpointed now a b c d ev i) = phase_ok i"
  by (cases k; simp add: checkpointed_def is_active_def is_waiting_def amounts_ok_def phase_ok_def)+

lemma trail_checkpointed:
  assumes "trail_ok i" and "0 \<le> c" and "0 \<le> d" and "set ev \<subseteq> set (swi_evidence_ids i)"
  shows "trail_ok (checkpointed now a b c d ev i)"
  using assms by (auto simp: trail_ok_def checkpointed_def new_checkpoint_def upto_rec2)

lemma trail_put: "trail_ok i \<Longrightarrow> trail_ok (checkpointed now a b 0 0 [] i)"
  by (rule trail_checkpointed) simp_all

lemma put_checkpoint_eq:
  "put_checkpoint now stage detail i s =
     (checkpointed now stage detail 0 0 [] i, save_scheduled_work (checkpointed now stage detail 0 0 [] i) s)"
  by (simp add: put_checkpoint_def Let_def)

lemma charged_update [simp]:
  "charged k (i\<lparr>swi_status := a\<rparr>) = charged k i"
  "charged k (i\<lparr>swi_blocked_reason := b\<rparr>) = charged k i"
  "charged k (i\<lparr>swi_started_at := c\<rparr>) = charged k i"
  "charged k (i\<lparr>swi_completed_at := c\<rparr>) = charged k i"
  "charged k (i\<lparr>swi_updated_at := d\<rparr>) = charged k i"
  "charged k (i\<lparr>swi_evidence_ids := e\<rparr>) = charged k i"
  "charged k (i\<lparr>swi_temporary_resources := e\<rparr>) = charged k i"
  "charged k (i\<lparr>swi_resources_disposed := f\<rparr>) = charged k i"
  "charged k (i\<lparr>swi_cancellation_requested := f\<rparr>) = charged k i"
  "charged k (i\<lparr>swi_cancelled_by := b\<rparr>) = charged k i"
  "charged k (i\<lparr>swi_cancellation_reason := b\<rparr>) = charged k i"
  by (cases k; simp)+

lemma amounts_update [simp]:
  "amounts_ok (i\<lparr>swi_status := a\<rparr>) = amounts_ok i"
  "amounts_ok (i\<lparr>swi_blocked_reason := b\<rparr>) = amounts_ok i"
  "amounts_ok (i\<lparr>swi_started_at := c\<rparr>) = amounts_ok i"
  "amounts_ok (i\<lparr>swi_completed_at := c\<rparr>) = amounts_ok i"
  "amounts_ok (i\<lparr>swi_updated_at := d\<rparr>) = amounts_ok i"
  "amounts_ok (i\<lparr>swi_evidence_ids := e\<rparr>) = amounts_ok i"
  "amounts_ok (i\<lparr>swi_temporary_resources := e\<rparr>) = amounts_ok i"
  "amounts_ok (i\<lparr>swi_resources_disposed := f\<rparr>) = amounts_ok i"
  "amounts_ok (i\<lparr>swi_cancellation_requested := f\<rparr>) = amounts_ok i"
  "amounts_ok (i\<lparr>swi_cancelled_by := b\<rparr>) = amounts_ok i"
  "amounts_ok (i\<lparr>swi_cancellation_reason := b\<rparr>) = amounts_ok i"
  by (simp_all add: amounts_ok_def)

lemma trail_update [simp]:
  "trail_ok (i\<lparr>swi_status := a\<rparr>) = trail_ok i"
  "trail_ok (i\<lparr>swi_blocked_reason := b\<rparr>) = trail_ok i"
  "trail_ok (i\<lparr>swi_started_at := c\<rparr>) = trail_ok i"
  "trail_ok (i\<lparr>swi_completed_at := c\<rparr>) = trail_ok i"
  "trail_ok (i\<lparr>swi_updated_at := d\<rparr>) = trail_ok i"
  "trail_ok (i\<lparr>swi_temporary_resources := e\<rparr>) = trail_ok i"
  "trail_ok (i\<lparr>swi_resources_disposed := f\<rparr>) = trail_ok i"
  "trail_ok (i\<lparr>swi_cancellation_requested := f\<rparr>) = trail_ok i"
  "trail_ok (i\<lparr>swi_cancelled_by := b\<rparr>) = trail_ok i"
  "trail_ok (i\<lparr>swi_cancellation_reason := b\<rparr>) = trail_ok i"
  by (simp_all add: trail_ok_def)

lemma trail_evidence: "trail_ok i \<Longrightarrow> trail_ok (i\<lparr>swi_evidence_ids := extend_missing (swi_evidence_ids i) ev\<rparr>)"
  by (auto simp: trail_ok_def)

lemma settles_put:
  assumes "swi_id j = swi_id i" and "\<And>d. charged d j = charged d i" and "is_active j \<Longrightarrow> is_active i"
    and "trail_ok i \<Longrightarrow> trail_ok j" and "amounts_ok j = amounts_ok i" and "phase_ok i \<Longrightarrow> phase_ok j"
    and "swi_cancellation_requested i \<Longrightarrow> swi_cancellation_requested j"
  shows "settles i (checkpointed now a b 0 0 [] j)"
  using assms by (simp add: settles_def item_ok_def trail_put)

section \<open>Every operation keeps the invariant\<close>

lemma get_work_Inr: "get_work s k = Inr i \<Longrightarrow> i \<in> set (st_scheduled s) \<and> swi_id i = k"
  by (auto simp: get_work_def dest: find_Some_set split: option.splits)

definition block_statuses :: "string set" where
  "block_statuses = {''WAITING_FOR_CAPACITY'', ''WAITING_FOR_LEASE'', ''BLOCKED_BUDGET''}"

text \<open>Every typed item has the cancellation fields in order; a change of status only has to show the
  clauses of the new one.\<close>

lemma phase_cancel: "phase_ok i \<Longrightarrow> swi_cancellation_requested i \<Longrightarrow>
    swi_cancelled_by i \<noteq> None \<and> swi_cancellation_reason i \<noteq> None"
  unfolding phase_ok_def by blast

lemma phase_blocked:
  assumes "phase_ok i" and "status \<in> block_statuses"
  shows "phase_ok (i\<lparr>swi_status := status, swi_blocked_reason := Some reason\<rparr>)"
  using phase_cancel [OF assms(1)] assms(2)
  unfolding phase_ok_def block_statuses_def by (elim insertE emptyE) (simp_all add: status_defs)

lemma phase_finished:
  assumes "phase_ok i" and "status = ''COMPLETED'' \<or> status = ''FAILED''"
  shows "phase_ok (i\<lparr>swi_status := status, swi_completed_at := Some now\<rparr>)"
  using phase_cancel [OF assms(1)] assms(2)
  unfolding phase_ok_def by (elim disjE) (simp_all add: status_defs)

lemma blocked_inactive: "status \<in> block_statuses \<Longrightarrow> \<not> is_active (i\<lparr>swi_status := status, swi_blocked_reason := r\<rparr>)"
  unfolding block_statuses_def by (elim insertE emptyE) (simp_all add: status_defs)

lemma settles_block:
  assumes "status \<in> block_statuses"
  shows "settles i (checkpointed now status reason 0 0 [] (i\<lparr>swi_status := status, swi_blocked_reason := Some reason\<rparr>))"
  by (rule settles_put) (use assms in \<open>simp_all add: phase_blocked blocked_inactive\<close>)

lemma block_item_ok:
  assumes "sched_ok L K s" and "i \<in> set (st_scheduled s)" and "status \<in> block_statuses"
  shows "sched_ok L K (block_item now status reason i s)"
proof (cases "swi_status i \<noteq> status \<or> swi_blocked_reason i \<noteq> Some reason")
  case True
  show ?thesis
    by (rule sched_ok_settles [OF assms(1,2) settles_block [OF assms(3)]])
      (use True in \<open>simp add: block_item_def put_checkpoint_eq\<close>)
next
  case False
  with assms(1) show ?thesis by (simp add: block_item_def)
qed

lemma enqueue_ok:
  assumes "enqueue e new_id now q s = (r, s')" and "sched_ok L K s"
    and fresh: "new_id \<notin> swi_id ` set (st_scheduled s)"
  shows "sched_ok L K s'"
proof (cases "get_ticket e s (eq_ticket_id q)")
  case (Inl x)
  with assms show ?thesis by (simp add: enqueue_def)
next
  case (Inr t)
  let ?i = "new_work new_id now q t"
  show ?thesis
  proof (cases "eq_predicted_cost_usd q < 0 \<or> eq_predicted_latency_seconds q < 0 \<or>
      eq_predicted_worker_calls q < 0 \<or> eq_capacity_units q < 1")
    case True
    with assms Inr show ?thesis by (simp add: enqueue_def)
  next
    case False
    have "trail_ok ?i" by (simp add: new_work_def Let_def trail_ok_def)
    moreover have "amounts_ok ?i" using False by (simp add: new_work_def Let_def amounts_ok_def)
    moreover have "phase_ok ?i" by (simp add: new_work_def Let_def phase_ok_def status_defs)
    moreover have "\<not> is_active ?i" by (simp add: new_work_def Let_def status_defs)
    moreover have "swi_id ?i = new_id" by (simp add: new_work_def Let_def)
    moreover obtain d where "s' = save_scheduled_work (checkpointed now ''ENQUEUED'' d 0 0 [] ?i) s"
      using assms(1) Inr False by (auto simp: enqueue_def put_checkpoint_eq Let_def)
    moreover have "new_id \<notin> K"
      using assms(2) fresh by (metis lookup_row_None option.distinct(1) requested_def sched_ok_def)
    ultimately show ?thesis
      by (intro sched_ok_inactive [OF assms(2)]) (simp_all add: item_ok_def trail_put)
  qed
qed

lemma dispose_fields:
  "dispose_resources e tmp i = (removed, Inr j) \<Longrightarrow> \<exists>b. j = i\<lparr>swi_resources_disposed := b\<rparr>"
  by (auto simp: dispose_resources_def split: if_splits option.splits prod.splits sum.splits)

lemma finish_work_ok:
  assumes run: "finish_work e tmp now stage detail j s = (r, s', removed)"
    and ok: "sched_ok L K s" and i: "i \<in> set (st_scheduled s)" and same: "swi_id j = swi_id i"
    and j: "item_ok i \<Longrightarrow> item_ok (j\<lparr>swi_completed_at := Some now\<rparr>)" "\<not> is_active j"
    and req: "swi_cancellation_requested i \<Longrightarrow> swi_cancellation_requested j"
  shows "sched_ok L K s'"
proof (cases "dispose_resources e tmp (j\<lparr>swi_completed_at := Some now\<rparr>)")
  case (Pair removed' d)
  show ?thesis
  proof (cases d)
    case (Inl x)
    with Pair run ok show ?thesis by (simp add: finish_work_def)
  next
    case (Inr k)
    from dispose_fields Pair Inr
    obtain b where k: "k = (j\<lparr>swi_completed_at := Some now\<rparr>)\<lparr>swi_resources_disposed := b\<rparr>" by blast
    have "item_ok (j\<lparr>swi_completed_at := Some now\<rparr>)" using j(1) ok i by (auto simp: sched_ok_def)
    then have "item_ok k" unfolding k by (simp add: item_ok_def phase_ok_def is_active_def)
    moreover have "\<not> is_active k" using j(2) unfolding k by (simp add: is_active_def)
    moreover have "swi_cancellation_requested k" if "swi_id k \<in> K"
      using requested_row [OF ok i] req same that unfolding k by simp
    moreover have "s' = save_scheduled_work (checkpointed now stage detail 0 0 [] k) s"
      using run Pair Inr by (simp add: finish_work_def put_checkpoint_eq)
    ultimately show ?thesis
      by (intro sched_ok_inactive [OF ok, of "checkpointed now stage detail 0 0 [] k"]) (simp_all add: item_ok_def trail_put)
  qed
qed

lemma complete_work_ok:
  assumes "complete_work e tmp now k wanted detail s = (r, s', removed)" and "sched_ok L K s"
  shows "sched_ok L K s'"
proof -
  let ?st = "py_upper wanted"
  consider (raise) "s' = s"
    | (ok) i where "?st \<in> {''COMPLETED'', ''FAILED''}" "get_work s k = Inr i"
        "finish_work e tmp now ?st detail (i\<lparr>swi_status := ?st\<rparr>) s = (r, s', removed)"
    using assms(1) by (auto simp: complete_work_def Let_def split: if_splits sum.splits)
  then show ?thesis
  proof cases
    case raise
    with assms(2) show ?thesis by simp
  next
    case ok
    from get_work_Inr [OF ok(2)] have i: "i \<in> set (st_scheduled s)" by simp
    have st: "?st = ''COMPLETED'' \<or> ?st = ''FAILED''" using ok(1) by blast
    have "item_ok (i\<lparr>swi_status := ?st, swi_completed_at := Some now\<rparr>)" if "item_ok i"
      using that phase_finished [OF _ st] by (simp add: item_ok_def)
    moreover have "\<not> is_active (i\<lparr>swi_status := ?st\<rparr>)"
      using st by (elim disjE) (simp_all add: status_defs)
    ultimately show ?thesis
      by (intro finish_work_ok [OF ok(3) assms(2) i]) simp_all
  qed
qed

lemma cancel_work_ok:
  assumes "cancel_work e tmp now actor reason j s = (r, s', removed)" and "sched_ok L K s"
    and "i \<in> set (st_scheduled s)" and "swi_id j = swi_id i"
    and "item_ok i \<Longrightarrow> trail_ok j \<and> amounts_ok j"
  shows "sched_ok L K s'"
  by (rule finish_work_ok [OF assms(1) [unfolded cancel_work_def] assms(2,3)])
    (use assms(4,5) in \<open>auto simp: item_ok_def phase_ok_def status_defs\<close>)

lemma cancel_ok:
  assumes "cancel e tmp now k actor reason s = (r, s', removed)" and "sched_ok L K s"
  shows "sched_ok L K s'"
proof (cases "get_work s k")
  case (Inl x)
  with assms show ?thesis by (simp add: cancel_def)
next
  case (Inr i)
  with assms(1) have "cancel_work e tmp now actor reason i s = (r, s', removed)" by (simp add: cancel_def)
  then show ?thesis
    by (rule cancel_work_ok [OF _ assms(2)]) (use get_work_Inr [OF Inr] in \<open>auto simp: item_ok_def\<close>)
qed

lemma phase_requested:
  assumes "phase_ok i" and "is_active i"
  shows "phase_ok (i\<lparr>swi_cancellation_requested := True, swi_cancelled_by := Some a,
      swi_cancellation_reason := Some b, swi_status := ''CANCELLATION_REQUESTED''\<rparr>)"
proof -
  have "swi_started_at i \<noteq> None" using assms unfolding phase_ok_def by blast
  then show ?thesis unfolding phase_ok_def by (simp add: status_defs)
qed

text \<open>The statuses left when an item is neither final, waiting, blocked nor interrupted.\<close>

lemma active_remaining:
  assumes "phase_ok i" and "swi_status i \<notin> set terminal_statuses" and "\<not> is_waiting i"
    and "swi_status i \<notin> {''BLOCKED_BUDGET'', ''INTERRUPTED''}"
  shows "is_active i"
proof -
  have "swi_status i \<in> set work_statuses" using assms(1) unfolding phase_ok_def by blast
  with assms(2-4) show ?thesis unfolding work_statuses_def is_waiting_def is_active_def by auto
qed

lemma request_cancellation_ok:
  assumes run: "request_cancellation e tmp now k actor reason s = (r, s', removed)" and ok: "sched_ok L K s"
  shows "sched_ok L K s'"
proof (cases "get_work s k")
  case (Inl x)
  with assms show ?thesis by (simp add: request_cancellation_def)
next
  case (Inr i)
  from get_work_Inr [OF Inr] have i: "i \<in> set (st_scheduled s)" by simp
  with ok have item: "item_ok i" by (simp add: sched_ok_def)
  let ?j = "i\<lparr>swi_cancellation_requested := True, swi_cancelled_by := Some (py_strip actor),
              swi_cancellation_reason := Some (py_strip reason)\<rparr>"
  consider (unchanged) "s' = s"
    | (now) "cancel_work e tmp now actor reason ?j s = (r, s', removed)"
    | (later) "is_active i" "s' = save_scheduled_work (checkpointed now ''CANCELLATION_REQUESTED'' (py_strip reason) 0 0 []
          (?j\<lparr>swi_status := ''CANCELLATION_REQUESTED''\<rparr>)) s"
    using run Inr active_remaining [of i] item
    by (auto simp: request_cancellation_def put_checkpoint_eq item_ok_def Let_def split: if_splits)
  then show ?thesis
  proof cases
    case unchanged
    with ok show ?thesis by simp
  next
    case now
    show ?thesis by (rule cancel_work_ok [OF now ok i]) (simp_all add: item_ok_def)
  next
    case later
    have "settles i (checkpointed now ''CANCELLATION_REQUESTED'' (py_strip reason) 0 0 []
        (?j\<lparr>swi_status := ''CANCELLATION_REQUESTED''\<rparr>))"
      by (rule settles_put) (use later(1) phase_requested in simp_all)
    from sched_ok_settles [OF ok i this] later(2) show ?thesis by simp
  qed
qed

lemma work_checkpoint_ok:
  assumes run: "work_checkpoint e tmp now k stage detail calls seconds ev s = (r, s', removed)" and ok: "sched_ok L K s"
  shows "sched_ok L K s'"
proof (cases "get_work s k")
  case (Inl x)
  with assms show ?thesis by (simp add: work_checkpoint_def)
next
  case (Inr i)
  from get_work_Inr [OF Inr] have i: "i \<in> set (st_scheduled s)" by simp
  show ?thesis
  proof (cases "swi_cancellation_requested i")
    case True
    with run Inr obtain actor reason r' where "cancel_work e tmp now actor reason i s = (r', s', removed)"
      by (auto simp: work_checkpoint_def split: prod.splits sum.splits)
    then show ?thesis by (rule cancel_work_ok [OF _ ok i]) (simp_all add: item_ok_def)
  next
    case False
    let ?i = "i\<lparr>swi_evidence_ids := extend_missing (swi_evidence_ids i) ev\<rparr>"
    show ?thesis
    proof (cases "calls < 0 \<or> seconds < 0")
      case True
      with run Inr False ok show ?thesis by (simp add: work_checkpoint_def)
    next
      case amounts: False
      have "phase_ok ?i = phase_ok i" "is_active ?i = is_active i" by (simp_all add: phase_ok_def is_active_def)
      moreover have "trail_ok (checkpointed now stage detail calls seconds ev ?i)" if "trail_ok i"
        using amounts by (intro trail_checkpointed trail_evidence that) simp_all
      ultimately have "settles i (checkpointed now stage detail calls seconds ev ?i)"
        by (simp add: settles_def item_ok_def)
      from sched_ok_settles [OF ok i this] show ?thesis
        using run Inr False amounts by (auto simp: work_checkpoint_def Let_def)
    qed
  qed
qed

lemma phase_queued:
  assumes "phase_ok i" shows "phase_ok (i\<lparr>swi_status := ''QUEUED'', swi_blocked_reason := None\<rparr>)"
  using phase_cancel [OF assms] unfolding phase_ok_def by (simp add: status_defs)

lemma phase_interrupted:
  assumes "phase_ok i" shows "phase_ok (i\<lparr>swi_status := ''INTERRUPTED'', swi_blocked_reason := Some t\<rparr>)"
  using phase_cancel [OF assms] unfolding phase_ok_def by (simp add: status_defs)

lemma resume_work_ok:
  assumes run: "resume_work now k s = (r, s')" and ok: "sched_ok L K s"
  shows "sched_ok L K s'"
proof (cases "get_work s k")
  case (Inl x)
  with assms show ?thesis by (simp add: resume_work_def)
next
  case (Inr i)
  from get_work_Inr [OF Inr] have i: "i \<in> set (st_scheduled s)" by simp
  let ?j = "checkpointed now ''RESUMED'' ''Interrupted work returned to the durable queue.'' 0 0 []
    (i\<lparr>swi_status := ''QUEUED'', swi_blocked_reason := None\<rparr>)"
  have "settles i ?j" by (rule settles_put) (simp_all add: phase_queued, simp add: status_defs)
  from sched_ok_settles [OF ok i this] run Inr ok show ?thesis
    by (auto simp: resume_work_def put_checkpoint_eq split: if_splits)
qed

lemma register_temporary_resource_ok:
  assumes run: "register_temporary_resource e k path s = (r, s')" and ok: "sched_ok L K s"
  shows "sched_ok L K s'"
proof (cases "get_work s k")
  case (Inl x)
  with assms show ?thesis by (simp add: register_temporary_resource_def)
next
  case (Inr i)
  from get_work_Inr [OF Inr] have i: "i \<in> set (st_scheduled s)" by simp
  have "settles i (i\<lparr>swi_temporary_resources := v, swi_resources_disposed := b\<rparr>)" for v b
    by (simp add: settles_def item_ok_def phase_ok_def is_active_def)
  from sched_ok_settles [OF ok i this] run Inr show ?thesis
    by (auto simp: register_temporary_resource_def Let_def)
qed

lemma attach_evidence_ok:
  assumes run: "attach_evidence now k ev s = (r, s')" and ok: "sched_ok L K s"
  shows "sched_ok L K s'"
proof (cases "get_work s k")
  case (Inl x)
  with assms show ?thesis by (simp add: attach_evidence_def)
next
  case (Inr i)
  from get_work_Inr [OF Inr] have i: "i \<in> set (st_scheduled s)" by simp
  have "settles i (i\<lparr>swi_evidence_ids := extend_missing (swi_evidence_ids i) ev, swi_updated_at := now\<rparr>)"
    using trail_evidence by (simp add: settles_def item_ok_def phase_ok_def is_active_def)
  from sched_ok_settles [OF ok i this] run Inr show ?thesis
    by (auto simp: attach_evidence_def Let_def)
qed

lemma interrupt_item_ok:
  assumes "interrupt_item now i s = (i', s')" and "sched_ok L K s" and "item_ok i"
    and req: "swi_id i \<in> K \<Longrightarrow> swi_cancellation_requested i"
  shows "sched_ok L K s'"
proof -
  let ?j = "i\<lparr>swi_status := ''INTERRUPTED'', swi_blocked_reason := Some ''Scheduler process restarted while work was active.''\<rparr>"
  let ?k = "checkpointed now ''INTERRUPTED'' ''Scheduler process restarted while work was active.'' 0 0 [] ?j"
  have "item_ok ?k" using assms(3) by (simp add: item_ok_def trail_put phase_interrupted)
  moreover have "\<not> is_active ?k" by (simp, simp add: status_defs)
  moreover have "s' = save_scheduled_work ?k s" using assms(1) by (auto simp: interrupt_item_def put_checkpoint_eq)
  ultimately show ?thesis
    using sched_ok_inactive [OF assms(2), of ?k] req by simp
qed

lemma restore_interrupted_ok:
  assumes "restore_interrupted now s = (r, s')" and "sched_ok L K s"
  shows "sched_ok L K s'"
proof -
  let ?f = "\<lambda>i (acc, s). let (i', s') = interrupt_item now i s in (acc @ [i'], s')"
  have "sched_ok L K (snd (fold ?f is (acc, t)))"
    if "\<forall>i\<in>set is. item_ok i \<and> (swi_id i \<in> K \<longrightarrow> swi_cancellation_requested i)" and "sched_ok L K t" for "is" acc t
    using that
    by (induction "is" arbitrary: acc t) (auto split: prod.splits intro: interrupt_item_ok)
  from this [of "active_work s" s "[]"] assms requested_row [OF assms(2)] show ?thesis
    by (auto simp: restore_interrupted_def sched_ok_def)
qed

end
