(* ===== verification/Scheduler_Claims.thy ===== *)
theory Scheduler_Claims
  imports Scheduler_Invariants
begin

text \<open>
  Claiming work: the loop of \<open>claim_next\<close> and the pass of \<open>try_claim\<close> read as "the first admissible
  candidate in rank order". Saving a scheduled item changes neither a ticket nor a lease, so a
  candidate blocked on the way does not change what is decided about the later ones.
\<close>

section \<open>What blocking an item leaves alone\<close>

lemma governed_project_work [simp]: "governed_project e (save_scheduled_work i s) k = governed_project e s k"
  by (simp only: governed_project_def save_scheduled_work_frame)

lemma get_ticket_work [simp]: "get_ticket e (save_scheduled_work i s) k = get_ticket e s k"
  by (simp only: get_ticket_def governed_project_work save_scheduled_work_frame)

lemma lease_contention_work [simp]: "lease_contention now (save_scheduled_work i s) j = lease_contention now s j"
  by (simp add: lease_contention_def project_leases_def)

lemma admission_work [simp]:
  "admission L now (save_scheduled_work i s) A t j = admission L now s A t j"
  by (simp add: admission_def lease_block_def)

lemma block_item_frame [simp]:
  "get_ticket e (block_item now status reason i s) k = get_ticket e s k"
  "lease_contention now (block_item now' status reason i s) j = lease_contention now s j"
  "admission L now (block_item now' status reason i s) A t j = admission L now s A t j"
  by (simp_all add: block_item_def put_checkpoint_eq)

lemma first_block_None [simp]: "first_block bs = None \<longleftrightarrow> (\<forall>b\<in>set bs. b = None)"
  by (induction bs) (auto split: option.splits)

lemma first_block_Some: "first_block bs = Some x \<Longrightarrow> Some x \<in> set bs"
  by (induction bs) (auto split: option.splits)

lemma first_block_pair: "first_block [a, b] = Some x \<longleftrightarrow> a = Some x \<or> (a = None \<and> b = Some x)"
  by (simp split: option.split)

lemma slot_block_status: "slot_block L A i = Some (status, reason) \<Longrightarrow> status \<in> block_statuses"
  by (auto simp: slot_block_def block_statuses_def split: if_splits)

lemma budget_block_status: "budget_block t i = Some (status, reason) \<Longrightarrow> status \<in> block_statuses"
  by (simp add: budget_block_def block_statuses_def Let_def split: if_splits)

lemma lease_block_status: "lease_block now s i = Some (status, reason) \<Longrightarrow> status \<in> block_statuses"
  by (auto simp: lease_block_def block_statuses_def)

lemma admission_status:
  assumes "admission L now s A t i = Some (status, reason)" shows "status \<in> block_statuses"
proof -
  from first_block_Some [OF assms [unfolded admission_def]]
  consider "budget_block t i = Some (status, reason)" | "slot_block L A i = Some (status, reason)"
    | "lease_block now s i = Some (status, reason)" by auto
  then show ?thesis by cases (auto dest: budget_block_status slot_block_status lease_block_status)
qed

lemma admission_None:
  "admission L now s A t i = None \<longleftrightarrow>
     budget_block t i = None \<and> slot_block L A i = None \<and> lease_block now s i = None"
  by (simp add: admission_def del: first_block.simps)

section \<open>The grant\<close>

definition started :: "py_time \<Rightarrow> scheduled_work_item \<Rightarrow> scheduled_work_item" where
  "started now i =
     checkpointed now ''STARTED'' ''Scheduler capacity and current budget admitted the work.'' 0 0 []
       (i\<lparr>swi_status := ''RUNNING'', swi_blocked_reason := None,
          swi_started_at := (case swi_started_at i of Some t \<Rightarrow> Some t | None \<Rightarrow> Some now)\<rparr>)"

lemma start_work_eq: "start_work now i s = (started now i, save_scheduled_work (started now i) s)"
  by (simp add: start_work_def started_def put_checkpoint_eq)

lemma started_fields [simp]:
  "swi_id (started now i) = swi_id i" "is_active (started now i)" "charged d (started now i) = charged d i"
  "swi_status (started now i) = ''RUNNING''" "swi_cancellation_requested (started now i) = swi_cancellation_requested i"
  by (simp_all add: started_def, simp_all add: status_defs)

lemma phase_started:
  assumes "phase_ok i"
  shows "phase_ok (i\<lparr>swi_status := ''RUNNING'', swi_blocked_reason := None,
      swi_started_at := (case swi_started_at i of Some t \<Rightarrow> Some t | None \<Rightarrow> Some now)\<rparr>)"
  using phase_cancel [OF assms] unfolding phase_ok_def by (simp add: status_defs split: option.split)

lemma item_ok_started: "item_ok i \<Longrightarrow> item_ok (started now i)"
  by (simp add: item_ok_def started_def trail_put phase_started)

lemma waiting_inactive: "is_waiting i \<Longrightarrow> \<not> is_active i"
  by (auto simp: is_waiting_def is_active_def waiting_statuses_def active_statuses_def)

text \<open>The slot checks are exactly that every charge of the item still fits.\<close>

lemma slots_free:
  assumes ok: "within_limits L A" and room: "int (length A) < sl_global_concurrency L"
    and slot: "slot_block L A i = None"
  shows "load d A + charged d i \<le> limit_of L d"
proof -
  have old: "load d A \<le> limit_of L d" using ok by (simp add: within_limits_def)
  from slot have p: "load (In_project (swi_project_id i)) A < sl_per_project_concurrency L"
    and t: "load (In_ticket (swi_ticket_id i)) A < sl_per_ticket_concurrency L"
    and u: "swi_capacity_units i + load Units A \<le> sl_capacity_units L"
    by (simp_all add: slot_block_def load_count split: if_splits)
  show ?thesis
  proof (cases d)
    case Everywhere
    with room show ?thesis by (simp add: load_count)
  next
    case In_project
    with p old show ?thesis by auto
  next
    case In_ticket
    with t old show ?thesis by auto
  next
    case Units
    with u show ?thesis by simp
  qed
qed

lemma start_work_ok:
  assumes "sched_ok L K s" and "i \<in> set (st_scheduled s)" and "is_waiting i"
    and "int (length (active_work s)) < sl_global_concurrency L" and "slot_block L (active_work s) i = None"
  shows "sched_ok L K (snd (start_work now i s))"
proof (rule sched_ok_grant [OF assms(1,2) waiting_inactive [OF assms(3)], of "started now i"])
  show "item_ok (started now i)" using assms(1,2) item_ok_started by (simp add: sched_ok_def)
  show "load d (active_work s) + charged d (started now i) \<le> limit_of L d" for d
    using slots_free assms by (simp add: sched_ok_def)
qed (simp_all add: start_work_eq)

section \<open>The claiming loop\<close>

text \<open>The candidates still to be considered are rows of the store, waiting, with distinct ids.\<close>

definition candidates_of :: "store \<Rightarrow> scheduled_work_item list \<Rightarrow> bool" where
  "candidates_of s cs \<longleftrightarrow> set cs \<subseteq> set (st_scheduled s) \<and> (\<forall>i\<in>set cs. is_waiting i) \<and> distinct (map swi_id cs)"

lemma candidates_block:
  assumes "candidates_of s (i # cs)"
  shows "candidates_of (block_item now status reason i s) cs"
proof -
  have "j \<in> set (st_scheduled (block_item now status reason i s))" if "j \<in> set cs" for j
  proof -
    have "swi_id j \<noteq> swi_id i" using assms that by (auto simp: candidates_of_def rev_image_eqI)
    with assms that show ?thesis
      by (auto simp: candidates_of_def block_item_def put_checkpoint_eq row_simps)
  qed
  with assms show ?thesis by (auto simp: candidates_of_def)
qed

lemma active_block:
  assumes "unique_rows swi_id (st_scheduled s)" and "i \<in> set (st_scheduled s)" and "\<not> is_active i"
    and "status \<in> block_statuses"
  shows "active_work (block_item now status reason i s) = active_work s"
proof -
  have "swi_id x \<noteq> swi_id i" if "x \<in> set (st_scheduled s)" "is_active x" for x
    by (metis assms(1-3) lookup_row_unique option.inject that)
  then have "filter (\<lambda>x. is_active x \<and> swi_id x \<noteq> swi_id i) (st_scheduled s) = active_work s"
    by (auto intro: filter_cong)
  then show ?thesis
    using blocked_inactive [OF assms(4)]
    by (simp add: block_item_def put_checkpoint_eq active_upsert)
qed

lemma claim_loop_ok:
  assumes "claim_loop e L now (active_work s) cs s = (r, s')" and "sched_ok L K s" and "candidates_of s cs"
    and "int (length (active_work s)) < sl_global_concurrency L"
  shows "sched_ok L K s'"
  using assms
proof (induction cs arbitrary: s)
  case Nil
  then show ?case by simp
next
  case (Cons i cs)
  have i: "i \<in> set (st_scheduled s)" "is_waiting i" using Cons.prems(3) by (auto simp: candidates_of_def)
  show ?case
  proof (cases "get_ticket e s (swi_ticket_id i)")
    case (Inl x)
    with Cons.prems show ?thesis by simp
  next
    case (Inr t)
    show ?thesis
    proof (cases "admission L now s (active_work s) t i")
      case None
      then have "slot_block L (active_work s) i = None" by (simp add: admission_None)
      from start_work_ok [OF Cons.prems(2) i Cons.prems(4) this] Cons.prems(1) Inr None show ?thesis
        by (auto simp: start_work_eq)
    next
      case (Some b)
      obtain status reason where b: "b = (status, reason)" by (cases b)
      let ?s = "block_item now status reason i s"
      have st: "status \<in> block_statuses" using admission_status Some b by simp
      have act: "active_work ?s = active_work s"
        using Cons.prems(2) i st by (intro active_block) (simp_all add: sched_ok_def waiting_inactive)
      show ?thesis
        using Cons.IH [of ?s] Cons.prems Inr Some b act candidates_block [OF Cons.prems(3)]
          block_item_ok [OF Cons.prems(2) i(1) st] by simp
    qed
  qed
qed

lemma set_ranked [simp]: "set (ranked xs) = set xs"
  by (simp add: ranked_def)

lemma distinct_map_ranked [simp]: "distinct (map f (ranked xs)) = distinct (map f xs)"
  by (simp add: ranked_def distinct_map_sort_key)

lemma candidates_ranked: "sched_ok L K s \<Longrightarrow> candidates_of s (ranked (filter is_waiting (st_scheduled s)))"
  by (auto simp: candidates_of_def sched_ok_def unique_rows_def distinct_map_filter_key)

lemma block_all_ok:
  assumes "sched_ok L K s" and "candidates_of s cs" and "status \<in> block_statuses"
  shows "sched_ok L K (fold (block_item now status reason) cs s)"
  using assms(1,2)
proof (induction cs arbitrary: s)
  case Nil
  then show ?case by simp
next
  case (Cons i cs)
  have "i \<in> set (st_scheduled s)" using Cons.prems by (simp add: candidates_of_def)
  with Cons block_item_ok [OF Cons.prems(1) _ assms(3)] candidates_block [OF Cons.prems(2)]
  show ?case by simp
qed

lemma candidates_occupied:
  "sched_ok L K s \<Longrightarrow> candidates_of s (filter (\<lambda>i. swi_status i \<in> {''QUEUED'', ''WAITING_FOR_CAPACITY''}) (st_scheduled s))"
  by (auto simp: candidates_of_def sched_ok_def unique_rows_def distinct_map_filter_key is_waiting_def waiting_statuses_def)

lemma claim_next_work_ok:
  assumes "claim_next_work e L now s = (r, s')" and "sched_ok L K s"
  shows "sched_ok L K s'"
proof (cases "sl_global_concurrency L \<le> int (length (active_work s))")
  case True
  from block_all_ok [OF assms(2) candidates_occupied [OF assms(2)]] assms(1) True show ?thesis
    by (auto simp: claim_next_work_def Let_def block_statuses_def)
next
  case False
  with assms(1) claim_loop_ok [OF _ assms(2) candidates_ranked [OF assms(2)]] show ?thesis
    by (simp add: claim_next_work_def Let_def)
qed

section \<open>The claiming loop as a choice\<close>

text \<open>What is decided about a candidate: the error of its ticket, the reason it is blocked, or
  admission.\<close>

definition verdict ::
  "env \<Rightarrow> scheduler_limits \<Rightarrow> py_time \<Rightarrow> store \<Rightarrow> scheduled_work_item list \<Rightarrow> scheduled_work_item
     \<Rightarrow> (string \<times> string) option result" where
  "verdict e L now s A i =
     (case get_ticket e s (swi_ticket_id i) of Inl x \<Rightarrow> Inl x | Inr t \<Rightarrow> Inr (admission L now s A t i))"

definition admissible ::
  "env \<Rightarrow> scheduler_limits \<Rightarrow> py_time \<Rightarrow> store \<Rightarrow> scheduled_work_item list \<Rightarrow> scheduled_work_item \<Rightarrow> bool" where
  "admissible e L now s A i \<longleftrightarrow> verdict e L now s A i = Inr None"

definition held_back ::
  "env \<Rightarrow> scheduler_limits \<Rightarrow> py_time \<Rightarrow> store \<Rightarrow> scheduled_work_item list \<Rightarrow> scheduled_work_item \<Rightarrow> bool" where
  "held_back e L now s A i \<longleftrightarrow> (\<exists>b. verdict e L now s A i = Inr (Some b))"

fun pass_over ::
  "env \<Rightarrow> scheduler_limits \<Rightarrow> py_time \<Rightarrow> scheduled_work_item list \<Rightarrow> scheduled_work_item list \<Rightarrow> store \<Rightarrow> store" where
  "pass_over e L now A [] s = s"
| "pass_over e L now A (i # is) s =
     pass_over e L now A is
       (case verdict e L now s A i of
          Inl x \<Rightarrow> s
        | Inr v \<Rightarrow> (case v of None \<Rightarrow> s | Some (status, reason) \<Rightarrow> block_item now status reason i s))"

lemma verdict_block [simp]: "verdict e L now (block_item now' status reason j s) A i = verdict e L now s A i"
  by (simp only: verdict_def block_item_frame)

lemma held_back_block [simp]: "held_back e L now (block_item now' status reason j s) A i = held_back e L now s A i"
  by (simp add: held_back_def)

lemma admissible_not_held: "admissible e L now s A i \<Longrightarrow> \<not> held_back e L now s A i"
  by (simp add: admissible_def held_back_def)

lemma claim_loop_Cons:
  "claim_loop e L now A (i # cs) s =
     (case verdict e L now s A i of
        Inl x \<Rightarrow> (Inl x, s)
      | Inr None \<Rightarrow> (Inr (Some (started now i)), save_scheduled_work (started now i) s)
      | Inr (Some (status, reason)) \<Rightarrow> claim_loop e L now A cs (block_item now status reason i s))"
  by (simp add: verdict_def start_work_eq split: sum.split option.split prod.split)

lemma outranked_Cons:
  "outranked e L now A k (i # cs) s =
     (if swi_id i = k then (Inr False, s)
      else case verdict e L now s A i of
        Inl x \<Rightarrow> (Inl x, s)
      | Inr None \<Rightarrow> (Inr True, s)
      | Inr (Some (status, reason)) \<Rightarrow> outranked e L now A k cs (block_item now status reason i s))"
  by (simp add: verdict_def split: sum.split option.split prod.split)

text \<open>Candidates that are held back are passed over, whatever follows.\<close>

lemma claim_loop_held:
  "\<forall>b\<in>set before. held_back e L now s A b \<Longrightarrow>
     claim_loop e L now A (before @ rest) s = claim_loop e L now A rest (pass_over e L now A before s)"
proof (induction before arbitrary: s)
  case Nil
  show ?case by simp
next
  case (Cons i before)
  then obtain status reason where "verdict e L now s A i = Inr (Some (status, reason))"
    by (auto simp: held_back_def)
  with Cons show ?case by (simp add: claim_loop_Cons del: claim_loop.simps)
qed

lemma outranked_held:
  "\<forall>b\<in>set before. held_back e L now s A b \<and> swi_id b \<noteq> k \<Longrightarrow>
     outranked e L now A k (before @ rest) s = outranked e L now A k rest (pass_over e L now A before s)"
proof (induction before arbitrary: s)
  case Nil
  show ?case by simp
next
  case (Cons i before)
  then obtain status reason where "verdict e L now s A i = Inr (Some (status, reason))"
    by (auto simp: held_back_def)
  with Cons show ?case by (simp add: outranked_Cons del: outranked.simps)
qed

lemma verdict_pass_over [simp]: "verdict e L now (pass_over e L now A before s) A i = verdict e L now s A i"
proof (induction before arbitrary: s)
  case Nil
  show ?case by simp
next
  case (Cons j before)
  then show ?case by (simp split: sum.split option.split prod.split)
qed

text \<open>Every list of candidates is either held back altogether, or has a first one that is not.\<close>

lemma first_not_held:
  obtains (none) "\<forall>b\<in>set cs. held_back e L now s A b"
    | (first) before i after where "cs = before @ i # after" "\<forall>b\<in>set before. held_back e L now s A b"
        "\<not> held_back e L now s A i"
proof (cases "\<forall>b\<in>set cs. held_back e L now s A b")
  case True
  then show ?thesis by (rule none)
next
  case False
  then have "\<exists>x\<in>set cs. \<not> held_back e L now s A x" by blast
  from split_list_first_prop [OF this] show ?thesis using first by blast
qed

lemma claim_loop_first:
  assumes "\<forall>b\<in>set before. held_back e L now s A b" and "\<not> held_back e L now s A i"
  shows "claim_loop e L now A (before @ i # after) s =
     (case verdict e L now s A i of
        Inl x \<Rightarrow> (Inl x, pass_over e L now A before s)
      | Inr v \<Rightarrow> (Inr (Some (started now i)), save_scheduled_work (started now i) (pass_over e L now A before s)))"
  using assms(2)
  by (auto simp: claim_loop_held [OF assms(1)] claim_loop_Cons held_back_def
      simp del: claim_loop.simps split: sum.split option.split)

lemma claim_loop_None:
  assumes "\<forall>b\<in>set cs. held_back e L now s A b"
  shows "claim_loop e L now A cs s = (Inr None, pass_over e L now A cs s)"
  using claim_loop_held [OF assms, of "[]"] by simp

section \<open>\<open>try_claim\<close>\<close>

lemma outranked_ok:
  assumes "outranked e L now (active_work s) k cs s = (r, s1)" and "sched_ok L K s" and "candidates_of s cs"
    and "target \<in> set (st_scheduled s)" and "swi_id target = k"
  shows "sched_ok L K s1 \<and> active_work s1 = active_work s \<and> target \<in> set (st_scheduled s1)"
  using assms
proof (induction cs arbitrary: s)
  case Nil
  then show ?case by simp
next
  case (Cons i cs)
  have i: "i \<in> set (st_scheduled s)" "is_waiting i" using Cons.prems(3) by (auto simp: candidates_of_def)
  show ?case
  proof (cases "swi_id i = k \<or> \<not> held_back e L now s (active_work s) i")
    case True
    then have "s1 = s" using Cons.prems(1)
      by (auto simp: outranked_Cons held_back_def simp del: outranked.simps split: sum.splits option.splits if_splits)
    with Cons.prems show ?thesis by simp
  next
    case False
    then obtain status reason where b: "verdict e L now s (active_work s) i = Inr (Some (status, reason))"
      by (auto simp: held_back_def)
    let ?s = "block_item now status reason i s"
    have st: "status \<in> block_statuses"
      using b admission_status by (auto simp: verdict_def split: sum.splits)
    have act: "active_work ?s = active_work s"
      using Cons.prems(2) i st by (intro active_block) (simp_all add: sched_ok_def waiting_inactive)
    have "target \<in> set (st_scheduled ?s)"
      using False Cons.prems(4,5) by (auto simp: block_item_def put_checkpoint_eq row_simps)
    moreover have "outranked e L now (active_work ?s) k cs ?s = (r, s1)"
      using Cons.prems(1) False b act by (simp add: outranked_Cons del: outranked.simps)
    ultimately show ?thesis
      using Cons.IH [of ?s] Cons.prems(5) act candidates_block [OF Cons.prems(3)]
        block_item_ok [OF Cons.prems(2) i(1) st] by simp
  qed
qed

text \<open>The checks on the target once nothing admissible is ranked above it.\<close>

definition final_checks ::
  "env \<Rightarrow> scheduler_limits \<Rightarrow> py_time \<Rightarrow> scheduled_work_item list \<Rightarrow> scheduled_work_item \<Rightarrow> store
     \<Rightarrow> scheduled_work_item option result \<times> store" where
  "final_checks e limits now active target s1 =
     (case first_block [global_block limits active, slot_block limits active target] of
        Some (status, reason) \<Rightarrow> (Inr None, block_item now status reason target s1)
      | None \<Rightarrow>
          (case get_ticket e s1 (swi_ticket_id target) of
             Inl x \<Rightarrow> (Inl x, s1)
           | Inr t \<Rightarrow>
               (case first_block [budget_block t target, lease_block now s1 target] of
                  Some (status, reason) \<Rightarrow> (Inr None, block_item now status reason target s1)
                | None \<Rightarrow> (let (i', s') = start_work now target s1 in (Inr (Some i'), s')))))"

lemma try_claim_waiting:
  assumes "lookup_row swi_id k (st_scheduled s) = Some target" and "is_waiting target"
  shows "try_claim e L now k s =
     (case outranked e L now (active_work s) k (ranked (filter is_waiting (st_scheduled s))) s of
        (Inl x, s1) \<Rightarrow> (Inl x, s1)
      | (Inr b, s1) \<Rightarrow> if b then (Inr None, s1) else final_checks e L now (active_work s) target s1)"
proof -
  have "swi_status target \<noteq> ''RUNNING''"
    using assms(2) by (auto simp: is_waiting_def waiting_statuses_def)
  with assms show ?thesis
    by (auto simp: try_claim_def final_checks_def lookup_row_def Let_def
        split: prod.split sum.split bool.split simp del: first_block.simps)
qed

lemma global_block_None: "global_block L A = None \<longleftrightarrow> int (length A) < sl_global_concurrency L"
  by (auto simp: global_block_def)

lemma global_block_status: "global_block L A = Some (status, reason) \<Longrightarrow> status \<in> block_statuses"
  by (simp add: global_block_def block_statuses_def split: if_splits)

lemma final_checks_grants:
  "final_checks e L now A target s1 = (Inr (Some i'), s') \<longleftrightarrow>
     int (length A) < sl_global_concurrency L \<and> admissible e L now s1 A target \<and>
     i' = started now target \<and> s' = save_scheduled_work i' s1"
proof (cases "get_ticket e s1 (swi_ticket_id target)")
  case (Inl x)
  then show ?thesis
    by (auto simp: final_checks_def admissible_def verdict_def simp del: first_block.simps split: option.split)
next
  case (Inr t)
  then have "admissible e L now s1 A target \<longleftrightarrow>
      budget_block t target = None \<and> slot_block L A target = None \<and> lease_block now s1 target = None"
    by (simp add: admissible_def verdict_def admission_None)
  moreover have "first_block [global_block L A, slot_block L A target] = None \<longleftrightarrow>
      int (length A) < sl_global_concurrency L \<and> slot_block L A target = None"
    by (simp add: global_block_None del: first_block.simps)
  moreover have "first_block [budget_block t target, lease_block now s1 target] = None \<longleftrightarrow>
      budget_block t target = None \<and> lease_block now s1 target = None"
    by (simp del: first_block.simps)
  ultimately show ?thesis using Inr
    by (auto simp: final_checks_def start_work_eq simp del: first_block.simps first_block_None split: option.split)
qed

lemma final_checks_ok:
  assumes run: "final_checks e L now (active_work s) target s = (r, s')" and ok: "sched_ok L K s"
    and target: "target \<in> set (st_scheduled s)" "is_waiting target"
  shows "sched_ok L K s'"
proof -
  have block: "sched_ok L K (block_item now status reason target s)" if "status \<in> block_statuses" for status reason
    using block_item_ok [OF ok target(1) that] .
  consider (granted) i' where "r = Inr (Some i')"
    | (refused) "s' = s"
    | (blocked) status reason where "status \<in> block_statuses" "s' = block_item now status reason target s"
    using run
    by (auto simp: final_checks_def first_block_pair start_work_eq simp del: first_block.simps
        split: option.splits sum.splits
        dest: global_block_status slot_block_status budget_block_status lease_block_status)
  then show ?thesis
  proof cases
    case granted
    with run have free: "int (length (active_work s)) < sl_global_concurrency L"
      and adm: "admissible e L now s (active_work s) target"
      and s': "s' = save_scheduled_work (started now target) s"
      by (auto simp: final_checks_grants)
    from adm have "slot_block L (active_work s) target = None"
      by (auto simp: admissible_def verdict_def admission_None split: sum.splits)
    from start_work_ok [OF ok target free this] s' show ?thesis by (simp add: start_work_eq)
  next
    case refused
    with ok show ?thesis by simp
  next
    case blocked
    with block show ?thesis by simp
  qed
qed

lemma try_claim_ok:
  assumes run: "try_claim e L now k s = (r, s')" and ok: "sched_ok L K s"
  shows "sched_ok L K s'"
proof (cases "lookup_row swi_id k (st_scheduled s)")
  case None
  with run ok show ?thesis by (simp add: try_claim_def lookup_row_def)
next
  case (Some target)
  from lookup_row_Some [OF this] have t: "target \<in> set (st_scheduled s)" "swi_id target = k" by auto
  show ?thesis
  proof (cases "is_waiting target")
    case False
    with run ok Some show ?thesis by (auto simp: try_claim_def lookup_row_def Let_def split: if_splits)
  next
    case True
    let ?cs = "ranked (filter is_waiting (st_scheduled s))"
    obtain d s1 where o: "outranked e L now (active_work s) k ?cs s = (d, s1)" by (cases "outranked e L now (active_work s) k ?cs s")
    from outranked_ok [OF o ok candidates_ranked [OF ok] t]
    have s1: "sched_ok L K s1" "active_work s1 = active_work s" "target \<in> set (st_scheduled s1)" by simp_all
    from run o try_claim_waiting [OF Some True]
    consider "s' = s1" | "final_checks e L now (active_work s1) target s1 = (r, s')"
      using s1(2) by (auto split: sum.splits if_splits)
    then show ?thesis using s1 final_checks_ok [of e L now s1 target r s'] True by cases auto
  qed
qed

end
