(* ===== verification/Scheduler_Safety.thy ===== *)
theory Scheduler_Safety
  imports Scheduler_Claims
begin

text \<open>
  The properties of the scheduler: the step relation of its operations, limits and typing in every
  run, the order of claims, cancellation, and the confinement of disposal.
\<close>

section \<open>Steps\<close>

text \<open>An identifier drawn for a new item is fresh (\<open>uuid4\<close>). Any other component may change the store
  outside the table of scheduled work.\<close>

inductive sched_step :: "env \<Rightarrow> string option \<Rightarrow> scheduler_limits \<Rightarrow> store \<Rightarrow> store \<Rightarrow> bool"
  for e :: env and tmp :: "string option" and L :: scheduler_limits where
  sched_enqueue: "enqueue e new_id now q s = (r, s') \<Longrightarrow> new_id \<notin> swi_id ` set (st_scheduled s) \<Longrightarrow> sched_step e tmp L s s'"
| sched_claim: "claim_next_work e L now s = (r, s') \<Longrightarrow> sched_step e tmp L s s'"
| sched_try: "try_claim e L now k s = (r, s') \<Longrightarrow> sched_step e tmp L s s'"
| sched_checkpoint: "work_checkpoint e tmp now k stage detail calls seconds ev s = (r, s', removed) \<Longrightarrow> sched_step e tmp L s s'"
| sched_complete: "complete_work e tmp now k wanted detail s = (r, s', removed) \<Longrightarrow> sched_step e tmp L s s'"
| sched_request: "request_cancellation e tmp now k actor reason s = (r, s', removed) \<Longrightarrow> sched_step e tmp L s s'"
| sched_cancel: "cancel e tmp now k actor reason s = (r, s', removed) \<Longrightarrow> sched_step e tmp L s s'"
| sched_resume: "resume_work now k s = (r, s') \<Longrightarrow> sched_step e tmp L s s'"
| sched_register: "register_temporary_resource e k path s = (r, s') \<Longrightarrow> sched_step e tmp L s s'"
| sched_attach: "attach_evidence now k ev s = (r, s') \<Longrightarrow> sched_step e tmp L s s'"
| sched_restore: "restore_interrupted now s = (r, s') \<Longrightarrow> sched_step e tmp L s s'"
| sched_other: "st_scheduled s' = st_scheduled s \<Longrightarrow> sched_step e tmp L s s'"

interpretation scheduler: invariant_system "sched_step e tmp L" "sched_ok L K"
  for e :: env and tmp :: "string option" and L :: scheduler_limits and K :: "string set"
proof
  fix s t assume "sched_step e tmp L s t" and "sched_ok L K s"
  then show "sched_ok L K t"
  proof cases
    case sched_other
    with \<open>sched_ok L K s\<close> show ?thesis by (simp add: sched_ok_def requested_def)
  qed (auto intro: enqueue_ok claim_next_work_ok try_claim_ok work_checkpoint_ok complete_work_ok
      request_cancellation_ok cancel_ok resume_work_ok register_temporary_resource_ok attach_evidence_ok
      restore_interrupted_ok)
qed

definition limits_valid :: "scheduler_limits \<Rightarrow> bool" where
  "limits_valid L \<longleftrightarrow>
     1 \<le> sl_global_concurrency L \<and> 1 \<le> sl_per_project_concurrency L \<and>
     1 \<le> sl_per_ticket_concurrency L \<and> 1 \<le> sl_capacity_units L"

lemma sched_ok_start:
  assumes "limits_valid L" and "st_scheduled s = []"
  shows "sched_ok L {} s"
proof -
  have "0 \<le> limit_of L d" for d using assms(1) by (cases d) (auto simp: limits_valid_def)
  with assms(2) show ?thesis by (simp add: sched_ok_def within_limits_def)
qed

lemma sched_run_ok:
  "run_of (sched_step e tmp L) s s' \<Longrightarrow> st_scheduled s = [] \<Longrightarrow> limits_valid L \<Longrightarrow> sched_ok L {} s'"
  using scheduler.run_inv sched_ok_start by blast

text \<open>A store with two items of one ticket, the limits of the defaults with two global slots.\<close>

definition demo_limits :: scheduler_limits where
  "demo_limits = \<lparr>sl_global_concurrency = 2, sl_per_project_concurrency = 1, sl_per_ticket_concurrency = 1,
     sl_capacity_units = 2\<rparr>"

definition demo_enqueue :: "string \<Rightarrow> string list \<Rightarrow> store \<Rightarrow> scheduled_work_item result \<times> store" where
  "demo_enqueue k needs =
     enqueue plain_env k 10 \<lparr>eq_ticket_id = ''ii'', eq_work_kind = ''PLAN'', eq_artifact_id = None,
       eq_required_validation_categories = needs, eq_predicted_cost_usd = 0,
       eq_predicted_latency_seconds = 0, eq_predicted_worker_calls = 1, eq_capacity_units = 1,
       eq_requires_project_lease = False\<rparr>"

definition demo_queue :: store where
  "demo_queue = snd (demo_enqueue ''b'' [''x''] (snd (demo_enqueue ''a'' [] (snd demo_created))))"

definition demo_claimed :: store where
  "demo_claimed = snd (claim_next_work plain_env demo_limits 20 demo_queue)"

lemma demo_limits_valid: "limits_valid demo_limits"
  by (simp add: limits_valid_def demo_limits_def)

lemma demo_unscheduled: "st_scheduled (snd demo_created) = []"
  by code_simp

lemma demo_enqueue_step:
  "k \<notin> swi_id ` set (st_scheduled s) \<Longrightarrow> sched_step plain_env tmp L s (snd (demo_enqueue k needs s))"
  by (rule sched_enqueue [where r = "fst (demo_enqueue k needs s)"]) (simp_all add: demo_enqueue_def)

lemma demo_queue_run: "run_of (sched_step plain_env tmp L) (snd demo_created) demo_queue"
proof -
  let ?s = "snd (demo_enqueue ''a'' [] (snd demo_created))"
  have "''a'' \<notin> swi_id ` set (st_scheduled (snd demo_created))" by (simp add: demo_unscheduled)
  then have "run_of (sched_step plain_env tmp L) (snd demo_created) ?s" by (blast intro: run_of_one demo_enqueue_step)
  moreover have "''b'' \<notin> swi_id ` set (st_scheduled ?s)" by code_simp
  ultimately show ?thesis unfolding demo_queue_def by (blast intro: run_step demo_enqueue_step)
qed

lemma demo_claimed_run: "run_of (sched_step plain_env tmp demo_limits) (snd demo_created) demo_claimed"
proof -
  have "sched_step plain_env tmp demo_limits demo_queue demo_claimed"
    by (rule sched_claim [where r = "fst (claim_next_work plain_env demo_limits 20 demo_queue)"]) (simp add: demo_claimed_def)
  with demo_queue_run show ?thesis by (rule run_step)
qed

lemma demo_claimed_items:
  "map (\<lambda>i. (swi_id i, swi_status i)) (st_scheduled demo_claimed) = [(''a'', ''QUEUED''), (''b'', ''RUNNING'')]"
  by code_simp

section \<open>Limits\<close>

text \<open>C26: In every run of the scheduler that starts without scheduled work, under limits that are at
  least one as the model of the limits demands, the running work (and the work whose cancellation is
  pending) never exceeds the global limit, the limit of any project, the limit of any ticket, or the
  capacity units.\<close>

theorem capacity_never_exceeded:
  assumes "run_of (sched_step e tmp L) s s'" and "st_scheduled s = []" and "limits_valid L"
  shows "int (length (filter is_active (st_scheduled s'))) \<le> sl_global_concurrency L \<and>
    (\<forall>p. count_where (\<lambda>i. swi_project_id i = p) (filter is_active (st_scheduled s')) \<le> sl_per_project_concurrency L) \<and>
    (\<forall>t. count_where (\<lambda>i. swi_ticket_id i = t) (filter is_active (st_scheduled s')) \<le> sl_per_ticket_concurrency L) \<and>
    used_units (filter is_active (st_scheduled s')) \<le> sl_capacity_units L"
proof -
  have "load d (active_work s') \<le> limit_of L d" for d
    using sched_run_ok [OF assms] by (simp add: sched_ok_def within_limits_def)
  from this [of Everywhere] this [of "In_project p" for p] this [of "In_ticket t" for t] this [of Units]
  show ?thesis by (simp add: load_count)
qed

lemma capacity_never_exceeded_witness:
  "map swi_id (filter is_active (st_scheduled demo_claimed)) = [''b''] \<and>
   int (length (filter is_active (st_scheduled demo_claimed))) \<le> sl_global_concurrency demo_limits"
proof
  show "map swi_id (filter is_active (st_scheduled demo_claimed)) = [''b'']" by code_simp
qed (rule capacity_never_exceeded [OF demo_claimed_run demo_unscheduled demo_limits_valid, THEN conjunct1])

section \<open>Typing\<close>

text \<open>C31: In every run of the scheduler each item stays well typed: its status is one of the ten known
  ones, its amounts are in range and its score is the one of its inputs, an active item has a start
  time and a final one a completion time, a blocked one a reason, a cancelled one an actor and a
  reason, and its checkpoints are numbered 1, 2, 3, ... with evidence that belongs to the item. No
  two items share an identifier.\<close>

theorem scheduled_items_well_typed:
  assumes "run_of (sched_step e tmp L) s s'" and "st_scheduled s = []" and "limits_valid L"
  shows "distinct (map swi_id (st_scheduled s')) \<and> (\<forall>i\<in>set (st_scheduled s'). item_ok i)"
  using sched_run_ok [OF assms] by (simp add: sched_ok_def unique_rows_def)

lemma scheduled_items_well_typed_witness:
  "map swi_id (st_scheduled demo_claimed) = [''a'', ''b''] \<and> item_ok (hd (st_scheduled demo_claimed)) \<and>
   item_ok (last (st_scheduled demo_claimed))"
proof -
  have ids: "map swi_id (st_scheduled demo_claimed) = [''a'', ''b'']" by code_simp
  then have "st_scheduled demo_claimed \<noteq> []" by auto
  then have "hd (st_scheduled demo_claimed) \<in> set (st_scheduled demo_claimed)"
    "last (st_scheduled demo_claimed) \<in> set (st_scheduled demo_claimed)" by simp_all
  with ids scheduled_items_well_typed [OF demo_claimed_run demo_unscheduled demo_limits_valid]
  show ?thesis by blast
qed

section \<open>The order of claims\<close>

definition ahead :: "scheduled_work_item \<Rightarrow> scheduled_work_item \<Rightarrow> bool" where
  "ahead j i \<longleftrightarrow>
     swi_scheduling_score i < swi_scheduling_score j \<or>
     (swi_scheduling_score i = swi_scheduling_score j \<and>
        (swi_enqueued_at j < swi_enqueued_at i \<or>
         (swi_enqueued_at j = swi_enqueued_at i \<and> swi_id j < swi_id i)))"

lemma ranked_order: "sorted_wrt (\<lambda>x y. \<not> ahead y x) (ranked xs)"
proof -
  have "sorted_wrt (\<lambda>x y. True) xs" by (induction xs) auto
  from sort_key_wrt [OF sort_key_wrt [OF sort_key_wrt [OF this]]]
  have "sorted_wrt (\<lambda>x y. - swi_scheduling_score x < - swi_scheduling_score y \<or>
      (- swi_scheduling_score x = - swi_scheduling_score y \<and>
        (swi_enqueued_at x < swi_enqueued_at y \<or> (swi_enqueued_at x = swi_enqueued_at y \<and>
          (swi_id x < swi_id y \<or> (swi_id x = swi_id y \<and> True)))))) (ranked xs)"
    unfolding ranked_def .
  then show ?thesis
    by (rule sorted_wrt_mono_rel [rotated]) (auto simp: ahead_def)
qed

lemma ranked_before:
  assumes "ranked xs = before @ i # after" and "j \<in> set xs" and "ahead j i"
  shows "j \<in> set before"
proof -
  have "j \<in> set (before @ i # after)" using assms(1,2) by (metis set_ranked)
  moreover have "j \<noteq> i" using assms(3) by (auto simp: ahead_def)
  moreover have "j \<notin> set after"
    using ranked_order [of xs] assms(1,3) by (auto simp: sorted_wrt_append)
  ultimately show ?thesis by auto
qed

lemma admissible_pass_over [simp]:
  "admissible e L now (pass_over e L now A before s) A i = admissible e L now s A i"
  by (simp add: admissible_def)

lemma not_held_verdict: "\<not> held_back e L now s A i \<Longrightarrow> verdict e L now s A i = Inr v \<Longrightarrow> v = None"
  by (cases v) (auto simp: held_back_def)

lemma claim_next_free:
  assumes "int (length (active_work s)) < sl_global_concurrency L"
  shows "claim_next_work e L now s =
     claim_loop e L now (active_work s) (ranked (filter is_waiting (st_scheduled s))) s"
  using assms by (simp add: claim_next_work_def Let_def)

lemma claim_next_full:
  assumes "sl_global_concurrency L \<le> int (length (active_work s))"
  shows "fst (claim_next_work e L now s) = Inr None"
  using assms by (simp add: claim_next_work_def Let_def)

lemma try_claim_cleared:
  assumes "lookup_row swi_id k (st_scheduled s) = Some target" and "is_waiting target" and "swi_id target = k"
    and "ranked (filter is_waiting (st_scheduled s)) = before @ target # after"
    and "\<forall>b\<in>set before. held_back e L now s (active_work s) b \<and> swi_id b \<noteq> k"
  shows "try_claim e L now k s = (Inr (Some i), s') \<longleftrightarrow>
     int (length (active_work s)) < sl_global_concurrency L \<and> admissible e L now s (active_work s) target \<and>
     i = started now target \<and> s' = save_scheduled_work i (pass_over e L now (active_work s) before s)"
  using assms by (simp add: try_claim_waiting outranked_held final_checks_grants)

text \<open>C27: Asking for one item grants it exactly when the next claim would grant it: while the item
  waits, \<open>try_claim\<close> returns it started if and only if \<open>claim_next\<close> on the same store returns that
  very item, and both leave the same store. So a caller that waits for its own item cannot overtake
  an admissible item of higher rank.\<close>

theorem try_claim_agrees:
  assumes unique: "unique_rows swi_id (st_scheduled s)"
    and target: "lookup_row swi_id k (st_scheduled s) = Some target" "is_waiting target"
  shows "try_claim e L now k s = (Inr (Some i), s') \<longleftrightarrow>
    claim_next_work e L now s = (Inr (Some i), s') \<and> swi_id i = k"
proof (cases "int (length (active_work s)) < sl_global_concurrency L")
  case full: False
  have "outranked e L now (active_work s) k cs s = (Inr b, s1) \<longrightarrow>
      \<not> (if b then (Inr None, s1) else final_checks e L now (active_work s) target s1) = (Inr (Some i), s')" for cs b s1
    using full by (simp add: final_checks_grants)
  then have "try_claim e L now k s \<noteq> (Inr (Some i), s')"
    by (auto simp: try_claim_waiting [OF target] split: prod.split sum.split)
  moreover have "claim_next_work e L now s \<noteq> (Inr (Some i), s')"
    using claim_next_full [of L s e now] full by auto
  ultimately show ?thesis by blast
next
  case free: True
  let ?A = "active_work s" and ?cs = "ranked (filter is_waiting (st_scheduled s))"
  from lookup_row_Some [OF target(1)] target(2) have mem: "target \<in> set ?cs" and k: "swi_id target = k" by auto
  have dist: "distinct (map swi_id ?cs)"
    using unique by (simp add: unique_rows_def distinct_map_filter_key)
  have cleared: "try_claim e L now k s = (Inr (Some i), s') \<longleftrightarrow>
      admissible e L now s ?A target \<and> i = started now target \<and>
      s' = save_scheduled_work i (pass_over e L now ?A before s)"
    if "?cs = before @ target # after" and "\<forall>b\<in>set before. held_back e L now s ?A b" for before after
  proof -
    have "k \<notin> swi_id ` set before" using dist that(1) k by simp
    then have "\<forall>b\<in>set before. swi_id b \<noteq> k" by (metis image_eqI)
    then have "\<forall>b\<in>set before. held_back e L now s ?A b \<and> swi_id b \<noteq> k" using that(2) by blast
    from try_claim_cleared [OF target k that(1) this] free show ?thesis by blast
  qed
  have no_grant: "try_claim e L now k s \<noteq> (Inr (Some i), s')"
    if cs: "?cs = front @ rest" and held: "\<forall>b\<in>set front. held_back e L now s ?A b" and
      inside: "target \<in> set front" for front rest
  proof -
    obtain before after where f: "front = before @ target # after" by (metis inside split_list)
    from held inside have "held_back e L now s ?A target" by blast
    moreover have "?cs = before @ target # (after @ rest)" using cs f by simp
    moreover have "\<forall>b\<in>set before. held_back e L now s ?A b" using held f by simp
    ultimately show ?thesis using cleared admissible_not_held by blast
  qed
  show ?thesis
  proof (cases rule: first_not_held [of ?cs e L now s ?A])
    case none
    then have "fst (claim_next_work e L now s) = Inr None" by (simp add: claim_next_free [OF free] claim_loop_None)
    then show ?thesis using no_grant [of ?cs "[]"] none mem by auto
  next
    case (first before j after)
    have claim: "claim_next_work e L now s = (Inr (Some i), s') \<longleftrightarrow>
        admissible e L now s ?A j \<and> i = started now j \<and> s' = save_scheduled_work i (pass_over e L now ?A before s)"
      unfolding claim_next_free [OF free] first(1) claim_loop_first [OF first(2,3)]
      using not_held_verdict [OF first(3)] by (auto simp: admissible_def split: sum.split)
    consider (same) "target = j" | (before) "target \<in> set before" | (after) "target \<in> set after"
      using mem first(1) by auto
    then show ?thesis
    proof cases
      case same
      with claim cleared [OF first(1) [folded same] first(2)] k show ?thesis by auto
    next
      case before
      with dist first(1) k have "swi_id j \<noteq> k" by auto
      with claim no_grant [OF first(1,2) before] show ?thesis by auto
    next
      case after
      with dist first(1) k have "swi_id j \<noteq> k" "k \<notin> swi_id ` set before" by auto
      then have ids: "swi_id j \<noteq> k" "\<forall>b\<in>set before. swi_id b \<noteq> k" by auto
      then have "outranked e L now ?A k ?cs s = outranked e L now ?A k (j # after) (pass_over e L now ?A before s)"
        using first(1,2) by (simp add: outranked_held)
      then have "try_claim e L now k s \<noteq> (Inr (Some i), s')"
        using ids(1) first(3)
        by (auto simp: try_claim_waiting [OF target] outranked_Cons held_back_def
            simp del: outranked.simps split: sum.split option.split)
      with claim ids(1) show ?thesis by auto
    qed
  qed
qed

lemma try_claim_agrees_witness:
  "fst (try_claim plain_env demo_limits 20 ''b'' demo_queue) =
     Inr (Some (started 20 (last (st_scheduled demo_queue))))"
proof -
  let ?i = "started 20 (last (st_scheduled demo_queue))"
  have 1: "unique_rows swi_id (st_scheduled demo_queue)" by code_simp
  have 2: "lookup_row swi_id ''b'' (st_scheduled demo_queue) = Some (last (st_scheduled demo_queue))"
    by code_simp
  have 3: "is_waiting (last (st_scheduled demo_queue))" by code_simp
  have 4: "fst (claim_next_work plain_env demo_limits 20 demo_queue) = Inr (Some ?i)" by code_simp
  have 5: "swi_id ?i = ''b''" by code_simp
  from 4 have "claim_next_work plain_env demo_limits 20 demo_queue =
      (Inr (Some ?i), snd (claim_next_work plain_env demo_limits 20 demo_queue))" by (metis prod.collapse)
  with try_claim_agrees [OF 1 2 3] 5 show ?thesis by (metis fst_conv)
qed

text \<open>C28: A claim takes the best: the granted item is admissible, its score is maximal among the waiting
  items that are not held back (ties go to the older one, then to the smaller identifier), every
  waiting item ahead of it is held back by its budget, a limit or a lease, and the grant is stored.\<close>

theorem claim_next_takes_best:
  assumes run: "claim_next_work e L now s = (Inr (Some i'), s')"
  shows "int (length (active_work s)) < sl_global_concurrency L \<and>
    (\<exists>i\<in>set (st_scheduled s). is_waiting i \<and> admissible e L now s (active_work s) i \<and>
       i' = started now i \<and> lookup_row swi_id (swi_id i) (st_scheduled s') = Some i' \<and>
       (\<forall>j\<in>set (st_scheduled s). is_waiting j \<and> ahead j i \<longrightarrow> held_back e L now s (active_work s) j))"
proof -
  have free: "int (length (active_work s)) < sl_global_concurrency L"
    using claim_next_full [of L s e now] run by fastforce
  let ?cs = "ranked (filter is_waiting (st_scheduled s))"
  show ?thesis
  proof (cases rule: first_not_held [of ?cs e L now s "active_work s"])
    case none
    with run show ?thesis by (simp add: claim_next_free [OF free] claim_loop_None)
  next
    case (first before i after)
    from run have i: "admissible e L now s (active_work s) i" "i' = started now i"
      "s' = save_scheduled_work i' (pass_over e L now (active_work s) before s)"
      unfolding claim_next_free [OF free] first(1) claim_loop_first [OF first(2,3)]
      using not_held_verdict [OF first(3)] by (auto simp: admissible_def split: sum.splits)
    have mem: "i \<in> set (st_scheduled s)" "is_waiting i"
      using arg_cong [OF first(1), of set] by auto
    have "held_back e L now s (active_work s) j" if "j \<in> set (st_scheduled s)" "is_waiting j" "ahead j i" for j
      using ranked_before [OF first(1)] first(2) that by simp
    moreover have "lookup_row swi_id (swi_id i) (st_scheduled s') = Some i'"
      using i(2,3) by (simp add: row_simps)
    ultimately show ?thesis using free mem i(1,2) by blast
  qed
qed

lemma claim_next_takes_best_witness:
  "int (length (active_work demo_queue)) < sl_global_concurrency demo_limits \<and>
   swi_id (last (st_scheduled demo_queue)) = ''b'' \<and> is_waiting (hd (st_scheduled demo_queue))"
proof -
  have "fst (claim_next_work plain_env demo_limits 20 demo_queue) =
      Inr (Some (started 20 (last (st_scheduled demo_queue))))" by code_simp
  then have "claim_next_work plain_env demo_limits 20 demo_queue = (Inr (Some (started 20 (last (st_scheduled demo_queue)))),
      snd (claim_next_work plain_env demo_limits 20 demo_queue))" by (metis prod.collapse)
  from claim_next_takes_best [OF this, THEN conjunct1]
  have "int (length (active_work demo_queue)) < sl_global_concurrency demo_limits" .
  moreover have "swi_id (last (st_scheduled demo_queue)) = ''b''" by code_simp
  moreover have "is_waiting (hd (st_scheduled demo_queue))" by code_simp
  ultimately show ?thesis by blast
qed

lemma ahead_started [simp]: "ahead j (started now i) = ahead j i"
  by (simp add: ahead_def started_def checkpointed_def)

text \<open>C32: Admissible work does not starve behind blocked work: when a global slot is free, the tickets of
  the waiting items can be read, and some waiting item is admissible, then the next claim starts an
  item, and not one that the admissible item is ahead of.\<close>

theorem admissible_work_is_claimed:
  assumes free: "int (length (active_work s)) < sl_global_concurrency L"
    and i: "i \<in> set (st_scheduled s)" "is_waiting i" "admissible e L now s (active_work s) i"
    and tickets: "\<forall>j\<in>set (st_scheduled s). is_waiting j \<longrightarrow> (\<exists>t. get_ticket e s (swi_ticket_id j) = Inr t)"
  shows "\<exists>j s'. claim_next_work e L now s = (Inr (Some j), s') \<and> swi_status j = ''RUNNING'' \<and> \<not> ahead i j"
proof -
  let ?cs = "ranked (filter is_waiting (st_scheduled s))"
  have mem: "i \<in> set ?cs" using i by simp
  show ?thesis
  proof (cases rule: first_not_held [of ?cs e L now s "active_work s"])
    case none
    with mem admissible_not_held i(3) show ?thesis by blast
  next
    case (first before j after)
    have j: "j \<in> set (st_scheduled s)" "is_waiting j"
      using arg_cong [OF first(1), of set] by auto
    with tickets have "\<exists>v. verdict e L now s (active_work s) j = Inr v" by (auto simp: verdict_def split: sum.split)
    with not_held_verdict [OF first(3)] have "verdict e L now s (active_work s) j = Inr None" by blast
    then have "claim_next_work e L now s = (Inr (Some (started now j)),
        save_scheduled_work (started now j) (pass_over e L now (active_work s) before s))"
      unfolding claim_next_free [OF free] first(1) claim_loop_first [OF first(2,3)] by simp
    moreover have "\<not> ahead i j"
      using ranked_before [OF first(1)] first(2) i admissible_not_held by fastforce
    ultimately show ?thesis by simp
  qed
qed

lemma admissible_work_is_claimed_witness:
  "\<exists>j s'. claim_next_work plain_env demo_limits 20 demo_queue = (Inr (Some j), s') \<and>
     swi_status j = ''RUNNING'' \<and> \<not> ahead (last (st_scheduled demo_queue)) j"
proof (rule admissible_work_is_claimed)
  let ?i = "last (st_scheduled demo_queue)"
  show "int (length (active_work demo_queue)) < sl_global_concurrency demo_limits" by code_simp
  show "is_waiting ?i" by code_simp
  have "st_scheduled demo_queue \<noteq> []" by code_simp
  then show "?i \<in> set (st_scheduled demo_queue)" by (rule last_in_set)
  show "admissible plain_env demo_limits 20 demo_queue (active_work demo_queue) ?i" by code_simp
  have "list_all (\<lambda>j. swi_ticket_id j = ''ii'') (st_scheduled demo_queue)" by code_simp
  moreover have "get_ticket plain_env demo_queue ''ii'' = Inr (hd (st_tickets demo_queue))" by code_simp
  ultimately show "\<forall>j\<in>set (st_scheduled demo_queue). is_waiting j \<longrightarrow>
      (\<exists>t. get_ticket plain_env demo_queue (swi_ticket_id j) = Inr t)"
    by (simp add: list_all_iff)
qed

section \<open>Cancellation\<close>

lemma get_work_lookup: "get_work s k = Inr i \<longleftrightarrow> lookup_row swi_id k (st_scheduled s) = Some i"
  by (simp add: get_work_def lookup_row_def split: option.split)

lemma finish_work_stored:
  assumes "finish_work e tmp now stage detail j s = (Inr i, s1, removed)"
  shows "lookup_row swi_id (swi_id j) (st_scheduled s1) = Some i \<and> swi_status i = swi_status j"
  using assms by (auto simp: finish_work_def put_checkpoint_eq row_simps dest!: dispose_fields
      split: prod.splits sum.splits)

lemma request_cancellation_stored:
  assumes "request_cancellation e tmp now k actor reason s = (Inr i, s1, removed)"
  shows "lookup_row swi_id k (st_scheduled s1) = Some i"
proof (cases "get_work s k")
  case (Inl x)
  with assms show ?thesis by (simp add: request_cancellation_def)
next
  case (Inr i0)
  from get_work_Inr [OF this] have k: "swi_id i0 = k" by simp
  let ?j = "i0\<lparr>swi_cancellation_requested := True, swi_cancelled_by := Some (py_strip actor),
              swi_cancellation_reason := Some (py_strip reason)\<rparr>"
  consider "i = i0" "s1 = s" | "cancel_work e tmp now actor reason ?j s = (Inr i, s1, removed)"
    | "i = checkpointed now ''CANCELLATION_REQUESTED'' (py_strip reason) 0 0 [] (?j\<lparr>swi_status := ''CANCELLATION_REQUESTED''\<rparr>)"
        "s1 = save_scheduled_work i s"
    using assms Inr by (auto simp: request_cancellation_def put_checkpoint_eq Let_def split: if_splits)
  then show ?thesis
  proof cases
    case 1
    with Inr show ?thesis by (simp add: get_work_lookup)
  next
    case 2
    from finish_work_stored [OF this [unfolded cancel_work_def]] k show ?thesis by simp
  next
    case 3
    with k show ?thesis by (simp add: row_simps)
  qed
qed

lemma remove_resources_error:
  "remove_resources e base vs = (removed, Inl x) \<Longrightarrow>
     x = RuntimeError ''Scheduler refused to dispose a resource outside its temporary root.''"
  by (induction vs arbitrary: removed) (auto simp: Let_def split: if_splits prod.splits)

lemma dispose_error:
  "dispose_resources e tmp i = (removed, Inl x) \<Longrightarrow>
     x = RuntimeError ''Scheduler refused to dispose a resource outside its temporary root.''"
  by (auto simp: dispose_resources_def dest: remove_resources_error split: if_splits option.splits prod.splits sum.splits)

lemma finish_work_error:
  assumes "finish_work e tmp now stage detail j s = (Inl x, s1, removed)"
  shows "x = RuntimeError ''Scheduler refused to dispose a resource outside its temporary root.'' \<and> s1 = s"
  using assms by (auto simp: finish_work_def put_checkpoint_eq dest!: dispose_error split: prod.splits sum.splits)

lemma checkpoint_of_requested:
  assumes "requested k s"
    and "work_checkpoint e tmp now k stage detail calls seconds ev s = (r, s', removed)"
  shows "(\<exists>why i. r = Inl (SchedulingCancelled why) \<and>
        lookup_row swi_id k (st_scheduled s') = Some i \<and> swi_status i = ''CANCELLED'') \<or>
     (r = Inl (RuntimeError ''Scheduler refused to dispose a resource outside its temporary root.'') \<and> s' = s)"
proof -
  from assms(1) obtain i where i: "get_work s k = Inr i" "swi_cancellation_requested i"
    by (auto simp: requested_def get_work_lookup)
  then have k: "swi_id i = k" using get_work_Inr by blast
  obtain actor reason where run: "work_checkpoint e tmp now k stage detail calls seconds ev s =
      (case cancel_work e tmp now actor reason i s of
         (Inl x, s1, removed) \<Rightarrow> (Inl x, s1, removed)
       | (Inr _, s1, removed) \<Rightarrow>
           (Inl (SchedulingCancelled (if truthy (swi_cancellation_reason i) then the (swi_cancellation_reason i)
              else ''Scheduled work was cancelled.'')), s1, removed))"
    using i by (simp add: work_checkpoint_def)
  obtain c s1 rem where c: "cancel_work e tmp now actor reason i s = (c, s1, rem)"
    by (metis prod.collapse)
  show ?thesis
  proof (cases c)
    case (Inl x)
    with c finish_work_error run assms(2) show ?thesis by (fastforce simp: cancel_work_def)
  next
    case (Inr j)
    with c have "finish_work e tmp now ''CANCELLED'' (py_strip reason)
       (i\<lparr>swi_cancellation_requested := True, swi_cancelled_by := Some (py_strip actor),
          swi_cancellation_reason := Some (py_strip reason), swi_status := ''CANCELLED''\<rparr>) s = (Inr j, s1, rem)"
      by (simp add: cancel_work_def)
    from finish_work_stored [OF this] run assms(2) c Inr k show ?thesis by auto
  qed
qed

text \<open>C29: A requested cancellation takes effect and cannot be lost: once a request for an item has been
  recorded, then after any further steps of the scheduler (claims, restarts, resumption) the next
  checkpoint of the item raises. It raises \<open>SchedulingCancelled\<close> and leaves the item \<open>CANCELLED\<close>,
  unless the disposal of a resource outside the temporary root is refused, which changes nothing.\<close>

theorem requested_cancellation_takes_effect:
  assumes "run_of (sched_step e tmp L) s0 s" and "st_scheduled s0 = []" and "limits_valid L"
    and request: "request_cancellation e tmp now k actor reason s = (Inr i, s1, removed)"
    and pending: "swi_cancellation_requested i"
    and later: "run_of (sched_step e tmp L) s1 s2"
    and checkpoint: "work_checkpoint e tmp now' k stage detail calls seconds ev s2 = (r, s3, removed')"
  shows "(\<exists>why j. r = Inl (SchedulingCancelled why) \<and>
        lookup_row swi_id k (st_scheduled s3) = Some j \<and> swi_status j = ''CANCELLED'') \<or>
     (r = Inl (RuntimeError ''Scheduler refused to dispose a resource outside its temporary root.'') \<and> s3 = s2)"
proof -
  have "sched_ok L {} s1" using request_cancellation_ok [OF request sched_run_ok [OF assms(1-3)]] .
  moreover have "requested k s1"
    using request_cancellation_stored [OF request] pending by (simp add: requested_def)
  ultimately have "sched_ok L {k} s1" by (simp add: sched_ok_def)
  from scheduler.run_inv [OF later this] have "requested k s2" by (simp add: sched_ok_def)
  from checkpoint_of_requested [OF this checkpoint] show ?thesis .
qed

definition demo_requested :: "scheduled_work_item result \<times> store \<times> string list" where
  "demo_requested = request_cancellation plain_env None 30 ''b'' ''ann'' ''stop'' demo_claimed"

definition demo_restarted :: store where
  "demo_restarted = snd (restore_interrupted 40 (fst (snd demo_requested)))"

lemma requested_cancellation_takes_effect_witness:
  "fst (work_checkpoint plain_env None 50 ''b'' ''X'' ''y'' 0 0 [] demo_restarted) = Inl (SchedulingCancelled ''stop'') \<and>
   lookup_row swi_id ''b'' (st_scheduled (fst (snd (work_checkpoint plain_env None 50 ''b'' ''X'' ''y'' 0 0 [] demo_restarted))))
     \<noteq> None"
proof -
  let ?c = "work_checkpoint plain_env None 50 ''b'' ''X'' ''y'' 0 0 [] demo_restarted"
  let ?i = "last (st_scheduled (fst (snd demo_requested)))"
  have "fst demo_requested = Inr ?i" by code_simp
  then have 1: "request_cancellation plain_env None 30 ''b'' ''ann'' ''stop'' demo_claimed =
      (Inr ?i, fst (snd demo_requested), snd (snd demo_requested))"
    unfolding demo_requested_def by (metis prod.collapse)
  have 2: "swi_cancellation_requested ?i" by code_simp
  have "sched_step plain_env None demo_limits (fst (snd demo_requested)) demo_restarted"
    by (rule sched_restore [where r = "fst (restore_interrupted 40 (fst (snd demo_requested)))"])
      (simp add: demo_restarted_def)
  then have 3: "run_of (sched_step plain_env None demo_limits) (fst (snd demo_requested)) demo_restarted" by (rule run_of_one)
  have 4: "?c = (fst ?c, fst (snd ?c), snd (snd ?c))" by simp
  have 5: "fst ?c = Inl (SchedulingCancelled ''stop'')" by code_simp
  from requested_cancellation_takes_effect [OF demo_claimed_run demo_unscheduled demo_limits_valid 1 2 3 4] 5
  show ?thesis by auto
qed

section \<open>Disposal\<close>

lemma removed_inside:
  "remove_resources e base vs = (removed, r) \<Longrightarrow> p \<in> set removed \<Longrightarrow>
     strictly_inside base p \<and> p \<in> env_resolve e ` set vs"
  by (induction vs arbitrary: removed r) (auto simp: Let_def split: if_splits prod.splits)

lemma dispose_inside:
  assumes "dispose_resources e tmp i = (removed, r)" and "p \<in> set removed"
  shows "\<exists>base. tmp = Some base \<and> strictly_inside (env_resolve e base) p \<and>
    p \<in> env_resolve e ` set (swi_temporary_resources i)"
  using assms by (auto simp: dispose_resources_def dest: removed_inside
      split: if_splits option.splits prod.splits sum.splits)

lemma finish_inside:
  assumes "finish_work e tmp now stage detail i s = (r, s', removed)" and "p \<in> set removed"
  shows "\<exists>base. tmp = Some base \<and> strictly_inside (env_resolve e base) p \<and>
    p \<in> env_resolve e ` set (swi_temporary_resources i)"
  using assms by (auto simp: finish_work_def dest!: dispose_inside split: prod.splits sum.splits)

text \<open>Each ending operation removes nothing, or is \<open>finish_work\<close> on a version of the item with the same
  resources.\<close>

definition finishes ::
  "env \<Rightarrow> string option \<Rightarrow> string \<Rightarrow> store \<Rightarrow> store \<Rightarrow> string list \<Rightarrow> bool" where
  "finishes e tmp k s s' removed \<longleftrightarrow>
     removed = [] \<or>
     (\<exists>i j now stage detail r. get_work s k = Inr i \<and> swi_temporary_resources j = swi_temporary_resources i \<and>
        finish_work e tmp now stage detail j s = (r, s', removed))"

lemma finishesI:
  "finish_work e tmp now stage detail j s = (r, s', removed) \<Longrightarrow> get_work s k = Inr i \<Longrightarrow>
     swi_temporary_resources j = swi_temporary_resources i \<Longrightarrow> finishes e tmp k s s' removed"
  unfolding finishes_def by blast

lemma complete_finishes: "complete_work e tmp now k wanted detail s = (r, s', removed) \<Longrightarrow> finishes e tmp k s s' removed"
  by (cases "get_work s k")
    (auto simp: complete_work_def finishes_def [of _ _ _ _ _ "[]"] Let_def intro: finishesI split: if_splits)

lemma cancel_work_finishes:
  "cancel_work e tmp now actor reason j s = (r, s', removed) \<Longrightarrow> get_work s k = Inr i \<Longrightarrow>
     swi_temporary_resources j = swi_temporary_resources i \<Longrightarrow> finishes e tmp k s s' removed"
  unfolding cancel_work_def by (erule finishesI) simp_all

lemma cancel_finishes: "cancel e tmp now k actor reason s = (r, s', removed) \<Longrightarrow> finishes e tmp k s s' removed"
  by (cases "get_work s k") (auto simp: cancel_def finishes_def [of _ _ _ _ _ "[]"] intro: cancel_work_finishes)

lemma request_finishes:
  "request_cancellation e tmp now k actor reason s = (r, s', removed) \<Longrightarrow> finishes e tmp k s s' removed"
  by (cases "get_work s k")
    (auto simp: request_cancellation_def finishes_def [of _ _ _ _ _ "[]"] put_checkpoint_eq Let_def
      intro: cancel_work_finishes split: if_splits)

lemma checkpoint_finishes:
  "work_checkpoint e tmp now k stage detail calls seconds ev s = (r, s', removed) \<Longrightarrow> finishes e tmp k s s' removed"
  by (cases "get_work s k")
    (auto simp: work_checkpoint_def finishes_def [of _ _ _ _ _ "[]"] Let_def
      intro: cancel_work_finishes split: if_splits prod.splits sum.splits)

text \<open>C30: Disposal is confined: whichever operation ends an item (completion, cancellation, a request
  for it, or a checkpoint after one), every path it removes is a resource registered for that item
  and lies strictly inside the temporary root of the scheduler; without a temporary root nothing is
  removed.\<close>

theorem disposal_confined:
  assumes "complete_work e tmp now k wanted detail s = (r, s', removed) \<or>
      cancel e tmp now k actor reason s = (r, s', removed) \<or>
      request_cancellation e tmp now k actor reason s = (r, s', removed) \<or>
      work_checkpoint e tmp now k stage detail calls seconds ev s = (r, s', removed)"
    and "p \<in> set removed"
  shows "\<exists>base i. tmp = Some base \<and> strictly_inside (env_resolve e base) p \<and>
    lookup_row swi_id k (st_scheduled s) = Some i \<and> p \<in> env_resolve e ` set (swi_temporary_resources i)"
proof -
  have "finishes e tmp k s s' removed"
    using assms(1) by (elim disjE)
      (erule complete_finishes cancel_finishes request_finishes checkpoint_finishes)+
  with assms(2) obtain i j now stage detail r where "get_work s k = Inr i"
    "swi_temporary_resources j = swi_temporary_resources i" "finish_work e tmp now stage detail j s = (r, s', removed)"
    unfolding finishes_def by auto
  with finish_inside [OF this(3) assms(2)] show ?thesis by (auto simp: get_work_lookup)
qed

definition demo_registered :: store where
  "demo_registered = snd (register_temporary_resource plain_env ''b'' ''/t/x'' demo_claimed)"

lemma disposal_confined_witness:
  "snd (snd (complete_work plain_env (Some ''/t'') 60 ''b'' ''COMPLETED'' ''ok'' demo_registered)) = [''/t/x''] \<and>
   strictly_inside (env_resolve plain_env ''/t'') ''/t/x''"
proof -
  let ?c = "complete_work plain_env (Some ''/t'') 60 ''b'' ''COMPLETED'' ''ok'' demo_registered"
  have removed: "snd (snd ?c) = [''/t/x'']" by code_simp
  have "?c = (fst ?c, fst (snd ?c), snd (snd ?c))" by simp
  from disposal_confined [OF disjI1 [OF this], of "''/t/x''"] removed show ?thesis by auto
qed

end
