(* ===== verification/Json_Parse.thy ===== *)
theory Json_Parse
  imports Canonical_Json
begin

text \<open>
  Reading JSON back (\<open>json.loads\<close>): white space, literals, integers, strings with their escapes,
  arrays, and objects, where the last of several members with one key wins. Texts are UTF-8 bytes, so
  a \<open>\u\<close> escape yields the bytes of its code point. Floating-point numbers and surrogate pairs,
  which nothing here writes, are read as errors. The nesting is bounded by a fuel that any text of
  its length can afford (\<open>loads_canonical\<close>: what was written is read back).
\<close>

section \<open>Tokens\<close>

definition is_space :: "char \<Rightarrow> bool" where
  "is_space c \<longleftrightarrow> c = CHR '' '' \<or> c = CHR 0x09 \<or> c = CHR 0x0A \<or> c = CHR 0x0D"

definition skip_space :: "string \<Rightarrow> string" where
  "skip_space s = dropWhile is_space s"

definition hex_code :: "char \<Rightarrow> nat option" where
  "hex_code c =
     (let n = (of_char c :: nat) in
      if 48 \<le> n \<and> n \<le> 57 then Some (n - 48)
      else if 97 \<le> n \<and> n \<le> 102 then Some (n - 87)
      else if 65 \<le> n \<and> n \<le> 70 then Some (n - 55)
      else None)"

text \<open>The bytes of a code point of the basic plane.\<close>

definition utf8_of :: "nat \<Rightarrow> string option" where
  "utf8_of n =
     (if n < 128 then Some [char_of n]
      else if n < 2048 then Some [char_of (192 + n div 64), char_of (128 + n mod 64)]
      else if 55296 \<le> n \<and> n \<le> 57343 then None
      else Some [char_of (224 + n div 4096), char_of (128 + n div 64 mod 64), char_of (128 + n mod 64)])"

definition parse_hex4 :: "string \<Rightarrow> (string \<times> string) option" where
  "parse_hex4 s =
     (case s of
        a # b # c # d # r \<Rightarrow>
          (case (hex_code a, hex_code b, hex_code c, hex_code d) of
             (Some i, Some j, Some k, Some l) \<Rightarrow>
               map_option (\<lambda>u. (u, r)) (utf8_of (4096 * i + 256 * j + 16 * k + l))
           | _ \<Rightarrow> None)
      | _ \<Rightarrow> None)"

definition parse_escape :: "string \<Rightarrow> (string \<times> string) option" where
  "parse_escape s =
     (case s of
        [] \<Rightarrow> None
      | d # r \<Rightarrow>
          if d = CHR 0x22 \<or> d = CHR 0x5C \<or> d = CHR 0x2F then Some ([d], r)
          else if d = CHR ''n'' then Some ([CHR 0x0A], r)
          else if d = CHR ''r'' then Some ([CHR 0x0D], r)
          else if d = CHR ''t'' then Some ([CHR 0x09], r)
          else if d = CHR ''b'' then Some ([CHR 0x08], r)
          else if d = CHR ''f'' then Some ([CHR 0x0C], r)
          else if d = CHR ''u'' then parse_hex4 r
          else None)"

text \<open>One character of a string, raw or escaped; \<open>None\<close> at the closing quote and for a control
  character.\<close>

definition parse_char :: "string \<Rightarrow> (string \<times> string) option" where
  "parse_char s =
     (case s of
        [] \<Rightarrow> None
      | c # r \<Rightarrow>
          if c = CHR 0x22 then None
          else if c = CHR 0x5C then parse_escape r
          else if (of_char c :: nat) < 32 then None
          else Some ([c], r))"

lemma parse_hex4_shorter: "parse_hex4 s = Some (u, r) \<Longrightarrow> length r < length s"
  by (auto simp: parse_hex4_def split: list.splits option.splits)

lemma parse_escape_shorter: "parse_escape s = Some (u, r) \<Longrightarrow> length r < length s"
  by (auto simp: parse_escape_def dest: parse_hex4_shorter split: list.splits if_splits)

lemma parse_char_shorter: "parse_char s = Some (u, r) \<Longrightarrow> length r < length s"
  by (auto simp: parse_char_def dest: parse_escape_shorter split: list.splits if_splits)

text \<open>The rest of a string after its opening quote.\<close>

function parse_string :: "string \<Rightarrow> (string \<times> string) option" where
  "parse_string s =
     (case s of
        [] \<Rightarrow> None
      | c # r \<Rightarrow>
          if c = CHR 0x22 then Some ([], r)
          else (case parse_char s of
                  None \<Rightarrow> None
                | Some (u, r') \<Rightarrow> map_option (\<lambda>(t, r''). (u @ t, r'')) (parse_string r')))"
  by auto
termination by (relation "measure length") (auto dest: parse_char_shorter)

declare parse_string.simps [simp del]

lemma parse_string_shorter: "parse_string s = Some (t, r) \<Longrightarrow> length r < length s"
proof (induction s arbitrary: t rule: parse_string.induct)
  case (1 s)
  from "1.prems" show ?case
    by (auto simp: parse_string.simps [of s] split: list.splits if_splits option.splits)
      (metis "1.IH" list.exhaust length_Cons less_SucI less_trans parse_char_shorter)
qed

definition parse_number :: "string \<Rightarrow> (json \<times> string) option" where
  "parse_number s =
     (let (neg, body) = (case s of [] \<Rightarrow> (False, []) | c # r \<Rightarrow> if c = CHR ''-'' then (True, r) else (False, s));
          ds = takeWhile is_digit body; r = dropWhile is_digit body
      in if ds = [] \<or> (length ds > 1 \<and> hd ds = CHR ''0'') \<or>
            (case r of [] \<Rightarrow> False | c # _ \<Rightarrow> c \<in> {CHR ''.'', CHR ''e'', CHR ''E''}) then None
         else Some (JInt (if neg then - int (digits_value ds) else int (digits_value ds)), r))"

section \<open>Values\<close>

definition literal :: "string \<Rightarrow> json \<Rightarrow> string \<Rightarrow> (json \<times> string) option" where
  "literal w v s = (if take (length w) s = w then Some (v, drop (length w) s) else None)"

fun parse_value :: "nat \<Rightarrow> string \<Rightarrow> (json \<times> string) option"
and parse_elements :: "nat \<Rightarrow> string \<Rightarrow> (json list \<times> string) option"
and parse_members :: "nat \<Rightarrow> string \<Rightarrow> ((string \<times> json) list \<times> string) option" where
  "parse_value 0 s = None"
| "parse_value (Suc n) s =
     (case skip_space s of
        [] \<Rightarrow> None
      | c # r \<Rightarrow>
          if c = CHR 0x22 then map_option (\<lambda>(t, r'). (JStr t, r')) (parse_string r)
          else if c = CHR ''['' then
            (case skip_space r of
               [] \<Rightarrow> None
             | d # r' \<Rightarrow> if d = CHR '']'' then Some (JList [], r')
                 else map_option (\<lambda>(vs, r''). (JList vs, r'')) (parse_elements n r))
          else if c = CHR ''{'' then
            (case skip_space r of
               [] \<Rightarrow> None
             | d # r' \<Rightarrow> if d = CHR ''}'' then Some (JObj [], r')
                 else map_option (\<lambda>(ms, r''). (JObj (dict_of_pairs ms), r'')) (parse_members n r))
          else if c = CHR ''n'' then literal ''null'' JNull (c # r)
          else if c = CHR ''t'' then literal ''true'' (JBool True) (c # r)
          else if c = CHR ''f'' then literal ''false'' (JBool False) (c # r)
          else parse_number (c # r))"
| "parse_elements 0 s = None"
| "parse_elements (Suc n) s =
     (case parse_value n s of
        None \<Rightarrow> None
      | Some (v, r) \<Rightarrow>
          (case skip_space r of
             [] \<Rightarrow> None
           | c # r' \<Rightarrow>
               if c = CHR '','' then map_option (\<lambda>(vs, r''). (v # vs, r'')) (parse_elements n r')
               else if c = CHR '']'' then Some ([v], r')
               else None))"
| "parse_members 0 s = None"
| "parse_members (Suc n) s =
     (case skip_space s of
        [] \<Rightarrow> None
      | q # r0 \<Rightarrow>
          if q \<noteq> CHR 0x22 then None
          else case parse_string r0 of
            None \<Rightarrow> None
          | Some (k, r1) \<Rightarrow>
              (case skip_space r1 of
                 [] \<Rightarrow> None
               | c # r2 \<Rightarrow>
                   if c \<noteq> CHR '':'' then None
                   else case parse_value n r2 of
                     None \<Rightarrow> None
                   | Some (v, r3) \<Rightarrow>
                       (case skip_space r3 of
                          [] \<Rightarrow> None
                        | d # r4 \<Rightarrow>
                            if d = CHR '','' then map_option (\<lambda>(ms, r5). ((k, v) # ms, r5)) (parse_members n r4)
                            else if d = CHR ''}'' then Some ([(k, v)], r4)
                            else None)))"

definition loads :: "string \<Rightarrow> json option" where
  "loads s =
     (case parse_value (2 * length s + 1) s of
        None \<Rightarrow> None
      | Some (v, r) \<Rightarrow> if skip_space r = [] then Some v else None)"

section \<open>What is written is read back\<close>

lemma hex_code_digit: "n < 16 \<Longrightarrow> hex_code (hex_digit n) = Some n"
  by (auto simp: hex_code_def hex_digit_def Let_def)

lemma hex_code_zero: "hex_code (CHR ''0'') = Some 0"
  by code_simp

lemma control_codes: "char_of (10 :: nat) = CHR 0x0A" "char_of (13 :: nat) = CHR 0x0D" "char_of (9 :: nat) = CHR 0x09"
  "char_of (8 :: nat) = CHR 0x08" "char_of (12 :: nat) = CHR 0x0C"
  by code_simp+

lemma parse_char_escape: "parse_char (escape_char c @ r) = Some ([c], r)"
proof -
  let ?n = "of_char c :: nat"
  consider "?n = 34" | "?n = 92" | "?n = 10" | "?n = 13" | "?n = 9" | "?n = 8" | "?n = 12"
    | "?n < 32" "?n \<notin> {8, 9, 10, 12, 13}" | "32 \<le> ?n" "?n \<noteq> 34" "?n \<noteq> 92"
    by fastforce
  then show ?thesis
  proof cases
    case 1
    then have "c = CHR 0x22" by (metis char_of_char char_of_quote)
    then show ?thesis by (simp add: escape_char_def parse_char_def parse_escape_def)
  next
    case 2
    then have "c = CHR 0x5C" by (metis char_of_char char_of_backslash)
    then show ?thesis by (simp add: escape_char_def parse_char_def parse_escape_def)
  next
    case 8
    from 8 have small: "?n div 16 < 16" "?n mod 16 < 16" by auto
    have "16 * (?n div 16) + ?n mod 16 = ?n" by presburger
    with 8 small show ?thesis
      by (simp add: escape_char_def parse_char_def parse_escape_def parse_hex4_def Let_def
          hex_code_digit hex_code_zero utf8_of_def)
  next
    case 9
    then have "c \<noteq> CHR 0x22" and "c \<noteq> CHR 0x5C" by auto
    with 9 show ?thesis by (simp add: escape_char_def parse_char_def Let_def)
  qed (auto simp: escape_char_def parse_char_def parse_escape_def Let_def control_codes dest!: char_by_code)
qed

lemma parse_string_quoted: "parse_string (concat (map escape_char t) @ CHR 0x22 # r) = Some (t, r)"
proof (induction t)
  case Nil
  show ?case by (simp add: parse_string.simps)
next
  case (Cons c t)
  obtain d q where s: "escape_char c @ concat (map escape_char t) @ CHR 0x22 # r = d # q"
    by (cases "escape_char c @ concat (map escape_char t) @ CHR 0x22 # r") (auto simp: escape_char_def Let_def split: if_splits)
  then have "d \<noteq> CHR 0x22" using escape_char_no_quote by fastforce
  moreover have "parse_char (d # q) = Some ([c], concat (map escape_char t) @ CHR 0x22 # r)"
    using parse_char_escape [of c "concat (map escape_char t) @ CHR 0x22 # r"] s by simp
  ultimately have "parse_string (d # q) = Some (c # t, r)"
    using Cons.IH by (subst parse_string.simps) simp
  then show ?case using s by simp
qed

definition closes :: "string \<Rightarrow> bool" where
  "closes r \<longleftrightarrow> (case r of [] \<Rightarrow> True | c # _ \<Rightarrow> c = CHR '','' \<or> c = CHR '']'' \<or> c = CHR ''}'')"

lemma closes_Cons [simp]: "closes []" "closes (CHR '','' # r)" "closes (CHR '']'' # r)" "closes (CHR ''}'' # r)"
  by (simp_all add: closes_def)

lemma comma_no_digit: "\<not> is_digit (CHR '','')"
  by code_simp

lemma closes_no_digit: "closes r \<Longrightarrow> no_digit r"
  by (auto simp: closes_def no_digit_def word_no_digit comma_no_digit split: list.splits)

lemma nat_digits_leading: "0 < n \<Longrightarrow> hd (nat_digits n) \<noteq> CHR ''0''"
proof (induction n rule: nat_digits.induct)
  case (1 n)
  show ?case
  proof (cases "n < 10")
    case True
    have "(of_char (CHR ''0'') :: nat) = 48" by code_simp
    moreover have "(of_char (char_of (48 + n) :: char) :: nat) = 48 + n" using digit_code [OF True] .
    ultimately have "char_of (48 + n) \<noteq> CHR ''0''" using 1(2) by force
    with True show ?thesis by (simp add: nat_digits.simps [of n])
  next
    case False
    then have "0 < n div 10" by simp
    with 1(1) False nat_digits_not_Nil [of "n div 10"] show ?thesis
      by (simp add: nat_digits.simps [of n] hd_append)
  qed
qed

lemma digits_then: "no_digit r \<Longrightarrow> takeWhile is_digit (nat_digits n @ r) = nat_digits n"
    "no_digit r \<Longrightarrow> dropWhile is_digit (nat_digits n @ r) = r"
  using takeWhile_digits [of r n] takeWhile_dropWhile_id [of is_digit "nat_digits n @ r"] by auto

lemma no_leading_zero: "\<not> (length (nat_digits n) > 1 \<and> hd (nat_digits n) = CHR ''0'')"
  using nat_digits_leading [of n] by (cases "n = 0") (auto simp: nat_digits.simps [of 0])

lemma parse_number_int:
  assumes "closes r"
  shows "parse_number (py_str_int i @ r) = Some (JInt i, r)"
proof -
  have r: "\<not> (case r of [] \<Rightarrow> False | c # _ \<Rightarrow> c \<in> {CHR ''.'', CHR ''e'', CHR ''E''})"
    using assms by (auto simp: closes_def split: list.splits)
  have head: "nat_digits n @ r \<noteq> CHR ''-'' # q" for n q
    using nat_digits_not_Nil nat_digits_first minus_no_digit by (cases "nat_digits n") auto
  note digits = digits_then [OF closes_no_digit [OF assms]] nat_digits_value nat_digits_not_Nil
  show ?thesis
  proof (cases "i < 0")
    case True
    with r no_leading_zero [of "nat (- i)"] show ?thesis
      by (simp add: parse_number_def py_str_int_def Let_def digits)
  next
    case False
    obtain c q where cq: "nat_digits (nat i) @ r = c # q"
      using nat_digits_not_Nil by (cases "nat_digits (nat i)") auto
    with head have "c \<noteq> CHR ''-''" by blast
    with False r cq no_leading_zero [of "nat i"] digits(1,2) [of "nat i"] show ?thesis
      by (simp add: parse_number_def py_str_int_def Let_def nat_digits_value nat_digits_not_Nil)
  qed
qed

fun distinct_keys :: "json \<Rightarrow> bool" where
  "distinct_keys (JList xs) = (\<forall>x\<in>set xs. distinct_keys x)"
| "distinct_keys (JObj ms) = (distinct (map fst ms) \<and> (\<forall>m\<in>set ms. distinct_keys (snd m)))"
| "distinct_keys v = True"

definition readable :: "json \<Rightarrow> bool" where
  "readable v \<longleftrightarrow> (\<forall>n r. 2 * length (canonical_json v) + 1 \<le> n \<longrightarrow> closes r \<longrightarrow>
     parse_value n (canonical_json v @ r) = Some (sort_keys v, r))"

lemma space_codes: "\<not> is_space (CHR ''n'')" "\<not> is_space (CHR ''t'')" "\<not> is_space (CHR ''f'')"
  "\<not> is_space (CHR 0x22)" "\<not> is_space (CHR ''['')" "\<not> is_space (CHR ''{'')" "\<not> is_space (CHR ''-'')"
  "\<not> is_space (CHR '','')" "\<not> is_space (CHR '']'')" "\<not> is_space (CHR ''}'')" "\<not> is_space (CHR '':'')"
  by code_simp+

lemma digit_no_space: "is_digit c \<Longrightarrow> \<not> is_space c"
proof -
  have "(of_char (CHR '' '') :: nat) = 32" "(of_char (CHR 0x09) :: nat) = 9" "(of_char (CHR 0x0A) :: nat) = 10"
    "(of_char (CHR 0x0D) :: nat) = 13" by code_simp+
  then show "is_digit c \<Longrightarrow> \<not> is_space c" by (auto simp: is_digit_def is_space_def Let_def)
qed

lemma skip_space_token [simp]: "\<not> is_space c \<Longrightarrow> skip_space (c # r) = c # r"
  by (simp add: skip_space_def)

lemma canonical_json_first: "\<exists>c s. canonical_json v = c # s \<and> \<not> is_space c \<and> c \<noteq> CHR '']''"
proof (cases v)
  case (JInt i)
  with py_str_int_first [of i] show ?thesis
    using word_no_digit(4) by (auto simp: canonical_json_simps space_codes digit_no_space)
qed (auto simp: canonical_json_simps quote_text_def space_codes)

lemma parse_elements_canonical:
  assumes "\<forall>v\<in>set vs. readable v" and "vs \<noteq> []"
    and "2 * length (py_join '','' (map canonical_json vs)) + 2 \<le> n"
  shows "parse_elements n (py_join '','' (map canonical_json vs) @ CHR '']'' # r) = Some (map sort_keys vs, r)"
  using assms
proof (induction vs arbitrary: n)
  case Nil
  then show ?case by simp
next
  case (Cons v vs)
  obtain m where n: "n = Suc m" using Cons.prems(3) by (cases n) auto
  let ?rest = "if vs = [] then CHR '']'' # r else CHR '','' # py_join '','' (map canonical_json vs) @ CHR '']'' # r"
  have joined: "py_join '','' (map canonical_json (v # vs)) @ CHR '']'' # r = canonical_json v @ ?rest"
    by (simp add: join_step)
  have len: "length (py_join '','' (map canonical_json (v # vs))) =
      length (canonical_json v) + (if vs = [] then 0 else 1 + length (py_join '','' (map canonical_json vs)))"
    using arg_cong [OF join_step [of "canonical_json v" "map canonical_json vs" "[]"], of length] by simp
  have "parse_value m (canonical_json v @ ?rest) = Some (sort_keys v, ?rest)"
    using Cons.prems(1,3) n len by (simp add: readable_def)
  then have step: "parse_elements n (py_join '','' (map canonical_json (v # vs)) @ CHR '']'' # r) =
      (if vs = [] then Some ([sort_keys v], r)
       else map_option (\<lambda>(vs, r''). (sort_keys v # vs, r'')) (parse_elements m (py_join '','' (map canonical_json vs) @ CHR '']'' # r)))"
    unfolding joined by (simp add: n space_codes)
  show ?case
  proof (cases "vs = []")
    case True
    with step show ?thesis by simp
  next
    case False
    have "parse_elements m (py_join '','' (map canonical_json vs) @ CHR '']'' # r) = Some (map sort_keys vs, r)"
      using Cons.prems(1,3) n len False by (intro Cons.IH) auto
    with step False show ?thesis by simp
  qed
qed

lemma parse_members_canonical:
  assumes "\<forall>m\<in>set ms. readable (snd m)" and "ms \<noteq> []"
    and "2 * length (py_join '','' (map member_text ms)) + 2 \<le> n"
  shows "parse_members n (py_join '','' (map member_text ms) @ CHR ''}'' # r) =
     Some (map (\<lambda>m. (fst m, sort_keys (snd m))) ms, r)"
  using assms
proof (induction ms arbitrary: n)
  case Nil
  then show ?case by simp
next
  case (Cons m ms)
  obtain k where n: "n = Suc k" using Cons.prems(3) by (cases n) auto
  let ?rest = "if ms = [] then CHR ''}'' # r else CHR '','' # py_join '','' (map member_text ms) @ CHR ''}'' # r"
  have joined: "py_join '','' (map member_text (m # ms)) @ CHR ''}'' # r =
      CHR 0x22 # concat (map escape_char (fst m)) @ CHR 0x22 # CHR '':'' # canonical_json (snd m) @ ?rest"
    by (simp add: join_step member_text_def quote_text_def)
  have len: "length (py_join '','' (map member_text (m # ms))) =
      length (member_text m) + (if ms = [] then 0 else 1 + length (py_join '','' (map member_text ms)))"
    using arg_cong [OF join_step [of "member_text m" "map member_text ms" "[]"], of length] by simp
  have "length (canonical_json (snd m)) < length (member_text m)" by (simp add: member_text_def quote_text_def)
  then have value_read: "parse_value k (canonical_json (snd m) @ ?rest) = Some (sort_keys (snd m), ?rest)"
    using Cons.prems(1,3) n len by (simp add: readable_def)
  have step: "parse_members n (py_join '','' (map member_text (m # ms)) @ CHR ''}'' # r) =
      (if ms = [] then Some ([(fst m, sort_keys (snd m))], r)
       else map_option (\<lambda>(ms, r''). ((fst m, sort_keys (snd m)) # ms, r''))
         (parse_members k (py_join '','' (map member_text ms) @ CHR ''}'' # r)))"
    unfolding joined using value_read by (simp add: n space_codes parse_string_quoted)
  show ?case
  proof (cases "ms = []")
    case True
    with step show ?thesis by simp
  next
    case False
    have "parse_members k (py_join '','' (map member_text ms) @ CHR ''}'' # r) =
        Some (map (\<lambda>m. (fst m, sort_keys (snd m))) ms, r)"
      using Cons.prems(1,3) n len False by (intro Cons.IH) auto
    with step False show ?thesis by simp
  qed
qed

text \<open>An object with distinct keys is the dictionary of its members.\<close>

lemma dict_set_new: "k \<notin> fst ` set d \<Longrightarrow> dict_set k v d = d @ [(k, v)]"
  by (induction k v d rule: dict_set.induct) auto

lemma dict_of_distinct_pairs:
  assumes "distinct (map fst ps)" shows "dict_of_pairs ps = ps"
proof -
  have "fold (\<lambda>(k, v). dict_set k v) ps acc = acc @ ps" if "distinct (map fst (acc @ ps))" for acc
    using assms that
  proof (induction ps arbitrary: acc)
    case Nil
    then show ?case by simp
  next
    case (Cons p ps)
    obtain k v where p: "p = (k, v)" by (cases p)
    with Cons.prems(2) have "k \<notin> fst ` set acc" by auto
    then have "dict_set k v acc = acc @ [(k, v)]" by (rule dict_set_new)
    with Cons.IH [of "acc @ [(k, v)]"] Cons.prems p show ?case by simp
  qed
  from this [of "[]"] assms show ?thesis by (simp add: dict_of_pairs_def)
qed

lemma readableI:
  assumes "\<And>m r. 2 * length (canonical_json v) \<le> m \<Longrightarrow> closes r \<Longrightarrow>
    parse_value (Suc m) (canonical_json v @ r) = Some (sort_keys v, r)"
  shows "readable v"
  unfolding readable_def
proof (intro allI impI)
  fix n r assume "2 * length (canonical_json v) + 1 \<le> n" and "closes r"
  with assms [of "n - 1" r] show "parse_value n (canonical_json v @ r) = Some (sort_keys v, r)"
    by (cases n) auto
qed

lemma canonical_json_readable: "distinct_keys v \<Longrightarrow> readable v"
proof (induction v)
  case JNull
  show ?case by (rule readableI) (simp add: canonical_json_simps literal_def space_codes)
next
  case (JBool b)
  show ?case by (rule readableI) (simp add: canonical_json_simps literal_def space_codes)
next
  case (JInt i)
  obtain c s where c: "py_str_int i = c # s" "c = CHR ''-'' \<or> is_digit c" using py_str_int_first by blast
  then have "\<not> is_space c" and other: "c \<noteq> CHR 0x22" "c \<noteq> CHR ''[''" "c \<noteq> CHR ''{''" "c \<noteq> CHR ''n''" "c \<noteq> CHR ''t''" "c \<noteq> CHR ''f''"
    using digit_no_space space_codes word_no_digit by auto
  with parse_number_int [of _ i] c(1) show ?case
    by (intro readableI) (simp add: canonical_json_simps)
next
  case (JStr t)
  show ?case
    by (rule readableI) (simp add: canonical_json_simps quote_text_def parse_string_quoted space_codes)
next
  case (JList vs)
  then have vs: "\<forall>v\<in>set vs. readable v" by auto
  show ?case
  proof (rule readableI)
    fix m r assume m: "2 * length (canonical_json (JList vs)) \<le> m" and "closes r"
    show "parse_value (Suc m) (canonical_json (JList vs) @ r) = Some (sort_keys (JList vs), r)"
    proof (cases "vs = []")
      case True
      then show ?thesis by (simp add: canonical_json_simps space_codes)
    next
      case False
      let ?body = "py_join '','' (map canonical_json vs) @ CHR '']'' # r"
      obtain c s where "canonical_json (hd vs) = c # s" and c: "\<not> is_space c" "c \<noteq> CHR '']''"
        using canonical_json_first by blast
      then obtain q where q: "?body = c # q"
        using False join_step [of "canonical_json (hd vs)" "map canonical_json (tl vs)"] by (cases vs) auto
      have "parse_elements m ?body = Some (map sort_keys vs, r)"
        using m by (intro parse_elements_canonical vs False) (simp add: canonical_json_simps)
      moreover have "canonical_json (JList vs) @ r = CHR ''['' # c # q"
        using q by (simp add: canonical_json_simps)
      ultimately show ?thesis using c q by (simp add: space_codes)
    qed
  qed
next
  case (JObj ms)
  let ?ms = "sort_key fst ms"
  have members: "\<forall>m\<in>set ?ms. readable (snd m)" using JObj by (auto simp: snds.simps)
  have "distinct (map fst ?ms)" using JObj.prems by (simp add: distinct_map_sort_key)
  then have dict: "dict_of_pairs (map (\<lambda>m. (fst m, sort_keys (snd m))) ?ms) = map (\<lambda>m. (fst m, sort_keys (snd m))) ?ms"
    by (intro dict_of_distinct_pairs) (simp add: comp_def)
  show ?case
  proof (rule readableI)
    fix m r assume m: "2 * length (canonical_json (JObj ms)) \<le> m" and "closes r"
    show "parse_value (Suc m) (canonical_json (JObj ms) @ r) = Some (sort_keys (JObj ms), r)"
    proof (cases "ms = []")
      case True
      then show ?thesis by (simp add: canonical_json_simps space_codes dict_of_pairs_def)
    next
      case False
      then have ne: "?ms \<noteq> []" by (metis length_0_conv length_sort)
      let ?body = "py_join '','' (map member_text ?ms) @ CHR ''}'' # r"
      obtain q where q: "?body = CHR 0x22 # q"
        using ne join_step [of "member_text (hd ?ms)" "map member_text (tl ?ms)"]
        by (cases ?ms) (auto simp: member_text_def quote_text_def)
      have "parse_members m ?body = Some (map (\<lambda>m. (fst m, sort_keys (snd m))) ?ms, r)"
        using m by (intro parse_members_canonical members ne) (simp add: canonical_json_simps)
      moreover have "canonical_json (JObj ms) @ r = CHR ''{'' # CHR 0x22 # q"
        using q by (simp add: canonical_json_simps)
      ultimately show ?thesis using q dict by (simp add: space_codes sort_key_map_fst)
    qed
  qed
qed

lemma loads_canonical:
  assumes "distinct_keys v" shows "loads (canonical_json v) = Some (sort_keys v)"
proof -
  have "parse_value (2 * length (canonical_json v) + 1) (canonical_json v @ []) = Some (sort_keys v, [])"
    using canonical_json_readable [OF assms] unfolding readable_def by (metis closes_Cons(1) order_refl)
  then show ?thesis unfolding loads_def append_Nil2 by (simp add: skip_space_def del: parse_value.simps)
qed

end
