(* ===== verification/Ledger.thy ===== *)
theory Ledger
  imports Json_Parse
begin

text \<open>
  The claim-evidence ledger (\<open>src/rlmgraph/claim_evidence_ledger.py\<close>): append-only tables of claims,
  evidence, supersessions, signatures and chained state events, every payload stored as canonical
  JSON text with its hash. An operation is one \<open>BEGIN IMMEDIATE\<close> transaction that either commits or
  leaves the tables as they were, so its model returns the new ledger only on success. The hash
  function, the keyed hash, the configured keys and the files are the environment.
\<close>

section \<open>Hashes\<close>

text \<open>\<open>le_digest\<close> is \<open>hashlib.sha256(b).digest()\<close>, \<open>le_hmac k m\<close> is \<open>hmac.new(k, m, sha256).hexdigest()\<close>,
  \<open>le_resolve\<close> resolves an existing path, \<open>le_file\<close> is the content of the regular file at a path.\<close>

record ledger_env =
  le_digest :: "string \<Rightarrow> string"
  le_hmac :: "string \<Rightarrow> string \<Rightarrow> string"
  le_keys :: "string py_dict"
  le_resolve :: "string \<Rightarrow> string option"
  le_file :: "string \<Rightarrow> string option"

text \<open>The constructor accepts the configured keys (\<open>__init__\<close>) before it creates the tables.\<close>

definition configured_keys :: "string py_dict \<Rightarrow> string py_dict result" where
  "configured_keys ks =
     (if \<exists>k\<in>set ks. blank (fst k) then Inl (ValueError ''authentication key id must be a non-empty string'')
      else if \<exists>k\<in>set ks. snd k = [] then Inl (ValueError ''authentication keys must not be empty'')
      else Inr ks)"

definition hex_text :: "string \<Rightarrow> string" where
  "hex_text b = concat (map (\<lambda>c. let n = (of_char c :: nat) in [hex_digit (n div 16), hex_digit (n mod 16)]) b)"

text \<open>\<open>bytes.fromhex\<close> of a lower-case hexadecimal text.\<close>

fun from_hex :: "string \<Rightarrow> string" where
  "from_hex (a # b # r) = char_of (16 * hex_value a + hex_value b) # from_hex r"
| "from_hex _ = []"

definition sha256_bytes :: "ledger_env \<Rightarrow> string \<Rightarrow> string" where
  "sha256_bytes e b = hex_text (le_digest e b)"

definition sha256_json :: "ledger_env \<Rightarrow> json \<Rightarrow> string" where
  "sha256_json e v = sha256_bytes e (canonical_json v)"

section \<open>The root over the evidence\<close>

fun pair_up :: "ledger_env \<Rightarrow> string list \<Rightarrow> string list" where
  "pair_up e (a # b # xs) = le_digest e (a @ b) # pair_up e xs"
| "pair_up e _ = []"

definition next_level :: "ledger_env \<Rightarrow> string list \<Rightarrow> string list" where
  "next_level e xs = pair_up e (if odd (length xs) then xs @ [last xs] else xs)"

lemma length_pair_up: "length (pair_up e xs) = length xs div 2"
  by (induction e xs rule: pair_up.induct) auto

lemma length_next_level: "length (next_level e xs) = (length xs + 1) div 2"
  by (simp add: next_level_def length_pair_up)

function merkle_fold :: "ledger_env \<Rightarrow> string list \<Rightarrow> string" where
  "merkle_fold e xs = (if length xs \<le> 1 then hd xs else merkle_fold e (next_level e xs))"
  by auto
termination by (relation "measure (\<lambda>(e, xs). length xs)") (auto simp: length_next_level)

declare merkle_fold.simps [simp del]

definition evidence_leaf :: "ledger_env \<Rightarrow> string \<times> string \<Rightarrow> string" where
  "evidence_leaf e r =
     from_hex (sha256_json e (JObj [(''id'', JStr (fst r)), (''payload_sha256'', JStr (snd r))]))"

definition merkle_root :: "ledger_env \<Rightarrow> (string \<times> string) list \<Rightarrow> string" where
  "merkle_root e records =
     (let leaves = map (evidence_leaf e) (sort_key fst (sort_key snd records)) in
      if leaves = [] then sha256_bytes e [] else hex_text (merkle_fold e leaves))"

section \<open>Claims, evidence and assessments\<close>

datatype evidence_level = EvidenceLevel_PROPOSED | EvidenceLevel_OBSERVED | EvidenceLevel_TESTED | EvidenceLevel_REPLICATED
datatype claim_disposition = ClaimDisposition_ACTIVE | ClaimDisposition_REJECTED | ClaimDisposition_SUPERSEDED
datatype authentication_state = Authentication_UNAUTHENTICATED | Authentication_AUTHENTICATED | Authentication_INVALID
datatype claim_display_state =
    Display_PROPOSED | Display_OBSERVED | Display_TESTED | Display_REPLICATED
  | Display_AUTHENTICATED | Display_REJECTED | Display_SUPERSEDED
datatype evidence_kind =
    EvidenceKind_AGENT_REPORT | EvidenceKind_SOURCE_OBSERVATION | EvidenceKind_TEST_RUN
  | EvidenceKind_REPLICATION_RUN | EvidenceKind_COUNTEREVIDENCE
datatype evidence_outcome = EvidenceOutcome_PASSED | EvidenceOutcome_FAILED | EvidenceOutcome_INAPPLICABLE

fun level_value :: "evidence_level \<Rightarrow> string" where
  "level_value EvidenceLevel_PROPOSED = ''PROPOSED''"
| "level_value EvidenceLevel_OBSERVED = ''OBSERVED''"
| "level_value EvidenceLevel_TESTED = ''TESTED''"
| "level_value EvidenceLevel_REPLICATED = ''REPLICATED''"

fun disposition_value :: "claim_disposition \<Rightarrow> string" where
  "disposition_value ClaimDisposition_ACTIVE = ''ACTIVE''"
| "disposition_value ClaimDisposition_REJECTED = ''REJECTED''"
| "disposition_value ClaimDisposition_SUPERSEDED = ''SUPERSEDED''"

fun authentication_value :: "authentication_state \<Rightarrow> string" where
  "authentication_value Authentication_UNAUTHENTICATED = ''UNAUTHENTICATED''"
| "authentication_value Authentication_AUTHENTICATED = ''AUTHENTICATED''"
| "authentication_value Authentication_INVALID = ''INVALID''"

fun display_value :: "claim_display_state \<Rightarrow> string" where
  "display_value Display_PROPOSED = ''PROPOSED''"
| "display_value Display_OBSERVED = ''OBSERVED''"
| "display_value Display_TESTED = ''TESTED''"
| "display_value Display_REPLICATED = ''REPLICATED''"
| "display_value Display_AUTHENTICATED = ''AUTHENTICATED''"
| "display_value Display_REJECTED = ''REJECTED''"
| "display_value Display_SUPERSEDED = ''SUPERSEDED''"

fun kind_value :: "evidence_kind \<Rightarrow> string" where
  "kind_value EvidenceKind_AGENT_REPORT = ''AGENT_REPORT''"
| "kind_value EvidenceKind_SOURCE_OBSERVATION = ''SOURCE_OBSERVATION''"
| "kind_value EvidenceKind_TEST_RUN = ''TEST_RUN''"
| "kind_value EvidenceKind_REPLICATION_RUN = ''REPLICATION_RUN''"
| "kind_value EvidenceKind_COUNTEREVIDENCE = ''COUNTEREVIDENCE''"

fun outcome_value :: "evidence_outcome \<Rightarrow> string" where
  "outcome_value EvidenceOutcome_PASSED = ''PASSED''"
| "outcome_value EvidenceOutcome_FAILED = ''FAILED''"
| "outcome_value EvidenceOutcome_INAPPLICABLE = ''INAPPLICABLE''"

record claim_statement =
  cs_claim_id :: string
  cs_subject :: string
  cs_assertion :: string
  cs_source_manifest_sha256 :: string
  cs_policy_sha256 :: string
  cs_required_test_spec_sha256 :: string
  cs_schema_version :: string

record claim_evidence =
  ce_evidence_id :: string
  ce_claim_id :: string
  ce_kind :: evidence_kind
  ce_artifact_path :: string
  ce_artifact_sha256 :: string
  ce_source_manifest_sha256 :: string
  ce_policy_sha256 :: string
  ce_producer_id :: string
  ce_outcome :: evidence_outcome
  ce_test_spec_sha256 :: "string option"
  ce_run_id :: "string option"
  ce_independence_key :: "string option"
  ce_detail :: string
  ce_schema_version :: string

record claim_assessment =
  ca_claim_id :: string
  ca_evidence_level :: evidence_level
  ca_disposition :: claim_disposition
  ca_authentication :: authentication_state
  ca_display_state :: claim_display_state
  ca_evidence_ids :: "string list"
  ca_eligible_evidence_ids :: "string list"
  ca_evidence_merkle_root :: string
  ca_superseded_by_claim_id :: "string option"

section \<open>The tables\<close>

record claim_row =
  cr_claim_id :: string
  cr_sha :: string
  cr_payload :: string

record evidence_row =
  er_evidence_id :: string
  er_claim_id :: string
  er_sha :: string
  er_payload :: string

record supersession_row =
  sr_claim_id :: string
  sr_replacement :: string
  sr_sha :: string
  sr_payload :: string

record authentication_row =
  ar_envelope_id :: string
  ar_claim_id :: string
  ar_sha :: string
  ar_payload :: string

record event_row =
  ev_event_id :: string
  ev_claim_id :: string
  ev_sequence :: int
  ev_previous :: "string option"
  ev_sha :: string
  ev_payload :: string

record ledger =
  lg_claims :: "claim_row list"
  lg_records :: "evidence_row list"
  lg_supersessions :: "supersession_row list"
  lg_authentications :: "authentication_row list"
  lg_events :: "event_row list"

definition empty_ledger :: ledger where
  "empty_ledger = \<lparr>lg_claims = [], lg_records = [], lg_supersessions = [], lg_authentications = [], lg_events = []\<rparr>"

section \<open>Validation\<close>

definition require_text :: "string \<Rightarrow> string \<Rightarrow> (bool \<times> py_error)" where
  "require_text v label = (blank v, ValueError (label @ '' must be a non-empty string''))"

definition is_sha256 :: "string \<Rightarrow> bool" where
  "is_sha256 v \<longleftrightarrow> length v = 64 \<and> (\<forall>c\<in>set v. c \<in> set ''0123456789abcdef'')"

definition require_sha256 :: "string \<Rightarrow> string \<Rightarrow> (bool \<times> py_error)" where
  "require_sha256 v label = (\<not> is_sha256 v, ValueError (label @ '' must be a lowercase SHA-256 digest''))"

text \<open>The first check that fails.\<close>

fun first_failure :: "(bool \<times> py_error) list \<Rightarrow> unit result" where
  "first_failure [] = Inr ()"
| "first_failure ((bad, x) # cs) = (if bad then Inl x else first_failure cs)"

definition validate_claim :: "claim_statement \<Rightarrow> claim_statement result" where
  "validate_claim c =
     map_sum id (\<lambda>_. c) (first_failure
       [(cs_schema_version c \<noteq> ''rlmgraph-claim-statement-v1'',
         ValueError (''unsupported claim schema: '' @ cs_schema_version c)),
        require_text (cs_claim_id c) ''claim id'', require_text (cs_subject c) ''claim subject'',
        require_text (cs_assertion c) ''claim assertion'',
        require_sha256 (cs_source_manifest_sha256 c) ''source manifest hash'',
        require_sha256 (cs_policy_sha256 c) ''policy hash'',
        require_sha256 (cs_required_test_spec_sha256 c) ''test specification hash''])"

definition is_test_kind :: "evidence_kind \<Rightarrow> bool" where
  "is_test_kind k \<longleftrightarrow> k = EvidenceKind_TEST_RUN \<or> k = EvidenceKind_REPLICATION_RUN"

definition validate_evidence :: "ledger_env \<Rightarrow> claim_evidence \<Rightarrow> claim_evidence result" where
  "validate_evidence e v =
     (case first_failure
         [(ce_schema_version v \<noteq> ''rlmgraph-claim-evidence-v1'',
           ValueError (''unsupported evidence schema: '' @ ce_schema_version v)),
          require_text (ce_evidence_id v) ''evidence id'', require_text (ce_claim_id v) ''claim id'',
          require_text (ce_producer_id v) ''evidence producer'',
          require_sha256 (ce_artifact_sha256 v) ''artifact hash'',
          require_sha256 (ce_source_manifest_sha256 v) ''source manifest hash'',
          require_sha256 (ce_policy_sha256 v) ''policy hash'',
          (case ce_test_spec_sha256 v of None \<Rightarrow> (False, AssertionError)
           | Some t \<Rightarrow> require_sha256 t ''test specification hash'')] of
        Inl x \<Rightarrow> Inl x
      | Inr _ \<Rightarrow>
          (case le_resolve e (ce_artifact_path v) of
             None \<Rightarrow> Inl (FileNotFoundError (ce_artifact_path v))
           | Some artifact \<Rightarrow>
               (case le_file e artifact of
                  None \<Rightarrow> Inl (EvidenceIntegrityError (''evidence artifact is not a file: '' @ artifact))
                | Some content \<Rightarrow>
                    map_sum id (\<lambda>_. v\<lparr>ce_artifact_path := artifact\<rparr>) (first_failure
                      [(sha256_bytes e content \<noteq> ce_artifact_sha256 v,
                        EvidenceIntegrityError (''evidence artifact hash mismatch for '' @ ce_evidence_id v)),
                       (is_test_kind (ce_kind v) \<and> (ce_test_spec_sha256 v = None \<or> \<not> truthy (ce_run_id v)),
                        ValueError ''test evidence requires a test specification and run id''),
                       (ce_kind v = EvidenceKind_REPLICATION_RUN \<and> \<not> truthy (ce_independence_key v),
                        ValueError ''replication evidence requires an independence key''),
                       (ce_kind v = EvidenceKind_COUNTEREVIDENCE \<and> ce_outcome v \<noteq> EvidenceOutcome_FAILED,
                        ValueError ''counterevidence must record a FAILED outcome''),
                       (ce_kind v = EvidenceKind_COUNTEREVIDENCE \<and> ce_test_spec_sha256 v = None,
                        ValueError ''counterevidence requires a test specification'')]))))"

section \<open>Payloads\<close>

definition claim_payload :: "claim_statement \<Rightarrow> json" where
  "claim_payload c = JObj
     [(''claim_id'', JStr (cs_claim_id c)), (''subject'', JStr (cs_subject c)), (''assertion'', JStr (cs_assertion c)),
      (''source_manifest_sha256'', JStr (cs_source_manifest_sha256 c)), (''policy_sha256'', JStr (cs_policy_sha256 c)),
      (''required_test_spec_sha256'', JStr (cs_required_test_spec_sha256 c)),
      (''schema_version'', JStr ''rlmgraph-claim-statement-v1'')]"

definition evidence_payload :: "claim_evidence \<Rightarrow> json" where
  "evidence_payload v = JObj
     [(''evidence_id'', JStr (ce_evidence_id v)), (''claim_id'', JStr (ce_claim_id v)),
      (''kind'', JStr (kind_value (ce_kind v))), (''artifact_path'', JStr (ce_artifact_path v)),
      (''artifact_sha256'', JStr (ce_artifact_sha256 v)),
      (''source_manifest_sha256'', JStr (ce_source_manifest_sha256 v)), (''policy_sha256'', JStr (ce_policy_sha256 v)),
      (''producer_id'', JStr (ce_producer_id v)), (''outcome'', JStr (outcome_value (ce_outcome v))),
      (''test_spec_sha256'', JOptStr (ce_test_spec_sha256 v)), (''run_id'', JOptStr (ce_run_id v)),
      (''independence_key'', JOptStr (ce_independence_key v)), (''detail'', JStr (ce_detail v)),
      (''schema_version'', JStr ''rlmgraph-claim-evidence-v1'')]"

text \<open>\<open>json.loads\<close> with its error, \<open>raw.get(key, default)\<close>, and \<open>raw.get(key)\<close>: \<open>None\<close> both for a missing key
  and for null.\<close>

definition read_json :: "string \<Rightarrow> json result" where
  "read_json t = (case loads t of None \<Rightarrow> Inl (ValueError ''JSONDecodeError'') | Some v \<Rightarrow> Inr v)"

definition field_or :: "json \<Rightarrow> json \<Rightarrow> string \<Rightarrow> json" where
  "field_or d raw k = (case raw of JObj ms \<Rightarrow> (case map_of ms k of None \<Rightarrow> d | Some v \<Rightarrow> v) | _ \<Rightarrow> d)"

definition get_field :: "json \<Rightarrow> string \<Rightarrow> json" where
  "get_field raw k = field_or JNull raw k"

definition is_object :: "json \<Rightarrow> bool" where
  "is_object v \<longleftrightarrow> (case v of JObj ms \<Rightarrow> True | _ \<Rightarrow> False)"

definition read_object :: "string \<Rightarrow> json result" where
  "read_object t =
     (case read_json t of
        Inl x \<Rightarrow> Inl x
      | Inr v \<Rightarrow> if is_object v then Inr v else Inl (AttributeError ''get''))"

text \<open>\<open>str(v)\<close> of a scalar.\<close>

fun str_json :: "json \<Rightarrow> string" where
  "str_json (JStr s) = s"
| "str_json (JInt i) = py_str_int i"
| "str_json (JBool b) = (if b then ''True'' else ''False'')"
| "str_json _ = ''None''"

text \<open>\<open>ClaimStatement(**raw)\<close>: exactly the fields of the class, the last with a default.\<close>

definition claim_fields :: "string list" where
  "claim_fields = [''claim_id'', ''subject'', ''assertion'', ''source_manifest_sha256'', ''policy_sha256'',
     ''required_test_spec_sha256'']"

definition claim_of :: "json \<Rightarrow> claim_statement result" where
  "claim_of raw =
     (case raw of
        JObj ms \<Rightarrow>
          if set claim_fields \<subseteq> fst ` set ms \<and> fst ` set ms \<subseteq> set (''schema_version'' # claim_fields) then
            Inr \<lparr>cs_claim_id = str_json (get_field raw ''claim_id''), cs_subject = str_json (get_field raw ''subject''),
                 cs_assertion = str_json (get_field raw ''assertion''),
                 cs_source_manifest_sha256 = str_json (get_field raw ''source_manifest_sha256''),
                 cs_policy_sha256 = str_json (get_field raw ''policy_sha256''),
                 cs_required_test_spec_sha256 = str_json (get_field raw ''required_test_spec_sha256''),
                 cs_schema_version = (if ''schema_version'' \<in> fst ` set ms then str_json (get_field raw ''schema_version'')
                   else ''rlmgraph-claim-statement-v1'')\<rparr>
          else Inl (TypeError ''ClaimStatement'')
      | _ \<Rightarrow> Inl (TypeError ''ClaimStatement''))"

definition load_claim :: "ledger \<Rightarrow> string \<Rightarrow> (claim_statement \<times> string) result" where
  "load_claim g k =
     (case find (\<lambda>r. cr_claim_id r = k) (lg_claims g) of
        None \<Rightarrow> Inl (KeyError k)
      | Some r \<Rightarrow>
          (case read_json (cr_payload r) of
             Inl x \<Rightarrow> Inl x
           | Inr raw \<Rightarrow> map_sum id (\<lambda>c. (c, cr_sha r)) (claim_of raw)))"

section \<open>The derived view\<close>

definition artifact_matches :: "ledger_env \<Rightarrow> json \<Rightarrow> bool" where
  "artifact_matches e raw =
     (case raw of
        JObj ms \<Rightarrow>
          (case (map_of ms ''artifact_path'', map_of ms ''artifact_sha256'') of
             (Some p, Some h) \<Rightarrow>
               (case le_file e (str_json p) of None \<Rightarrow> False | Some content \<Rightarrow> sha256_bytes e content = str_json h)
           | _ \<Rightarrow> False)
      | _ \<Rightarrow> False)"

definition binding_matches :: "claim_statement \<Rightarrow> json \<Rightarrow> bool" where
  "binding_matches c raw \<longleftrightarrow>
     get_field raw ''source_manifest_sha256'' = JStr (cs_source_manifest_sha256 c) \<and>
     get_field raw ''policy_sha256'' = JStr (cs_policy_sha256 c) \<and>
     (get_field raw ''kind'' \<in> {JStr ''TEST_RUN'', JStr ''REPLICATION_RUN'', JStr ''COUNTEREVIDENCE''} \<longrightarrow>
        get_field raw ''test_spec_sha256'' = JStr (cs_required_test_spec_sha256 c))"

type_synonym raw_record = "evidence_row \<times> json"

definition eligible_record :: "ledger_env \<Rightarrow> claim_statement \<Rightarrow> raw_record \<Rightarrow> bool" where
  "eligible_record e c r \<longleftrightarrow> artifact_matches e (snd r) \<and> binding_matches c (snd r)"

definition passing_test :: "json \<Rightarrow> bool" where
  "passing_test raw \<longleftrightarrow>
     get_field raw ''kind'' \<in> {JStr ''TEST_RUN'', JStr ''REPLICATION_RUN''} \<and>
     get_field raw ''outcome'' = JStr ''PASSED''"

definition truthy_json :: "json \<Rightarrow> bool" where
  "truthy_json v = (case v of JNull \<Rightarrow> False | JBool b \<Rightarrow> b | JInt i \<Rightarrow> i \<noteq> 0 | JStr s \<Rightarrow> s \<noteq> []
     | JList xs \<Rightarrow> xs \<noteq> [] | JObj ms \<Rightarrow> ms \<noteq> [])"

definition independence_keys :: "json list \<Rightarrow> string list" where
  "independence_keys raws =
     dict_fromkeys (map (\<lambda>raw. str_json (get_field raw ''independence_key''))
       (filter (\<lambda>raw. truthy_json (get_field raw ''independence_key'')) (filter passing_test raws)))"

definition evidence_level_of :: "json list \<Rightarrow> evidence_level" where
  "evidence_level_of raws =
     (if 2 \<le> length (independence_keys raws) then EvidenceLevel_REPLICATED
      else if \<exists>raw\<in>set raws. passing_test raw then EvidenceLevel_TESTED
      else if \<exists>raw\<in>set raws. get_field raw ''kind'' = JStr ''SOURCE_OBSERVATION'' then EvidenceLevel_OBSERVED
      else EvidenceLevel_PROPOSED)"

definition rejected_by :: "json list \<Rightarrow> bool" where
  "rejected_by raws \<longleftrightarrow>
     (\<exists>raw\<in>set raws. get_field raw ''kind'' = JStr ''COUNTEREVIDENCE'' \<and> get_field raw ''outcome'' = JStr ''FAILED'')"

definition superseded_by :: "ledger \<Rightarrow> string \<Rightarrow> string option" where
  "superseded_by g k = map_option sr_replacement (find (\<lambda>r. sr_claim_id r = k) (lg_supersessions g))"

definition disposition_of :: "string option \<Rightarrow> json list \<Rightarrow> claim_disposition" where
  "disposition_of replacement raws =
     (if replacement \<noteq> None then ClaimDisposition_SUPERSEDED
      else if rejected_by raws then ClaimDisposition_REJECTED else ClaimDisposition_ACTIVE)"

text \<open>What a signature must bind to count.\<close>

definition signed_fields ::
  "claim_statement \<Rightarrow> string \<Rightarrow> evidence_level \<Rightarrow> claim_disposition \<Rightarrow> string list \<Rightarrow> string \<Rightarrow> (string \<times> json) list" where
  "signed_fields c claim_sha level disposition ids evidence_root =
     [(''claim_payload_sha256'', JStr claim_sha),
      (''source_manifest_sha256'', JStr (cs_source_manifest_sha256 c)), (''policy_sha256'', JStr (cs_policy_sha256 c)),
      (''test_spec_sha256'', JStr (cs_required_test_spec_sha256 c)), (''evidence_level'', JStr (level_value level)),
      (''disposition'', JStr (disposition_value disposition)), (''evidence_ids'', JStrs ids),
      (''evidence_merkle_root'', JStr evidence_root)]"

definition binds_all :: "(string \<times> json) list \<Rightarrow> json \<Rightarrow> bool" where
  "binds_all fs raw \<longleftrightarrow>
     (\<forall>(k, v)\<in>set fs. field_or (if k = ''evidence_ids'' then JList [] else JNull) raw k = v)"

definition without_signature :: "json \<Rightarrow> json" where
  "without_signature raw = (case raw of JObj ms \<Rightarrow> JObj (filter (\<lambda>m. fst m \<noteq> ''signature'') ms) | v \<Rightarrow> v)"

definition signature_valid :: "ledger_env \<Rightarrow> json \<Rightarrow> bool" where
  "signature_valid e raw =
     (case dict_get (str_json (field_or (JStr []) raw ''key_id'')) (le_keys e) of
        None \<Rightarrow> False
      | Some secret \<Rightarrow>
          get_field raw ''algorithm'' = JStr ''HMAC-SHA256'' \<and>
          le_hmac e secret (canonical_json (without_signature raw)) = str_json (field_or (JStr []) raw ''signature''))"

definition authentication_state_of ::
  "ledger_env \<Rightarrow> ledger \<Rightarrow> string \<Rightarrow> (string \<times> json) list \<Rightarrow> authentication_state result" where
  "authentication_state_of e g k fs =
     map_sum id (\<lambda>raws.
         let matching = filter (binds_all fs) raws in
         if matching = [] then Authentication_UNAUTHENTICATED
         else if \<exists>raw\<in>set matching. signature_valid e raw then Authentication_AUTHENTICATED
         else Authentication_INVALID)
       (traverse (\<lambda>r. read_object (ar_payload r))
         (sort_key ar_envelope_id (filter (\<lambda>r. ar_claim_id r = k) (lg_authentications g))))"

definition display_state ::
  "evidence_level \<Rightarrow> claim_disposition \<Rightarrow> authentication_state \<Rightarrow> claim_display_state" where
  "display_state level disposition authentication =
     (if disposition = ClaimDisposition_SUPERSEDED then Display_SUPERSEDED
      else if disposition = ClaimDisposition_REJECTED then Display_REJECTED
      else if authentication = Authentication_AUTHENTICATED then Display_AUTHENTICATED
      else case level of
        EvidenceLevel_PROPOSED \<Rightarrow> Display_PROPOSED | EvidenceLevel_OBSERVED \<Rightarrow> Display_OBSERVED
      | EvidenceLevel_TESTED \<Rightarrow> Display_TESTED | EvidenceLevel_REPLICATED \<Rightarrow> Display_REPLICATED)"

definition claim_records :: "ledger \<Rightarrow> string \<Rightarrow> raw_record list result" where
  "claim_records g k =
     traverse (\<lambda>r. map_sum id (Pair r) (read_json (er_payload r)))
       (sort_key er_evidence_id (filter (\<lambda>r. er_claim_id r = k) (lg_records g)))"

definition record_hash :: "raw_record \<Rightarrow> string \<times> string" where
  "record_hash r = (er_evidence_id (fst r), er_sha (fst r))"

definition assess :: "ledger_env \<Rightarrow> ledger \<Rightarrow> string \<Rightarrow> claim_assessment result" where
  "assess e g k =
     (case load_claim g k of
        Inl x \<Rightarrow> Inl x
      | Inr (c, claim_sha) \<Rightarrow>
          (case claim_records g k of
             Inl x \<Rightarrow> Inl x
           | Inr records \<Rightarrow>
               let eligible = filter (eligible_record e c) records; raws = map snd eligible;
                   level = evidence_level_of raws; replacement = superseded_by g k;
                   disposition = disposition_of replacement raws;
                   evidence_root = merkle_root e (map record_hash eligible);
                   ids = map (er_evidence_id \<circ> fst) eligible
               in map_sum id (\<lambda>authentication.
                    \<lparr>ca_claim_id = k, ca_evidence_level = level, ca_disposition = disposition,
                     ca_authentication = authentication, ca_display_state = display_state level disposition authentication,
                     ca_evidence_ids = map (er_evidence_id \<circ> fst) records, ca_eligible_evidence_ids = ids,
                     ca_evidence_merkle_root = evidence_root, ca_superseded_by_claim_id = replacement\<rparr>)
                  (authentication_state_of e g (cs_claim_id c) (signed_fields c claim_sha level disposition ids evidence_root))))"

section \<open>State events\<close>

definition event_body :: "claim_assessment \<Rightarrow> string \<Rightarrow> int \<Rightarrow> string option \<Rightarrow> string \<Rightarrow> string \<Rightarrow> json" where
  "event_body a claim_sha sequence previous action_kind action_id = JObj
     [(''schema_version'', JStr ''rlmgraph-claim-state-event-v1''), (''claim_id'', JStr (ca_claim_id a)),
      (''claim_payload_sha256'', JStr claim_sha), (''sequence'', JInt sequence),
      (''previous_event_sha256'', JOptStr previous), (''action_kind'', JStr action_kind), (''action_id'', JStr action_id),
      (''evidence_level'', JStr (level_value (ca_evidence_level a))),
      (''disposition'', JStr (disposition_value (ca_disposition a))),
      (''authentication'', JStr (authentication_value (ca_authentication a))),
      (''display_state'', JStr (display_value (ca_display_state a))), (''evidence_ids'', JStrs (ca_evidence_ids a)),
      (''eligible_evidence_ids'', JStrs (ca_eligible_evidence_ids a)),
      (''evidence_merkle_root'', JStr (ca_evidence_merkle_root a)),
      (''superseded_by_claim_id'', JOptStr (ca_superseded_by_claim_id a))]"

text \<open>The last event of a claim: the one with the greatest sequence number.\<close>

definition last_event :: "ledger \<Rightarrow> string \<Rightarrow> event_row option" where
  "last_event g k =
     (case sort_key ev_sequence (filter (\<lambda>r. ev_claim_id r = k) (lg_events g)) of [] \<Rightarrow> None | rs \<Rightarrow> Some (last rs))"

definition new_event :: "ledger_env \<Rightarrow> ledger \<Rightarrow> claim_assessment \<Rightarrow> string \<Rightarrow> string \<Rightarrow> string \<Rightarrow> event_row" where
  "new_event e g a claim_sha action_kind action_id =
     (let previous = last_event g (ca_claim_id a);
          sequence = (case previous of None \<Rightarrow> 1 | Some r \<Rightarrow> ev_sequence r + 1);
          serialized = canonical_json (event_body a claim_sha sequence (map_option ev_sha previous) action_kind action_id);
          sha = sha256_bytes e serialized
      in \<lparr>ev_event_id = ''CLAIM-EVENT-'' @ take 32 sha, ev_claim_id = ca_claim_id a, ev_sequence = sequence,
          ev_previous = map_option ev_sha previous, ev_sha = sha, ev_payload = serialized\<rparr>)"

definition append_event ::
  "ledger_env \<Rightarrow> claim_assessment \<Rightarrow> string \<Rightarrow> string \<Rightarrow> ledger \<Rightarrow> ledger result" where
  "append_event e a action_kind action_id g =
     (case load_claim g (ca_claim_id a) of
        Inl x \<Rightarrow> Inl x
      | Inr (c, claim_sha) \<Rightarrow>
          let r = new_event e g a claim_sha action_kind action_id in
          if \<exists>x\<in>set (lg_events g). ev_event_id x = ev_event_id r \<or>
               (ev_claim_id x = ev_claim_id r \<and> ev_sequence x = ev_sequence r) then
            Inl (IntegrityError ''UNIQUE constraint failed: claim_evidence_state_events'')
          else Inr (g\<lparr>lg_events := lg_events g @ [r]\<rparr>))"

text \<open>The end of every writing operation: assess the claim in the new tables and record the event.\<close>

definition assess_and_record ::
  "ledger_env \<Rightarrow> string \<Rightarrow> string \<Rightarrow> string \<Rightarrow> ledger \<Rightarrow> (claim_assessment \<times> ledger) result" where
  "assess_and_record e k action_kind action_id g =
     (case assess e g k of
        Inl x \<Rightarrow> Inl x
      | Inr a \<Rightarrow> map_sum id (Pair a) (append_event e a action_kind action_id g))"

definition unchanged :: "ledger \<Rightarrow> claim_assessment result \<Rightarrow> (claim_assessment \<times> ledger) result" where
  "unchanged g = map_sum id (\<lambda>a. (a, g))"

section \<open>Operations\<close>

definition propose :: "ledger_env \<Rightarrow> claim_statement \<Rightarrow> ledger \<Rightarrow> (claim_assessment \<times> ledger) result" where
  "propose e claim g =
     (case validate_claim claim of
        Inl x \<Rightarrow> Inl x
      | Inr c \<Rightarrow>
          let serialized = canonical_json (claim_payload c); sha = sha256_bytes e serialized in
          (case find (\<lambda>r. cr_claim_id r = cs_claim_id c) (lg_claims g) of
             Some r \<Rightarrow>
               if cr_payload r \<noteq> serialized then
                 Inl (DuplicatePayloadError (''claim id '' @ cs_claim_id c @ '' already has different immutable content''))
               else unchanged g (assess e g (cs_claim_id c))
           | None \<Rightarrow>
               assess_and_record e (cs_claim_id c) ''CLAIM_PROPOSED'' sha
                 (g\<lparr>lg_claims := lg_claims g @ [\<lparr>cr_claim_id = cs_claim_id c, cr_sha = sha, cr_payload = serialized\<rparr>]\<rparr>)))"

definition append_evidence :: "ledger_env \<Rightarrow> claim_evidence \<Rightarrow> ledger \<Rightarrow> (claim_assessment \<times> ledger) result" where
  "append_evidence e evidence g =
     (case validate_evidence e evidence of
        Inl x \<Rightarrow> Inl x
      | Inr v \<Rightarrow>
          let serialized = canonical_json (evidence_payload v); sha = sha256_bytes e serialized in
          (case load_claim g (ce_claim_id v) of
             Inl x \<Rightarrow> Inl x
           | Inr _ \<Rightarrow>
               (case find (\<lambda>r. er_evidence_id r = ce_evidence_id v) (lg_records g) of
                  Some r \<Rightarrow>
                    if er_payload r \<noteq> serialized then
                      Inl (DuplicatePayloadError (''evidence id '' @ ce_evidence_id v @ '' already has different immutable content''))
                    else unchanged g (assess e g (ce_claim_id v))
                | None \<Rightarrow>
                    assess_and_record e (ce_claim_id v) ''EVIDENCE_APPENDED'' (ce_evidence_id v)
                      (g\<lparr>lg_records := lg_records g @ [\<lparr>er_evidence_id = ce_evidence_id v, er_claim_id = ce_claim_id v,
                           er_sha = sha, er_payload = serialized\<rparr>]\<rparr>))))"

definition signed_body :: "claim_statement \<Rightarrow> string \<Rightarrow> string \<Rightarrow> claim_assessment \<Rightarrow> string \<Rightarrow> (string \<times> json) list" where
  "signed_body c claim_sha k a key_id =
     [(''schema_version'', JStr ''rlmgraph-claim-authentication-v1''),
      (''purpose'', JStr ''RLMGRAPH_CLAIM_EVIDENCE_V1''), (''claim_id'', JStr k)] @
     signed_fields c claim_sha (ca_evidence_level a) (ca_disposition a) (ca_eligible_evidence_ids a) (ca_evidence_merkle_root a) @
     [(''key_id'', JStr key_id), (''algorithm'', JStr ''HMAC-SHA256'')]"

definition authenticate :: "ledger_env \<Rightarrow> string \<Rightarrow> string \<Rightarrow> ledger \<Rightarrow> (claim_assessment \<times> ledger) result" where
  "authenticate e k key_id g =
     (if blank key_id then Inl (ValueError ''authentication key id must be a non-empty string'')
      else case dict_get key_id (le_keys e) of
        None \<Rightarrow> Inl (ClaimTransitionError (''authentication key is unavailable: '' @ key_id))
      | Some secret \<Rightarrow>
          (case load_claim g k of
             Inl x \<Rightarrow> Inl x
           | Inr (c, claim_sha) \<Rightarrow>
               (case assess e g k of
                  Inl x \<Rightarrow> Inl x
                | Inr a \<Rightarrow>
                    if ca_disposition a \<noteq> ClaimDisposition_ACTIVE then
                      Inl (ClaimTransitionError ''only active claims can be authenticated'')
                    else if ca_evidence_level a \<noteq> EvidenceLevel_REPLICATED then
                      Inl (ClaimTransitionError ''authentication requires independently replicated evidence'')
                    else
                      let body = signed_body c claim_sha k a key_id;
                          signature = le_hmac e secret (canonical_json (JObj body));
                          serialized = canonical_json (JObj (body @ [(''signature'', JStr signature)]));
                          sha = sha256_bytes e serialized; envelope_id = ''CLAIM-AUTH-'' @ take 32 sha
                      in (case find (\<lambda>r. ar_envelope_id r = envelope_id) (lg_authentications g) of
                            Some r \<Rightarrow>
                              if ar_payload r \<noteq> serialized then
                                Inl (DuplicatePayloadError (''authentication envelope '' @ envelope_id @ '' has conflicting content''))
                              else unchanged g (assess e g k)
                          | None \<Rightarrow>
                              assess_and_record e k ''CLAIM_AUTHENTICATED'' envelope_id
                                (g\<lparr>lg_authentications := lg_authentications g @ [\<lparr>ar_envelope_id = envelope_id,
                                     ar_claim_id = k, ar_sha = sha, ar_payload = serialized\<rparr>]\<rparr>)))))"

definition supersession_payload :: "string \<Rightarrow> string \<Rightarrow> string \<Rightarrow> json" where
  "supersession_payload k replacement reason = JObj
     [(''schema_version'', JStr ''rlmgraph-claim-supersession-v1''), (''claim_id'', JStr k),
      (''replacement_claim_id'', JStr replacement), (''reason'', JStr reason)]"

definition supersede_claim ::
  "ledger_env \<Rightarrow> string \<Rightarrow> string \<Rightarrow> string \<Rightarrow> ledger \<Rightarrow> (claim_assessment \<times> ledger) result" where
  "supersede_claim e k replacement reason g =
     (if blank reason then Inl (ValueError ''supersession reason must be a non-empty string'')
      else if k = replacement then Inl (ClaimTransitionError ''a claim cannot supersede itself'')
      else
        let serialized = canonical_json (supersession_payload k replacement reason); sha = sha256_bytes e serialized in
        (case load_claim g k of
           Inl x \<Rightarrow> Inl x
         | Inr _ \<Rightarrow>
             (case load_claim g replacement of
                Inl x \<Rightarrow> Inl x
              | Inr _ \<Rightarrow>
                  (case find (\<lambda>r. sr_claim_id r = k) (lg_supersessions g) of
                     Some r \<Rightarrow>
                       if sr_payload r \<noteq> serialized then
                         Inl (DuplicatePayloadError (''claim '' @ k @ '' already has a different supersession''))
                       else unchanged g (assess e g k)
                   | None \<Rightarrow>
                       assess_and_record e k ''CLAIM_SUPERSEDED'' sha
                         (g\<lparr>lg_supersessions := lg_supersessions g @ [\<lparr>sr_claim_id = k, sr_replacement = replacement,
                              sr_sha = sha, sr_payload = serialized\<rparr>]\<rparr>)))))"

definition history :: "ledger \<Rightarrow> string \<Rightarrow> json list result" where
  "history g k =
     (case load_claim g k of
        Inl x \<Rightarrow> Inl x
      | Inr _ \<Rightarrow> traverse (\<lambda>r. read_json (ev_payload r))
          (sort_key ev_sequence (filter (\<lambda>r. ev_claim_id r = k) (lg_events g))))"

section \<open>The integrity check\<close>

record integrity_report =
  ir_ok :: bool
  ir_claim_count :: nat
  ir_evidence_count :: nat
  ir_event_count :: nat
  ir_authentication_count :: nat
  ir_errors :: "string list"

definition error_if :: "bool \<Rightarrow> string \<Rightarrow> string list" where
  "error_if b t = (if b then [t] else [])"

definition claim_row_errors :: "ledger_env \<Rightarrow> claim_row \<Rightarrow> string list" where
  "claim_row_errors e r =
     error_if (sha256_bytes e (cr_payload r) \<noteq> cr_sha r) (''claim payload hash mismatch: '' @ cr_claim_id r)"

definition evidence_row_errors :: "ledger_env \<Rightarrow> evidence_row \<Rightarrow> string list" where
  "evidence_row_errors e r =
     (if sha256_bytes e (er_payload r) \<noteq> er_sha r then [''evidence payload hash mismatch: '' @ er_evidence_id r]
      else case loads (er_payload r) of
        None \<Rightarrow> [''evidence payload is not JSON: '' @ er_evidence_id r]
      | Some raw \<Rightarrow> error_if (\<not> artifact_matches e raw) (''evidence artifact hash mismatch: '' @ er_evidence_id r))"

definition supersession_row_errors :: "ledger_env \<Rightarrow> supersession_row \<Rightarrow> string list result" where
  "supersession_row_errors e r =
     (let bad = error_if (sha256_bytes e (sr_payload r) \<noteq> sr_sha r) (''supersession payload hash mismatch: '' @ sr_claim_id r) in
      case loads (sr_payload r) of
        None \<Rightarrow> Inr (bad @ [''supersession payload is not JSON: '' @ sr_claim_id r])
      | Some raw \<Rightarrow>
          if \<not> is_object raw then Inl (AttributeError ''get'')
          else Inr (bad @ error_if (get_field raw ''claim_id'' \<noteq> JStr (sr_claim_id r) \<or>
              get_field raw ''replacement_claim_id'' \<noteq> JStr (sr_replacement r))
            (''supersession binding mismatch: '' @ sr_claim_id r)))"

definition authentication_row_errors :: "ledger_env \<Rightarrow> authentication_row \<Rightarrow> string list" where
  "authentication_row_errors e r =
     (let actual = sha256_bytes e (ar_payload r) in
      error_if (actual \<noteq> ar_sha r) (''authentication payload hash mismatch: '' @ ar_envelope_id r) @
      error_if (ar_envelope_id r \<noteq> ''CLAIM-AUTH-'' @ take 32 actual)
        (''authentication envelope id mismatch: '' @ ar_envelope_id r))"

text \<open>Python compares \<open>True\<close> with 1; lists and dictionaries cannot be members of a set.\<close>

definition scalar :: "json \<Rightarrow> json" where
  "scalar v = (case v of JBool b \<Rightarrow> JInt (if b then 1 else 0) | _ \<Rightarrow> v)"

definition hashable :: "json \<Rightarrow> bool" where
  "hashable v \<longleftrightarrow> (case v of JList _ \<Rightarrow> False | JObj _ \<Rightarrow> False | _ \<Rightarrow> True)"

definition evidence_bound :: "ledger \<Rightarrow> string \<Rightarrow> json \<Rightarrow> (string \<times> string) option" where
  "evidence_bound g k i =
     (case find (\<lambda>r. er_evidence_id r = str_json i) (lg_records g) of
        None \<Rightarrow> None
      | Some r \<Rightarrow> if er_claim_id r = k then Some (str_json i, er_sha r) else None)"

definition inventory_errors :: "ledger_env \<Rightarrow> ledger \<Rightarrow> event_row \<Rightarrow> json \<Rightarrow> string list result" where
  "inventory_errors e g r raw =
     (case (field_or (JList []) raw ''evidence_ids'', field_or (JList []) raw ''eligible_evidence_ids'') of
        (JList ids, JList eligible) \<Rightarrow>
          if \<not> list_all hashable eligible \<or> \<not> list_all hashable ids then Inl (TypeError ''unhashable'')
          else
            let bound = map (evidence_bound g (ev_claim_id r)) eligible in
            Inr (error_if (\<not> scalar ` set eligible \<subseteq> scalar ` set ids) (''event eligible evidence is not a subset: '' @ ev_event_id r) @
                 map (\<lambda>_. ''event evidence binding mismatch: '' @ ev_event_id r) (filter (\<lambda>b. b = None) bound) @
                 error_if (get_field raw ''evidence_merkle_root'' \<noteq> JStr (merkle_root e (List.map_filter id bound)))
                   (''event evidence root mismatch: '' @ ev_event_id r))
      | _ \<Rightarrow> Inr [''event evidence inventory is invalid: '' @ ev_event_id r])"

type_synonym chain_ends = "(int \<times> string) py_dict"

definition event_row_errors ::
  "ledger_env \<Rightarrow> ledger \<Rightarrow> chain_ends \<Rightarrow> event_row \<Rightarrow> (string list \<times> chain_ends) result" where
  "event_row_errors e g ends r =
     (let actual = sha256_bytes e (ev_payload r);
          bad = error_if (actual \<noteq> ev_sha r) (''event payload hash mismatch: '' @ ev_event_id r) @
                error_if (ev_event_id r \<noteq> ''CLAIM-EVENT-'' @ take 32 actual) (''event id mismatch: '' @ ev_event_id r)
      in case loads (ev_payload r) of
           None \<Rightarrow> Inr (bad @ [''event payload is not JSON: '' @ ev_event_id r], ends)
         | Some raw \<Rightarrow>
             if \<not> is_object raw then Inl (AttributeError ''get'')
             else
               let previous = dict_get (ev_claim_id r) ends;
                   expected_sequence = (case previous of None \<Rightarrow> 1 | Some p \<Rightarrow> fst p + 1);
                   expected_previous = map_option snd previous;
                   claim_hash = map_option cr_sha (find (\<lambda>c. cr_claim_id c = ev_claim_id r) (lg_claims g));
                   chain =
                     error_if (ev_sequence r \<noteq> expected_sequence \<or> scalar (get_field raw ''sequence'') \<noteq> JInt (ev_sequence r))
                       (''event sequence mismatch: '' @ ev_event_id r) @
                     error_if (ev_previous r \<noteq> expected_previous \<or>
                         get_field raw ''previous_event_sha256'' \<noteq> JOptStr expected_previous)
                       (''event chain mismatch: '' @ ev_event_id r) @
                     error_if (get_field raw ''claim_id'' \<noteq> JStr (ev_claim_id r)) (''event claim mismatch: '' @ ev_event_id r) @
                     error_if (get_field raw ''claim_payload_sha256'' \<noteq> JOptStr claim_hash)
                       (''event claim payload binding mismatch: '' @ ev_event_id r)
               in map_sum id (\<lambda>inv. (bad @ chain @ inv, dict_set (ev_claim_id r) (ev_sequence r, ev_sha r) ends))
                    (inventory_errors e g r raw))"

fun events_errors :: "ledger_env \<Rightarrow> ledger \<Rightarrow> chain_ends \<Rightarrow> event_row list \<Rightarrow> string list result" where
  "events_errors e g ends [] = Inr []"
| "events_errors e g ends (r # rs) =
     (case event_row_errors e g ends r of
        Inl x \<Rightarrow> Inl x
      | Inr (bad, ends') \<Rightarrow> map_sum id (\<lambda>more. bad @ more) (events_errors e g ends' rs))"

definition verify_integrity :: "ledger_env \<Rightarrow> ledger \<Rightarrow> integrity_report result" where
  "verify_integrity e g =
     (case traverse (supersession_row_errors e) (sort_key sr_claim_id (lg_supersessions g)) of
        Inl x \<Rightarrow> Inl x
      | Inr supersessions \<Rightarrow>
          map_sum id (\<lambda>events.
              let errors = concat (map (claim_row_errors e) (sort_key cr_claim_id (lg_claims g))) @
                    concat (map (evidence_row_errors e) (sort_key er_evidence_id (lg_records g))) @
                    concat supersessions @
                    concat (map (authentication_row_errors e) (sort_key ar_envelope_id (lg_authentications g))) @ events
              in \<lparr>ir_ok = (errors = []), ir_claim_count = length (lg_claims g), ir_evidence_count = length (lg_records g),
                  ir_event_count = length (lg_events g), ir_authentication_count = length (lg_authentications g),
                  ir_errors = errors\<rparr>)
            (events_errors e g [] (sort_key ev_claim_id (sort_key ev_sequence (lg_events g)))))"

end
