(* ===== verification/Merkle.thy ===== *)
theory Merkle
  imports Ledger
begin

text \<open>
  The evidence root binds the evidence: two inventories with the same root are the same inventory, as
  long as the hash function is injective on the texts hashed on the way to the two roots. The argument
  climbs the two trees level by level. Records of one claim have distinct identifiers, so the
  duplication of the last node of an odd level cannot hide a record; leaves and inner nodes cannot be
  confused because the text hashed for a leaf is longer than the two digests hashed for an inner node.
\<close>

section \<open>Hexadecimal texts\<close>

lemma of_char_bound: "(of_char (c :: char) :: nat) < 256"
  by (simp add: of_char_def)

lemma hex_pair: "char_of (16 * hex_value (hex_digit (of_char c div 16)) + hex_value (hex_digit (of_char c mod 16))) = (c :: char)"
proof -
  have "of_char c div 16 < (16 :: nat)" "of_char c mod 16 < (16 :: nat)"
    using of_char_bound [of c] by (auto simp: less_mult_imp_div_less)
  moreover have "16 * (of_char c div 16) + of_char c mod 16 = (of_char c :: nat)" by presburger
  ultimately show ?thesis by (simp only: hex_value_digit) simp
qed

lemma from_hex_text [simp]: "from_hex (hex_text b) = b"
  by (induction b) (simp_all add: hex_text_def Let_def hex_pair)

lemma hex_text_inject [simp]: "hex_text a = hex_text b \<longleftrightarrow> a = b"
  by (metis from_hex_text)

lemma length_hex_text: "length (hex_text b) = 2 * length b"
  by (induction b) (simp_all add: hex_text_def Let_def)

section \<open>The texts hashed\<close>

definition padded :: "string list \<Rightarrow> string list" where
  "padded xs = (if odd (length xs) then xs @ [last xs] else xs)"

fun pair_texts :: "string list \<Rightarrow> string list" where
  "pair_texts (a # b # xs) = (a @ b) # pair_texts xs"
| "pair_texts _ = []"

definition level_texts :: "string list \<Rightarrow> string set" where
  "level_texts xs = set (pair_texts (padded xs))"

function merkle_texts :: "ledger_env \<Rightarrow> string list \<Rightarrow> string set" where
  "merkle_texts e xs = (if length xs \<le> 1 then {} else level_texts xs \<union> merkle_texts e (next_level e xs))"
  by auto
termination by (relation "measure (\<lambda>(e, xs). length xs)") (auto simp: length_next_level)

declare merkle_texts.simps [simp del]

definition leaf_text :: "string \<times> string \<Rightarrow> string" where
  "leaf_text r = canonical_json (JObj [(''id'', JStr (fst r)), (''payload_sha256'', JStr (snd r))])"

text \<open>Everything hashed by \<open>merkle_root\<close> (the empty text for no records).\<close>

definition root_texts :: "ledger_env \<Rightarrow> (string \<times> string) list \<Rightarrow> string set" where
  "root_texts e records =
     (if records = [] then {[]}
      else leaf_text ` set records \<union>
        merkle_texts e (map (evidence_leaf e) (sort_key fst (sort_key snd records))))"

lemma evidence_leaf_digest: "evidence_leaf e r = le_digest e (leaf_text r)"
  by (simp add: evidence_leaf_def sha256_json_def sha256_bytes_def leaf_text_def)

section \<open>Levels\<close>

definition digests :: "string list \<Rightarrow> bool" where
  "digests xs \<longleftrightarrow> (\<forall>x\<in>set xs. length x = 32)"

text \<open>A hash function that can be trusted on a set of texts.\<close>

definition sound_on :: "ledger_env \<Rightarrow> string set \<Rightarrow> bool" where
  "sound_on e T \<longleftrightarrow> inj_on (le_digest e) T \<and> (\<forall>t\<in>T. length (le_digest e t) = 32)"

lemma next_level_padded: "next_level e xs = pair_up e (padded xs)"
  by (simp add: next_level_def padded_def)

lemma even_padded [simp]: "even (length (padded xs))"
  by (simp add: padded_def)

lemma digests_padded: "digests xs \<Longrightarrow> digests (padded xs)"
  by (cases "xs = []") (auto simp: digests_def padded_def)

lemma set_pair_up: "set (pair_up e xs) = le_digest e ` set (pair_texts xs)"
  by (induction e xs rule: pair_up.induct) auto

lemma set_next_level: "set (next_level e xs) = le_digest e ` level_texts xs"
  by (simp add: next_level_padded set_pair_up level_texts_def)

lemma pair_texts_length: "digests xs \<Longrightarrow> t \<in> set (pair_texts xs) \<Longrightarrow> length t = 64"
  by (induction xs rule: pair_texts.induct) (auto simp: digests_def)

lemma pair_up_Nil: "[] = pair_up e ys \<Longrightarrow> even (length ys) \<Longrightarrow> ys = []"
  by (cases ys rule: pair_texts.cases) auto

lemma pair_up_inj:
  assumes "pair_up e xs = pair_up e ys" and "even (length xs)" and "even (length ys)"
    and "digests xs" and "digests ys"
    and "inj_on (le_digest e) T" and "set (pair_texts xs) \<subseteq> T" and "set (pair_texts ys) \<subseteq> T"
  shows "xs = ys"
  using assms
proof (induction e xs arbitrary: ys rule: pair_up.induct)
  case (1 e a b xs)
  then obtain c d zs where ys: "ys = c # d # zs" by (cases ys rule: pair_texts.cases) auto
  with 1(2,7-9) have "a @ b = c @ d" by (auto dest: inj_onD)
  moreover have "length a = length c" using 1(5,6) ys by (simp add: digests_def)
  ultimately have "a = c" "b = d" by auto
  with 1 ys show ?case by (auto simp: digests_def)
qed (auto dest: pair_up_Nil)

text \<open>With distinct nodes the padding of an odd level is visible, so a level determines the one below,
  and the one above is distinct again.\<close>

lemma padded_repeats:
  assumes "odd (length xs)" shows "\<not> distinct (padded xs)"
proof -
  have "xs \<noteq> []" using assms by auto
  then have "last xs \<in> set xs" by simp
  with assms show ?thesis by (simp add: padded_def)
qed

lemma padded_inj:
  assumes "padded xs = padded ys" and "distinct xs" and "distinct ys"
  shows "xs = ys"
proof (cases "odd (length xs) = odd (length ys)")
  case True
  with assms(1) show ?thesis by (auto simp: padded_def split: if_splits)
next
  case False
  then show ?thesis
    using assms padded_repeats [of xs] padded_repeats [of ys] by (cases "odd (length xs)") (simp_all add: padded_def)
qed

lemma padded_Cons: "padded (a # b # xs) = a # b # padded xs"
  by (cases xs) (auto simp: padded_def)

lemma pair_texts_first:
  "t \<in> set (pair_texts (padded xs)) \<Longrightarrow> digests xs \<Longrightarrow> take 32 t \<in> set xs"
proof (induction xs rule: pair_texts.induct)
  case (1 a b xs)
  then show ?case by (auto simp: padded_Cons digests_def)
next
  case "2_1"
  then show ?case by (simp add: padded_def)
qed (simp add: padded_def digests_def)

lemma distinct_pair_up:
  assumes "distinct xs" and "digests xs" and "inj_on (le_digest e) T" and "set (pair_texts (padded xs)) \<subseteq> T"
  shows "distinct (pair_up e (padded xs))"
  using assms
proof (induction xs rule: pair_texts.induct)
  case (1 a b xs)
  have "a @ b \<notin> set (pair_texts (padded xs))"
    using pair_texts_first [of "a @ b" xs] 1(2,3) by (auto simp: digests_def)
  moreover have "set (pair_texts (padded xs)) \<subseteq> T" "a @ b \<in> T" using 1(5) by (auto simp: padded_Cons)
  ultimately have "le_digest e (a @ b) \<notin> le_digest e ` set (pair_texts (padded xs))"
    using inj_on_image_mem_iff [OF 1(4)] by blast
  with 1 show ?case by (auto simp: padded_Cons set_pair_up digests_def)
next
  case "2_1"
  then show ?case by (simp add: padded_def)
qed (simp add: padded_def)

section \<open>Trees\<close>

fun up :: "ledger_env \<Rightarrow> nat \<Rightarrow> string list \<Rightarrow> string list" where
  "up e 0 xs = xs"
| "up e (Suc k) xs = up e k (next_level e xs)"

lemma up_add: "up e i (up e m xs) = up e (m + i) xs"
  by (induction m arbitrary: xs) simp_all

lemma up_next: "next_level e (up e i xs) = up e (Suc i) xs"
  using up_add [of e 1 i xs] by simp

text \<open>The root is the single node some levels up, and all texts on the way are hashed.\<close>

lemma merkle_fold_up:
  "xs \<noteq> [] \<Longrightarrow> \<exists>k. up e k xs = [merkle_fold e xs] \<and> (\<forall>i<k. level_texts (up e i xs) \<subseteq> merkle_texts e xs)"
proof (induction e xs rule: merkle_fold.induct)
  case (1 e xs)
  show ?case
  proof (cases "length xs \<le> 1")
    case True
    with 1(2) have "xs = [hd xs]" by (cases xs) auto
    with True have "up e 0 xs = [merkle_fold e xs]" by (simp add: merkle_fold.simps [of e xs])
    then show ?thesis by blast
  next
    case False
    then have "0 < length (next_level e xs)" by (simp add: length_next_level)
    then have "next_level e xs \<noteq> []" by simp
    from 1(1) [OF False this] obtain k where k: "up e k (next_level e xs) = [merkle_fold e (next_level e xs)]"
      "\<forall>i<k. level_texts (up e i (next_level e xs)) \<subseteq> merkle_texts e (next_level e xs)" by blast
    have "up e (Suc k) xs = [merkle_fold e xs]" using k(1) False by (simp add: merkle_fold.simps [of e xs])
    moreover have "level_texts (up e i xs) \<subseteq> merkle_texts e xs" if "i < Suc k" for i
      using k(2) that False by (cases i) (auto simp: merkle_texts.simps [of e xs])
    ultimately show ?thesis by blast
  qed
qed

lemma up_good:
  assumes "distinct xs" and "digests xs" and "sound_on e T" and "\<forall>i<k. level_texts (up e i xs) \<subseteq> T" and "m \<le> k"
  shows "distinct (up e m xs) \<and> digests (up e m xs)"
  using assms(5)
proof (induction m)
  case 0
  with assms show ?case by simp
next
  case (Suc m)
  then have IH: "distinct (up e m xs)" "digests (up e m xs)" and T: "level_texts (up e m xs) \<subseteq> T" using assms(4) by auto
  then have "distinct (next_level e (up e m xs))"
    using assms(3) unfolding next_level_padded sound_on_def level_texts_def by (intro distinct_pair_up) auto
  moreover have "digests (next_level e (up e m xs))"
    using T assms(3) by (auto simp: digests_def set_next_level sound_on_def)
  ultimately show ?case by (simp add: up_next del: up.simps)
qed

lemma next_level_inj:
  assumes "next_level e xs = next_level e ys" and "distinct xs" "digests xs" and "distinct ys" "digests ys"
    and "sound_on e T" and "level_texts xs \<subseteq> T" and "level_texts ys \<subseteq> T"
  shows "xs = ys"
proof -
  have "padded xs = padded ys"
  proof (rule pair_up_inj [where e = e and T = T])
    show "pair_up e (padded xs) = pair_up e (padded ys)" using assms(1) by (simp add: next_level_padded)
    show "inj_on (le_digest e) T" using assms(6) by (simp add: sound_on_def)
    show "set (pair_texts (padded xs)) \<subseteq> T" "set (pair_texts (padded ys)) \<subseteq> T"
      using assms(7,8) by (simp_all add: level_texts_def)
  qed (simp_all add: digests_padded assms)
  then show ?thesis using padded_inj assms(2,4) by blast
qed

lemma up_inj:
  assumes "up e k xs = up e k ys" and "distinct xs" "digests xs" and "distinct ys" "digests ys" and "sound_on e T"
    and "\<forall>i<k. level_texts (up e i xs) \<subseteq> T" and "\<forall>i<k. level_texts (up e i ys) \<subseteq> T"
  shows "xs = ys"
  using assms(1,7,8)
proof (induction k)
  case 0
  then show ?case by simp
next
  case (Suc k)
  have x: "distinct (up e k xs) \<and> digests (up e k xs)"
    by (rule up_good [OF assms(2,3,6), of k k]) (use Suc.prems in auto)
  have y: "distinct (up e k ys) \<and> digests (up e k ys)"
    by (rule up_good [OF assms(4,5,6), of k k]) (use Suc.prems in auto)
  have "next_level e (up e k xs) = next_level e (up e k ys)" using Suc.prems(1) by (simp add: up_next del: up.simps)
  then have "up e k xs = up e k ys"
    by (rule next_level_inj [OF _ conjunct1 [OF x] conjunct2 [OF x] conjunct1 [OF y] conjunct2 [OF y] assms(6)])
      (use Suc.prems(2,3) in auto)
  with Suc show ?case by simp
qed

section \<open>Roots\<close>

lemma fold_inj_upto:
  assumes "xs \<noteq> []" "distinct xs" "digests xs" and "ys \<noteq> []" "distinct ys" "digests ys" and "sound_on e T"
    and "up e i xs = [r]" "\<forall>j<i. level_texts (up e j xs) \<subseteq> T"
    and "up e (m + i) ys = [r]" "\<forall>j<m + i. level_texts (up e j ys) \<subseteq> T"
    and "\<forall>x\<in>set xs. \<exists>t\<in>T. x = le_digest e t \<and> length t \<noteq> 64"
  shows "xs = ys"
proof -
  let ?zs = "up e m ys"
  have z: "distinct ?zs \<and> digests ?zs"
    by (rule up_good [OF assms(5,6,7), of "m + i"]) (use assms(11) in auto)
  have "up e i xs = up e i ?zs" using assms(8,10) by (simp add: up_add)
  then have eq: "xs = ?zs"
    by (rule up_inj [OF _ assms(2,3) conjunct1 [OF z] conjunct2 [OF z] assms(7,9)])
      (use assms(11) in \<open>auto simp: up_add\<close>)
  show ?thesis
  proof (cases m)
    case 0
    with eq show ?thesis by simp
  next
    case (Suc n)
    then have top: "?zs = next_level e (up e n ys)" by (simp add: up_next del: up.simps)
    obtain x where x: "x \<in> set xs" using assms(1) by (cases xs) auto
    then obtain t where t: "t \<in> T" "x = le_digest e t" "length t \<noteq> 64" using assms(12) by blast
    from x eq top obtain u where u: "u \<in> level_texts (up e n ys)" "x = le_digest e u"
      by (auto simp: set_next_level)
    have "digests (up e n ys)"
      using up_good [OF assms(5,6,7), of "m + i" n] assms(11) Suc by auto
    then have "length u = 64" using u(1) pair_texts_length digests_padded by (auto simp: level_texts_def)
    moreover have "n < m + i" using Suc by simp
    then have "u \<in> T" using assms(11) u(1) by blast
    ultimately show ?thesis using t u(2) assms(7) by (auto simp: sound_on_def dest: inj_onD)
  qed
qed

lemma fold_inj:
  assumes "xs \<noteq> []" "distinct xs" "digests xs" and "ys \<noteq> []" "distinct ys" "digests ys" and "sound_on e T"
    and "merkle_texts e xs \<subseteq> T" and "merkle_texts e ys \<subseteq> T"
    and leaves: "\<forall>x\<in>set xs \<union> set ys. \<exists>t\<in>T. x = le_digest e t \<and> length t \<noteq> 64"
    and "merkle_fold e xs = merkle_fold e ys"
  shows "xs = ys"
proof -
  from merkle_fold_up [OF assms(1), of e] assms(8)
  obtain i where i: "up e i xs = [merkle_fold e xs]" "\<forall>j<i. level_texts (up e j xs) \<subseteq> T" by blast
  from merkle_fold_up [OF assms(4), of e] assms(9,11)
  obtain k where k: "up e k ys = [merkle_fold e xs]" "\<forall>j<k. level_texts (up e j ys) \<subseteq> T" by (metis order_trans)
  show ?thesis
  proof (cases "i \<le> k")
    case True
    with fold_inj_upto [OF assms(1-7) i, of "k - i"] k leaves show ?thesis by auto
  next
    case False
    with fold_inj_upto [OF assms(4-6) assms(1-3) assms(7) k, of "i - k"] i leaves show ?thesis by auto
  qed
qed

text \<open>The root node is itself the digest of a hashed text that is not empty.\<close>

lemma fold_is_digest:
  assumes "xs \<noteq> []" "distinct xs" "digests xs" and "sound_on e T" and "merkle_texts e xs \<subseteq> T"
    and "\<forall>x\<in>set xs. \<exists>t\<in>T. x = le_digest e t \<and> t \<noteq> []"
  shows "\<exists>t\<in>T. merkle_fold e xs = le_digest e t \<and> t \<noteq> []"
proof -
  from merkle_fold_up [OF assms(1), of e] assms(5)
  obtain k where k: "up e k xs = [merkle_fold e xs]" "\<forall>j<k. level_texts (up e j xs) \<subseteq> T" by blast
  show ?thesis
  proof (cases k)
    case 0
    with k(1) have "merkle_fold e xs \<in> set xs" by (metis list.set_intros(1) up.simps(1))
    with assms(6) show ?thesis by blast
  next
    case (Suc n)
    then have "next_level e (up e n xs) = [merkle_fold e xs]" using k(1) by (simp add: up_next del: up.simps)
    then obtain u where u: "u \<in> level_texts (up e n xs)" "merkle_fold e xs = le_digest e u"
      using set_next_level [of e "up e n xs"] by auto
    have "digests (up e n xs)" using up_good [OF assms(2,3,4) k(2), of n] Suc by simp
    then have "length u = 64" using u(1) pair_texts_length digests_padded by (auto simp: level_texts_def)
    moreover have "n < k" using Suc by simp
    then have "u \<in> T" using k(2) u(1) by blast
    ultimately show ?thesis using u(2) by force
  qed
qed

lemma length_quote_text: "length t + 2 \<le> length (quote_text t)"
proof -
  have long: "1 \<le> length (escape_char c)" for c by (simp add: escape_char_def Let_def)
  have "length t \<le> length (concat (map escape_char t))"
  proof (induction t)
    case Nil
    show ?case by simp
  next
    case (Cons c t)
    with long [of c] show ?case by simp
  qed
  then show ?thesis by (simp add: quote_text_def)
qed

lemma leaf_text_eq:
  "leaf_text r = CHR ''{'' # quote_text ''id'' @ CHR '':'' # quote_text (fst r) @ CHR '','' #
     quote_text ''payload_sha256'' @ CHR '':'' # quote_text (snd r) @ ''}''"
proof -
  have "sort_key fst [(''id'', JStr (fst r)), (''payload_sha256'', JStr (snd r))] =
      [(''id'', JStr (fst r)), (''payload_sha256'', JStr (snd r))]" by simp
  then show ?thesis by (simp add: leaf_text_def canonical_json_simps member_text_def)
qed

lemma leaf_text_long: "length (snd r) = 64 \<Longrightarrow> 64 < length (leaf_text r)"
  using length_quote_text [of "snd r"] by (simp add: leaf_text_eq)

lemma quote_text_inject: "quote_text s = quote_text t \<longleftrightarrow> s = t"
  using quote_text_cancel [of s "[]" t "[]"] by simp

lemma leaf_text_inj: "leaf_text r = leaf_text q \<longleftrightarrow> r = q"
  by (auto simp: leaf_text_eq quote_text_cancel quote_text_inject prod_eq_iff)

lemma sorted_records: "set (sort_key fst (sort_key snd rs)) = set rs"
    "distinct (sort_key fst (sort_key snd rs)) = distinct rs" "sort_key fst (sort_key snd rs) = [] \<longleftrightarrow> rs = []"
  by (auto, metis length_0_conv length_sort)

lemma leaves_good:
  assumes "distinct rs" and "sound_on e T" and "leaf_text ` set rs \<subseteq> T"
  shows "distinct (map (evidence_leaf e) (sort_key fst (sort_key snd rs))) \<and>
    digests (map (evidence_leaf e) (sort_key fst (sort_key snd rs)))"
proof
  have "inj_on (evidence_leaf e) (set rs)"
  proof (rule inj_onI)
    fix r q assume "r \<in> set rs" "q \<in> set rs" "evidence_leaf e r = evidence_leaf e q"
    moreover from this assms(3) have "leaf_text r \<in> T" "leaf_text q \<in> T" by auto
    ultimately have "leaf_text r = leaf_text q"
      using assms(2) inj_onD [of "le_digest e" T "leaf_text r" "leaf_text q"] by (simp add: sound_on_def evidence_leaf_digest)
    then show "r = q" by (simp add: leaf_text_inj)
  qed
  with assms(1) show "distinct (map (evidence_leaf e) (sort_key fst (sort_key snd rs)))"
    by (simp add: distinct_map sorted_records)
  show "digests (map (evidence_leaf e) (sort_key fst (sort_key snd rs)))"
    using assms(2,3) by (auto simp: digests_def sound_on_def evidence_leaf_digest)
qed

lemma empty_root_differs:
  assumes "distinct rs" and "\<forall>r\<in>set rs. length (snd r) = 64" and "sound_on e T" and "root_texts e rs \<subseteq> T" and "[] \<in> T"
    and "merkle_root e rs = sha256_bytes e []"
  shows "rs = []"
proof (rule ccontr)
  assume ne: "rs \<noteq> []"
  let ?L = "map (evidence_leaf e) (sort_key fst (sort_key snd rs))"
  from ne assms(4) have T: "leaf_text ` set rs \<subseteq> T" "merkle_texts e ?L \<subseteq> T" by (simp_all add: root_texts_def)
  from leaves_good [OF assms(1,3) T(1)] have L: "distinct ?L" "digests ?L" by simp_all
  have "\<exists>t\<in>T. merkle_fold e ?L = le_digest e t \<and> t \<noteq> []"
  proof (rule fold_is_digest [OF _ L assms(3) T(2)])
    show "?L \<noteq> []" using ne by (simp add: sorted_records)
    show "\<forall>x\<in>set ?L. \<exists>t\<in>T. x = le_digest e t \<and> t \<noteq> []"
      using T(1) by (auto simp: evidence_leaf_digest leaf_text_eq)
  qed
  moreover have "merkle_fold e ?L = le_digest e []"
    using assms(6) ne by (simp add: merkle_root_def sha256_bytes_def sorted_records)
  ultimately show False using assms(3,5) by (auto simp: sound_on_def dest: inj_onD)
qed

text \<open>C10: The evidence root binds the evidence: two inventories of distinct records, each with the 64
  hexadecimal digits of its payload hash, that have the same root are the same set of records, as long
  as the hash function is injective, with 32-byte digests, on the texts hashed for the two roots.\<close>

theorem merkle_root_binds:
  assumes "distinct rs" and "distinct qs" and "\<forall>r\<in>set rs \<union> set qs. length (snd r) = 64"
    and "sound_on e (root_texts e rs \<union> root_texts e qs)"
    and same: "merkle_root e rs = merkle_root e qs"
  shows "set rs = set qs"
proof (cases "rs = [] \<or> qs = []")
  case True
  have root_Nil: "merkle_root e [] = sha256_bytes e []" by (simp add: merkle_root_def)
  have nil: "[] \<in> root_texts e rs \<union> root_texts e qs" using True by (auto simp: root_texts_def)
  have len: "\<forall>r\<in>set rs. length (snd r) = 64" "\<forall>r\<in>set qs. length (snd r) = 64" using assms(3) by blast+
  from True show ?thesis
  proof
    assume rs: "rs = []"
    have "qs = []"
      by (rule empty_root_differs [OF assms(2) len(2) assms(4) Un_upper2 nil]) (use same root_Nil rs in simp)
    with rs show ?thesis by simp
  next
    assume qs: "qs = []"
    have "rs = []"
      by (rule empty_root_differs [OF assms(1) len(1) assms(4) Un_upper1 nil]) (use same root_Nil qs in simp)
    with qs show ?thesis by simp
  qed
next
  case False
  let ?T = "root_texts e rs \<union> root_texts e qs"
  let ?X = "map (evidence_leaf e) (sort_key fst (sort_key snd rs))"
  let ?Y = "map (evidence_leaf e) (sort_key fst (sort_key snd qs))"
  have X: "leaf_text ` set rs \<subseteq> ?T" "merkle_texts e ?X \<subseteq> ?T" and Y: "leaf_text ` set qs \<subseteq> ?T" "merkle_texts e ?Y \<subseteq> ?T"
    using False by (auto simp: root_texts_def)
  have goodX: "distinct ?X" "digests ?X" using leaves_good [OF assms(1,4) X(1)] by simp_all
  have goodY: "distinct ?Y" "digests ?Y" using leaves_good [OF assms(2,4) Y(1)] by simp_all
  have "?X = ?Y"
  proof (rule fold_inj [OF _ goodX _ goodY assms(4) X(2) Y(2)])
    show "?X \<noteq> []" "?Y \<noteq> []" using False by (simp_all add: sorted_records)
    show "\<forall>x\<in>set ?X \<union> set ?Y. \<exists>t\<in>?T. x = le_digest e t \<and> length t \<noteq> 64"
    proof
      fix x assume "x \<in> set ?X \<union> set ?Y"
      then obtain r where r: "r \<in> set rs \<union> set qs" "x = le_digest e (leaf_text r)" by (auto simp: evidence_leaf_digest)
      then have "leaf_text r \<in> ?T" and "length (leaf_text r) \<noteq> 64"
        using X(1) Y(1) leaf_text_long [of r] assms(3) by auto
      with r(2) show "\<exists>t\<in>?T. x = le_digest e t \<and> length t \<noteq> 64" by blast
    qed
    show "merkle_fold e ?X = merkle_fold e ?Y"
      using same False by (simp add: merkle_root_def sorted_records)
  qed
  then have "evidence_leaf e ` set rs = evidence_leaf e ` set qs" by (metis set_map sorted_records(1))
  then have "le_digest e ` (leaf_text ` set rs) = le_digest e ` (leaf_text ` set qs)"
    by (simp add: image_image evidence_leaf_digest)
  then have "leaf_text ` set rs = leaf_text ` set qs"
    using inj_on_image_eq_iff [of "le_digest e" ?T] X(1) Y(1) assms(4) by (simp add: sound_on_def)
  moreover have "inj leaf_text" by (rule injI) (simp add: leaf_text_inj)
  ultimately show ?thesis by (simp add: inj_image_eq_iff)
qed

definition demo_merkle_env :: ledger_env where
  "demo_merkle_env = \<lparr>le_digest = (\<lambda>t. hd (drop 7 t @ ''z'') # replicate 31 CHR ''i''), le_hmac = (\<lambda>k m. []), le_keys = [],
     le_resolve = Some, le_file = (\<lambda>p. None)\<rparr>"

definition demo_inventory :: "string list \<Rightarrow> (string \<times> string) list" where
  "demo_inventory ids = map (\<lambda>i. (i, replicate 64 CHR ''0'')) ids"

theorem merkle_root_binds_witness:
  "merkle_root demo_merkle_env (demo_inventory [''a'', ''b'']) = merkle_root demo_merkle_env (demo_inventory [''b'', ''a'']) \<and>
     set (demo_inventory [''a'', ''b'']) = set (demo_inventory [''b'', ''a''])"
proof
  let ?h = "replicate 64 CHR ''0''"
  let ?a = "leaf_text (''a'', ?h)" and ?b = "leaf_text (''b'', ?h)"
  have sorted: "sort_key fst (sort_key snd (demo_inventory [''a'', ''b''])) = [(''a'', ?h), (''b'', ?h)]"
    "sort_key fst (sort_key snd (demo_inventory [''b'', ''a''])) = [(''a'', ?h), (''b'', ?h)]"
    by (simp_all add: demo_inventory_def)
  have digests: "le_digest demo_merkle_env ?a = ''a'' @ replicate 31 CHR ''i''" "le_digest demo_merkle_env ?b = ''b'' @ replicate 31 CHR ''i''"
    by (simp_all add: demo_merkle_env_def leaf_text_eq quote_text_def escape_char_def)
  let ?pair = "le_digest demo_merkle_env ?a @ le_digest demo_merkle_env ?b"
  have top: "le_digest demo_merkle_env ?pair = ''i'' @ replicate 31 CHR ''i''"
    unfolding digests by (simp add: demo_merkle_env_def numeral_eq_Suc)
  have texts: "root_texts demo_merkle_env (demo_inventory is) = {?a, ?b, ?pair}" if "is = [''a'', ''b''] \<or> is = [''b'', ''a'']" for "is"
  proof -
    have "merkle_texts demo_merkle_env [le_digest demo_merkle_env ?a, le_digest demo_merkle_env ?b] = {?pair}"
      by (simp add: merkle_texts.simps [of _ "[_, _]"] merkle_texts.simps [of _ "[_]"] level_texts_def padded_def next_level_def)
    moreover have "sort_key fst (sort_key snd (demo_inventory is)) = [(''a'', ?h), (''b'', ?h)]" using that sorted by blast
    moreover from that have "set (demo_inventory is) = {(''a'', ?h), (''b'', ?h)}" "demo_inventory is \<noteq> []"
      by (elim disjE; hypsubst; simp only: demo_inventory_def list.map list.set insert_commute; simp)+
    ultimately show ?thesis by (simp only: root_texts_def evidence_leaf_digest list.map if_False image_insert image_empty Un_insert_left Un_empty_left)
  qed
  show same: "merkle_root demo_merkle_env (demo_inventory [''a'', ''b'']) = merkle_root demo_merkle_env (demo_inventory [''b'', ''a''])"
    by (simp only: merkle_root_def sorted)
  show "set (demo_inventory [''a'', ''b'']) = set (demo_inventory [''b'', ''a''])"
  proof (rule merkle_root_binds [OF _ _ _ _ same])
    show "sound_on demo_merkle_env (root_texts demo_merkle_env (demo_inventory [''a'', ''b'']) \<union> root_texts demo_merkle_env (demo_inventory [''b'', ''a'']))"
      using digests top by (auto simp: texts sound_on_def)
  qed (simp_all add: demo_inventory_def)
qed

end
