(* ===== verification/Ledger_Invariants.thy ===== *)
theory Ledger_Invariants
  imports Merkle
begin

text \<open>
  What the ledger keeps: every row carries the canonical text of what it records and the hash of that
  text, and the events of a claim form a chain. The environment (files, keys) may change between
  operations; the hash function stays.
\<close>

section \<open>Reading the stored payloads\<close>

lemma map_of_sort_key:
  assumes "distinct (map fst ms)" shows "map_of (sort_key fst ms) = map_of ms"
  using assms by (intro map_of_set_cong) (simp_all add: distinct_map_sort_key)

lemma field_sort_keys:
  assumes "distinct (map fst ms)"
  shows "field_or d (sort_keys (JObj ms)) k = (case map_of ms k of None \<Rightarrow> d | Some v \<Rightarrow> sort_keys v)"
proof -
  have "distinct (map fst (map (\<lambda>m. (fst m, sort_keys (snd m))) ms))" using assms by (simp add: comp_def)
  then have "map_of (sort_key fst (map (\<lambda>m. (fst m, sort_keys (snd m))) ms)) k = map_option sort_keys (map_of ms k)"
    by (simp add: map_of_sort_key) (induction ms; auto)
  then show ?thesis by (simp add: field_or_def split: option.split)
qed

lemma sort_keys_simps [simp]: "sort_keys (JStrs xs) = JStrs xs" "sort_keys (JOptStr x) = JOptStr x"
  by (simp_all add: JStrs_def JOptStr_def split: option.split)

lemma is_object_sort_keys [simp]: "is_object (sort_keys (JObj ms))"
  by (simp add: is_object_def)

lemma distinct_keys_simps [simp]: "distinct_keys (JStrs xs)" "distinct_keys (JOptStr x)"
  by (simp_all add: JStrs_def JOptStr_def split: option.split)

lemma claim_payload_keys: "distinct_keys (claim_payload c)"
  by (simp add: claim_payload_def)

lemma evidence_payload_keys: "distinct_keys (evidence_payload v)"
  by (simp add: evidence_payload_def)

lemma event_body_keys: "distinct_keys (event_body a h n p kind i)"
  by (simp add: event_body_def)

lemma supersession_payload_keys: "distinct_keys (supersession_payload k q reason)"
  by (simp add: supersession_payload_def)

lemma claim_of_payload:
  assumes "cs_schema_version c = ''rlmgraph-claim-statement-v1''"
  shows "claim_of (sort_keys (claim_payload c)) = Inr c"
proof -
  let ?ms = "[(''claim_id'', JStr (cs_claim_id c)), (''subject'', JStr (cs_subject c)), (''assertion'', JStr (cs_assertion c)),
      (''source_manifest_sha256'', JStr (cs_source_manifest_sha256 c)), (''policy_sha256'', JStr (cs_policy_sha256 c)),
      (''required_test_spec_sha256'', JStr (cs_required_test_spec_sha256 c)),
      (''schema_version'', JStr ''rlmgraph-claim-statement-v1'')]"
  have d: "distinct (map fst ?ms)" by simp
  obtain ms where ms: "sort_keys (JObj ?ms) = JObj ms" "fst ` set ms = fst ` set ?ms"
    by (simp add: image_image del: sort_key_simps)
  note f = field_sort_keys [OF d, of JNull]
  have "claim_of (JObj ms) = Inr c"
    unfolding claim_of_def get_field_def ms(1) [symmetric] f
    using assms ms(2) by (simp add: ms(1) claim_fields_def f [unfolded ms(1)])
  then show ?thesis by (simp only: claim_payload_def ms(1))
qed

lemmas ledger_keys = claim_payload_keys evidence_payload_keys event_body_keys supersession_payload_keys

lemma event_fields:
  "get_field (sort_keys (event_body a h n p kind i)) ''sequence'' = JInt n"
  "get_field (sort_keys (event_body a h n p kind i)) ''previous_event_sha256'' = JOptStr p"
  "get_field (sort_keys (event_body a h n p kind i)) ''claim_id'' = JStr (ca_claim_id a)"
  "get_field (sort_keys (event_body a h n p kind i)) ''claim_payload_sha256'' = JStr h"
  "get_field (sort_keys (event_body a h n p kind i)) ''evidence_merkle_root'' = JStr (ca_evidence_merkle_root a)"
  "field_or d (sort_keys (event_body a h n p kind i)) ''evidence_ids'' = JStrs (ca_evidence_ids a)"
  "field_or d (sort_keys (event_body a h n p kind i)) ''eligible_evidence_ids'' = JStrs (ca_eligible_evidence_ids a)"
  unfolding get_field_def event_body_def
  by (subst field_sort_keys; simp)+

lemma supersession_fields:
  "get_field (sort_keys (supersession_payload k q reason)) ''claim_id'' = JStr k"
  "get_field (sort_keys (supersession_payload k q reason)) ''replacement_claim_id'' = JStr q"
  unfolding get_field_def supersession_payload_def
  by (subst field_sort_keys; simp)+

lemma evidence_fields:
  "get_field (sort_keys (evidence_payload v)) ''kind'' = JStr (kind_value (ce_kind v))"
  "get_field (sort_keys (evidence_payload v)) ''outcome'' = JStr (outcome_value (ce_outcome v))"
  "get_field (sort_keys (evidence_payload v)) ''source_manifest_sha256'' = JStr (ce_source_manifest_sha256 v)"
  "get_field (sort_keys (evidence_payload v)) ''policy_sha256'' = JStr (ce_policy_sha256 v)"
  "get_field (sort_keys (evidence_payload v)) ''test_spec_sha256'' = JOptStr (ce_test_spec_sha256 v)"
  "get_field (sort_keys (evidence_payload v)) ''independence_key'' = JOptStr (ce_independence_key v)"
  unfolding get_field_def evidence_payload_def
  by (subst field_sort_keys; simp)+

lemma evidence_artifact:
  "artifact_matches e (sort_keys (evidence_payload v)) \<longleftrightarrow>
     (case le_file e (ce_artifact_path v) of None \<Rightarrow> False | Some content \<Rightarrow> sha256_bytes e content = ce_artifact_sha256 v)"
proof -
  obtain ms where ms: "evidence_payload v = JObj ms" by (simp add: evidence_payload_def)
  then have "distinct (map fst ms)" using evidence_payload_keys [of v] by simp
  then have "distinct (map fst (map (\<lambda>m. (fst m, sort_keys (snd m))) ms))" by (simp add: comp_def)
  moreover have "map_of (map (\<lambda>m. (fst m, sort_keys (snd m))) ms) k = map_option sort_keys (map_of ms k)" for k
    by (induction ms) auto
  moreover have "map_of ms ''artifact_path'' = Some (JStr (ce_artifact_path v))"
    "map_of ms ''artifact_sha256'' = Some (JStr (ce_artifact_sha256 v))"
    using ms by (auto simp: evidence_payload_def)
  ultimately show ?thesis by (simp add: artifact_matches_def ms map_of_sort_key cong: option.case_cong)
qed

lemma event_body_object [simp]: "is_object (sort_keys (event_body a h n p kind i))"
  by (simp only: event_body_def is_object_sort_keys)

lemma supersession_object [simp]: "is_object (sort_keys (supersession_payload k q reason))"
  by (simp only: supersession_payload_def is_object_sort_keys)

section \<open>Rows\<close>

definition claim_row_ok :: "ledger_env \<Rightarrow> claim_row \<Rightarrow> bool" where
  "claim_row_ok e r \<longleftrightarrow>
     (\<exists>c. validate_claim c = Inr c \<and> cs_claim_id c = cr_claim_id r \<and>
        cr_payload r = canonical_json (claim_payload c) \<and> cr_sha r = sha256_bytes e (cr_payload r))"

definition evidence_row_ok :: "ledger_env \<Rightarrow> evidence_row \<Rightarrow> bool" where
  "evidence_row_ok e r \<longleftrightarrow>
     (\<exists>v. ce_evidence_id v = er_evidence_id r \<and> ce_claim_id v = er_claim_id r \<and>
        er_payload r = canonical_json (evidence_payload v) \<and> er_sha r = sha256_bytes e (er_payload r))"

definition supersession_row_ok :: "ledger_env \<Rightarrow> supersession_row \<Rightarrow> bool" where
  "supersession_row_ok e r \<longleftrightarrow>
     (\<exists>reason. sr_payload r = canonical_json (supersession_payload (sr_claim_id r) (sr_replacement r) reason) \<and>
        sr_sha r = sha256_bytes e (sr_payload r))"

text \<open>A signature is only ever written for an active, replicated claim.\<close>

definition authentication_row_ok :: "ledger_env \<Rightarrow> authentication_row \<Rightarrow> bool" where
  "authentication_row_ok e r \<longleftrightarrow>
     (\<exists>ms. distinct_keys (JObj ms) \<and> ar_payload r = canonical_json (JObj ms) \<and>
        map_of ms ''claim_id'' = Some (JStr (ar_claim_id r)) \<and>
        map_of ms ''evidence_level'' = Some (JStr ''REPLICATED'') \<and> map_of ms ''disposition'' = Some (JStr ''ACTIVE'') \<and>
        ar_sha r = sha256_bytes e (ar_payload r) \<and> ar_envelope_id r = ''CLAIM-AUTH-'' @ take 32 (ar_sha r))"

definition evidence_of :: "ledger \<Rightarrow> string \<Rightarrow> string \<Rightarrow> (string \<times> string) option" where
  "evidence_of g k i = evidence_bound g k (JStr i)"

definition event_row_ok :: "ledger_env \<Rightarrow> ledger \<Rightarrow> event_row \<Rightarrow> bool" where
  "event_row_ok e g r \<longleftrightarrow>
     (\<exists>a h kind i bound. ca_claim_id a = ev_claim_id r \<and>
        ev_payload r = canonical_json (event_body a h (ev_sequence r) (ev_previous r) kind i) \<and>
        ev_sha r = sha256_bytes e (ev_payload r) \<and> ev_event_id r = ''CLAIM-EVENT-'' @ take 32 (ev_sha r) \<and>
        map_option cr_sha (find (\<lambda>c. cr_claim_id c = ev_claim_id r) (lg_claims g)) = Some h \<and>
        set (ca_eligible_evidence_ids a) \<subseteq> set (ca_evidence_ids a) \<and>
        map (evidence_of g (ev_claim_id r)) (ca_eligible_evidence_ids a) = map Some bound \<and>
        ca_evidence_merkle_root a = merkle_root e bound)"

text \<open>The chain of a claim's events after an end.\<close>

definition follows :: "(int \<times> string) option \<Rightarrow> event_row \<Rightarrow> bool" where
  "follows tip r \<longleftrightarrow>
     ev_sequence r = (case tip of None \<Rightarrow> 1 | Some p \<Rightarrow> fst p + 1) \<and> ev_previous r = map_option snd tip"

fun chain_ok :: "ledger_env \<Rightarrow> ledger \<Rightarrow> (int \<times> string) option \<Rightarrow> event_row list \<Rightarrow> bool" where
  "chain_ok e g tip [] = True"
| "chain_ok e g tip (r # rs) =
     (follows tip r \<and> event_row_ok e g r \<and> chain_ok e g (Some (ev_sequence r, ev_sha r)) rs)"

definition events_of :: "ledger \<Rightarrow> string \<Rightarrow> event_row list" where
  "events_of g k = filter (\<lambda>r. ev_claim_id r = k) (lg_events g)"

definition chain_end :: "(int \<times> string) option \<Rightarrow> event_row list \<Rightarrow> (int \<times> string) option" where
  "chain_end tip rs = (if rs = [] then tip else Some (ev_sequence (last rs), ev_sha (last rs)))"

definition ledger_ok :: "ledger_env \<Rightarrow> ledger \<Rightarrow> bool" where
  "ledger_ok e g \<longleftrightarrow>
     distinct (map er_evidence_id (lg_records g)) \<and>
     (\<forall>r\<in>set (lg_claims g). claim_row_ok e r) \<and> (\<forall>r\<in>set (lg_records g). evidence_row_ok e r) \<and>
     (\<forall>r\<in>set (lg_supersessions g). supersession_row_ok e r) \<and>
     (\<forall>r\<in>set (lg_authentications g). authentication_row_ok e r) \<and>
     (\<forall>k. chain_ok e g None (events_of g k))"

lemma chain_ok_append:
  "chain_ok e g tip (rs @ [r]) \<longleftrightarrow>
     chain_ok e g tip rs \<and> follows (chain_end tip rs) r \<and> event_row_ok e g r"
proof (induction rs arbitrary: tip)
  case Nil
  show ?case by (simp add: chain_end_def)
next
  case (Cons x rs)
  have "chain_end tip (x # rs) = chain_end (Some (ev_sequence x, ev_sha x)) rs" by (simp add: chain_end_def)
  with Cons show ?case by simp
qed

section \<open>The integrity check finds nothing\<close>

lemma when_not [simp]: "error_if False t = []" "error_if True t = [t]"
  by (simp_all add: error_if_def)

lemma claim_row_clean: "claim_row_ok e r \<Longrightarrow> claim_row_errors e r = []"
  by (auto simp: claim_row_ok_def claim_row_errors_def)

lemma evidence_row_clean:
  assumes "evidence_row_ok e r"
  shows "\<exists>raw. loads (er_payload r) = Some raw \<and> evidence_row_errors e r =
    error_if (\<not> artifact_matches e raw) (''evidence artifact hash mismatch: '' @ er_evidence_id r)"
  using assms by (auto simp: evidence_row_ok_def evidence_row_errors_def loads_canonical ledger_keys)

lemma supersession_row_clean: "supersession_row_ok e r \<Longrightarrow> supersession_row_errors e r = Inr []"
  by (auto simp: supersession_row_ok_def supersession_row_errors_def loads_canonical ledger_keys supersession_fields)

lemma authentication_row_clean: "authentication_row_ok e r \<Longrightarrow> authentication_row_errors e r = []"
  by (auto simp: authentication_row_ok_def authentication_row_errors_def Let_def)

lemma inventory_clean:
  assumes "field_or (JList []) raw ''evidence_ids'' = JStrs ids"
    and "field_or (JList []) raw ''eligible_evidence_ids'' = JStrs eligible"
    and "get_field raw ''evidence_merkle_root'' = JStr (merkle_root e bound)"
    and "set eligible \<subseteq> set ids" and "map (evidence_of g (ev_claim_id r)) eligible = map Some bound"
  shows "inventory_errors e g r raw = Inr []"
proof -
  have "list_all hashable (map JStr xs)" for xs by (simp add: list_all_iff hashable_def)
  moreover have "map (evidence_bound g (ev_claim_id r)) (map JStr eligible) = map Some bound"
    using assms(5) by (simp add: evidence_of_def [abs_def] comp_def)
  moreover have "List.map_filter id (map Some bound) = bound" by (simp add: List.map_filter_def comp_def)
  moreover have "scalar ` set (map JStr eligible) \<subseteq> scalar ` set (map JStr ids)" using assms(4) by auto
  moreover have "filter (\<lambda>b. b = None) (map Some bound) = []" by (simp add: filter_empty_conv)
  ultimately show ?thesis
    using assms(1-3) by (simp add: inventory_errors_def JStrs_def Let_def del: map_map list.map_comp)
qed

lemma event_row_clean:
  assumes "follows (dict_get (ev_claim_id r) ends) r" and "event_row_ok e g r"
  shows "event_row_errors e g ends r = Inr ([], dict_set (ev_claim_id r) (ev_sequence r, ev_sha r) ends)"
proof -
  from assms(2) obtain a h kind i bound where r: "ca_claim_id a = ev_claim_id r"
    "ev_payload r = canonical_json (event_body a h (ev_sequence r) (ev_previous r) kind i)"
    "ev_sha r = sha256_bytes e (ev_payload r)" "ev_event_id r = ''CLAIM-EVENT-'' @ take 32 (ev_sha r)"
    "map_option cr_sha (find (\<lambda>c. cr_claim_id c = ev_claim_id r) (lg_claims g)) = Some h"
    "set (ca_eligible_evidence_ids a) \<subseteq> set (ca_evidence_ids a)"
    "map (evidence_of g (ev_claim_id r)) (ca_eligible_evidence_ids a) = map Some bound"
    "ca_evidence_merkle_root a = merkle_root e bound"
    unfolding event_row_ok_def by blast
  let ?raw = "sort_keys (event_body a h (ev_sequence r) (ev_previous r) kind i)"
  have raw: "loads (ev_payload r) = Some ?raw" by (simp add: r(2) loads_canonical ledger_keys)
  have "inventory_errors e g r ?raw = Inr []"
    by (rule inventory_clean [OF _ _ _ r(6,7)]) (simp_all add: event_fields r(8))
  then show ?thesis
    using assms(1) raw r(1,3,4,5) unfolding event_row_errors_def follows_def
    by (simp add: event_fields Let_def scalar_def JOptStr_def split: option.splits)
qed

lemma events_clean:
  assumes "\<And>k. chain_ok e g (dict_get k ends) (filter (\<lambda>r. ev_claim_id r = k) rs)"
  shows "events_errors e g ends rs = Inr []"
  using assms
proof (induction rs arbitrary: ends)
  case Nil
  show ?case by simp
next
  case (Cons r rs)
  from Cons.prems [of "ev_claim_id r"]
  have "follows (dict_get (ev_claim_id r) ends) r" "event_row_ok e g r" by simp_all
  from event_row_clean [OF this]
  have row: "event_row_errors e g ends r = Inr ([], dict_set (ev_claim_id r) (ev_sequence r, ev_sha r) ends)" .
  have "events_errors e g (dict_set (ev_claim_id r) (ev_sequence r, ev_sha r) ends) rs = Inr []"
  proof (rule Cons.IH)
    fix k
    show "chain_ok e g (dict_get k (dict_set (ev_claim_id r) (ev_sequence r, ev_sha r) ends))
        (filter (\<lambda>r. ev_claim_id r = k) rs)"
      using Cons.prems [of k] by (cases "k = ev_claim_id r") auto
  qed
  with row show ?case by simp
qed

lemma chain_increasing:
  "chain_ok e g tip rs \<Longrightarrow> sorted_wrt (<) (map ev_sequence rs) \<and>
     (\<forall>r\<in>set rs. (case tip of None \<Rightarrow> 0 | Some p \<Rightarrow> fst p) < ev_sequence r)"
proof (induction rs arbitrary: tip)
  case Nil
  show ?case by simp
next
  case (Cons r rs)
  then have "(case tip of None \<Rightarrow> 0 | Some p \<Rightarrow> fst p) < ev_sequence r" by (auto simp: follows_def split: option.splits)
  with Cons show ?case by fastforce
qed

lemma chain_sorted: "chain_ok e g tip rs \<Longrightarrow> sort_key ev_sequence rs = rs"
  using chain_increasing [of e g tip rs]
  by (intro sort_key_id_if_sorted) (auto intro: strict_sorted_imp_sorted)

lemma events_in_order:
  assumes "chain_ok e g None (events_of g k)"
  shows "filter (\<lambda>r. ev_claim_id r = k) (sort_key ev_claim_id (sort_key ev_sequence (lg_events g))) = events_of g k"
proof -
  have same: "sort_key ev_claim_id rs = rs" if "\<forall>r\<in>set rs. ev_claim_id r = k" for rs
    using that by (intro sort_key_id_if_sorted) (simp add: sorted_map sorted_wrt_iff_nth_less)
  have "sort_key ev_sequence (events_of g k) = events_of g k" using chain_sorted [OF assms] .
  then show ?thesis by (simp add: filter_sort flip: events_of_def) (rule same, simp add: events_of_def)
qed

lemma traverse_const: "\<forall>x\<in>set xs. f x = Inr [] \<Longrightarrow> \<exists>ys. traverse f xs = Inr ys \<and> concat ys = []"
  by (induction xs) auto

definition artifact_error :: "evidence_row \<Rightarrow> string" where
  "artifact_error r = ''evidence artifact hash mismatch: '' @ er_evidence_id r"

definition artifact_intact :: "ledger_env \<Rightarrow> evidence_row \<Rightarrow> bool" where
  "artifact_intact e r \<longleftrightarrow> (\<exists>raw. loads (er_payload r) = Some raw \<and> artifact_matches e raw)"

lemma verify_ok:
  assumes ok: "ledger_ok e g"
  shows "verify_integrity e g = Inr
    \<lparr>ir_ok = (\<forall>r\<in>set (lg_records g). artifact_intact e r), ir_claim_count = length (lg_claims g),
     ir_evidence_count = length (lg_records g), ir_event_count = length (lg_events g),
     ir_authentication_count = length (lg_authentications g),
     ir_errors = map artifact_error (filter (\<lambda>r. \<not> artifact_intact e r) (sort_key er_evidence_id (lg_records g)))\<rparr>"
proof -
  obtain ss where ss: "traverse (supersession_row_errors e) (sort_key sr_claim_id (lg_supersessions g)) = Inr ss" "concat ss = []"
    using traverse_const [of "sort_key sr_claim_id (lg_supersessions g)" "supersession_row_errors e"] ok supersession_row_clean
    by (auto simp: ledger_ok_def)
  have claims: "concat (map (claim_row_errors e) (sort_key cr_claim_id (lg_claims g))) = []"
    using ok claim_row_clean by (auto simp: ledger_ok_def)
  have auths: "concat (map (authentication_row_errors e) (sort_key ar_envelope_id (lg_authentications g))) = []"
    using ok authentication_row_clean by (auto simp: ledger_ok_def)
  have row: "evidence_row_errors e r = (if artifact_intact e r then [] else [artifact_error r])" if "r \<in> set (lg_records g)" for r
  proof -
    from ok that have "evidence_row_ok e r" by (simp add: ledger_ok_def)
    from evidence_row_clean [OF this] show ?thesis by (auto simp: artifact_intact_def artifact_error_def error_if_def)
  qed
  have "concat (map (evidence_row_errors e) rs) = map artifact_error (filter (\<lambda>r. \<not> artifact_intact e r) rs)"
    if "set rs \<subseteq> set (lg_records g)" for rs
    using that by (induction rs) (simp_all add: row)
  then have evidence: "concat (map (evidence_row_errors e) (sort_key er_evidence_id (lg_records g))) =
      map artifact_error (filter (\<lambda>r. \<not> artifact_intact e r) (sort_key er_evidence_id (lg_records g)))" by simp
  have events: "events_errors e g [] (sort_key ev_claim_id (sort_key ev_sequence (lg_events g))) = Inr []"
  proof (rule events_clean)
    fix k
    have "chain_ok e g None (events_of g k)" using ok by (simp add: ledger_ok_def)
    then show "chain_ok e g (dict_get k []) (filter (\<lambda>r. ev_claim_id r = k) (sort_key ev_claim_id (sort_key ev_sequence (lg_events g))))"
      by (simp add: events_in_order dict_get_def)
  qed
  show ?thesis
    unfolding verify_integrity_def ss(1) events
    by (simp add: claims auths evidence ss(2) filter_empty_conv Let_def)
qed

section \<open>Growth\<close>

text \<open>The tables only grow at their ends.\<close>

definition grows :: "ledger \<Rightarrow> ledger \<Rightarrow> bool" where
  "grows g g' \<longleftrightarrow>
     (\<exists>a b c d f. lg_claims g' = lg_claims g @ a \<and> lg_records g' = lg_records g @ b \<and>
        lg_supersessions g' = lg_supersessions g @ c \<and> lg_authentications g' = lg_authentications g @ d \<and>
        lg_events g' = lg_events g @ f)"

lemma grows_refl [simp]: "grows g g"
  by (auto simp: grows_def)

lemma grows_trans: "grows g h \<Longrightarrow> grows h k \<Longrightarrow> grows g k"
  unfolding grows_def by (metis append.assoc)

lemma find_grows: "find P xs = Some x \<Longrightarrow> find P (xs @ ys) = Some x"
  by (simp add: find_append)

lemma evidence_of_grows: "grows g g' \<Longrightarrow> evidence_of g k i = Some b \<Longrightarrow> evidence_of g' k i = Some b"
  by (auto simp: grows_def evidence_of_def evidence_bound_def find_append split: option.splits if_splits)

lemma event_row_grows:
  assumes "event_row_ok e g r" and "grows g g'"
  shows "event_row_ok e g' r"
proof -
  from assms(1) obtain a h kind i bound where r: "ca_claim_id a = ev_claim_id r"
    "ev_payload r = canonical_json (event_body a h (ev_sequence r) (ev_previous r) kind i)"
    "ev_sha r = sha256_bytes e (ev_payload r)" "ev_event_id r = ''CLAIM-EVENT-'' @ take 32 (ev_sha r)"
    "map_option cr_sha (find (\<lambda>c. cr_claim_id c = ev_claim_id r) (lg_claims g)) = Some h"
    "set (ca_eligible_evidence_ids a) \<subseteq> set (ca_evidence_ids a)"
    "map (evidence_of g (ev_claim_id r)) (ca_eligible_evidence_ids a) = map Some bound"
    "ca_evidence_merkle_root a = merkle_root e bound"
    unfolding event_row_ok_def by blast
  have "map_option cr_sha (find (\<lambda>c. cr_claim_id c = ev_claim_id r) (lg_claims g')) = Some h"
    using r(5) assms(2) by (auto simp: grows_def find_append)
  moreover have "map (evidence_of g' (ev_claim_id r)) is = map Some bs"
    if "map (evidence_of g (ev_claim_id r)) is = map Some bs" for "is" bs
    using that by (induction "is" arbitrary: bs) (auto simp: map_eq_Cons_conv intro: evidence_of_grows [OF assms(2)])
  ultimately show ?thesis using r unfolding event_row_ok_def by blast
qed

lemma chain_grows: "chain_ok e g tip rs \<Longrightarrow> grows g g' \<Longrightarrow> chain_ok e g' tip rs"
  by (induction rs arbitrary: tip) (auto intro: event_row_grows)

section \<open>The environment may change, the hash function may not\<close>

lemma sha256_cong: "le_digest e' = le_digest e \<Longrightarrow> sha256_bytes e' = sha256_bytes e"
  by (rule ext) (simp add: sha256_bytes_def)

lemma pair_up_cong: "le_digest e' = le_digest e \<Longrightarrow> pair_up e' xs = pair_up e xs"
  by (induction e xs rule: pair_up.induct) auto

lemma merkle_fold_cong: "le_digest e' = le_digest e \<Longrightarrow> merkle_fold e' xs = merkle_fold e xs"
proof (induction e xs rule: merkle_fold.induct)
  case (1 e xs)
  have "next_level e' xs = next_level e xs" by (simp add: next_level_def pair_up_cong [OF 1(2)])
  with 1 show ?case by (simp add: merkle_fold.simps [of e xs] merkle_fold.simps [of e' xs])
qed

lemma merkle_root_cong:
  assumes "le_digest e' = le_digest e" shows "merkle_root e' = merkle_root e"
proof -
  have leaf: "evidence_leaf e' = evidence_leaf e" by (rule ext) (simp add: evidence_leaf_digest assms)
  show ?thesis
    by (rule ext) (simp only: merkle_root_def leaf merkle_fold_cong [OF assms] sha256_cong [OF assms])
qed

lemma ledger_ok_cong:
  assumes "le_digest e' = le_digest e" shows "ledger_ok e' g = ledger_ok e g"
proof -
  note c = sha256_cong [OF assms] merkle_root_cong [OF assms]
  have event: "event_row_ok e' g r = event_row_ok e g r" for r by (simp add: event_row_ok_def c)
  have "chain_ok e' g tip rs = chain_ok e g tip rs" for tip rs
    by (induction rs arbitrary: tip) (simp_all add: event)
  then show ?thesis
    by (simp add: ledger_ok_def claim_row_ok_def evidence_row_ok_def supersession_row_ok_def authentication_row_ok_def c)
qed

end
