(* ===== verification/Ledger_Safety.thy ===== *)
theory Ledger_Safety
  imports Ledger_Invariants
begin

text \<open>
  Runs of the claim-evidence ledger: every successful operation keeps the tables well formed and only
  appends to them, so what was recorded can be verified, cannot be changed, and binds what it says.
\<close>

section \<open>What an assessment says\<close>

lemma map_sum_Inr_iff: "map_sum id f x = Inr y \<longleftrightarrow> (\<exists>z. x = Inr z \<and> y = f z)"
  by (cases x) auto

lemma find_key: "find (\<lambda>r. f r = k) xs = Some r \<Longrightarrow> r \<in> set xs \<and> f r = k"
  by (induction xs) (auto split: if_splits)

lemma find_distinct: "distinct (map f xs) \<Longrightarrow> r \<in> set xs \<Longrightarrow> find (\<lambda>x. f x = f r) xs = Some r"
  by (induction xs) auto

lemma load_claim_facts:
  assumes "load_claim g k = Inr (c, h)" and "\<forall>r\<in>set (lg_claims g). claim_row_ok e r"
  shows "cs_claim_id c = k \<and> validate_claim c = Inr c \<and>
    map_option cr_sha (find (\<lambda>r. cr_claim_id r = k) (lg_claims g)) = Some h \<and>
    h = sha256_json e (claim_payload c)"
proof -
  from assms(1) obtain r where r: "find (\<lambda>r. cr_claim_id r = k) (lg_claims g) = Some r"
    by (auto simp: load_claim_def split: option.splits)
  with assms(2) find_key [OF r] obtain d where d: "validate_claim d = Inr d" "cs_claim_id d = k"
    "cr_payload r = canonical_json (claim_payload d)" "cr_sha r = sha256_bytes e (cr_payload r)"
    unfolding claim_row_ok_def by blast
  have "cs_schema_version d = ''rlmgraph-claim-statement-v1''" using d(1) by (auto simp: validate_claim_def split: if_splits)
  then have "claim_of (sort_keys (claim_payload d)) = Inr d" by (rule claim_of_payload)
  then have "load_claim g k = Inr (d, cr_sha r)"
    using r d(3) by (simp add: load_claim_def read_json_def loads_canonical ledger_keys)
  with assms(1) r d show ?thesis by (auto simp: sha256_json_def)
qed

lemma claim_records_facts:
  assumes "claim_records g k = Inr records"
  shows "map fst records = sort_key er_evidence_id (filter (\<lambda>r. er_claim_id r = k) (lg_records g))"
    and "\<forall>q\<in>set records. fst q \<in> set (lg_records g) \<and> er_claim_id (fst q) = k \<and> loads (er_payload (fst q)) = Some (snd q)"
proof -
  let ?rs = "sort_key er_evidence_id (filter (\<lambda>r. er_claim_id r = k) (lg_records g))"
  have all: "list_all2 (\<lambda>r q. fst q = r \<and> loads (er_payload r) = Some (snd q)) ?rs records"
    using assms unfolding claim_records_def traverse_Inr
    by (rule list_all2_mono) (auto simp: read_json_def split: option.splits sum.splits)
  have "map fst qs = rs" if "list_all2 (\<lambda>r q. fst q = r \<and> P r q) rs qs" for P rs and qs :: "raw_record list"
    using that by (induction rule: list_all2_induct) auto
  from this [OF all] show "map fst records = ?rs" .
  have "\<forall>q\<in>set qs. fst q \<in> set rs \<and> P (fst q) q" if "list_all2 (\<lambda>r q. fst q = r \<and> P r q) rs qs"
    for P rs and qs :: "raw_record list"
    using that by (induction rule: list_all2_induct) auto
  from this [OF all] show "\<forall>q\<in>set records. fst q \<in> set (lg_records g) \<and> er_claim_id (fst q) = k \<and>
      loads (er_payload (fst q)) = Some (snd q)" by auto
qed

text \<open>The parts of an assessment.\<close>

lemma assess_cases:
  assumes "assess e g k = Inr a"
  obtains c h records where "load_claim g k = Inr (c, h)" and "claim_records g k = Inr records"
    and "ca_claim_id a = k"
    and "ca_evidence_ids a = map (er_evidence_id \<circ> fst) records"
    and "ca_eligible_evidence_ids a = map (er_evidence_id \<circ> fst) (filter (eligible_record e c) records)"
    and "ca_evidence_merkle_root a = merkle_root e (map record_hash (filter (eligible_record e c) records))"
    and "ca_evidence_level a = evidence_level_of (map snd (filter (eligible_record e c) records))"
    and "ca_disposition a = disposition_of (superseded_by g k) (map snd (filter (eligible_record e c) records))"
    and "ca_display_state a = display_state (ca_evidence_level a) (ca_disposition a) (ca_authentication a)"
    and "authentication_state_of e g (cs_claim_id c) (signed_fields c h (ca_evidence_level a) (ca_disposition a)
      (ca_eligible_evidence_ids a) (ca_evidence_merkle_root a)) = Inr (ca_authentication a)"
proof -
  from assms obtain c h where c: "load_claim g k = Inr (c, h)" by (auto simp: assess_def split: sum.splits)
  with assms obtain records where r: "claim_records g k = Inr records" by (auto simp: assess_def split: sum.splits)
  show thesis
    by (rule that [OF c r]) (use assms c r in \<open>auto simp: assess_def Let_def map_sum_Inr_iff\<close>)
qed

lemma assess_bound:
  assumes "assess e g k = Inr a" and "distinct (map er_evidence_id (lg_records g))"
  shows "set (ca_eligible_evidence_ids a) \<subseteq> set (ca_evidence_ids a) \<and>
    (\<exists>bound. map (evidence_of g k) (ca_eligible_evidence_ids a) = map Some bound \<and>
       ca_evidence_merkle_root a = merkle_root e bound)"
proof (rule assess_cases [OF assms(1)])
  fix c records
  assume r: "claim_records g k = Inr records"
    and ids: "ca_evidence_ids a = map (er_evidence_id \<circ> fst) records"
      "ca_eligible_evidence_ids a = map (er_evidence_id \<circ> fst) (filter (eligible_record e c) records)"
    and root_is: "ca_evidence_merkle_root a = merkle_root e (map record_hash (filter (eligible_record e c) records))"
  have "evidence_of g k (er_evidence_id (fst q)) = Some (record_hash q)" if "q \<in> set records" for q
    using claim_records_facts(2) [OF r] that find_distinct [OF assms(2), of "fst q"]
    by (auto simp: evidence_of_def evidence_bound_def record_hash_def)
  then have "map (evidence_of g k) (ca_eligible_evidence_ids a) = map Some (map record_hash (filter (eligible_record e c) records))"
    by (simp add: ids)
  with root_is have "\<exists>bound. map (evidence_of g k) (ca_eligible_evidence_ids a) = map Some bound \<and>
      ca_evidence_merkle_root a = merkle_root e bound" by blast
  with ids show ?thesis by auto
qed

section \<open>Operations keep the ledger\<close>

lemma last_event_of_chain:
  assumes "chain_ok e g None (events_of g k)"
  shows "last_event g k = (if events_of g k = [] then None else Some (last (events_of g k)))"
  using chain_sorted [OF assms] by (auto simp: last_event_def events_of_def split: list.splits)

lemma new_event_ok:
  assumes "ledger_ok e g" and a: "assess e g k = Inr a" and c: "load_claim g k = Inr (c, h)"
  shows "event_row_ok e g (new_event e g a h kind i)"
    and "follows (chain_end None (events_of g k)) (new_event e g a h kind i)"
    and "ev_claim_id (new_event e g a h kind i) = k"
proof -
  have k: "ca_claim_id a = k" by (rule assess_cases [OF a])
  have claims: "\<forall>r\<in>set (lg_claims g). claim_row_ok e r" and d: "distinct (map er_evidence_id (lg_records g))"
    and chain: "chain_ok e g None (events_of g k)"
    using assms(1) by (simp_all add: ledger_ok_def)
  show id_is: "ev_claim_id (new_event e g a h kind i) = k" by (simp add: new_event_def Let_def k)
  show "follows (chain_end None (events_of g k)) (new_event e g a h kind i)"
    by (simp add: follows_def new_event_def Let_def k last_event_of_chain [OF chain] chain_end_def)
  show "event_row_ok e g (new_event e g a h kind i)"
    using assess_bound [OF a d] load_claim_facts [OF c claims] k
    unfolding event_row_ok_def id_is by (auto simp: new_event_def Let_def)
qed

lemma append_event_ok:
  assumes ok: "ledger_ok e g" and a: "assess e g k = Inr a" and "append_event e a kind i g = Inr g'"
  shows "ledger_ok e g' \<and> grows g g'"
proof -
  have k: "ca_claim_id a = k" by (rule assess_cases [OF a])
  from assms(3) k obtain c h where c: "load_claim g k = Inr (c, h)" by (auto simp: append_event_def split: sum.splits)
  let ?r = "new_event e g a h kind i"
  have g': "g' = g\<lparr>lg_events := lg_events g @ [?r]\<rparr>"
    using assms(3) c k by (auto simp: append_event_def Let_def split: if_splits)
  then have grown: "grows g g'" by (simp add: grows_def)
  note new = new_event_ok [OF ok a c, of kind i]
  have "chain_ok e g' None (events_of g' j)" for j
  proof (cases "j = k")
    case True
    have "events_of g' k = events_of g k @ [?r]" using new(3) by (simp add: g' events_of_def)
    moreover have "chain_ok e g None (events_of g k @ [?r])" using new ok by (simp add: chain_ok_append ledger_ok_def)
    ultimately show ?thesis using chain_grows [OF _ grown] True by metis
  next
    case False
    have "events_of g' j = events_of g j" using new(3) False by (simp add: g' events_of_def)
    then show ?thesis using chain_grows [OF _ grown] ok by (simp add: ledger_ok_def)
  qed
  then show ?thesis using ok grown by (simp add: ledger_ok_def g')
qed

lemma assess_and_record_ok:
  assumes "ledger_ok e g" and "assess_and_record e k kind i g = Inr (a, g')"
  shows "ledger_ok e g' \<and> grows g g' \<and> assess e g k = Inr a"
  using assms append_event_ok [of e g k a kind i g']
  by (auto simp: assess_and_record_def map_sum_Inr_iff split: sum.splits)

text \<open>Adding a row, before its event is recorded.\<close>

lemma ledger_ok_claim:
  "ledger_ok e g \<Longrightarrow> claim_row_ok e r \<Longrightarrow> ledger_ok e (g\<lparr>lg_claims := lg_claims g @ [r]\<rparr>) \<and> grows g (g\<lparr>lg_claims := lg_claims g @ [r]\<rparr>)"
  using chain_grows [of e g None _ "g\<lparr>lg_claims := lg_claims g @ [r]\<rparr>"]
  by (auto simp: ledger_ok_def grows_def events_of_def)

lemma ledger_ok_record:
  "ledger_ok e g \<Longrightarrow> evidence_row_ok e r \<Longrightarrow> er_evidence_id r \<notin> er_evidence_id ` set (lg_records g) \<Longrightarrow>
    ledger_ok e (g\<lparr>lg_records := lg_records g @ [r]\<rparr>) \<and> grows g (g\<lparr>lg_records := lg_records g @ [r]\<rparr>)"
  using chain_grows [of e g None _ "g\<lparr>lg_records := lg_records g @ [r]\<rparr>"]
  by (auto simp: ledger_ok_def grows_def events_of_def)

lemma ledger_ok_supersession:
  "ledger_ok e g \<Longrightarrow> supersession_row_ok e r \<Longrightarrow>
    ledger_ok e (g\<lparr>lg_supersessions := lg_supersessions g @ [r]\<rparr>) \<and> grows g (g\<lparr>lg_supersessions := lg_supersessions g @ [r]\<rparr>)"
  using chain_grows [of e g None _ "g\<lparr>lg_supersessions := lg_supersessions g @ [r]\<rparr>"]
  by (auto simp: ledger_ok_def grows_def events_of_def)

lemma ledger_ok_authentication:
  "ledger_ok e g \<Longrightarrow> authentication_row_ok e r \<Longrightarrow>
    ledger_ok e (g\<lparr>lg_authentications := lg_authentications g @ [r]\<rparr>) \<and>
    grows g (g\<lparr>lg_authentications := lg_authentications g @ [r]\<rparr>)"
  using chain_grows [of e g None _ "g\<lparr>lg_authentications := lg_authentications g @ [r]\<rparr>"]
  by (auto simp: ledger_ok_def grows_def events_of_def)

lemma record_after:
  assumes "ledger_ok e g1 \<and> grows g g1" and "assess_and_record e k kind i g1 = Inr (a, g')"
  shows "ledger_ok e g' \<and> grows g g'"
  using assms assess_and_record_ok grows_trans by blast

lemma unchanged_ok: "ledger_ok e g \<Longrightarrow> unchanged g x = Inr (a, g') \<Longrightarrow> ledger_ok e g' \<and> grows g g'"
  by (auto simp: unchanged_def map_sum_Inr_iff)

lemma validate_claim_id: "validate_claim c = Inr d \<Longrightarrow> d = c"
  by (auto simp: validate_claim_def map_sum_Inr_iff)

lemma find_None_key: "find (\<lambda>r. f r = k) xs = None \<Longrightarrow> k \<notin> f ` set xs"
  by (auto simp: find_None_iff)

lemma propose_ok:
  assumes ok: "ledger_ok e g" and "propose e c g = Inr (a, g')"
  shows "ledger_ok e g' \<and> grows g g'"
proof -
  from assms(2) have valid: "validate_claim c = Inr c"
    using validate_claim_id by (auto simp: propose_def split: sum.splits)
  let ?r = "\<lparr>cr_claim_id = cs_claim_id c, cr_sha = sha256_bytes e (canonical_json (claim_payload c)),
    cr_payload = canonical_json (claim_payload c)\<rparr>"
  have row: "claim_row_ok e ?r" using valid by (auto simp: claim_row_ok_def)
  show ?thesis
    using assms(2) valid unchanged_ok [OF ok] record_after [OF ledger_ok_claim [OF ok row]]
    by (auto simp: propose_def Let_def split: option.splits if_splits)
qed

lemma append_evidence_ok:
  assumes ok: "ledger_ok e g" and "append_evidence e w g = Inr (a, g')"
  shows "ledger_ok e g' \<and> grows g g'"
proof -
  from assms(2) obtain v where v: "validate_evidence e w = Inr v" by (auto simp: append_evidence_def split: sum.splits)
  let ?r = "\<lparr>er_evidence_id = ce_evidence_id v, er_claim_id = ce_claim_id v,
    er_sha = sha256_bytes e (canonical_json (evidence_payload v)), er_payload = canonical_json (evidence_payload v)\<rparr>"
  have row: "evidence_row_ok e ?r" by (auto simp: evidence_row_ok_def)
  show ?thesis
  proof (cases "find (\<lambda>r. er_evidence_id r = ce_evidence_id v) (lg_records g)")
    case None
    then have "er_evidence_id ?r \<notin> er_evidence_id ` set (lg_records g)" using find_None_key by fastforce
    from record_after [OF ledger_ok_record [OF ok row this]] None assms(2) v show ?thesis
      by (auto simp: append_evidence_def Let_def split: sum.splits)
  next
    case (Some r)
    with assms(2) v unchanged_ok [OF ok] show ?thesis
      by (auto simp: append_evidence_def Let_def split: sum.splits if_splits)
  qed
qed

lemma authenticate_ok:
  assumes ok: "ledger_ok e g" and "authenticate e k key_id g = Inr (a', g')"
  shows "ledger_ok e g' \<and> grows g g'"
proof -
  from assms(2) obtain secret c h a where s: "\<not> blank key_id" "dict_get key_id (le_keys e) = Some secret"
    "load_claim g k = Inr (c, h)" "assess e g k = Inr a"
    "ca_disposition a = ClaimDisposition_ACTIVE" "ca_evidence_level a = EvidenceLevel_REPLICATED"
    by (auto simp: authenticate_def split: if_splits option.splits sum.splits)
  let ?body = "signed_body c h k a key_id"
  let ?signed = "?body @ [(''signature'', JStr (le_hmac e secret (canonical_json (JObj ?body))))]"
  let ?text = "canonical_json (JObj ?signed)"
  let ?r = "\<lparr>ar_envelope_id = ''CLAIM-AUTH-'' @ take 32 (sha256_bytes e ?text), ar_claim_id = k,
    ar_sha = sha256_bytes e ?text, ar_payload = ?text\<rparr>"
  have "distinct_keys (JObj ?signed)" and "map_of ?signed ''claim_id'' = Some (JStr k)"
    and "map_of ?signed ''evidence_level'' = Some (JStr ''REPLICATED'')"
    and "map_of ?signed ''disposition'' = Some (JStr ''ACTIVE'')"
    using s(5,6) by (simp_all add: signed_body_def signed_fields_def)
  then have row: "authentication_row_ok e ?r"
    unfolding authentication_row_ok_def by (intro exI [of _ ?signed]) (simp only: authentication_row.simps simp_thms)
  show ?thesis
    using assms(2) s unchanged_ok [OF ok] record_after [OF ledger_ok_authentication [OF ok row]]
    by (auto simp: authenticate_def Let_def split: option.splits if_splits)
qed

lemma supersede_claim_ok:
  assumes ok: "ledger_ok e g" and "supersede_claim e k q reason g = Inr (a, g')"
  shows "ledger_ok e g' \<and> grows g g'"
proof -
  let ?text = "canonical_json (supersession_payload k q reason)"
  let ?r = "\<lparr>sr_claim_id = k, sr_replacement = q, sr_sha = sha256_bytes e ?text, sr_payload = ?text\<rparr>"
  have row: "supersession_row_ok e ?r" by (auto simp: supersession_row_ok_def)
  show ?thesis
    using assms(2) unchanged_ok [OF ok] record_after [OF ledger_ok_supersession [OF ok row]]
    by (auto simp: supersede_claim_def Let_def split: option.splits if_splits sum.splits)
qed

section \<open>Assessing never fails on a known claim\<close>

lemma loads_object:
  assumes "distinct_keys (JObj ms)"
  shows "read_object (canonical_json (JObj ms)) = Inr (sort_keys (JObj ms))"
  unfolding read_object_def read_json_def loads_canonical [OF assms] by (simp del: sort_keys.simps)

lemma authentication_rows_read:
  assumes "\<forall>r\<in>set (lg_authentications g). authentication_row_ok e r"
  shows "\<exists>raws. traverse (\<lambda>r. read_object (ar_payload r))
    (sort_key ar_envelope_id (filter (\<lambda>r. ar_claim_id r = k) (lg_authentications g))) = Inr raws"
proof -
  have "\<exists>raws. traverse (\<lambda>r. read_object (ar_payload r)) rs = Inr raws" if "\<forall>r\<in>set rs. authentication_row_ok e r" for rs
    using that by (induction rs) (auto simp: authentication_row_ok_def loads_object)
  from this [of "sort_key ar_envelope_id (filter (\<lambda>r. ar_claim_id r = k) (lg_authentications g))"] assms
  show ?thesis by simp
qed

lemma claim_records_read:
  assumes "\<forall>r\<in>set (lg_records g). evidence_row_ok e r"
  shows "\<exists>records. claim_records g k = Inr records"
proof -
  have "\<exists>records. traverse (\<lambda>r. map_sum id (Pair r) (read_json (er_payload r))) rs = Inr records"
    if "\<forall>r\<in>set rs. evidence_row_ok e r" for rs
    using that by (induction rs) (auto simp: evidence_row_ok_def read_json_def loads_canonical ledger_keys)
  from this [of "sort_key er_evidence_id (filter (\<lambda>r. er_claim_id r = k) (lg_records g))"] assms
  show ?thesis by (simp add: claim_records_def)
qed

lemma load_claim_row:
  assumes "find (\<lambda>r. cr_claim_id r = k) (lg_claims g) = Some r" and "claim_row_ok e r"
  shows "\<exists>c. load_claim g k = Inr (c, cr_sha r) \<and> cr_payload r = canonical_json (claim_payload c)"
proof -
  from assms(2) obtain d where d: "validate_claim d = Inr d" "cr_payload r = canonical_json (claim_payload d)"
    unfolding claim_row_ok_def by blast
  then have "cs_schema_version d = ''rlmgraph-claim-statement-v1''" by (auto simp: validate_claim_def split: if_splits)
  with d assms(1) show ?thesis
    by (simp add: load_claim_def read_json_def loads_canonical ledger_keys claim_of_payload)
qed

lemma assess_total:
  assumes "ledger_ok e g" and "load_claim g k = Inr (c, h)"
  shows "\<exists>a. assess e g k = Inr a"
proof -
  from claim_records_read [of g e k] assms(1) obtain records where r: "claim_records g k = Inr records"
    by (auto simp: ledger_ok_def)
  have "\<exists>s. authentication_state_of e g j fs = Inr s" for j fs
    using authentication_rows_read [of g e j] assms(1) by (auto simp: ledger_ok_def authentication_state_of_def Let_def)
  with assms(2) r show ?thesis by (simp add: assess_def Let_def map_sum_Inr_iff)
qed

section \<open>Signatures\<close>

lemma sort_key_idem: "sort_key f (sort_key f xs) = sort_key f xs"
  by (simp add: sort_key_id_if_sorted)

lemma canonical_sort_keys: "canonical_json (sort_keys v) = canonical_json v"
proof (induction v)
  case (JList xs)
  then show ?case by (simp add: canonical_json_def comp_def cong: map_cong)
next
  case (JObj ms)
  then have same: "map (\<lambda>m. (fst m, dumps '','' '':'' (sort_keys (snd m)))) ms = map (\<lambda>m. (fst m, dumps '','' '':'' (snd m))) ms"
    by (auto simp: snds.simps canonical_json_def)
  show ?case
    by (simp add: canonical_json_def comp_def sort_key_map_fst [symmetric] sort_key_idem same)
qed (simp_all add: canonical_json_def)

lemma without_signature_sort_keys:
  assumes "k \<notin> fst ` set body" and "k = ''signature''"
  shows "without_signature (sort_keys (JObj (body @ [(k, v)]))) = sort_keys (JObj body)"
proof -
  have "filter (\<lambda>m. fst m \<noteq> k) (map (\<lambda>m. (fst m, sort_keys (snd m))) body) = map (\<lambda>m. (fst m, sort_keys (snd m))) body"
    using assms(1) by (auto simp: filter_id_conv)
  with assms(2) show ?thesis by (simp add: without_signature_def filter_sort)
qed

lemma signed_field:
  assumes "distinct (map fst ms)" and "(k, v) \<in> set ms" and "sort_keys v = v"
  shows "field_or d (sort_keys (JObj ms)) k = v"
  using assms(3) map_of_is_SomeI [OF assms(1,2)] by (simp only: field_sort_keys [OF assms(1)] option.simps)

lemma signature_accepted:
  assumes "dict_get key_id (le_keys e) = Some secret"
    and row: "r \<in> set (lg_authentications g)" "ar_claim_id r = k" "ar_payload r = canonical_json (JObj
      (signed_body c h k a key_id @ [(''signature'', JStr (le_hmac e secret (canonical_json (JObj (signed_body c h k a key_id)))))]))"
    and rows: "\<forall>r\<in>set (lg_authentications g). authentication_row_ok e r"
  shows "authentication_state_of e g k (signed_fields c h (ca_evidence_level a) (ca_disposition a)
      (ca_eligible_evidence_ids a) (ca_evidence_merkle_root a)) = Inr Authentication_AUTHENTICATED"
proof -
  let ?body = "signed_body c h k a key_id"
  let ?fs = "signed_fields c h (ca_evidence_level a) (ca_disposition a) (ca_eligible_evidence_ids a) (ca_evidence_merkle_root a)"
  let ?signed = "?body @ [(''signature'', JStr (le_hmac e secret (canonical_json (JObj ?body))))]"
  let ?raw = "sort_keys (JObj ?signed)"
  have keys: "distinct (map fst ?signed)" "distinct_keys (JObj ?signed)" by (simp_all add: signed_body_def signed_fields_def)
  from authentication_rows_read [OF rows, of k]
  obtain raws where raws: "traverse (\<lambda>r. read_object (ar_payload r))
    (sort_key ar_envelope_id (filter (\<lambda>r. ar_claim_id r = k) (lg_authentications g))) = Inr raws" ..
  have member: "y \<in> set ys" if "traverse f xs = Inr ys" "x \<in> set xs" "f x = Inr y" for f :: "authentication_row \<Rightarrow> json result" and x y xs ys
    using that unfolding traverse_Inr by (fastforce simp: list_all2_conv_all_nth in_set_conv_nth)
  have "?raw \<in> set raws" by (rule member [OF raws, of r]) (use row loads_object [OF keys(2)] in simp_all)
  moreover have "binds_all ?fs ?raw"
  proof -
    have "(i, v) \<in> set ?signed \<and> sort_keys v = v" if "(i, v) \<in> set ?fs" for i v
      using that by (auto simp: signed_body_def signed_fields_def)
    then show ?thesis using signed_field [OF keys(1)] unfolding binds_all_def by blast
  qed
  moreover have "signature_valid e ?raw"
  proof -
    have canonical: "canonical_json (without_signature ?raw) = canonical_json (JObj ?body)"
      using keys(1) by (subst without_signature_sort_keys) (simp_all only: canonical_sort_keys, auto)
    have fields: "field_or d ?raw ''key_id'' = JStr key_id" "field_or d ?raw ''algorithm'' = JStr ''HMAC-SHA256''"
      "field_or d ?raw ''signature'' = JStr (le_hmac e secret (canonical_json (JObj ?body)))" for d
      by (rule signed_field [OF keys(1)]; simp add: signed_body_def)+
    show ?thesis unfolding signature_valid_def get_field_def canonical fields by (simp add: assms(1))
  qed
  ultimately have "?raw \<in> set (filter (binds_all ?fs) raws)" "signature_valid e ?raw" by (simp_all del: sort_keys.simps)
  then have "filter (binds_all ?fs) raws \<noteq> []" "\<exists>raw\<in>set (filter (binds_all ?fs) raws). signature_valid e raw"
    by (force, blast)
  then show ?thesis by (simp add: authentication_state_of_def raws Let_def del: set_filter)
qed

section \<open>Runs\<close>

text \<open>One successful operation, with whatever files and keys there are at the time; an operation that
  fails is rolled back.\<close>

inductive ledger_step :: "(string \<Rightarrow> string) \<Rightarrow> ledger \<Rightarrow> ledger \<Rightarrow> bool" for d :: "string \<Rightarrow> string" where
  step_propose: "le_digest e = d \<Longrightarrow> propose e c g = Inr (a, g') \<Longrightarrow> ledger_step d g g'"
| step_append: "le_digest e = d \<Longrightarrow> append_evidence e v g = Inr (a, g') \<Longrightarrow> ledger_step d g g'"
| step_authenticate: "le_digest e = d \<Longrightarrow> authenticate e k key_id g = Inr (a, g') \<Longrightarrow> ledger_step d g g'"
| step_supersede: "le_digest e = d \<Longrightarrow> supersede_claim e k q reason g = Inr (a, g') \<Longrightarrow> ledger_step d g g'"

definition ledger_inv :: "(string \<Rightarrow> string) \<Rightarrow> ledger \<Rightarrow> bool" where
  "ledger_inv d g \<longleftrightarrow> (\<forall>e. le_digest e = d \<longrightarrow> ledger_ok e g)"

lemma ledger_inv_ok: "ledger_inv (le_digest e) g \<longleftrightarrow> ledger_ok e g"
  unfolding ledger_inv_def using ledger_ok_cong [of _ e g] by blast

lemma ledger_step_ok:
  assumes "ledger_step d g g'" and "ledger_inv d g" shows "ledger_inv d g' \<and> grows g g'"
  using assms
  by cases (auto simp: ledger_inv_ok dest: propose_ok append_evidence_ok authenticate_ok supersede_claim_ok)

interpretation ledger_runs: invariant_system "ledger_step d" "ledger_inv d" for d
  by unfold_locales (use ledger_step_ok in blast)

interpretation ledger_growth: invariant_system "ledger_step d" "\<lambda>g. ledger_inv d g \<and> grows g0 g" for d g0
  by unfold_locales (use ledger_step_ok grows_trans in blast)

lemma ledger_inv_empty: "ledger_inv d empty_ledger"
  by (simp add: ledger_inv_def ledger_ok_def empty_ledger_def events_of_def)

lemma reached_ok: "run_of (ledger_step (le_digest e)) empty_ledger g \<Longrightarrow> ledger_ok e g"
  using ledger_runs.run_inv ledger_inv_empty ledger_inv_ok by metis

lemma reached_grows: "run_of (ledger_step d) empty_ledger g \<Longrightarrow> run_of (ledger_step d) g g' \<Longrightarrow> grows g g'"
  using ledger_growth.run_inv [of d g g' g] ledger_runs.run_inv [of d empty_ledger g] ledger_inv_empty by auto

end
