(* ===== verification/Ledger_Demo.thy ===== *)
theory Ledger_Demo
  imports Ledger_Safety
begin

text \<open>
  A concrete run of the ledger, for the witnesses of its properties: a claim is proposed, two
  replications are recorded, the claim is signed, and another claim is proposed. The demonstration
  hash reads the sequence number and the claim of the text it is given, so that the identifiers of the
  events come out different without evaluating the texts.
\<close>

definition demo_digest :: "string \<Rightarrow> string" where
  "demo_digest t =
     (let raw = (case loads t of None \<Rightarrow> JNull | Some raw \<Rightarrow> raw) in
      take 32 ((case get_field raw ''sequence'' of JInt n \<Rightarrow> char_of (nat n) | _ \<Rightarrow> CHR ''0'') #
        str_json (get_field raw ''claim_id'') @ replicate 32 CHR ''i''))"

definition demo_ledger_env :: ledger_env where
  "demo_ledger_env = \<lparr>le_digest = demo_digest, le_hmac = (\<lambda>k m. k @ m), le_keys = [(''K'', ''secret'')],
     le_resolve = Some, le_file = (\<lambda>p. if p = ''run.log'' then Some ''x'' else None)\<rparr>"

definition demo_statement :: "string \<Rightarrow> claim_statement" where
  "demo_statement k = \<lparr>cs_claim_id = k, cs_subject = ''parser'', cs_assertion = ''total'',
     cs_source_manifest_sha256 = replicate 64 CHR ''a'', cs_policy_sha256 = replicate 64 CHR ''b'',
     cs_required_test_spec_sha256 = replicate 64 CHR ''c'', cs_schema_version = ''rlmgraph-claim-statement-v1''\<rparr>"

definition demo_hash :: string where
  "demo_hash = ''304e6f6e65'' @ concat (replicate 27 ''69'')"

definition demo_evidence :: "string \<Rightarrow> claim_evidence" where
  "demo_evidence i = \<lparr>ce_evidence_id = i, ce_claim_id = ''C'', ce_kind = EvidenceKind_REPLICATION_RUN,
     ce_artifact_path = ''run.log'', ce_artifact_sha256 = demo_hash,
     ce_source_manifest_sha256 = replicate 64 CHR ''a'', ce_policy_sha256 = replicate 64 CHR ''b'',
     ce_producer_id = ''lab'', ce_outcome = EvidenceOutcome_PASSED, ce_test_spec_sha256 = Some (replicate 64 CHR ''c''),
     ce_run_id = Some i, ce_independence_key = Some i, ce_detail = [], ce_schema_version = ''rlmgraph-claim-evidence-v1''\<rparr>"

definition demo_claim_row :: "string \<Rightarrow> claim_row" where
  "demo_claim_row k = \<lparr>cr_claim_id = k, cr_sha = sha256_bytes demo_ledger_env (canonical_json (claim_payload (demo_statement k))),
     cr_payload = canonical_json (claim_payload (demo_statement k))\<rparr>"

definition demo_evidence_row :: "string \<Rightarrow> evidence_row" where
  "demo_evidence_row i = \<lparr>er_evidence_id = i, er_claim_id = ''C'',
     er_sha = sha256_bytes demo_ledger_env (canonical_json (evidence_payload (demo_evidence i))),
     er_payload = canonical_json (evidence_payload (demo_evidence i))\<rparr>"

definition demo_tables :: "string list \<Rightarrow> string list \<Rightarrow> authentication_row list \<Rightarrow> event_row list \<Rightarrow> ledger" where
  "demo_tables ks is as es = \<lparr>lg_claims = map demo_claim_row ks, lg_records = map demo_evidence_row is,
     lg_supersessions = [], lg_authentications = as, lg_events = es\<rparr>"

lemma demo_env_digest [simp]: "le_digest demo_ledger_env = demo_digest"
  by (simp add: demo_ledger_env_def)

lemma demo_file: "le_file demo_ledger_env ''run.log'' = Some ''x''"
  by (simp add: demo_ledger_env_def)

section \<open>Event identifiers\<close>

lemma from_hex_take: "from_hex (take (2 * n) (hex_text b)) = take n b"
proof (induction b arbitrary: n)
  case Nil
  show ?case by (simp add: hex_text_def)
next
  case (Cons c b)
  then show ?case by (cases n) (simp_all add: hex_text_def Let_def hex_pair)
qed

lemma demo_event_id:
  assumes "event_row_ok demo_ledger_env g r" and "ev_claim_id r = [k]"
  shows "ev_event_id r = ''CLAIM-EVENT-'' @ take 32 (hex_text (char_of (nat (ev_sequence r)) # k # replicate 30 CHR ''i''))"
proof -
  from assms(1) obtain a h kind i where r: "ca_claim_id a = ev_claim_id r"
    "ev_payload r = canonical_json (event_body a h (ev_sequence r) (ev_previous r) kind i)"
    "ev_sha r = sha256_bytes demo_ledger_env (ev_payload r)" "ev_event_id r = ''CLAIM-EVENT-'' @ take 32 (ev_sha r)"
    unfolding event_row_ok_def by blast
  have "demo_digest (ev_payload r) = char_of (nat (ev_sequence r)) # k # replicate 30 CHR ''i''"
    unfolding demo_digest_def r(2) by (simp add: loads_canonical ledger_keys event_fields r(1) assms(2))
  then show ?thesis by (simp add: r(3,4) sha256_bytes_def demo_ledger_env_def)
qed

lemma demo_event_id_inj:
  assumes "take 32 (hex_text (char_of (nat s) # k # xs)) = take 32 (hex_text (char_of (nat t) # j # xs))"
    and "0 \<le> s" "s < 200" "0 \<le> t" "t < 200"
  shows "s = t \<and> k = j"
proof -
  from arg_cong [OF assms(1), of from_hex] have c: "char_of (nat s) = (char_of (nat t) :: char)" and "k = j"
    using from_hex_take [of 16] by simp_all
  from arg_cong [OF c, of "of_char :: char \<Rightarrow> nat"] have "nat s mod 256 = nat t mod 256" by simp
  with assms(2-5) \<open>k = j\<close> show ?thesis by simp
qed

lemma chain_count:
  "chain_ok e g tip rs \<Longrightarrow> rs \<noteq> [] \<Longrightarrow>
     ev_sequence (last rs) = (case tip of None \<Rightarrow> 0 | Some p \<Rightarrow> fst p) + int (length rs)"
  by (induction rs arbitrary: tip) (auto simp: follows_def split: option.splits)

lemma chain_bound:
  assumes "chain_ok e g None rs" and "r \<in> set rs"
  shows "0 < ev_sequence r \<and> ev_sequence r \<le> int (length rs)"
proof -
  note order = chain_increasing [OF assms(1)]
  have "ev_sequence r \<le> ev_sequence (last rs)"
  proof -
    from assms(2) obtain ys z where "rs = ys @ [z]" by (cases rs rule: rev_cases) auto
    with order assms(2) show ?thesis by (auto simp: sorted_wrt_append)
  qed
  with order assms chain_count [OF assms(1)] show ?thesis by (cases rs) auto
qed

definition demo_ok :: "ledger \<Rightarrow> bool" where
  "demo_ok g \<longleftrightarrow> ledger_ok demo_ledger_env g \<and> (\<forall>r\<in>set (lg_events g). length (ev_claim_id r) = 1) \<and> length (lg_events g) < 100"

lemma demo_record:
  assumes ok: "demo_ok g" and c: "load_claim g [k] = Inr (c, h)"
  shows "\<exists>a r. assess_and_record demo_ledger_env [k] kind i g = Inr (a, g\<lparr>lg_events := lg_events g @ [r]\<rparr>) \<and> length (ev_claim_id r) = 1"
proof -
  from ok have lok: "ledger_ok demo_ledger_env g" and few: "length (lg_events g) < 100"
    and short: "\<forall>r\<in>set (lg_events g). length (ev_claim_id r) = 1" by (simp_all add: demo_ok_def)
  from assess_total [OF lok c] obtain a where a: "assess demo_ledger_env g [k] = Inr a" by blast
  let ?r = "new_event demo_ledger_env g a h kind i"
  note new = new_event_ok [OF lok a c, of kind i]
  have chain: "chain_ok demo_ledger_env g None (events_of g j)" for j using lok by (simp add: ledger_ok_def)
  have number: "ev_sequence ?r = int (length (events_of g [k])) + 1"
    using new(2) chain_count [OF chain [of "[k]"]] by (auto simp: follows_def chain_end_def split: if_splits)
  have few': "length (events_of g j) < 100" for j
    unfolding events_of_def using le_less_trans [OF length_filter_le few] .
  have "ev_event_id x \<noteq> ev_event_id ?r \<and> \<not> (ev_claim_id x = [k] \<and> ev_sequence x = ev_sequence ?r)" if x: "x \<in> set (lg_events g)" for x
  proof -
    from short x obtain j where j: "ev_claim_id x = [j]" by (auto simp: length_Suc_conv)
    with x have xin: "x \<in> set (events_of g [j])" by (simp add: events_of_def)
    from chain_bound [OF chain xin] few' [of "[j]"] have bound: "0 < ev_sequence x" "ev_sequence x < 101"
      "ev_sequence x \<le> int (length (events_of g [j]))" by simp_all
    have row: "event_row_ok demo_ledger_env g x"
    proof -
      have "\<forall>y\<in>set ys. event_row_ok demo_ledger_env g y" if "chain_ok demo_ledger_env g tip ys" for tip ys
        using that by (induction ys arbitrary: tip) auto
      from this [OF chain] xin show ?thesis by blast
    qed
    have differ: "\<not> (j = k \<and> ev_sequence x = ev_sequence ?r)" using bound(3) number by auto
    have "ev_event_id x \<noteq> ev_event_id ?r"
    proof
      assume "ev_event_id x = ev_event_id ?r"
      then have "ev_sequence x = ev_sequence ?r \<and> j = k"
        unfolding demo_event_id [OF row j] demo_event_id [OF new(1) new(3)]
        by (intro demo_event_id_inj [of "ev_sequence x" j "replicate 30 CHR ''i''" "ev_sequence ?r" k])
          (use bound number few' [of "[k]"] in simp_all)
      with differ show False by simp
    qed
    with differ j show ?thesis by simp
  qed
  then have "append_event demo_ledger_env a kind i g = Inr (g\<lparr>lg_events := lg_events g @ [?r]\<rparr>)"
    using new(3) c a by (auto simp: append_event_def Let_def elim!: assess_cases)
  with a new(3) show ?thesis by (auto simp: assess_and_record_def)
qed

section \<open>The run\<close>

lemma demo_statement_valid: "validate_claim (demo_statement ''C'') = Inr (demo_statement ''C'')"
    "validate_claim (demo_statement ''D'') = Inr (demo_statement ''D'')"
  by code_simp+

lemma hex_text_append: "hex_text (a @ b) = hex_text a @ hex_text b"
  by (simp add: hex_text_def)

lemma hex_text_replicate: "hex_text (replicate n c) = concat (replicate n (hex_text [c]))"
  by (simp add: hex_text_def)

lemma demo_sha: "sha256_bytes demo_ledger_env ''x'' = demo_hash"
proof -
  have "loads ''x'' = None" by code_simp
  then have "demo_digest ''x'' = ''0None'' @ replicate 27 CHR ''i''"
    by (simp add: demo_digest_def get_field_def field_or_def)
  moreover have "hex_text ''0None'' = ''304e6f6e65''" "hex_text ''i'' = ''69''" by code_simp+
  ultimately show ?thesis
    by (simp only: sha256_bytes_def demo_env_digest demo_hash_def hex_text_append hex_text_replicate)
qed

lemma demo_shas: "is_sha256 demo_hash" "is_sha256 (replicate 64 CHR ''a'')" "is_sha256 (replicate 64 CHR ''b'')"
    "is_sha256 (replicate 64 CHR ''c'')"
  by (auto simp: is_sha256_def demo_hash_def length_concat sum_list_replicate)

lemma demo_evidence_valid: "validate_evidence demo_ledger_env (demo_evidence ''A'') = Inr (demo_evidence ''A'')"
    "validate_evidence demo_ledger_env (demo_evidence ''B'') = Inr (demo_evidence ''B'')"
proof -
  have blanks: "blank ''A'' = False" "blank ''B'' = False" "blank ''C'' = False" "blank ''lab'' = False" by code_simp+
  have resolve: "le_resolve demo_ledger_env p = Some p" for p by (simp add: demo_ledger_env_def)
  show "validate_evidence demo_ledger_env (demo_evidence ''A'') = Inr (demo_evidence ''A'')"
    "validate_evidence demo_ledger_env (demo_evidence ''B'') = Inr (demo_evidence ''B'')"
    by (simp_all add: validate_evidence_def require_text_def require_sha256_def demo_evidence_def demo_shas demo_sha
        blanks resolve demo_file truthy_def)
qed

lemma demo_statement_id [simp]: "cs_claim_id (demo_statement k) = k" "cs_schema_version (demo_statement k) = ''rlmgraph-claim-statement-v1''"
  by (simp_all add: demo_statement_def)

lemma demo_evidence_id [simp]: "ce_evidence_id (demo_evidence i) = i" "ce_claim_id (demo_evidence i) = ''C''"
  by (simp_all add: demo_evidence_def)

lemma demo_load: "k \<in> set ks \<Longrightarrow> \<exists>h. load_claim (demo_tables ks is as es) k = Inr (demo_statement k, h)"
proof -
  have "find (\<lambda>r. cr_claim_id r = k) (map demo_claim_row ks) = Some (demo_claim_row k)" if "k \<in> set ks"
    using that by (induction ks) (auto simp: demo_claim_row_def)
  moreover assume "k \<in> set ks"
  ultimately show ?thesis
    by (simp add: demo_tables_def load_claim_def demo_claim_row_def read_json_def loads_canonical ledger_keys claim_of_payload)
qed

text \<open>The state of the demonstration: its tables, well formed, with the events of one-letter claims.\<close>

definition demo_stage :: "string list \<Rightarrow> string list \<Rightarrow> nat \<Rightarrow> nat \<Rightarrow> ledger \<Rightarrow> bool" where
  "demo_stage ks is m n g \<longleftrightarrow> run_of (ledger_step demo_digest) empty_ledger g \<and>
     (\<exists>as es. g = demo_tables ks is as es \<and> length as = m \<and> length es = n \<and> (\<forall>r\<in>set es. length (ev_claim_id r) = 1))"

lemma demo_stage_ok:
  assumes "demo_stage ks is m n g" and "n < 100" shows "demo_ok g"
  using assms reached_ok [of demo_ledger_env g] by (auto simp: demo_stage_def demo_ok_def demo_tables_def)

lemma demo_stage_next:
  assumes "demo_stage ks is m n g" and "ledger_step demo_digest g g'" and "g' = demo_tables ks' is' as' (lg_events g @ [r])"
    and "length as' = m'" and "length (ev_claim_id r) = 1"
  shows "demo_stage ks' is' m' (Suc n) g'"
proof -
  have "run_of (ledger_step demo_digest) empty_ledger g'"
    using assms(1,2) by (auto simp: demo_stage_def intro: run_of.intros)
  with assms show ?thesis by (auto simp: demo_stage_def demo_tables_def)
qed

lemma find_demo_row: "k \<notin> set ks \<Longrightarrow> find (\<lambda>r. cr_claim_id r = k) (map demo_claim_row ks) = None"
  by (auto simp: find_None_iff demo_claim_row_def)

lemma find_demo_evidence: "i \<notin> set is \<Longrightarrow> find (\<lambda>r. er_evidence_id r = i) (map demo_evidence_row is) = None"
  by (auto simp: find_None_iff demo_evidence_row_def)

lemma demo_claim_row_ok: "validate_claim (demo_statement k) = Inr (demo_statement k) \<Longrightarrow> claim_row_ok demo_ledger_env (demo_claim_row k)"
  by (auto simp: claim_row_ok_def demo_claim_row_def)

lemma demo_evidence_row_ok: "evidence_row_ok demo_ledger_env (demo_evidence_row i)"
  unfolding evidence_row_ok_def by (intro exI [of _ "demo_evidence i"]) (simp add: demo_evidence_row_def)

lemma demo_propose:
  assumes "demo_stage ks is m n g" and "n < 90" and "[k] \<notin> set ks" and v: "validate_claim (demo_statement [k]) = Inr (demo_statement [k])"
  shows "\<exists>a g'. propose demo_ledger_env (demo_statement [k]) g = Inr (a, g') \<and> demo_stage (ks @ [[k]]) is m (Suc n) g'"
proof -
  from assms(1) obtain as es where g: "g = demo_tables ks is as es" "length as = m" by (auto simp: demo_stage_def)
  let ?g = "demo_tables (ks @ [[k]]) is as es"
  have g1: "?g = g\<lparr>lg_claims := lg_claims g @ [demo_claim_row [k]]\<rparr>" by (simp add: demo_tables_def g)
  have "demo_ok g" using demo_stage_ok [OF assms(1)] assms(2) by simp
  then have ok: "demo_ok ?g"
    unfolding g1 using ledger_ok_claim [OF _ demo_claim_row_ok [OF v], of g] by (simp add: demo_ok_def)
  obtain h where "load_claim ?g [k] = Inr (demo_statement [k], h)" using demo_load [of "[k]" "ks @ [[k]]" "is" "as" es] by auto
  from demo_record [OF ok this] obtain a r where r:
    "assess_and_record demo_ledger_env [k] ''CLAIM_PROPOSED'' (cr_sha (demo_claim_row [k])) ?g = Inr (a, ?g\<lparr>lg_events := lg_events ?g @ [r]\<rparr>)"
    "length (ev_claim_id r) = 1" by blast
  have p: "propose demo_ledger_env (demo_statement [k]) g = Inr (a, ?g\<lparr>lg_events := lg_events ?g @ [r]\<rparr>)"
    using r(1) find_demo_row [OF assms(3)] unfolding g1
    by (simp add: propose_def v Let_def demo_claim_row_def) (simp add: g demo_tables_def)
  have "demo_stage (ks @ [[k]]) is m (Suc n) (?g\<lparr>lg_events := lg_events ?g @ [r]\<rparr>)"
    by (rule demo_stage_next [OF assms(1) step_propose [OF demo_env_digest p] _ g(2) r(2)])
      (simp add: demo_tables_def g)
  with p show ?thesis by blast
qed

lemma demo_append:
  assumes "demo_stage ks is m n g" and "n < 90" and "''C'' \<in> set ks" and "i \<notin> set is"
    and v: "validate_evidence demo_ledger_env (demo_evidence i) = Inr (demo_evidence i)"
  shows "\<exists>a g'. append_evidence demo_ledger_env (demo_evidence i) g = Inr (a, g') \<and> demo_stage ks (is @ [i]) m (Suc n) g'"
proof -
  from assms(1) obtain as es where g: "g = demo_tables ks is as es" "length as = m" by (auto simp: demo_stage_def)
  let ?g = "demo_tables ks (is @ [i]) as es"
  have g1: "?g = g\<lparr>lg_records := lg_records g @ [demo_evidence_row i]\<rparr>" by (simp add: demo_tables_def g)
  have "demo_ok g" using demo_stage_ok [OF assms(1)] assms(2) by simp
  moreover have "er_evidence_id (demo_evidence_row i) \<notin> er_evidence_id ` set (lg_records g)"
    using assms(4) by (auto simp: g demo_tables_def demo_evidence_row_def)
  ultimately have ok: "demo_ok ?g"
    unfolding g1 using ledger_ok_record [OF _ demo_evidence_row_ok, of g i] by (simp add: demo_ok_def)
  obtain h where "load_claim ?g ''C'' = Inr (demo_statement ''C'', h)" using demo_load [OF assms(3)] by blast
  from demo_record [OF ok this] obtain a r where r:
    "assess_and_record demo_ledger_env ''C'' ''EVIDENCE_APPENDED'' i ?g = Inr (a, ?g\<lparr>lg_events := lg_events ?g @ [r]\<rparr>)"
    "length (ev_claim_id r) = 1" by blast
  obtain h' where "load_claim g ''C'' = Inr (demo_statement ''C'', h')" using demo_load [OF assms(3)] g(1) by blast
  then have p: "append_evidence demo_ledger_env (demo_evidence i) g = Inr (a, ?g\<lparr>lg_events := lg_events ?g @ [r]\<rparr>)"
    using r(1) find_demo_evidence [OF assms(4)] unfolding g1
    by (simp add: append_evidence_def v Let_def demo_evidence_row_def) (simp add: g demo_tables_def demo_evidence_row_def)
  have "demo_stage ks (is @ [i]) m (Suc n) (?g\<lparr>lg_events := lg_events ?g @ [r]\<rparr>)"
    by (rule demo_stage_next [OF assms(1) step_append [OF demo_env_digest p] _ g(2) r(2)])
      (simp add: demo_tables_def g)
  with p show ?thesis by blast
qed

text \<open>Two replications count.\<close>

lemma demo_counts:
  assumes "i \<noteq> []"
  shows "eligible_record demo_ledger_env (demo_statement ''C'') (r, sort_keys (evidence_payload (demo_evidence i)))"
    and "passing_test (sort_keys (evidence_payload (demo_evidence i)))"
    and "get_field (sort_keys (evidence_payload (demo_evidence i))) ''independence_key'' = JStr i"
    and "get_field (sort_keys (evidence_payload (demo_evidence i))) ''kind'' = JStr ''REPLICATION_RUN''"
  by (simp_all add: eligible_record_def evidence_artifact binding_matches_def passing_test_def evidence_fields
      demo_evidence_def demo_statement_def demo_sha demo_file JOptStr_def)

lemma demo_replications:
  defines "es \<equiv> map (\<lambda>i. (demo_evidence_row i, sort_keys (evidence_payload (demo_evidence i)))) [''A'', ''B'']"
  shows "evidence_level_of (map snd (filter (eligible_record demo_ledger_env (demo_statement ''C'')) es)) = EvidenceLevel_REPLICATED"
    and "disposition_of None (map snd (filter (eligible_record demo_ledger_env (demo_statement ''C'')) es)) = ClaimDisposition_ACTIVE"
proof -
  have all: "filter (eligible_record demo_ledger_env (demo_statement ''C'')) es = es" by (simp add: es_def demo_counts)
  have "independence_keys (map snd es) = [''A'', ''B'']"
    by (simp add: es_def independence_keys_def demo_counts truthy_json_def dict_fromkeys_distinct)
  then show "evidence_level_of (map snd (filter (eligible_record demo_ledger_env (demo_statement ''C'')) es)) = EvidenceLevel_REPLICATED"
    unfolding all by (simp add: evidence_level_of_def)
  show "disposition_of None (map snd (filter (eligible_record demo_ledger_env (demo_statement ''C'')) es)) = ClaimDisposition_ACTIVE"
    unfolding all by (simp add: es_def disposition_of_def rejected_by_def demo_counts)
qed

lemma demo_records:
  "claim_records (demo_tables ks [''A'', ''B''] as es) ''C'' =
     Inr (map (\<lambda>i. (demo_evidence_row i, sort_keys (evidence_payload (demo_evidence i)))) [''A'', ''B''])"
proof -
  have "sort_key er_evidence_id (filter (\<lambda>r. er_claim_id r = ''C'') (map demo_evidence_row [''A'', ''B''])) =
      map demo_evidence_row [''A'', ''B'']"
    by (simp add: demo_evidence_row_def sort_key_id_if_sorted)
  moreover have "read_json (er_payload (demo_evidence_row i)) = Inr (sort_keys (evidence_payload (demo_evidence i)))" for i
    by (simp add: demo_evidence_row_def read_json_def loads_canonical ledger_keys)
  ultimately show ?thesis by (simp add: claim_records_def demo_tables_def)
qed

lemma demo_authenticate:
  assumes "demo_stage ks [''A'', ''B''] 0 n g" and "n < 90" and "''C'' \<in> set ks"
  shows "\<exists>a g'. authenticate demo_ledger_env ''C'' ''K'' g = Inr (a, g') \<and> demo_stage ks [''A'', ''B''] 1 (Suc n) g'"
proof -
  from assms(1) obtain es where g: "g = demo_tables ks [''A'', ''B''] [] es" by (auto simp: demo_stage_def)
  have ok: "demo_ok g" using demo_stage_ok [OF assms(1)] assms(2) by simp
  then have lok: "ledger_ok demo_ledger_env g" by (simp add: demo_ok_def)
  obtain h where c: "load_claim g ''C'' = Inr (demo_statement ''C'', h)" using demo_load [OF assms(3)] g by blast
  from assess_total [OF lok c] obtain a where a: "assess demo_ledger_env g ''C'' = Inr a" by blast
  have level: "ca_evidence_level a = EvidenceLevel_REPLICATED \<and> ca_disposition a = ClaimDisposition_ACTIVE"
  proof (rule assess_cases [OF a])
    fix c' h' records
    assume "load_claim g ''C'' = Inr (c', h')" "claim_records g ''C'' = Inr records"
      and l: "ca_evidence_level a = evidence_level_of (map snd (filter (eligible_record demo_ledger_env c') records))"
      and d: "ca_disposition a = disposition_of (superseded_by g ''C'') (map snd (filter (eligible_record demo_ledger_env c') records))"
    then have is_c: "c' = demo_statement ''C''" and records: "records =
        map (\<lambda>i. (demo_evidence_row i, sort_keys (evidence_payload (demo_evidence i)))) [''A'', ''B'']"
      using c demo_records g by simp_all
    have "superseded_by g ''C'' = None" by (simp add: superseded_by_def g demo_tables_def)
    then show ?thesis using l d unfolding is_c records by (simp only: demo_replications)
  qed
  let ?body = "signed_body (demo_statement ''C'') h ''C'' a ''K''"
  let ?signed = "?body @ [(''signature'', JStr (le_hmac demo_ledger_env ''secret'' (canonical_json (JObj ?body))))]"
  let ?text = "canonical_json (JObj ?signed)"
  let ?q = "\<lparr>ar_envelope_id = ''CLAIM-AUTH-'' @ take 32 (sha256_bytes demo_ledger_env ?text), ar_claim_id = ''C'',
    ar_sha = sha256_bytes demo_ledger_env ?text, ar_payload = ?text\<rparr>"
  let ?g = "g\<lparr>lg_authentications := lg_authentications g @ [?q]\<rparr>"
  have g1: "?g = demo_tables ks [''A'', ''B''] [?q] es" by (simp add: demo_tables_def g)
  have "distinct_keys (JObj ?signed)" and "map_of ?signed ''claim_id'' = Some (JStr ''C'')"
    and "map_of ?signed ''evidence_level'' = Some (JStr ''REPLICATED'')" and "map_of ?signed ''disposition'' = Some (JStr ''ACTIVE'')"
    using level by (simp_all add: signed_body_def signed_fields_def)
  then have "authentication_row_ok demo_ledger_env ?q"
    unfolding authentication_row_ok_def by (intro exI [of _ ?signed]) (simp only: authentication_row.simps simp_thms)
  then have ok': "demo_ok ?g" using ledger_ok_authentication [of demo_ledger_env g] ok by (simp add: demo_ok_def)
  obtain h' where "load_claim ?g ''C'' = Inr (demo_statement ''C'', h')" unfolding g1 using demo_load [OF assms(3)] by blast
  from demo_record [OF ok' this] obtain b r where r:
    "assess_and_record demo_ledger_env ''C'' ''CLAIM_AUTHENTICATED'' (ar_envelope_id ?q) ?g = Inr (b, ?g\<lparr>lg_events := lg_events ?g @ [r]\<rparr>)"
    "length (ev_claim_id r) = 1" by blast
  have key: "dict_get ''K'' (le_keys demo_ledger_env) = Some ''secret''" "blank ''K'' = False" by code_simp+
  have p: "authenticate demo_ledger_env ''C'' ''K'' g = Inr (b, ?g\<lparr>lg_events := lg_events ?g @ [r]\<rparr>)"
    using r(1) key c a level by (simp add: authenticate_def Let_def) (simp add: g demo_tables_def)
  have "demo_stage ks [''A'', ''B''] 1 (Suc n) (?g\<lparr>lg_events := lg_events ?g @ [r]\<rparr>)"
    by (rule demo_stage_next [OF assms(1) step_authenticate [OF demo_env_digest p], where as' = "[?q]", OF _ _ r(2)])
      (simp_all add: demo_tables_def g)
  with p show ?thesis by blast
qed

lemma propose_new_event:
  assumes "propose e c g = Inr (a, g')"
  shows "lg_events g' = lg_events g \<or> (\<exists>r. lg_events g' = lg_events g @ [r] \<and> ev_claim_id r = cs_claim_id c)"
proof -
  have "\<exists>r. lg_events g' = lg_events j @ [r] \<and> ev_claim_id r = k"
    if "assess_and_record e k kind i j = Inr (b, g')" for k kind i j b
    using that by (auto simp: assess_and_record_def append_event_def map_sum_Inr_iff Let_def new_event_def
        elim!: assess_cases split: sum.splits if_splits)
  from this [of "cs_claim_id c"] assms show ?thesis
    by (fastforce simp: propose_def unchanged_def map_sum_Inr_iff Let_def dest: validate_claim_id split: sum.splits option.splits if_splits)
qed

lemma demo_run:
  obtains g1 g2 g3 g4 a1 a4 where "propose demo_ledger_env (demo_statement ''C'') empty_ledger = Inr (a1, g1)"
    and "demo_stage [''C''] [] 0 1 g1" and "demo_stage [''C''] [''A'', ''B''] 0 3 g2"
    and "authenticate demo_ledger_env ''C'' ''K'' g2 = Inr (a4, g3)" and "demo_stage [''C''] [''A'', ''B''] 1 4 g3"
    and "run_of (ledger_step demo_digest) g1 g4" and "\<exists>b. propose demo_ledger_env (demo_statement ''D'') g1 = Inr (b, g4)" and "demo_stage [''C'', ''D''] [] 0 2 g4"
proof -
  have "demo_stage [] [] 0 0 empty_ledger"
    by (simp add: demo_stage_def demo_tables_def empty_ledger_def run_of.intros)
  from demo_propose [OF this _ _ demo_statement_valid(1)]
  obtain a1 g1 where 1: "propose demo_ledger_env (demo_statement ''C'') empty_ledger = Inr (a1, g1)" "demo_stage [''C''] [] 0 1 g1" by auto
  from demo_propose [OF 1(2) _ _ demo_statement_valid(2)]
  obtain b g4 where 4: "propose demo_ledger_env (demo_statement ''D'') g1 = Inr (b, g4)" "demo_stage [''C'', ''D''] [] 0 2 g4"
    by (auto simp: numeral_2_eq_2)
  have run: "run_of (ledger_step demo_digest) g1 g4"
    using step_propose [OF demo_env_digest 4(1)] by (auto intro: run_of.intros)
  from demo_append [OF 1(2) _ _ _ demo_evidence_valid(1)]
  obtain g where "demo_stage [''C''] [''A''] 0 2 g" by (auto simp: numeral_2_eq_2)
  from demo_append [OF this _ _ _ demo_evidence_valid(2)]
  obtain g2 where 2: "demo_stage [''C''] [''A'', ''B''] 0 3 g2" by (auto simp: numeral_3_eq_3)
  from demo_authenticate [OF 2]
  obtain a4 g3 where 3: "authenticate demo_ledger_env ''C'' ''K'' g2 = Inr (a4, g3)" "demo_stage [''C''] [''A'', ''B''] 1 4 g3"
    by (auto simp: eval_nat_numeral)
  have "\<exists>b. propose demo_ledger_env (demo_statement ''D'') g1 = Inr (b, g4)" using 4(1) by blast
  from that [OF 1 2 3 run this 4(2)] show thesis .
qed

end
