(* ===== verification/Ledger_Properties.thy ===== *)
theory Ledger_Properties
  imports Ledger_Demo
begin

text \<open>
  The properties of the claim-evidence ledger over its runs: integrity of what was recorded, binding of
  roots and chains, the meaning of an authenticated claim, and immutability of proposed claims; each
  with a concrete run.
\<close>

section \<open>Signing\<close>

lemma assess_same:
  assumes "assess e g k = Inr a" and "assess e g' k = Inr a'"
    and "lg_claims g' = lg_claims g" "lg_records g' = lg_records g" "lg_supersessions g' = lg_supersessions g"
  shows "ca_evidence_level a' = ca_evidence_level a \<and> ca_disposition a' = ca_disposition a \<and>
    ca_eligible_evidence_ids a' = ca_eligible_evidence_ids a \<and> ca_evidence_merkle_root a' = ca_evidence_merkle_root a"
proof -
  have "load_claim g' k = load_claim g k" "claim_records g' k = claim_records g k" "superseded_by g' k = superseded_by g k"
    using assms(3-5) by (simp_all add: load_claim_def claim_records_def superseded_by_def)
  with assms(1,2) show ?thesis by (elim assess_cases) simp
qed

lemma signed_row_claim:
  assumes "authentication_row_ok e r" and "ar_payload r = canonical_json (JObj (signed_body c h k a key_id @ [(''signature'', s)]))"
    and "sort_keys s = s"
  shows "ar_claim_id r = k"
proof -
  let ?signed = "signed_body c h k a key_id @ [(''signature'', s)]"
  from assms(1) obtain ms where ms: "distinct_keys (JObj ms)" "ar_payload r = canonical_json (JObj ms)"
    "map_of ms ''claim_id'' = Some (JStr (ar_claim_id r))" unfolding authentication_row_ok_def by blast
  have "sort_keys (JObj ms) = sort_keys (JObj ?signed)" using assms(2) ms(2) by (intro canonical_json_inj) simp
  moreover have "field_or JNull (sort_keys (JObj ms)) ''claim_id'' = JStr (ar_claim_id r)"
    by (rule signed_field) (use ms map_of_SomeD in \<open>auto\<close>)
  moreover have "field_or JNull (sort_keys (JObj ?signed)) ''claim_id'' = JStr k"
    by (rule signed_field) (simp_all add: signed_body_def signed_fields_def)
  ultimately show ?thesis by (simp del: sort_keys.simps)
qed

lemma authenticate_signs:
  assumes ok: "ledger_ok e g" and "authenticate e k key_id g = Inr (a', g')"
  shows "ca_authentication a' = Authentication_AUTHENTICATED"
proof -
  from assms(2) obtain secret c h a where s: "\<not> blank key_id" "dict_get key_id (le_keys e) = Some secret"
    "load_claim g k = Inr (c, h)" "assess e g k = Inr a"
    "ca_disposition a = ClaimDisposition_ACTIVE" "ca_evidence_level a = EvidenceLevel_REPLICATED"
    by (auto simp: authenticate_def split: if_splits option.splits sum.splits)
  let ?body = "signed_body c h k a key_id"
  let ?signature = "JStr (le_hmac e secret (canonical_json (JObj ?body)))"
  let ?text = "canonical_json (JObj (?body @ [(''signature'', ?signature)]))"
  let ?sha = "sha256_bytes e ?text"
  let ?id = "''CLAIM-AUTH-'' @ take 32 ?sha"
  let ?r = "\<lparr>ar_envelope_id = ?id, ar_claim_id = k, ar_sha = ?sha, ar_payload = ?text\<rparr>"
  let ?g = "g\<lparr>lg_authentications := lg_authentications g @ [?r]\<rparr>"
  have k: "cs_claim_id c = k" using load_claim_facts [OF s(3)] ok by (auto simp: ledger_ok_def)
  have signed: "ca_authentication b = Authentication_AUTHENTICATED"
    if b: "assess e j k = Inr b" and j: "lg_claims j = lg_claims g" "lg_records j = lg_records g" "lg_supersessions j = lg_supersessions g"
      and r: "r \<in> set (lg_authentications j)" "ar_claim_id r = k" "ar_payload r = ?text" and jok: "ledger_ok e j" for b j r
  proof (rule assess_cases [OF b])
    fix c' h'
    assume "load_claim j k = Inr (c', h')"
      and state: "authentication_state_of e j (cs_claim_id c') (signed_fields c' h' (ca_evidence_level b) (ca_disposition b)
        (ca_eligible_evidence_ids b) (ca_evidence_merkle_root b)) = Inr (ca_authentication b)"
    then have "c' = c" "h' = h" using s(3) j by (simp_all add: load_claim_def)
    with state assess_same [OF s(4) b j] signature_accepted [OF s(2) r] jok k show ?thesis
      by (simp add: ledger_ok_def)
  qed
  show ?thesis
  proof (cases "find (\<lambda>r. ar_envelope_id r = ?id) (lg_authentications g)")
    case None
    with assms(2) s have written: "assess_and_record e k ''CLAIM_AUTHENTICATED'' ?id ?g = Inr (a', g')"
      by (simp add: authenticate_def Let_def)
    then have a': "assess e ?g k = Inr a'" by (auto simp: assess_and_record_def map_sum_Inr_iff split: sum.splits)
    have "distinct_keys (JObj (?body @ [(''signature'', ?signature)]))"
      "map_of (?body @ [(''signature'', ?signature)]) ''claim_id'' = Some (JStr k)"
      "map_of (?body @ [(''signature'', ?signature)]) ''evidence_level'' = Some (JStr ''REPLICATED'')"
      "map_of (?body @ [(''signature'', ?signature)]) ''disposition'' = Some (JStr ''ACTIVE'')"
      using s(5,6) by (simp_all add: signed_body_def signed_fields_def)
    then have "authentication_row_ok e ?r"
      unfolding authentication_row_ok_def
      by (intro exI [of _ "?body @ [(''signature'', ?signature)]"]) (simp only: authentication_row.simps simp_thms)
    then have "ledger_ok e ?g" using ledger_ok_authentication [OF ok] by blast
    with signed [OF a', of ?r] show ?thesis by simp
  next
    case (Some r)
    with assms(2) s have r: "ar_payload r = ?text" and a': "assess e g k = Inr a'"
      by (auto simp: authenticate_def Let_def unchanged_def map_sum_Inr_iff split: if_splits)
    from find_key [OF Some] have "r \<in> set (lg_authentications g)" by blast
    moreover from this r ok have "ar_claim_id r = k"
      by (intro signed_row_claim [OF _ r, of e]) (simp_all add: ledger_ok_def)
    ultimately show ?thesis using signed [OF a', of r] r ok by simp
  qed
qed

section \<open>Chains\<close>

lemma event_row_inj:
  assumes "event_row_ok e g r" and "event_row_ok e g' q" and "ev_payload r = ev_payload q"
  shows "r = q"
proof -
  from assms(1) obtain a h kind i where r: "ca_claim_id a = ev_claim_id r"
    "ev_payload r = canonical_json (event_body a h (ev_sequence r) (ev_previous r) kind i)"
    "ev_sha r = sha256_bytes e (ev_payload r)" "ev_event_id r = ''CLAIM-EVENT-'' @ take 32 (ev_sha r)"
    unfolding event_row_ok_def by blast
  from assms(2) obtain b j knd m where q: "ca_claim_id b = ev_claim_id q"
    "ev_payload q = canonical_json (event_body b j (ev_sequence q) (ev_previous q) knd m)"
    "ev_sha q = sha256_bytes e (ev_payload q)" "ev_event_id q = ''CLAIM-EVENT-'' @ take 32 (ev_sha q)"
    unfolding event_row_ok_def by blast
  have same: "sort_keys (event_body a h (ev_sequence r) (ev_previous r) kind i) =
      sort_keys (event_body b j (ev_sequence q) (ev_previous q) knd m)"
    using r(2) q(2) assms(3) by (intro canonical_json_inj) simp
  have "JInt (ev_sequence r) = JInt (ev_sequence q)" "JOptStr (ev_previous r) = JOptStr (ev_previous q)"
    "JStr (ca_claim_id a) = JStr (ca_claim_id b)"
    using arg_cong [OF same, of "\<lambda>v. get_field v ''sequence''"] arg_cong [OF same, of "\<lambda>v. get_field v ''previous_event_sha256''"]
      arg_cong [OF same, of "\<lambda>v. get_field v ''claim_id''"] unfolding event_fields by simp_all
  then show ?thesis using r q assms(3) by (simp add: JOptStr_def split: option.splits)
qed

lemma chain_last: "chain_ok e g tip rs \<Longrightarrow> rs \<noteq> [] \<Longrightarrow> event_row_ok e g (last rs)"
  by (induction rs arbitrary: tip) auto

lemma chains_equal:
  assumes "chain_ok e g None rs" and "chain_ok e g' None qs" and "rs \<noteq> []" and "qs \<noteq> []"
    and "ev_sha (last rs) = ev_sha (last qs)" and "inj_on (le_digest e) (ev_payload ` (set rs \<union> set qs))"
  shows "rs = qs"
  using assms
proof (induction rs arbitrary: qs rule: rev_induct)
  case Nil
  then show ?case by simp
next
  case (snoc r rs)
  from snoc.prems(4) obtain q ps where qs: "qs = ps @ [q]" by (cases qs rule: rev_cases) auto
  from snoc.prems(1) have r: "chain_ok e g None rs" "follows (chain_end None rs) r" "event_row_ok e g r"
    by (simp_all add: chain_ok_append)
  from snoc.prems(2) qs have q: "chain_ok e g' None ps" "follows (chain_end None ps) q" "event_row_ok e g' q"
    by (simp_all add: chain_ok_append)
  have "ev_sha r = sha256_bytes e (ev_payload r)" "ev_sha q = sha256_bytes e (ev_payload q)"
    using r(3) q(3) unfolding event_row_ok_def by blast+
  then have "le_digest e (ev_payload r) = le_digest e (ev_payload q)" using snoc.prems(5) qs by (simp add: sha256_bytes_def)
  then have "ev_payload r = ev_payload q" by (rule inj_onD [OF snoc.prems(6)]) (simp_all add: qs)
  then have "r = q" using event_row_inj [OF r(3) q(3)] by blast
  then have tips: "map_option snd (chain_end None rs) = map_option snd (chain_end None ps)"
    using r(2) q(2) by (simp add: follows_def)
  have "rs = ps"
  proof (cases "rs = []")
    case True
    with tips show ?thesis by (auto simp: chain_end_def split: if_splits)
  next
    case False
    with tips have "ps \<noteq> []" "ev_sha (last rs) = ev_sha (last ps)" by (auto simp: chain_end_def split: if_splits)
    with snoc.IH [of ps] r q False inj_on_subset [OF snoc.prems(6)] qs show ?thesis by (auto simp: image_Un)
  qed
  with \<open>r = q\<close> qs show ?case by simp
qed

lemma last_event_reached:
  assumes "ledger_ok e g" and "last_event g k = Some r"
  shows "events_of g k \<noteq> [] \<and> r = last (events_of g k)"
  using assms last_event_of_chain [of e g k] by (auto simp: ledger_ok_def split: if_splits)

section \<open>Growth\<close>

lemma load_claim_grows:
  assumes "grows g g'" and "load_claim g k = Inr x" shows "load_claim g' k = Inr x"
proof -
  from assms(2) obtain r where r: "find (\<lambda>r. cr_claim_id r = k) (lg_claims g) = Some r"
    by (auto simp: load_claim_def split: option.splits)
  with assms(1) have "find (\<lambda>r. cr_claim_id r = k) (lg_claims g') = Some r" by (auto simp: grows_def find_append)
  with r assms(2) show ?thesis by (simp add: load_claim_def)
qed

lemma events_of_grows: "grows g g' \<Longrightarrow> \<exists>more. events_of g' k = events_of g k @ more"
  by (auto simp: grows_def events_of_def)

lemma chain_texts_read:
  assumes "chain_ok e g tip rs"
  shows "\<exists>vs. traverse (\<lambda>r. read_json (ev_payload r)) rs = Inr vs \<and> length vs = length rs"
  using assms
proof (induction rs arbitrary: tip)
  case Nil
  show ?case by simp
next
  case (Cons r rs)
  then have "event_row_ok e g r" by simp
  then obtain v where "read_json (ev_payload r) = Inr v"
    unfolding event_row_ok_def read_json_def by (auto simp: loads_canonical ledger_keys)
  with Cons show ?case by fastforce
qed

lemma traverse_append:
  "traverse f (xs @ ys) = (case traverse f xs of Inl x \<Rightarrow> Inl x
    | Inr us \<Rightarrow> (case traverse f ys of Inl x \<Rightarrow> Inl x | Inr vs \<Rightarrow> Inr (us @ vs)))"
  by (induction xs) (auto split: sum.splits)

lemma history_of_chain:
  assumes "ledger_ok e g"
  shows "history g k = (case load_claim g k of Inl x \<Rightarrow> Inl x
    | Inr _ \<Rightarrow> traverse (\<lambda>r. read_json (ev_payload r)) (events_of g k))"
proof -
  have "chain_ok e g None (events_of g k)" using assms by (simp add: ledger_ok_def)
  from chain_sorted [OF this] show ?thesis by (simp add: history_def events_of_def split: sum.split)
qed

lemma propose_records:
  assumes "ledger_ok e g" and "propose e c g = Inr (a, g')"
  shows "load_claim g' (cs_claim_id c) = Inr (c, sha256_json e (claim_payload c)) \<and> validate_claim c = Inr c"
proof -
  from assms(2) have valid: "validate_claim c = Inr c"
    using validate_claim_id by (auto simp: propose_def split: sum.splits)
  then have schema: "cs_schema_version c = ''rlmgraph-claim-statement-v1''" by (auto simp: validate_claim_def split: if_splits)
  have read: "load_claim j (cs_claim_id c) = Inr (c, cr_sha r)"
    if "find (\<lambda>r. cr_claim_id r = cs_claim_id c) (lg_claims j) = Some r" "cr_payload r = canonical_json (claim_payload c)" for j r
    using that schema by (simp add: load_claim_def read_json_def loads_canonical ledger_keys claim_of_payload)
  show ?thesis
  proof (cases "find (\<lambda>r. cr_claim_id r = cs_claim_id c) (lg_claims g)")
    case None
    let ?r = "\<lparr>cr_claim_id = cs_claim_id c, cr_sha = sha256_json e (claim_payload c), cr_payload = canonical_json (claim_payload c)\<rparr>"
    let ?g = "g\<lparr>lg_claims := lg_claims g @ [?r]\<rparr>"
    from None assms(2) valid have written: "assess_and_record e (cs_claim_id c) ''CLAIM_PROPOSED'' (sha256_json e (claim_payload c)) ?g = Inr (a, g')"
      by (simp add: propose_def Let_def sha256_json_def)
    have "ledger_ok e ?g"
      using ledger_ok_claim [OF assms(1), of ?r] valid by (auto simp: claim_row_ok_def sha256_json_def)
    with written have "grows ?g g'" using assess_and_record_ok by blast
    moreover have "load_claim ?g (cs_claim_id c) = Inr (c, cr_sha ?r)" by (rule read) (simp_all add: find_append None)
    ultimately show ?thesis using load_claim_grows valid by fastforce
  next
    case (Some r)
    with assms(2) valid have r: "cr_payload r = canonical_json (claim_payload c)" "g' = g"
      by (auto simp: propose_def Let_def unchanged_def map_sum_Inr_iff split: if_splits)
    from find_key [OF Some] assms(1) have "claim_row_ok e r" by (simp add: ledger_ok_def)
    then have "cr_sha r = sha256_json e (claim_payload c)"
      using r(1) unfolding claim_row_ok_def sha256_json_def by auto
    with read [OF Some r(1)] r(2) valid show ?thesis by simp
  qed
qed

section \<open>What the integrity check guarantees\<close>

text \<open>What a clean check says of an event row, and of the events of a claim in order.\<close>

definition event_row_sound :: "ledger_env \<Rightarrow> ledger \<Rightarrow> event_row \<Rightarrow> bool" where
  "event_row_sound e g r \<longleftrightarrow>
     ev_sha r = sha256_bytes e (ev_payload r) \<and> ev_event_id r = ''CLAIM-EVENT-'' @ take 32 (ev_sha r) \<and>
     (\<exists>raw eligible bound. loads (ev_payload r) = Some raw \<and> get_field raw ''claim_id'' = JStr (ev_claim_id r) \<and>
        get_field raw ''previous_event_sha256'' = JOptStr (ev_previous r) \<and>
        get_field raw ''claim_payload_sha256'' =
          JOptStr (map_option cr_sha (find (\<lambda>c. cr_claim_id c = ev_claim_id r) (lg_claims g))) \<and>
        field_or (JList []) raw ''eligible_evidence_ids'' = JList eligible \<and>
        map (evidence_bound g (ev_claim_id r)) eligible = map Some bound \<and>
        get_field raw ''evidence_merkle_root'' = JStr (merkle_root e bound))"

fun linked :: "ledger_env \<Rightarrow> ledger \<Rightarrow> (int \<times> string) option \<Rightarrow> event_row list \<Rightarrow> bool" where
  "linked e g tip [] = True"
| "linked e g tip (r # rs) =
     (follows tip r \<and> event_row_sound e g r \<and> linked e g (Some (ev_sequence r, ev_sha r)) rs)"

lemma error_if_Nil [simp]: "error_if b t = [] \<longleftrightarrow> \<not> b"
  by (simp add: error_if_def)

lemma inventory_sound:
  assumes "inventory_errors e g r raw = Inr []"
  obtains eligible bound where "field_or (JList []) raw ''eligible_evidence_ids'' = JList eligible"
    and "map (evidence_bound g (ev_claim_id r)) eligible = map Some bound"
    and "get_field raw ''evidence_merkle_root'' = JStr (merkle_root e bound)"
proof -
  from assms obtain ids eligible where lists: "field_or (JList []) raw ''eligible_evidence_ids'' = JList eligible"
    "field_or (JList []) raw ''evidence_ids'' = JList ids"
    by (auto simp: inventory_errors_def split: json.splits)
  let ?bound = "map (evidence_bound g (ev_claim_id r)) eligible"
  from assms lists have none: "filter (\<lambda>b. b = None) ?bound = []"
    and root_is: "get_field raw ''evidence_merkle_root'' = JStr (merkle_root e (List.map_filter id ?bound))"
    by (auto simp: inventory_errors_def Let_def split: if_splits)
  have "bs = map Some (List.map_filter id bs)" if "filter (\<lambda>b. b = None) bs = []" for bs :: "(string \<times> string) option list"
    using that by (induction bs) (auto simp: List.map_filter_simps split: if_splits)
  from this [OF none] have "?bound = map Some (List.map_filter id ?bound)" .
  from that [OF lists(1) this root_is] show thesis .
qed

lemma event_row_errors_sound:
  assumes "event_row_errors e g ends r = Inr ([], ends')"
  shows "follows (dict_get (ev_claim_id r) ends) r \<and> event_row_sound e g r \<and>
    ends' = dict_set (ev_claim_id r) (ev_sequence r, ev_sha r) ends"
proof -
  from assms obtain raw where raw: "loads (ev_payload r) = Some raw" "is_object raw"
    by (auto simp: event_row_errors_def Let_def split: option.splits if_splits)
  with assms have inv: "inventory_errors e g r raw = Inr []"
    and hash: "ev_sha r = sha256_bytes e (ev_payload r)" "ev_event_id r = ''CLAIM-EVENT-'' @ take 32 (sha256_bytes e (ev_payload r))"
    and fields: "get_field raw ''claim_id'' = JStr (ev_claim_id r)"
      "get_field raw ''previous_event_sha256'' = JOptStr (map_option snd (dict_get (ev_claim_id r) ends))"
      "ev_previous r = map_option snd (dict_get (ev_claim_id r) ends)"
      "get_field raw ''claim_payload_sha256'' = JOptStr (map_option cr_sha (find (\<lambda>c. cr_claim_id c = ev_claim_id r) (lg_claims g)))"
      "ev_sequence r = (case dict_get (ev_claim_id r) ends of None \<Rightarrow> 1 | Some p \<Rightarrow> fst p + 1)"
    and ends: "ends' = dict_set (ev_claim_id r) (ev_sequence r, ev_sha r) ends"
    by (simp_all add: event_row_errors_def Let_def map_sum_Inr_iff)
  from inv obtain eligible bound where "field_or (JList []) raw ''eligible_evidence_ids'' = JList eligible"
    "map (evidence_bound g (ev_claim_id r)) eligible = map Some bound"
    "get_field raw ''evidence_merkle_root'' = JStr (merkle_root e bound)" by (rule inventory_sound)
  with raw hash fields ends show ?thesis unfolding event_row_sound_def follows_def by auto
qed

lemma events_errors_sound:
  "events_errors e g ends rs = Inr [] \<Longrightarrow> linked e g (dict_get k ends) (filter (\<lambda>r. ev_claim_id r = k) rs)"
proof (induction rs arbitrary: ends)
  case Nil
  show ?case by simp
next
  case (Cons r rs)
  from Cons.prems obtain ends' where r: "event_row_errors e g ends r = Inr ([], ends')" "events_errors e g ends' rs = Inr []"
    by (auto simp: map_sum_Inr_iff split: sum.splits)
  from event_row_errors_sound [OF r(1)] Cons.IH [OF r(2)] show ?case by (cases "k = ev_claim_id r") auto
qed

lemma supersession_row_sound:
  assumes "supersession_row_errors e q = Inr []"
  shows "sha256_bytes e (sr_payload q) = sr_sha q \<and>
    (\<exists>raw. loads (sr_payload q) = Some raw \<and> get_field raw ''claim_id'' = JStr (sr_claim_id q) \<and>
       get_field raw ''replacement_claim_id'' = JStr (sr_replacement q))"
  using assms by (auto simp: supersession_row_errors_def Let_def split: option.splits if_splits)

lemma events_of_sorted:
  "filter (\<lambda>r. ev_claim_id r = k) (sort_key ev_claim_id (sort_key ev_sequence (lg_events g))) = sort_key ev_sequence (events_of g k)"
proof -
  have same: "sort_key ev_claim_id rs = rs" if "\<forall>r\<in>set rs. ev_claim_id r = k" for rs
    using that by (intro sort_key_id_if_sorted) (simp add: sorted_map sorted_wrt_iff_nth_less)
  show ?thesis by (simp add: filter_sort flip: events_of_def) (rule same, simp add: events_of_def)
qed

text \<open>C9: When the integrity check returns ok, for whatever the tables contain, then every stored text
  has its stored hash, every artifact is unchanged, every supersession and signature row is the one its
  text names, and the events of each claim, in the order of their sequence numbers, form an unbroken
  hash chain from 1 whose evidence roots are the roots over the evidence recorded for the claim.\<close>

theorem clean_check_is_sound:
  assumes "verify_integrity e g = Inr r" and "ir_ok r"
  shows "(\<forall>c\<in>set (lg_claims g). sha256_bytes e (cr_payload c) = cr_sha c) \<and>
    (\<forall>v\<in>set (lg_records g). sha256_bytes e (er_payload v) = er_sha v \<and> artifact_intact e v) \<and>
    (\<forall>q\<in>set (lg_supersessions g). sha256_bytes e (sr_payload q) = sr_sha q \<and>
      (\<exists>raw. loads (sr_payload q) = Some raw \<and> get_field raw ''claim_id'' = JStr (sr_claim_id q) \<and>
         get_field raw ''replacement_claim_id'' = JStr (sr_replacement q))) \<and>
    (\<forall>q\<in>set (lg_authentications g). sha256_bytes e (ar_payload q) = ar_sha q \<and>
      ar_envelope_id q = ''CLAIM-AUTH-'' @ take 32 (ar_sha q)) \<and>
    (\<forall>k. linked e g None (sort_key ev_sequence (events_of g k)))"
proof -
  from assms obtain ss events where ss: "traverse (supersession_row_errors e) (sort_key sr_claim_id (lg_supersessions g)) = Inr ss"
    and events: "events_errors e g [] (sort_key ev_claim_id (sort_key ev_sequence (lg_events g))) = Inr events"
    by (auto simp: verify_integrity_def map_sum_Inr_iff split: sum.splits)
  from assms ss events have none: "concat ss = []" "events = []" "\<forall>c\<in>set (lg_claims g). claim_row_errors e c = []"
    "\<forall>v\<in>set (lg_records g). evidence_row_errors e v = []" "\<forall>q\<in>set (lg_authentications g). authentication_row_errors e q = []"
    by (auto simp: verify_integrity_def Let_def)
  have "linked e g None (sort_key ev_sequence (events_of g k))" for k
    using events_errors_sound [of e g "[]" _ k] events none(2) by (metis dict_get_def events_of_sorted map_of.simps(1))
  moreover have "\<forall>q\<in>set (lg_supersessions g). supersession_row_errors e q = Inr []"
  proof
    fix q assume "q \<in> set (lg_supersessions g)"
    then have "q \<in> set (sort_key sr_claim_id (lg_supersessions g))" by simp
    moreover have "\<forall>x\<in>set xs. supersession_row_errors e x = Inr []"
      if "traverse (supersession_row_errors e) xs = Inr ys" "concat ys = []" for xs ys
      using that by (induction xs arbitrary: ys) (auto split: sum.splits)
    ultimately show "supersession_row_errors e q = Inr []" using ss none(1) by blast
  qed
  then have "\<forall>q\<in>set (lg_supersessions g). sha256_bytes e (sr_payload q) = sr_sha q \<and>
      (\<exists>raw. loads (sr_payload q) = Some raw \<and> get_field raw ''claim_id'' = JStr (sr_claim_id q) \<and>
         get_field raw ''replacement_claim_id'' = JStr (sr_replacement q))"
    using supersession_row_sound by blast
  moreover have "\<forall>v\<in>set (lg_records g). sha256_bytes e (er_payload v) = er_sha v \<and> artifact_intact e v"
    using none(4) by (auto simp: evidence_row_errors_def artifact_intact_def split: if_splits option.splits)
  moreover have "\<forall>q\<in>set (lg_authentications g). sha256_bytes e (ar_payload q) = ar_sha q \<and>
      ar_envelope_id q = ''CLAIM-AUTH-'' @ take 32 (ar_sha q)"
    using none(5) by (simp add: authentication_row_errors_def Let_def)
  ultimately show ?thesis using none(3) by (simp add: claim_row_errors_def)
qed

lemma demo_clean:
  assumes "demo_stage ks [''A'', ''B''] m n g" and "n < 100"
  shows "\<exists>r. verify_integrity demo_ledger_env g = Inr r \<and> ir_ok r"
proof -
  have "artifact_intact demo_ledger_env (demo_evidence_row i)" for i
    by (simp add: artifact_intact_def demo_evidence_row_def loads_canonical ledger_keys evidence_artifact)
      (simp add: demo_evidence_def demo_file demo_sha)
  then have "\<forall>r\<in>set (lg_records g). artifact_intact demo_ledger_env r"
    using assms(1) by (auto simp: demo_stage_def demo_tables_def)
  with verify_ok [of demo_ledger_env g] demo_stage_ok [OF assms] show ?thesis by (simp add: demo_ok_def)
qed

theorem clean_check_is_sound_witness:
  "\<exists>g. demo_stage [''C''] [''A'', ''B''] 1 4 g \<and> (\<forall>q\<in>set (lg_records g). artifact_intact demo_ledger_env q) \<and>
     linked demo_ledger_env g None (sort_key ev_sequence (events_of g ''C''))"
proof (rule demo_run)
  fix g assume g: "demo_stage [''C''] [''A'', ''B''] 1 4 g"
  then obtain r where "verify_integrity demo_ledger_env g = Inr r" "ir_ok r" using demo_clean by fastforce
  from clean_check_is_sound [OF this] g show ?thesis by blast
qed

text \<open>C8: In every ledger that operations produce (files and keys may change in between), the integrity
  check returns, and reports exactly the evidence whose artifact file no longer has the recorded hash:
  no claim, evidence, supersession, signature or event row is ever reported.\<close>

theorem integrity_of_recorded_history:
  assumes "run_of (ledger_step (le_digest e)) empty_ledger g"
  shows "verify_integrity e g = Inr
    \<lparr>ir_ok = (\<forall>r\<in>set (lg_records g). artifact_intact e r), ir_claim_count = length (lg_claims g),
     ir_evidence_count = length (lg_records g), ir_event_count = length (lg_events g),
     ir_authentication_count = length (lg_authentications g),
     ir_errors = map artifact_error (filter (\<lambda>r. \<not> artifact_intact e r) (sort_key er_evidence_id (lg_records g)))\<rparr>"
  using verify_ok [OF reached_ok [OF assms]] .

theorem integrity_of_recorded_history_witness:
  "\<exists>g r. demo_stage [''C''] [''A'', ''B''] 1 4 g \<and> verify_integrity demo_ledger_env g = Inr r \<and>
     ir_evidence_count r = 2 \<and> ir_event_count r = 4 \<and> ir_authentication_count r = 1"
proof (rule demo_run)
  fix g assume g: "demo_stage [''C''] [''A'', ''B''] 1 4 g"
  then have "run_of (ledger_step (le_digest demo_ledger_env)) empty_ledger g" by (simp add: demo_stage_def)
  from integrity_of_recorded_history [OF this] g show ?thesis
    by (auto simp: demo_stage_def demo_tables_def)
qed

text \<open>The last event of a claim binds its whole history: two ledgers that operations produced, in
  which the last event of the claim has the same hash, record the same events for it, as long as the
  hash function is injective on the texts of those events.\<close>

theorem event_chain_binds:
  fixes e :: ledger_env
  assumes "run_of (ledger_step (le_digest e)) empty_ledger g" and "run_of (ledger_step (le_digest e)) empty_ledger g'"
    and "last_event g k = Some r" and "last_event g' k = Some r'" and "ev_sha r = ev_sha r'"
    and "inj_on (le_digest e) (ev_payload ` (set (events_of g k) \<union> set (events_of g' k)))"
  shows "events_of g k = events_of g' k"
proof -
  note ok = reached_ok [OF assms(1)] reached_ok [OF assms(2)]
  from ok have "chain_ok e g None (events_of g k)" "chain_ok e g' None (events_of g' k)" by (simp_all add: ledger_ok_def)
  then show ?thesis
    using last_event_reached [OF ok(1) assms(3)] last_event_reached [OF ok(2) assms(4)] assms(5,6) by (intro chains_equal) auto
qed

theorem event_chain_binds_witness:
  "\<exists>g g'. demo_stage [''C''] [] 0 1 g \<and> demo_stage [''C'', ''D''] [] 0 2 g' \<and> events_of g ''C'' = events_of g' ''C''"
proof (rule demo_run)
  fix g g' a
  assume p: "propose demo_ledger_env (demo_statement ''C'') empty_ledger = Inr (a, g)" and g: "demo_stage [''C''] [] 0 1 g"
    and "\<exists>b. propose demo_ledger_env (demo_statement ''D'') g = Inr (b, g')" and g': "demo_stage [''C'', ''D''] [] 0 2 g'"
  then obtain b where p': "propose demo_ledger_env (demo_statement ''D'') g = Inr (b, g')" by blast
  have length: "length (lg_events g) = 1" "length (lg_events g') = 2" using g g' by (auto simp: demo_stage_def demo_tables_def)
  from propose_new_event [OF p] length obtain r where r: "lg_events g = [r]" "ev_claim_id r = ''C''"
    by (auto simp: empty_ledger_def)
  from propose_new_event [OF p'] length r obtain q where q: "lg_events g' = [r, q]" "ev_claim_id q = ''D''" by auto
  have runs: "run_of (ledger_step (le_digest demo_ledger_env)) empty_ledger g" "run_of (ledger_step (le_digest demo_ledger_env)) empty_ledger g'"
    using g g' by (simp_all add: demo_stage_def)
  have "events_of g ''C'' = events_of g' ''C''"
    by (rule event_chain_binds [OF runs, of _ r r]) (simp_all add: r q last_event_def events_of_def)
  with g g' show ?thesis by blast
qed

text \<open>C11: A proposed claim is recorded for good: after it was proposed, and after any later operations,
  the ledger returns exactly its statement, with the hash of its text; its history only gets longer;
  and a different statement under its identifier is refused.\<close>

theorem proposed_claim_is_permanent:
  assumes "run_of (ledger_step (le_digest e)) empty_ledger g0" and "propose e c g0 = Inr (a, g1)"
    and "run_of (ledger_step (le_digest e)) g1 g"
  shows "load_claim g (cs_claim_id c) = Inr (c, sha256_json e (claim_payload c)) \<and>
    (\<exists>old more. history g1 (cs_claim_id c) = Inr old \<and> history g (cs_claim_id c) = Inr (old @ more)) \<and>
    (\<forall>d. cs_claim_id d = cs_claim_id c \<and> d \<noteq> c \<longrightarrow> (\<exists>x. propose e d g = Inl x))"
proof -
  let ?k = "cs_claim_id c"
  have ok1: "ledger_ok e g1" using propose_ok [OF reached_ok [OF assms(1)] assms(2)] by blast
  then have g: "ledger_ok e g" "grows g1 g"
    using ledger_growth.run_inv [OF assms(3), of g1] by (simp_all add: ledger_inv_ok)
  have load: "load_claim g1 ?k = Inr (c, sha256_json e (claim_payload c))" and valid: "validate_claim c = Inr c"
    using propose_records [OF reached_ok [OF assms(1)] assms(2)] by simp_all
  from load_claim_grows [OF g(2) load] have load': "load_claim g ?k = Inr (c, sha256_json e (claim_payload c))" .
  from events_of_grows [OF g(2)] obtain later where later: "events_of g ?k = events_of g1 ?k @ later" by blast
  from g(1) have "chain_ok e g None (events_of g ?k)" by (simp add: ledger_ok_def)
  from chain_texts_read [OF this] obtain vs where "traverse (\<lambda>r. read_json (ev_payload r)) (events_of g ?k) = Inr vs" by blast
  then obtain old more where "traverse (\<lambda>r. read_json (ev_payload r)) (events_of g1 ?k) = Inr old" "vs = old @ more"
    by (auto simp: later traverse_append split: sum.splits)
  then have "\<exists>old more. history g1 ?k = Inr old \<and> history g ?k = Inr (old @ more)"
    using \<open>traverse _ (events_of g ?k) = Inr vs\<close> by (simp add: history_of_chain [OF ok1] history_of_chain [OF g(1)] load load')
  moreover have "\<exists>x. propose e d g = Inl x" if "cs_claim_id d = ?k" "d \<noteq> c" for d
  proof (rule ccontr)
    assume "\<nexists>x. propose e d g = Inl x"
    then obtain b where "propose e d g = Inr b" by (cases "propose e d g") auto
    then obtain b g'' where p: "propose e d g = Inr (b, g'')" by (cases b) auto
    from propose_records [OF g(1) p] have "load_claim g'' ?k = Inr (d, sha256_json e (claim_payload d))"
      using that(1) by simp
    moreover have "load_claim g'' ?k = Inr (c, sha256_json e (claim_payload c))"
      using load_claim_grows [OF _ load'] propose_ok [OF g(1) p] by blast
    ultimately show False using that(2) by simp
  qed
  ultimately show ?thesis using load' by blast
qed

theorem proposed_claim_is_permanent_witness:
  "\<exists>g. demo_stage [''C'', ''D''] [] 0 2 g \<and>
     load_claim g ''C'' = Inr (demo_statement ''C'', sha256_json demo_ledger_env (claim_payload (demo_statement ''C'')))"
proof (rule demo_run)
  fix g1 g4 a1
  assume p: "propose demo_ledger_env (demo_statement ''C'') empty_ledger = Inr (a1, g1)"
    and run: "run_of (ledger_step demo_digest) g1 g4" and g: "demo_stage [''C'', ''D''] [] 0 2 g4"
  have "run_of (ledger_step (le_digest demo_ledger_env)) empty_ledger empty_ledger" by (rule run_of.intros)
  from proposed_claim_is_permanent [OF this p] run g show ?thesis by auto
qed

section \<open>Authenticated claims\<close>

text \<open>A record that counts for a claim, with its independence key.\<close>

definition replication :: "ledger_env \<Rightarrow> ledger \<Rightarrow> claim_statement \<Rightarrow> string list \<Rightarrow> string \<Rightarrow> bool" where
  "replication e g c ids key \<longleftrightarrow>
     (\<exists>r raw. r \<in> set (lg_records g) \<and> er_claim_id r = cs_claim_id c \<and> er_evidence_id r \<in> set ids \<and>
        loads (er_payload r) = Some raw \<and> artifact_matches e raw \<and> passing_test raw \<and> binding_matches c raw \<and>
        key \<noteq> [] \<and> str_json (get_field raw ''independence_key'') = key)"

text \<open>A signature over what an assessment of a claim says.\<close>

definition signed_for :: "ledger_env \<Rightarrow> ledger \<Rightarrow> claim_assessment \<Rightarrow> string \<Rightarrow> bool" where
  "signed_for e g a claim_sha \<longleftrightarrow>
     (\<exists>r raw. r \<in> set (lg_authentications g) \<and> ar_claim_id r = ca_claim_id a \<and> loads (ar_payload r) = Some raw \<and>
        signature_valid e raw \<and> get_field raw ''claim_payload_sha256'' = JStr claim_sha \<and>
        field_or (JList []) raw ''evidence_ids'' = JStrs (ca_eligible_evidence_ids a) \<and>
        get_field raw ''evidence_merkle_root'' = JStr (ca_evidence_merkle_root a))"

lemma distinct_two:
  assumes "distinct xs" and "2 \<le> length xs"
  obtains x y where "x \<in> set xs" and "y \<in> set xs" and "x \<noteq> y"
proof -
  from assms(2) obtain x y ys where "xs = x # y # ys" by (cases xs; cases "tl xs") auto
  with assms(1) that show thesis by auto
qed

lemma replicated_keys:
  assumes "evidence_level_of (map snd es) = EvidenceLevel_REPLICATED"
  obtains x y p q where "x \<noteq> y" and "p \<in> set es" "q \<in> set es" "passing_test (snd p)" "passing_test (snd q)"
    and "truthy_json (get_field (snd p) ''independence_key'')" "truthy_json (get_field (snd q) ''independence_key'')"
    and "str_json (get_field (snd p) ''independence_key'') = x" "str_json (get_field (snd q) ''independence_key'') = y"
proof -
  have "2 \<le> length (independence_keys (map snd es))"
    using assms by (auto simp: evidence_level_of_def split: if_splits)
  moreover have "distinct (independence_keys (map snd es))" by (simp add: independence_keys_def distinct_dict_fromkeys)
  ultimately obtain x y where "x \<in> set (independence_keys (map snd es))" "y \<in> set (independence_keys (map snd es))" "x \<noteq> y"
    by (meson distinct_two)
  with that show thesis by (auto simp: independence_keys_def set_dict_fromkeys)
qed

lemma authenticated_by:
  assumes "authentication_state_of e g k fs = Inr Authentication_AUTHENTICATED"
  obtains r raw where "r \<in> set (lg_authentications g)" and "ar_claim_id r = k" and "loads (ar_payload r) = Some raw"
    and "binds_all fs raw" and "signature_valid e raw"
proof -
  from assms obtain raws where raws: "traverse (\<lambda>r. read_object (ar_payload r))
      (sort_key ar_envelope_id (filter (\<lambda>r. ar_claim_id r = k) (lg_authentications g))) = Inr raws"
    and "\<exists>raw\<in>set (filter (binds_all fs) raws). signature_valid e raw"
    by (auto simp: authentication_state_of_def map_sum_Inr_iff Let_def split: if_splits)
  then obtain raw where raw: "raw \<in> set raws" "binds_all fs raw" "signature_valid e raw" by auto
  have "\<exists>x\<in>set xs. f x = Inr y" if "traverse f xs = Inr ys" "y \<in> set ys" for f :: "authentication_row \<Rightarrow> json result" and y xs ys
    using that unfolding traverse_Inr by (fastforce simp: list_all2_conv_all_nth in_set_conv_nth)
  from this [OF raws raw(1)] raw(2,3) that show thesis
    by (auto simp: read_object_def read_json_def split: sum.splits option.splits if_splits)
qed

lemma authenticated_facts:
  assumes ok: "ledger_ok e g" and a: "assess e g k = Inr a" and "ca_authentication a = Authentication_AUTHENTICATED"
  shows "ca_evidence_level a = EvidenceLevel_REPLICATED \<and> ca_disposition a = ClaimDisposition_ACTIVE \<and>
    ca_display_state a = Display_AUTHENTICATED \<and>
    (\<exists>c h x y. load_claim g k = Inr (c, h) \<and> signed_for e g a h \<and> x \<noteq> y \<and>
       replication e g c (ca_eligible_evidence_ids a) x \<and> replication e g c (ca_eligible_evidence_ids a) y)"
proof (rule assess_cases [OF a])
  fix c h records
  assume c: "load_claim g k = Inr (c, h)" and r: "claim_records g k = Inr records" and k: "ca_claim_id a = k"
    and ids: "ca_eligible_evidence_ids a = map (er_evidence_id \<circ> fst) (filter (eligible_record e c) records)"
    and level: "ca_evidence_level a = evidence_level_of (map snd (filter (eligible_record e c) records))"
    and display: "ca_display_state a = display_state (ca_evidence_level a) (ca_disposition a) (ca_authentication a)"
    and "authentication_state_of e g (cs_claim_id c) (signed_fields c h (ca_evidence_level a) (ca_disposition a)
      (ca_eligible_evidence_ids a) (ca_evidence_merkle_root a)) = Inr (ca_authentication a)"
  moreover have ck: "cs_claim_id c = k" using load_claim_facts [OF c] ok by (auto simp: ledger_ok_def)
  ultimately have state: "authentication_state_of e g k (signed_fields c h (ca_evidence_level a) (ca_disposition a)
      (ca_eligible_evidence_ids a) (ca_evidence_merkle_root a)) = Inr Authentication_AUTHENTICATED"
    using assms(3) by simp
  from state obtain q raw where q: "q \<in> set (lg_authentications g)" "ar_claim_id q = k" "loads (ar_payload q) = Some raw"
    and binds: "binds_all (signed_fields c h (ca_evidence_level a) (ca_disposition a)
      (ca_eligible_evidence_ids a) (ca_evidence_merkle_root a)) raw" and valid: "signature_valid e raw"
    by (rule authenticated_by)
  from q(1) ok have "authentication_row_ok e q" by (simp add: ledger_ok_def)
  then obtain ms where ms: "distinct_keys (JObj ms)" "ar_payload q = canonical_json (JObj ms)"
    "map_of ms ''evidence_level'' = Some (JStr ''REPLICATED'')" "map_of ms ''disposition'' = Some (JStr ''ACTIVE'')"
    unfolding authentication_row_ok_def by blast
  then have raw: "raw = sort_keys (JObj ms)" using q(3) loads_canonical [OF ms(1)] by simp
  have distinct: "distinct (map fst ms)" using ms(1) by simp
  have fields: "get_field raw ''evidence_level'' = JStr ''REPLICATED''" "get_field raw ''disposition'' = JStr ''ACTIVE''"
    unfolding raw get_field_def
    by (rule signed_field [OF distinct map_of_SomeD [OF ms(3)]] signed_field [OF distinct map_of_SomeD [OF ms(4)]]; simp)+
  from binds have bound: "get_field raw ''evidence_level'' = JStr (level_value (ca_evidence_level a))"
    "get_field raw ''disposition'' = JStr (disposition_value (ca_disposition a))"
    "get_field raw ''claim_payload_sha256'' = JStr h"
    "field_or (JList []) raw ''evidence_ids'' = JStrs (ca_eligible_evidence_ids a)"
    "get_field raw ''evidence_merkle_root'' = JStr (ca_evidence_merkle_root a)"
    by (simp_all add: binds_all_def signed_fields_def get_field_def)
  from bound(1) fields(1) have l: "ca_evidence_level a = EvidenceLevel_REPLICATED"
    by (cases "ca_evidence_level a") simp_all
  from bound(2) fields(2) have d: "ca_disposition a = ClaimDisposition_ACTIVE"
    by (cases "ca_disposition a") simp_all
  have signed: "signed_for e g a h" unfolding signed_for_def k using q valid bound(3-5) by blast
  have counts: "replication e g c (ca_eligible_evidence_ids a) (str_json (get_field (snd p) ''independence_key''))"
    if "p \<in> set (filter (eligible_record e c) records)" "passing_test (snd p)"
      "str_json (get_field (snd p) ''independence_key'') \<noteq> []" for p
    unfolding replication_def ck
    using that claim_records_facts(2) [OF r] by (intro exI [of _ "fst p"] exI [of _ "snd p"]) (auto simp: ids eligible_record_def)
  have nonempty: "str_json v \<noteq> []" if "truthy_json v" for v
    using that py_str_int_first by (cases v) (auto simp: truthy_json_def, metis list.distinct(1))
  from l level obtain x y p p' where "x \<noteq> y" "p \<in> set (filter (eligible_record e c) records)"
    "p' \<in> set (filter (eligible_record e c) records)" "passing_test (snd p)" "passing_test (snd p')"
    "truthy_json (get_field (snd p) ''independence_key'')" "truthy_json (get_field (snd p') ''independence_key'')"
    "str_json (get_field (snd p) ''independence_key'') = x" "str_json (get_field (snd p') ''independence_key'') = y"
    by (metis replicated_keys)
  with counts [of p] counts [of p'] nonempty
  have "x \<noteq> y \<and> replication e g c (ca_eligible_evidence_ids a) x \<and> replication e g c (ca_eligible_evidence_ids a) y" by metis
  with c signed l d display assms(3) show ?thesis by (auto simp: display_state_def)
qed

lemma assess_events: "assess e (g\<lparr>lg_events := es\<rparr>) k = assess e g k"
proof -
  let ?g = "g\<lparr>lg_events := es\<rparr>"
  have "load_claim ?g k = load_claim g k" "claim_records ?g k = claim_records g k" "superseded_by ?g k = superseded_by g k"
    "authentication_state_of e ?g = authentication_state_of e g"
    by (simp_all add: load_claim_def claim_records_def superseded_by_def authentication_state_of_def fun_eq_iff)
  then show ?thesis by (simp only: assess_def)
qed

lemma assess_and_record_returns:
  "assess_and_record e k kind i g = Inr (a, g') \<Longrightarrow> assess e g' k = Inr a"
  by (auto simp: assess_and_record_def append_event_def map_sum_Inr_iff Let_def assess_events split: sum.splits if_splits)

lemma authenticate_returns: "authenticate e k key_id g = Inr (a, g') \<Longrightarrow> assess e g' k = Inr a"
  by (auto simp: authenticate_def unchanged_def map_sum_Inr_iff Let_def intro: assess_and_record_returns
      split: sum.splits if_splits option.splits)

text \<open>C7: Authenticated means replicated and signed: when an assessment of a claim in a ledger that
  operations produced says AUTHENTICATED, then the claim is neither superseded nor rejected, two
  passed test runs with different independence keys, whose artifacts are intact and which are bound to
  the claim's source manifest, policy and test specification, are among its eligible evidence, and a
  valid signature by a configured key covers the claim's text, these evidence ids and their root.\<close>

theorem authenticated_is_replicated:
  assumes "run_of (ledger_step (le_digest e)) empty_ledger g"
    and "assess e g k = Inr a" and "ca_authentication a = Authentication_AUTHENTICATED"
  shows "ca_evidence_level a = EvidenceLevel_REPLICATED \<and> ca_disposition a = ClaimDisposition_ACTIVE \<and>
    ca_display_state a = Display_AUTHENTICATED \<and>
    (\<exists>c h x y. load_claim g k = Inr (c, h) \<and> signed_for e g a h \<and> x \<noteq> y \<and>
       replication e g c (ca_eligible_evidence_ids a) x \<and> replication e g c (ca_eligible_evidence_ids a) y)"
  using authenticated_facts [OF reached_ok [OF assms(1)] assms(2,3)] .

theorem authenticated_is_replicated_witness:
  "\<exists>g a c x y. demo_stage [''C''] [''A'', ''B''] 1 4 g \<and> assess demo_ledger_env g ''C'' = Inr a \<and>
     ca_evidence_level a = EvidenceLevel_REPLICATED \<and> x \<noteq> y \<and>
     replication demo_ledger_env g c (ca_eligible_evidence_ids a) x \<and> replication demo_ledger_env g c (ca_eligible_evidence_ids a) y"
proof (rule demo_run)
  fix g g' a
  assume g: "demo_stage [''C''] [''A'', ''B''] 0 3 g" and a: "authenticate demo_ledger_env ''C'' ''K'' g = Inr (a, g')"
    and g': "demo_stage [''C''] [''A'', ''B''] 1 4 g'"
  have "ledger_ok demo_ledger_env g" using demo_stage_ok [OF g] by (simp add: demo_ok_def)
  then have "ca_authentication a = Authentication_AUTHENTICATED" using authenticate_signs a by blast
  moreover have "run_of (ledger_step (le_digest demo_ledger_env)) empty_ledger g'" using g' by (simp add: demo_stage_def)
  moreover have a': "assess demo_ledger_env g' ''C'' = Inr a" using authenticate_returns [OF a] .
  ultimately show ?thesis using authenticated_is_replicated [of demo_ledger_env g' "''C''" a] g' by blast
qed

text \<open>C12: What is signed is accepted: when authenticating a claim succeeds, the assessment it returns is
  the claim's assessment in the new ledger and says AUTHENTICATED, whatever the keyed hash is.\<close>

theorem signature_round_trip:
  assumes "run_of (ledger_step (le_digest e)) empty_ledger g" and "authenticate e k key_id g = Inr (a, g')"
  shows "assess e g' k = Inr a \<and> ca_authentication a = Authentication_AUTHENTICATED \<and>
    ca_display_state a = Display_AUTHENTICATED"
proof -
  note ok = reached_ok [OF assms(1)]
  have a: "assess e g' k = Inr a" using authenticate_returns [OF assms(2)] .
  moreover have "ca_authentication a = Authentication_AUTHENTICATED" using authenticate_signs [OF ok assms(2)] .
  ultimately show ?thesis using authenticated_facts [of e g' k a] authenticate_ok [OF ok assms(2)] by blast
qed

theorem signature_round_trip_witness:
  "\<exists>g a g'. demo_stage [''C''] [''A'', ''B''] 0 3 g \<and> authenticate demo_ledger_env ''C'' ''K'' g = Inr (a, g') \<and>
     assess demo_ledger_env g' ''C'' = Inr a \<and> ca_display_state a = Display_AUTHENTICATED"
proof (rule demo_run)
  fix g g' a
  assume g: "demo_stage [''C''] [''A'', ''B''] 0 3 g" and a: "authenticate demo_ledger_env ''C'' ''K'' g = Inr (a, g')"
  from g have "run_of (ledger_step (le_digest demo_ledger_env)) empty_ledger g" by (simp add: demo_stage_def)
  from signature_round_trip [OF this a] g a show ?thesis by blast
qed

end
