(* ===== verification/Promotion.thy ===== *)
theory Promotion
  imports Store Canonical_Json
begin

text \<open>
  Promotion of repairs (\<open>src/rlmgraph/promotion.py\<close>): a sandbox-verified repair is written into the
  selected project after a durable human decision, tested there, and rolled back when the test does
  not pass. The project is a tree of regular files at resolved paths (content and permission bits);
  links inside it are not modelled. What the operating system does (a write that fails, a test that
  runs and may itself change files) and the reconciliation of the graph after a verified promotion
  are arguments; the clock is read once per operation.
\<close>

section \<open>Records\<close>

datatype repair_status = RepairStatus_PROPOSED | RepairStatus_VERIFIED | RepairStatus_REJECTED
datatype approval_decision = ApprovalDecision_APPROVED | ApprovalDecision_REJECTED
datatype promotion_status =
    PromotionStatus_APPROVED | PromotionStatus_APPLYING | PromotionStatus_APPLIED
  | PromotionStatus_VERIFIED | PromotionStatus_ROLLED_BACK | PromotionStatus_APPLICATION_FAILED

record repair_proposal =
  rp_id :: string
  rp_repair_task_id :: string
  rp_diagnosis_claim_id :: string
  rp_project_root :: string
  rp_project_fingerprint :: string
  rp_source_tree_fingerprint :: string
  rp_test_path :: string
  rp_authorized_paths :: "string list"
  rp_supporting_claim_ids :: "string list"
  rp_changes :: "patch_change list"
  rp_rationale :: string
  rp_confidence :: rat
  rp_worker :: string
  rp_model_calls :: int
  rp_signature :: string
  rp_status :: repair_status
  rp_created_at :: py_time

record repair_validation =
  rv_id :: string
  rv_repair_task_id :: string
  rv_proposal_id :: string
  rv_attempt :: int
  rv_status :: repair_status
  rv_before :: test_execution
  rv_after :: test_execution
  rv_original_unchanged :: bool
  rv_failure_reason :: "string option"
  rv_created_at :: py_time

record repair_approval =
  ra_id :: string
  ra_proposal_id :: string
  ra_validation_id :: string
  ra_project_root :: string
  ra_proposal_signature :: string
  ra_source_tree_fingerprint :: string
  ra_decision :: approval_decision
  ra_approved_by :: string
  ra_reason :: string
  ra_created_at :: py_time

record promotion_event =
  pme_status :: promotion_status
  pme_detail :: string
  pme_occurred_at :: py_time

record repair_promotion =
  prm_id :: string
  prm_proposal_id :: string
  prm_validation_id :: string
  prm_approval_id :: string
  prm_project_root :: string
  prm_status :: promotion_status
  prm_changes :: "patch_change list"
  prm_original_tree_fingerprint :: string
  prm_applied_tree_fingerprint :: "string option"
  prm_final_validation :: "test_execution option"
  prm_rollback_tree_fingerprint :: "string option"
  prm_rollback_validation :: "test_execution option"
  prm_rollback_verified :: "bool option"
  prm_failure_reason :: "string option"
  prm_events :: "promotion_event list"
  prm_created_at :: py_time
  prm_completed_at :: "py_time option"

text \<open>\<open>PromotionRunResult\<close>\<close>

type_synonym promotion_run_result = "repair_approval \<times> repair_promotion option"

section \<open>The project's files\<close>

type_synonym file_data = "string \<times> nat"
type_synonym tree = "file_data py_dict"

definition ignored_directories :: "string list" where
  "ignored_directories = [''.git'', ''.venv'', ''.rlmgraph'', ''.pytest_cache'', ''.ruff_cache'', ''.mypy_cache'',
     ''.next'', ''.wrangler'', ''__pycache__'', ''dist'', ''build'', ''node_modules'', ''binaries'', ''content'',
     ''deriveddatacache'', ''intermediate'', ''saved'']"

text \<open>\<open>path.relative_to(root)\<close>, by components.\<close>

definition relative_parts :: "string \<Rightarrow> string \<Rightarrow> string list" where
  "relative_parts base p = drop (length (path_parts base)) (path_parts p)"

text \<open>The order of \<open>os.walk\<close> with sorted names: the files of a directory before those of its
  subdirectories.\<close>

definition walk_key :: "string list \<Rightarrow> string list" where
  "walk_key ps = map (\<lambda>d. CHR ''1'' # d) (butlast ps) @ [CHR ''0'' # last ps]"

definition walked :: "string \<Rightarrow> string \<Rightarrow> bool" where
  "walked base p \<longleftrightarrow> path_inside base p \<and> relative_parts base p \<noteq> [] \<and>
     (\<forall>d\<in>set (butlast (relative_parts base p)). d \<notin> set ignored_directories)"

record promotion_env =
  pe_resolve :: "string \<Rightarrow> string"
  pe_is_dir :: "string \<Rightarrow> bool"
  pe_sha :: "string \<Rightarrow> string"
  pe_python :: string
  pe_reconcile :: "repair_promotion \<Rightarrow> tree \<Rightarrow> unit result"

definition tree_records :: "promotion_env \<Rightarrow> string \<Rightarrow> tree \<Rightarrow> (string \<times> string) list" where
  "tree_records e base t =
     map (\<lambda>f. (py_join ''/'' (relative_parts base (fst f)), pe_sha e (fst (snd f))))
       (sort_key (\<lambda>f. walk_key (relative_parts base (fst f))) (filter (\<lambda>f. walked base (fst f)) t))"

definition tree_fingerprint :: "promotion_env \<Rightarrow> string \<Rightarrow> tree \<Rightarrow> string" where
  "tree_fingerprint e base t = pe_sha e (spaced_json (JList (map (\<lambda>r. JStrs [fst r, snd r]) (tree_records e base t))))"

text \<open>\<open>Path.resolve(strict=True)\<close>\<close>

definition resolve_strict :: "promotion_env \<Rightarrow> tree \<Rightarrow> string \<Rightarrow> string result" where
  "resolve_strict e t p =
     (let q = pe_resolve e p in
      if dict_get q t \<noteq> None \<or> pe_is_dir e q then Inr q else Inl (FileNotFoundError p))"

text \<open>\<open>ProjectSelection.explicit\<close>\<close>

definition explicit_selection :: "promotion_env \<Rightarrow> tree \<Rightarrow> string \<Rightarrow> string result" where
  "explicit_selection e t base =
     (case resolve_strict e t base of
        Inl x \<Rightarrow> Inl x
      | Inr q \<Rightarrow> if pe_is_dir e q then Inr q
          else Inl (ProjectSelectionError (''Selected project root is not a directory: '' @ q)))"

section \<open>Writing files\<close>

text \<open>A sequence of atomic replacements that the operating system may cut short: the number of files
  replaced before the error, a temporary file that is left behind, and the error. A fault after the
  last replacement is a failure to read the files back.\<close>

record io_fault =
  iof_replaced :: nat
  iof_stray :: "(string \<times> file_data) option"
  iof_error :: string

definition write_all :: "(string \<times> file_data) list \<Rightarrow> tree \<Rightarrow> tree" where
  "write_all ws t = fold (\<lambda>(p, d). dict_set p d) ws t"

definition leave_stray :: "io_fault \<Rightarrow> tree \<Rightarrow> tree" where
  "leave_stray f t = (case iof_stray f of None \<Rightarrow> t | Some (p, d) \<Rightarrow> dict_set p d t)"

text \<open>\<open>_replace_all\<close> stages every file before it replaces the first; staged files are removed at the
  end, but not the one whose staging fails.\<close>

definition replace_all :: "io_fault option \<Rightarrow> (string \<times> file_data) list \<Rightarrow> tree \<Rightarrow> string option \<times> tree" where
  "replace_all fault ws t =
     (case fault of
        None \<Rightarrow> (None, write_all ws t)
      | Some f \<Rightarrow> (Some (iof_error f),
          leave_stray f (write_all (if iof_stray f = None then take (iof_replaced f) ws else []) t)))"

text \<open>\<open>_restore_all\<close> stages and replaces one file after the other.\<close>

definition restore_all :: "io_fault option \<Rightarrow> (string \<times> file_data) list \<Rightarrow> tree \<Rightarrow> string option \<times> tree" where
  "restore_all fault ws t =
     (case fault of
        None \<Rightarrow> (None, write_all ws t)
      | Some f \<Rightarrow> (Some (iof_error f), leave_stray f (write_all (take (iof_replaced f) ws) t)))"

section \<open>Running the test\<close>

datatype process_outcome = Completed int string string | Timed_out string string

definition test_command :: "promotion_env \<Rightarrow> string \<Rightarrow> string list" where
  "test_command e test_path = [pe_python e, ''-m'', ''pytest'', test_path, ''-q'', ''-p'', ''no:cacheprovider'']"

definition last_chars :: "nat \<Rightarrow> string \<Rightarrow> string" where
  "last_chars n s = drop (length s - n) s"

type_synonym test_run = "string list \<Rightarrow> tree \<Rightarrow> process_outcome \<times> rat \<times> tree"

definition execute :: "test_run \<Rightarrow> string list \<Rightarrow> tree \<Rightarrow> test_execution \<times> tree" where
  "execute run command t =
     (case run command t of
        (Completed code out err, ms, t') \<Rightarrow>
          (\<lparr>tx_command = command, tx_exit_code = code, tx_stdout = last_chars 20000 out,
            tx_stderr = last_chars 20000 err, tx_duration_ms = ms\<rparr>, t')
      | (Timed_out out err, ms, t') \<Rightarrow>
          (\<lparr>tx_command = command, tx_exit_code = 124, tx_stdout = last_chars 20000 out,
            tx_stderr = last_chars 20000 err, tx_duration_ms = ms\<rparr>, t'))"

section \<open>The tables\<close>

record repair_world =
  rw_projects :: "project_record list"
  rw_proposals :: "repair_proposal list"
  rw_validations :: "repair_validation list"
  rw_approvals :: "repair_approval list"
  rw_promotions :: "repair_promotion list"
  rw_edges :: "graph_edge list"
  rw_tree :: tree

text \<open>\<open>INSERT ... ON CONFLICT(id) DO UPDATE\<close> keeps the row where it is.\<close>

definition insert_or_update :: "('r \<Rightarrow> 'k) \<Rightarrow> 'r \<Rightarrow> 'r list \<Rightarrow> 'r list" where
  "insert_or_update key r rows =
     (if key r \<in> key ` set rows then update_row key r rows else rows @ [r])"

definition add_edge :: "string \<Rightarrow> string \<Rightarrow> string \<Rightarrow> repair_world \<Rightarrow> repair_world" where
  "add_edge source relation target w =
     w\<lparr>rw_edges := insert_ignore (\<lambda>x. x) \<lparr>ge_source = source, ge_relation = relation, ge_target = target\<rparr> (rw_edges w)\<rparr>"

definition store_repair_approval :: "repair_approval \<Rightarrow> repair_world \<Rightarrow> repair_world" where
  "store_repair_approval a w =
     (let w' = add_edge (ra_proposal_id a) ''HAS_APPROVAL'' (ra_id a)
                 (w\<lparr>rw_approvals := insert_or_update ra_id a (rw_approvals w)\<rparr>)
      in if ra_decision a = ApprovalDecision_APPROVED then add_edge (ra_id a) ''APPROVES_REPAIR'' (ra_proposal_id a) w' else w')"

definition store_repair_promotion :: "repair_promotion \<Rightarrow> repair_world \<Rightarrow> repair_world" where
  "store_repair_promotion p w =
     (let w1 = add_edge (prm_approval_id p) ''APPLIED_REPAIR'' (prm_id p)
                 (add_edge (prm_proposal_id p) ''HAS_PROMOTION_RUN'' (prm_id p)
                   (w\<lparr>rw_promotions := insert_or_update prm_id p (rw_promotions w)\<rparr>));
          w2 = (if prm_status p = PromotionStatus_VERIFIED
                then add_edge (prm_id p) ''FINAL_VALIDATED_BY'' (prm_validation_id p) w1 else w1)
      in if prm_status p = PromotionStatus_ROLLED_BACK
         then add_edge (prm_id p) ''ROLLED_BACK_REPAIR'' (prm_proposal_id p) w2 else w2)"

text \<open>Both tables have a unique index on the proposal: \<open>ON CONFLICT(id)\<close> does not cover it, so a row
  with another identifier for the same proposal is refused and the transaction leaves nothing behind.\<close>

definition save_repair_approval :: "repair_approval \<Rightarrow> repair_world \<Rightarrow> (repair_world, unit) effect" where
  "save_repair_approval a w =
     (if \<exists>x\<in>set (rw_approvals w). ra_id x \<noteq> ra_id a \<and> ra_proposal_id x = ra_proposal_id a
      then (Inl (IntegrityError ''UNIQUE constraint failed: repair_approvals.proposal_id''), w)
      else (Inr (), store_repair_approval a w))"

definition save_repair_promotion :: "repair_promotion \<Rightarrow> repair_world \<Rightarrow> (repair_world, unit) effect" where
  "save_repair_promotion p w =
     (if \<exists>x\<in>set (rw_promotions w). prm_id x \<noteq> prm_id p \<and> prm_proposal_id x = prm_proposal_id p
      then (Inl (IntegrityError ''UNIQUE constraint failed: repair_promotions.proposal_id''), w)
      else (Inr (), store_repair_promotion p w))"

definition repair_promotions :: "repair_world \<Rightarrow> string \<Rightarrow> repair_promotion list" where
  "repair_promotions w proposal_id = filter (\<lambda>p. prm_proposal_id p = proposal_id) (rw_promotions w)"

section \<open>Preconditions\<close>

definition review :: "repair_world \<Rightarrow> string \<Rightarrow> (repair_proposal \<times> repair_validation) result" where
  "review w proposal_id =
     (case find (\<lambda>p. rp_id p = proposal_id) (rw_proposals w) of
        None \<Rightarrow> Inl (ValueError (''Repair proposal not found: '' @ proposal_id))
      | Some p \<Rightarrow>
          (case find (\<lambda>v. rv_proposal_id v = rp_id p \<and> rv_status v = RepairStatus_VERIFIED) (rev (rw_validations w)) of
             None \<Rightarrow> Inl (ValueError ''Only a sandbox-verified repair can be promoted.'')
           | Some v \<Rightarrow>
               if rp_status p \<noteq> RepairStatus_VERIFIED
               then Inl (ValueError ''Only a sandbox-verified repair can be promoted.'') else Inr (p, v)))"

definition onboarded :: "promotion_env \<Rightarrow> repair_world \<Rightarrow> string \<Rightarrow> bool" where
  "onboarded e w base \<longleftrightarrow> (\<exists>p\<in>set (rw_projects w). pe_resolve e (pr_root p) = base \<and> pr_explicitly_selected p)"

definition validated_path :: "promotion_env \<Rightarrow> tree \<Rightarrow> string \<Rightarrow> string list \<Rightarrow> patch_change \<Rightarrow> string result" where
  "validated_path e t base authorized c =
     (if pc_path c \<notin> set authorized then Inl (ReadOnlyViolation (''Patch path is not authorized: '' @ pc_path c))
      else if is_absolute (pc_path c) then Inl (ReadOnlyViolation (''Absolute patch path is forbidden: '' @ pc_path c))
      else case resolve_strict e t (join_path base (pc_path c)) of
        Inl x \<Rightarrow> Inl x
      | Inr target \<Rightarrow>
          if \<not> path_inside base target then Inl (ReadOnlyViolation (''Patch path escapes the selected project: '' @ pc_path c))
          else if dict_get target t = None then Inl (ReadOnlyViolation (''Patch target is not a regular file: '' @ pc_path c))
          else Inr target)"

definition validated_paths :: "promotion_env \<Rightarrow> tree \<Rightarrow> string \<Rightarrow> repair_proposal \<Rightarrow> string list result" where
  "validated_paths e t base p = traverse (validated_path e t base (rp_authorized_paths p)) (rp_changes p)"

definition file_of :: "tree \<Rightarrow> string \<Rightarrow> file_data" where
  "file_of t p = (case dict_get p t of None \<Rightarrow> ([], 0) | Some d \<Rightarrow> d)"

definition content_hash :: "promotion_env \<Rightarrow> tree \<Rightarrow> string \<Rightarrow> string" where
  "content_hash e t p = pe_sha e (fst (file_of t p))"

text \<open>The first change whose target does not have the hash it should have.\<close>

definition hash_mismatch ::
  "promotion_env \<Rightarrow> (patch_change \<Rightarrow> string) \<Rightarrow> tree \<Rightarrow> (patch_change \<times> string) list \<Rightarrow> patch_change option" where
  "hash_mismatch e expected t targets =
     map_option fst (find (\<lambda>(c, target). content_hash e t target \<noteq> expected c) targets)"

section \<open>Promoting\<close>

text \<open>What one run of a promotion gets from outside: the identifier it draws, the faults of its writes, its
  two test runs and the time.\<close>

record promotion_run =
  run_id :: string
  run_apply_fault :: "io_fault option"
  run_restore_fault :: "io_fault option"
  run_test :: test_run
  run_rollback_test :: test_run
  run_now :: py_time

definition with_event :: "repair_promotion \<Rightarrow> promotion_status \<Rightarrow> string \<Rightarrow> py_time \<Rightarrow> repair_promotion" where
  "with_event p status detail now =
     p\<lparr>prm_status := status,
       prm_events := prm_events p @ [\<lparr>pme_status = status, pme_detail = detail, pme_occurred_at = now\<rparr>]\<rparr>"

text \<open>The checks before anything is written.\<close>

definition promotion_targets :: "promotion_env \<Rightarrow> string \<Rightarrow> repair_proposal \<Rightarrow> tree \<Rightarrow> string list result" where
  "promotion_targets e base p t =
     (if rp_source_tree_fingerprint p = [] then
        Inl (ValueError ''Proposal predates promotion-safe source binding; revalidate it.'')
      else if rp_changes p = [] \<or> (\<exists>c\<in>set (rp_changes p). pc_after_content c = None) then
        Inl (ValueError ''Proposal does not contain the exact verified patch content.'')
      else if tree_fingerprint e base t \<noteq> rp_source_tree_fingerprint p then
        Inl (ReadOnlyViolation ''The selected project changed after sandbox validation; revalidate the repair.'')
      else case validated_paths e t base p of
        Inl x \<Rightarrow> Inl x
      | Inr paths \<Rightarrow>
          (case hash_mismatch e pc_before_hash t (zip (rp_changes p) paths) of
             Some c \<Rightarrow> Inl (ReadOnlyViolation (''Source precondition failed for '' @ pc_path c @ ''.''))
           | None \<Rightarrow> Inr paths))"

definition new_promotion ::
  "promotion_env \<Rightarrow> promotion_run \<Rightarrow> string \<Rightarrow> repair_proposal \<Rightarrow> repair_validation \<Rightarrow> repair_approval \<Rightarrow> tree \<Rightarrow> repair_promotion" where
  "new_promotion e run base p v a t =
     \<lparr>prm_id = run_id run, prm_proposal_id = rp_id p, prm_validation_id = rv_id v, prm_approval_id = ra_id a,
      prm_project_root = base, prm_status = PromotionStatus_APPROVED, prm_changes = rp_changes p,
      prm_original_tree_fingerprint = tree_fingerprint e base t, prm_applied_tree_fingerprint = None,
      prm_final_validation = None, prm_rollback_tree_fingerprint = None, prm_rollback_validation = None,
      prm_rollback_verified = None, prm_failure_reason = None,
      prm_events = [\<lparr>pme_status = PromotionStatus_APPROVED, pme_detail = ''Human approval recorded.'',
        pme_occurred_at = run_now run\<rparr>],
      prm_created_at = run_now run, prm_completed_at = None\<rparr>"

text \<open>The bytes to write, with the permission bits the targets have, and the bytes to put back.\<close>

definition patch_writes :: "repair_proposal \<Rightarrow> string list \<Rightarrow> tree \<Rightarrow> (string \<times> file_data) list" where
  "patch_writes p paths t =
     map (\<lambda>(c, target). (target, (case pc_after_content c of None \<Rightarrow> [] | Some s \<Rightarrow> s), snd (file_of t target)))
       (zip (rp_changes p) paths)"

definition original_writes :: "string list \<Rightarrow> tree \<Rightarrow> (string \<times> file_data) list" where
  "original_writes paths t = map (\<lambda>target. (target, file_of t target)) (dict_fromkeys paths)"

definition os_error_text :: "py_error \<Rightarrow> string option" where
  "os_error_text x = (case x of OSError m \<Rightarrow> Some m | FileNotFoundError m \<Rightarrow> Some m | _ \<Rightarrow> None)"

datatype apply_outcome = Apply_verified | Apply_failed string | Apply_raised py_error

text \<open>After the bytes are in place: the final test, and the reconciliation of a verified promotion. The
  saves below update the row that \<open>promote\<close> has just inserted, so the unique index cannot refuse
  them (lemma \<open>later_saves_succeed\<close> of \<open>Promotion_Safety\<close>).\<close>

definition check_applied ::
  "promotion_env \<Rightarrow> promotion_run \<Rightarrow> string \<Rightarrow> string \<Rightarrow> repair_promotion \<Rightarrow> repair_world \<Rightarrow>
     apply_outcome \<times> repair_promotion \<times> repair_world" where
  "check_applied e run base test_path p w =
     (let applied = tree_fingerprint e base (rw_tree w);
          p2 = with_event (p\<lparr>prm_applied_tree_fingerprint := Some applied\<rparr>) PromotionStatus_APPLIED
                 ''Verified sandbox bytes applied to every authorized target.'' (run_now run);
          w2 = store_repair_promotion p2 w;
          (ex, t) = execute (run_test run) (test_command e test_path) (rw_tree w);
          p3 = p2\<lparr>prm_final_validation := Some ex\<rparr>; w3 = w2\<lparr>rw_tree := t\<rparr>;
          stable = (tree_fingerprint e base t = applied)
      in if tx_exit_code ex = 0 \<and> stable then
           let p4 = with_event (p3\<lparr>prm_completed_at := Some (run_now run)\<rparr>) PromotionStatus_VERIFIED
                      ''Affected test passed in the explicitly selected project.'' (run_now run);
               w4 = store_repair_promotion p4 w3
           in (case pe_reconcile e p4 t of
                 Inr _ \<Rightarrow> (Apply_verified, p4, w4)
               | Inl x \<Rightarrow>
                   (case os_error_text x of
                      Some m \<Rightarrow> (Apply_failed (''application failed: '' @ m), p4, w4)
                    | None \<Rightarrow> (Apply_raised x, p4, w4)))
         else (Apply_failed (py_join ''; ''
                 ((if tx_exit_code ex \<noteq> 0 then [''real-project test exited '' @ py_str_int (tx_exit_code ex)] else []) @
                  (if \<not> stable then [''real-project test changed project contents''] else []))), p3, w3))"

definition apply_changes ::
  "promotion_env \<Rightarrow> promotion_run \<Rightarrow> string \<Rightarrow> repair_proposal \<Rightarrow> string list \<Rightarrow> repair_promotion \<Rightarrow> repair_world \<Rightarrow>
     apply_outcome \<times> repair_promotion \<times> repair_world" where
  "apply_changes e run base proposal paths p w =
     (let p1 = with_event p PromotionStatus_APPLYING
                 ''All source hashes matched; atomically replacing authorized files.'' (run_now run);
          w1 = store_repair_promotion p1 w;
          (err, t1) = replace_all (run_apply_fault run) (patch_writes proposal paths (rw_tree w)) (rw_tree w);
          w2 = w1\<lparr>rw_tree := t1\<rparr>
      in case err of
           Some m \<Rightarrow> (Apply_failed (''application failed: '' @ m), p1, w2)
         | None \<Rightarrow>
             (case hash_mismatch e pc_after_hash t1 (zip (rp_changes proposal) paths) of
                Some c \<Rightarrow> (Apply_failed (''application failed: Applied content hash mismatch for '' @ pc_path c @ ''.''), p1, w2)
              | None \<Rightarrow> check_applied e run base (rp_test_path proposal) p1 w2))"

definition roll_back ::
  "promotion_env \<Rightarrow> promotion_run \<Rightarrow> string \<Rightarrow> string \<Rightarrow> (string \<times> file_data) list \<Rightarrow> string \<Rightarrow>
     repair_promotion \<Rightarrow> repair_world \<Rightarrow> repair_promotion \<times> repair_world" where
  "roll_back e run base test_path originals reason p w =
     (let (err, t1) = restore_all (run_restore_fault run) originals (rw_tree w);
          restored = tree_fingerprint e base t1;
          verified = (err = None \<and> restored = prm_original_tree_fingerprint p);
          (ex, t2) = execute (run_rollback_test run) (test_command e test_path) t1;
          p' = with_event
                 (p\<lparr>prm_failure_reason := Some (case err of None \<Rightarrow> reason | Some m \<Rightarrow> reason @ ''; rollback failed: '' @ m),
                    prm_rollback_tree_fingerprint := Some restored, prm_rollback_verified := Some verified,
                    prm_rollback_validation := Some ex, prm_completed_at := Some (run_now run)\<rparr>)
                 (if verified then PromotionStatus_ROLLED_BACK else PromotionStatus_APPLICATION_FAILED)
                 (if verified then ''Original project bytes restored after failed final validation.''
                  else ''Automatic rollback could not restore the original tree fingerprint.'')
                 (run_now run)
      in (p', store_repair_promotion p' (w\<lparr>rw_tree := t2\<rparr>)))"

definition promote ::
  "promotion_env \<Rightarrow> promotion_run \<Rightarrow> string \<Rightarrow> repair_proposal \<Rightarrow> repair_validation \<Rightarrow> repair_approval \<Rightarrow> repair_world \<Rightarrow>
     (repair_world, repair_promotion) effect" where
  "promote e run base proposal v a w =
     (case promotion_targets e base proposal (rw_tree w) of
        Inl x \<Rightarrow> (Inl x, w)
      | Inr paths \<Rightarrow>
          let p = new_promotion e run base proposal v a (rw_tree w) in
          (case save_repair_promotion p w of
             (Inl x, w') \<Rightarrow> (Inl x, w')
           | (Inr _, w1) \<Rightarrow>
               (case apply_changes e run base proposal paths p w1 of
                  (Apply_verified, p', w') \<Rightarrow> (Inr p', w')
                | (Apply_raised x, p', w') \<Rightarrow> (Inl x, w')
                | (Apply_failed reason, p', w') \<Rightarrow>
                    (let (p'', w'') = roll_back e run base (rp_test_path proposal) (original_writes paths (rw_tree w)) reason p' w'
                     in (Inr p'', w'')))))"

section \<open>Decisions\<close>

record promotion_decision =
  pd_proposal_id :: string
  pd_project_root :: string
  pd_decision :: approval_decision
  pd_approved_by :: string
  pd_reason :: string
  pd_approval_id :: string
  pd_refused_id :: string

definition new_approval :: "promotion_decision \<Rightarrow> string \<Rightarrow> repair_proposal \<Rightarrow> repair_validation \<Rightarrow> py_time \<Rightarrow> repair_approval" where
  "new_approval d base p v now =
     \<lparr>ra_id = pd_approval_id d, ra_proposal_id = rp_id p, ra_validation_id = rv_id v, ra_project_root = base,
      ra_proposal_signature = rp_signature p, ra_source_tree_fingerprint = rp_source_tree_fingerprint p,
      ra_decision = pd_decision d, ra_approved_by = py_strip (pd_approved_by d), ra_reason = py_strip (pd_reason d),
      ra_created_at = now\<rparr>"

text \<open>The exceptions \<open>decide\<close> takes for a refusal (\<open>except (ValueError, ReadOnlyViolation)\<close>), with their text.\<close>

definition refusal_text :: "py_error \<Rightarrow> string option" where
  "refusal_text x =
     (case x of ValueError m \<Rightarrow> Some m | ProjectSelectionError m \<Rightarrow> Some m | ReadOnlyViolation m \<Rightarrow> Some m | _ \<Rightarrow> None)"

definition refused_promotion ::
  "promotion_env \<Rightarrow> promotion_run \<Rightarrow> promotion_decision \<Rightarrow> string \<Rightarrow> repair_proposal \<Rightarrow> repair_validation \<Rightarrow>
     repair_approval \<Rightarrow> string \<Rightarrow> tree \<Rightarrow> repair_promotion" where
  "refused_promotion e run d base p v a m t =
     (let q = new_promotion e run base p v a t in
      with_event (q\<lparr>prm_id := pd_refused_id d, prm_failure_reason := Some (''promotion precondition failed: '' @ m),
                    prm_completed_at := Some (run_now run)\<rparr>)
        PromotionStatus_APPLICATION_FAILED (''Promotion refused before source writes: '' @ m) (run_now run))"

definition decide ::
  "promotion_env \<Rightarrow> promotion_run \<Rightarrow> promotion_decision \<Rightarrow> repair_world \<Rightarrow> (repair_world, promotion_run_result) effect" where
  "decide e run d w =
     (case review w (pd_proposal_id d) of
        Inl x \<Rightarrow> (Inl x, w)
      | Inr (p, v) \<Rightarrow>
          (case explicit_selection e (rw_tree w) (pd_project_root d) of
             Inl x \<Rightarrow> (Inl x, w)
           | Inr base \<Rightarrow>
               if base \<noteq> pe_resolve e (rp_project_root p) then
                 (Inl (ReadOnlyViolation ''The explicitly selected project does not match the repair proposal.''), w)
               else if blank (pd_approved_by d) \<or> blank (pd_reason d) then
                 (Inl (ValueError ''A human identity and decision reason are required.''), w)
               else if \<not> onboarded e w base then
                 (Inl (ReadOnlyViolation ''Promotion requires an explicitly selected, onboarded project record.''), w)
               else
                 let a = new_approval d base p v (run_now run) in
                 (case save_repair_approval a w of
                    (Inl x, w1) \<Rightarrow> (Inl x, w1)
                  | (Inr _, w1) \<Rightarrow>
                      if pd_decision d = ApprovalDecision_REJECTED then (Inr (a, None), w1)
                      else
                        (case promote e run base p v a w1 of
                           (Inr q, w2) \<Rightarrow> (Inr (a, Some q), w2)
                         | (Inl x, w2) \<Rightarrow>
                             (case refusal_text x of
                                None \<Rightarrow> (Inl x, w2)
                              | Some m \<Rightarrow>
                                  (case save_repair_promotion (refused_promotion e run d base p v a m (rw_tree w2)) w2 of
                                     (Inl y, w3) \<Rightarrow> (Inl y, w3)
                                   | (Inr _, w3) \<Rightarrow> (Inl x, w3)))))))"

section \<open>Resuming\<close>

definition recover_promotion ::
  "promotion_env \<Rightarrow> promotion_run \<Rightarrow> string \<Rightarrow> repair_proposal \<Rightarrow> repair_promotion \<Rightarrow> repair_world \<Rightarrow>
     (repair_world, repair_promotion) effect" where
  "recover_promotion e run base proposal p w =
     (if \<exists>c\<in>set (rp_changes proposal). pc_before_content c = None then
        let q = with_event (p\<lparr>prm_failure_reason := Some ''Interrupted promotion lacks recoverable original bytes.'',
                  prm_completed_at := Some (run_now run)\<rparr>) PromotionStatus_APPLICATION_FAILED
                  ''Interrupted promotion lacks recoverable original bytes.'' (run_now run)
        in (case save_repair_promotion q w of (Inl x, w') \<Rightarrow> (Inl x, w') | (Inr _, w') \<Rightarrow> (Inr q, w'))
      else case validated_paths e (rw_tree w) base proposal of
        Inl x \<Rightarrow> (Inl x, w)
      | Inr paths \<Rightarrow>
          let originals = dict_of_pairs (map (\<lambda>(c, target).
                (target, (case pc_before_content c of None \<Rightarrow> [] | Some s \<Rightarrow> s), snd (file_of (rw_tree w) target)))
                (zip (rp_changes proposal) paths));
              (err, t1) = restore_all (run_restore_fault run) originals (rw_tree w);
              restored = tree_fingerprint e base t1;
              verified = (err = None \<and> restored = prm_original_tree_fingerprint p);
              (ex, t2) = execute (run_rollback_test run) (test_command e (rp_test_path proposal)) t1;
              reason = (if verified then ''Interrupted promotion was automatically rolled back during resume.''
                        else ''Interrupted promotion rollback failed: '' @ (case err of None \<Rightarrow> ''None'' | Some m \<Rightarrow> m));
              q = with_event (p\<lparr>prm_rollback_tree_fingerprint := Some restored, prm_rollback_verified := Some verified,
                    prm_rollback_validation := Some ex, prm_failure_reason := Some reason,
                    prm_completed_at := Some (run_now run)\<rparr>)
                  (if verified then PromotionStatus_ROLLED_BACK else PromotionStatus_APPLICATION_FAILED) reason (run_now run)
          in (case save_repair_promotion q (w\<lparr>rw_tree := t2\<rparr>) of
                (Inl x, w') \<Rightarrow> (Inl x, w') | (Inr _, w') \<Rightarrow> (Inr q, w')))"

definition resume_approval ::
  "promotion_env \<Rightarrow> promotion_run \<Rightarrow> string \<Rightarrow> repair_world \<Rightarrow> (repair_world, promotion_run_result) effect" where
  "resume_approval e run approval_id w =
     (case find (\<lambda>a. ra_id a = approval_id) (rw_approvals w) of
        None \<Rightarrow> (Inl (ValueError (''Repair approval not found: '' @ approval_id)), w)
      | Some a \<Rightarrow>
          if ra_decision a = ApprovalDecision_REJECTED then (Inr (a, None), w)
          else case review w (ra_proposal_id a) of
            Inl x \<Rightarrow> (Inl x, w)
          | Inr (p, v) \<Rightarrow>
              (case explicit_selection e (rw_tree w) (ra_project_root a) of
                 Inl x \<Rightarrow> (Inl x, w)
               | Inr base \<Rightarrow>
                   (case find (\<lambda>q. prm_approval_id q = ra_id a) (rev (repair_promotions w (rp_id p))) of
                      None \<Rightarrow>
                        (case promote e run base p v a w of
                           (Inl x, w') \<Rightarrow> (Inl x, w') | (Inr q, w') \<Rightarrow> (Inr (a, Some q), w'))
                    | Some q \<Rightarrow>
                        if prm_status q = PromotionStatus_VERIFIED then
                          (case pe_reconcile e q (rw_tree w) of Inl x \<Rightarrow> (Inl x, w) | Inr _ \<Rightarrow> (Inr (a, Some q), w))
                        else if prm_status q = PromotionStatus_ROLLED_BACK \<or> prm_status q = PromotionStatus_APPLICATION_FAILED then
                          (Inr (a, Some q), w)
                        else
                          (case recover_promotion e run base p q w of
                             (Inl x, w') \<Rightarrow> (Inl x, w') | (Inr q', w') \<Rightarrow> (Inr (a, Some q'), w')))))"

end
