(* ===== verification/Promotion_Safety.thy ===== *)
theory Promotion_Safety
  imports Promotion "HOL-Library.Multiset"
begin

text \<open>
  What a promotion does to the project: it writes only the approved bytes to the approved files, it ends
  with all of them in place or with none, and an interrupted promotion is undone when it is resumed.
\<close>

section \<open>Trees as finite maps\<close>

lemma write_all_simps [simp]:
  "write_all [] t = t" "write_all ((p, d) # ws) t = write_all ws (dict_set p d t)"
  by (simp_all add: write_all_def)

lemma dict_get_write_all: "dict_get k (write_all ws t) = (case map_of (rev ws) k of None \<Rightarrow> dict_get k t | Some d \<Rightarrow> Some d)"
  by (induction ws arbitrary: t) (auto simp: map_add_def split: option.split)

lemma dict_get_write_other: "k \<notin> fst ` set ws \<Longrightarrow> dict_get k (write_all ws t) = dict_get k t"
  by (induction ws arbitrary: t) auto

lemma distinct_write_all: "distinct (map fst t) \<Longrightarrow> distinct (map fst (write_all ws t))"
  by (induction ws arbitrary: t) (simp_all add: distinct_dict_set split_paired_all)

text \<open>Putting back what was there undoes any writes to the same files.\<close>

lemma dict_get_restored:
  assumes "\<And>k. k \<notin> set ps \<Longrightarrow> dict_get k t' = dict_get k t" and "\<forall>p\<in>set ps. dict_get p t \<noteq> None"
  shows "dict_get k (write_all (map (\<lambda>p. (p, file_of t p)) ps) t') = dict_get k t"
proof (cases "k \<in> set ps")
  case True
  have "map_of (rev (map (\<lambda>p. (p, file_of t p)) ps)) k = Some (file_of t k)"
    using True by (simp add: rev_map map_of_map_restrict)
  then show ?thesis using True assms(2) by (auto simp: dict_get_write_all file_of_def)
next
  case False
  then have "k \<notin> fst ` set (map (\<lambda>p. (p, file_of t p)) ps)" by auto
  then show ?thesis using assms(1) [OF False] by (simp add: dict_get_write_other)
qed

text \<open>Files of the project have different relative paths.\<close>

definition tree_ok :: "string \<Rightarrow> tree \<Rightarrow> bool" where
  "tree_ok base t \<longleftrightarrow> distinct (map fst t) \<and> inj_on (relative_parts base) {p \<in> fst ` set t. walked base p}"

lemma walk_key_inj: "ps \<noteq> [] \<Longrightarrow> qs \<noteq> [] \<Longrightarrow> walk_key ps = walk_key qs \<Longrightarrow> ps = qs"
proof -
  assume ne: "ps \<noteq> []" "qs \<noteq> []" and eq: "walk_key ps = walk_key qs"
  have "inj ((#) (CHR ''1''))" by (simp add: inj_def)
  then have "butlast ps = butlast qs" "last ps = last qs" using eq by (auto simp: walk_key_def inj_map_eq_map)
  then show "ps = qs" using ne by (metis append_butlast_last_id)
qed

lemma dict_set_mem: "distinct (map fst t) \<Longrightarrow> (p, d) \<in> set t \<longleftrightarrow> dict_get p t = Some d"
  by (simp add: dict_get_def)

lemma tree_records_cong:
  assumes "tree_ok base t" and "distinct (map fst t')" and "\<And>k. dict_get k t' = dict_get k t"
  shows "tree_records e base t' = tree_records e base t"
proof -
  let ?f = "\<lambda>f :: string \<times> file_data. walk_key (relative_parts base (fst f))"
  let ?w = "\<lambda>f :: string \<times> file_data. walked base (fst f)"
  have same: "set t' = set t" using assms dict_set_mem [of t] dict_set_mem [of t'] by (auto simp: tree_ok_def)
  have "distinct t" "distinct t'" using assms by (auto simp: tree_ok_def distinct_map)
  then have "mset t' = mset t" using same by (metis set_eq_iff_mset_eq_distinct)
  then have "mset (filter ?w t') = mset (filter ?w t)" by simp
  moreover have "inj_on ?f (set (filter ?w t))"
  proof (rule inj_onI)
    fix x y assume x: "x \<in> set (filter ?w t)" and y: "y \<in> set (filter ?w t)" and "?f x = ?f y"
    then have "relative_parts base (fst x) = relative_parts base (fst y)"
      by (elim walk_key_inj [rotated 2]) (use x y in \<open>auto simp: walked_def\<close>)
    moreover have "fst x \<in> {p \<in> fst ` set t. walked base p}" "fst y \<in> {p \<in> fst ` set t. walked base p}" using x y by auto
    moreover have "inj_on (relative_parts base) {p \<in> fst ` set t. walked base p}" using assms(1) by (simp add: tree_ok_def)
    ultimately have "fst x = fst y" by (auto dest: inj_onD)
    moreover have "inj_on fst (set t)" using assms(1) by (simp add: tree_ok_def distinct_map)
    ultimately show "x = y" using x y by (auto dest: inj_onD)
  qed
  ultimately have "sort_key ?f (filter ?w t') = sort_key ?f (filter ?w t)"
    using same by (intro sort_key_inj_key_eq) auto
  then show ?thesis by (simp add: tree_records_def)
qed

lemma tree_fingerprint_cong:
  assumes "tree_ok base t" and "distinct (map fst t')" and "\<And>k. dict_get k t' = dict_get k t"
  shows "tree_fingerprint e base t' = tree_fingerprint e base t"
  using tree_records_cong [OF assms] by (simp add: tree_fingerprint_def)

section \<open>What a run may do outside\<close>

text \<open>A test run that changes at most the given files.\<close>

definition touches_only :: "string set \<Rightarrow> test_run \<Rightarrow> bool" where
  "touches_only S run \<longleftrightarrow>
     (\<forall>c t. (distinct (map fst t) \<longrightarrow> distinct (map fst (snd (snd (run c t))))) \<and>
        (\<forall>k. k \<notin> S \<longrightarrow> dict_get k (snd (snd (run c t))) = dict_get k t))"

lemma execute_tree: "snd (execute run c t) = snd (snd (run c t))"
  by (auto simp: execute_def split: prod.splits process_outcome.splits)

lemma execute_touches:
  assumes "touches_only S run" and "execute run c t = (ex, t')"
  shows "k \<notin> S \<Longrightarrow> dict_get k t' = dict_get k t" and "distinct (map fst t) \<Longrightarrow> distinct (map fst t')"
  using assms execute_tree [of run c t] by (auto simp: touches_only_def)

lemma rw_tree_saves [simp]:
  "rw_tree (store_repair_promotion p w) = rw_tree w" "rw_tree (store_repair_approval a w) = rw_tree w"
  "rw_tree (add_edge s r t w) = rw_tree w"
  by (simp_all add: store_repair_promotion_def store_repair_approval_def add_edge_def Let_def)

text \<open>Once the first save of a promotion has passed the unique index, so do the later ones.\<close>

lemma later_saves_succeed:
  assumes "save_repair_promotion p w = (Inr (), w1)" and "rw_promotions w2 = rw_promotions w1"
    and "prm_id q = prm_id p" and "prm_proposal_id q = prm_proposal_id p"
  shows "save_repair_promotion q w2 = (Inr (), store_repair_promotion q w2)"
proof -
  from assms(1) have free: "\<not> (\<exists>x\<in>set (rw_promotions w). prm_id x \<noteq> prm_id p \<and> prm_proposal_id x = prm_proposal_id p)"
    and w1: "w1 = store_repair_promotion p w"
    by (auto simp: save_repair_promotion_def split: if_splits)
  have "rw_promotions w2 = insert_or_update prm_id p (rw_promotions w)"
    by (simp add: assms(2) w1 store_repair_promotion_def add_edge_def Let_def)
  with free have "\<not> (\<exists>x\<in>set (rw_promotions w2). prm_id x \<noteq> prm_id q \<and> prm_proposal_id x = prm_proposal_id q)"
    using assms(3,4) by (auto simp: insert_or_update_def update_row_def split: if_splits)
  then show ?thesis by (simp add: save_repair_promotion_def)
qed

section \<open>Targets\<close>

lemma validated_path_facts:
  assumes "validated_path e t base authorized c = Inr target"
  shows "pc_path c \<in> set authorized \<and> \<not> is_absolute (pc_path c) \<and> target = pe_resolve e (join_path base (pc_path c)) \<and>
    path_inside base target \<and> dict_get target t \<noteq> None"
  using assms by (auto simp: validated_path_def resolve_strict_def Let_def split: if_splits sum.splits)

lemma validated_paths_facts:
  assumes "validated_paths e t base p = Inr paths"
  shows "length paths = length (rp_changes p)"
    and "(c, target) \<in> set (zip (rp_changes p) paths) \<Longrightarrow> validated_path e t base (rp_authorized_paths p) c = Inr target"
  using assms unfolding validated_paths_def traverse_Inr by (auto simp: list_all2_iff)

text \<open>What is known of a promotion that starts to write.\<close>

lemma promotion_targets_facts:
  assumes "promotion_targets e base p t = Inr paths"
  shows "tree_fingerprint e base t = rp_source_tree_fingerprint p" and "rp_changes p \<noteq> []"
    and "validated_paths e t base p = Inr paths" and "hash_mismatch e pc_before_hash t (zip (rp_changes p) paths) = None"
    and "\<forall>c\<in>set (rp_changes p). pc_after_content c \<noteq> None"
  using assms by (auto simp: promotion_targets_def split: if_splits sum.splits option.splits)

lemma targets_exist:
  assumes "validated_paths e t base p = Inr paths" and "target \<in> set paths"
  shows "dict_get target t \<noteq> None"
proof -
  from assms(2) obtain i where "i < length paths" "paths ! i = target" by (auto simp: in_set_conv_nth)
  then have "(rp_changes p ! i, target) \<in> set (zip (rp_changes p) paths)"
    using validated_paths_facts(1) [OF assms(1)] by (auto simp: set_zip)
  from validated_path_facts [OF validated_paths_facts(2) [OF assms(1) this]] show ?thesis by blast
qed

lemma patch_write_targets: "fst ` set (patch_writes p paths t) \<subseteq> set paths"
  by (auto simp: patch_writes_def dest: set_zip_rightD)

section \<open>The writing phase\<close>

lemma dict_get_leave_stray: "(\<And>p d. iof_stray f = Some (p, d) \<Longrightarrow> k \<noteq> p) \<Longrightarrow> dict_get k (leave_stray f t) = dict_get k t"
  by (auto simp: leave_stray_def split: option.splits)

definition no_stray :: "string \<Rightarrow> io_fault option \<Rightarrow> bool" where
  "no_stray k fault \<longleftrightarrow> (\<forall>f p d. fault = Some f \<longrightarrow> iof_stray f = Some (p, d) \<longrightarrow> k \<noteq> p)"

lemma replace_all_other:
  assumes "replace_all fault ws t = (err, t')" and "k \<notin> fst ` set ws" and "no_stray k fault"
  shows "dict_get k t' = dict_get k t"
proof -
  have "k \<notin> fst ` set (take n ws)" for n using assms(2) by (auto dest: in_set_takeD)
  with assms show ?thesis
    by (auto simp: replace_all_def no_stray_def dict_get_leave_stray dict_get_write_other split: option.splits)
qed

lemma restore_all_other:
  assumes "restore_all fault ws t = (err, t')" and "k \<notin> fst ` set ws" and "no_stray k fault"
  shows "dict_get k t' = dict_get k t"
proof -
  have "k \<notin> fst ` set (take n ws)" for n using assms(2) by (auto dest: in_set_takeD)
  with assms show ?thesis
    by (auto simp: restore_all_def no_stray_def dict_get_leave_stray dict_get_write_other split: option.splits)
qed

lemma distinct_replace_all:
  "replace_all fault ws t = (err, t') \<Longrightarrow> distinct (map fst t) \<Longrightarrow> distinct (map fst t')"
  by (auto simp: replace_all_def leave_stray_def distinct_write_all distinct_dict_set split: option.splits)

text \<open>The outcome of the writing phase.\<close>

lemma with_event_simps [simp]:
  "prm_status (with_event p s d now) = s" "prm_original_tree_fingerprint (with_event p s d now) = prm_original_tree_fingerprint p"
  "prm_final_validation (with_event p s d now) = prm_final_validation p" "prm_id (with_event p s d now) = prm_id p"
  "prm_approval_id (with_event p s d now) = prm_approval_id p" "prm_proposal_id (with_event p s d now) = prm_proposal_id p"
  "prm_rollback_verified (with_event p s d now) = prm_rollback_verified p"
  by (simp_all add: with_event_def)

text \<open>What holds once the final test has passed.\<close>

definition applied_and_tested ::
  "promotion_env \<Rightarrow> promotion_run \<Rightarrow> string \<Rightarrow> repair_proposal \<Rightarrow> string list \<Rightarrow> tree \<Rightarrow> repair_promotion \<Rightarrow> tree \<Rightarrow> bool" where
  "applied_and_tested e run base p paths t q t' \<longleftrightarrow>
     prm_status q = PromotionStatus_VERIFIED \<and> run_apply_fault run = None \<and>
     hash_mismatch e pc_after_hash (write_all (patch_writes p paths t) t) (zip (rp_changes p) paths) = None \<and>
     tree_fingerprint e base t' = tree_fingerprint e base (write_all (patch_writes p paths t) t) \<and>
     (\<exists>ex. prm_final_validation q = Some ex \<and> tx_exit_code ex = 0)"

lemma check_applied_cases:
  assumes "check_applied e run base test_path q w = (out, q', w')"
  shows "prm_original_tree_fingerprint q' = prm_original_tree_fingerprint q \<and>
    rw_tree w' = snd (execute (run_test run) (test_command e test_path) (rw_tree w)) \<and>
    (out = Apply_verified \<or> (\<exists>x. out = Apply_raised x \<and> os_error_text x = None \<and> pe_reconcile e q' (rw_tree w') = Inl x) \<longrightarrow>
       prm_status q' = PromotionStatus_VERIFIED \<and> tree_fingerprint e base (rw_tree w') = tree_fingerprint e base (rw_tree w) \<and>
       (\<exists>ex. prm_final_validation q' = Some ex \<and> tx_exit_code ex = 0)) \<and>
    (\<forall>x. out = Apply_raised x \<longrightarrow> os_error_text x = None \<and> pe_reconcile e q' (rw_tree w') = Inl x)"
  using assms
  by (auto simp: check_applied_def Let_def split: prod.splits if_splits sum.splits option.splits)

lemma apply_changes_cases:
  assumes "apply_changes e run base p paths q w = (out, q', w')"
  shows "prm_original_tree_fingerprint q' = prm_original_tree_fingerprint q"
    and "out = Apply_verified \<Longrightarrow> applied_and_tested e run base p paths (rw_tree w) q' (rw_tree w')"
    and "out = Apply_raised x \<Longrightarrow> applied_and_tested e run base p paths (rw_tree w) q' (rw_tree w') \<and>
      os_error_text x = None \<and> pe_reconcile e q' (rw_tree w') = Inl x"
    and "touches_only S (run_test run) \<Longrightarrow> k \<notin> S \<Longrightarrow> k \<notin> set paths \<Longrightarrow> no_stray k (run_apply_fault run) \<Longrightarrow>
      dict_get k (rw_tree w') = dict_get k (rw_tree w)"
    and "touches_only S (run_test run) \<Longrightarrow> distinct (map fst (rw_tree w)) \<Longrightarrow> distinct (map fst (rw_tree w'))"
proof -
  let ?ws = "patch_writes p paths (rw_tree w)" and ?t = "rw_tree w"
  obtain err t1 where r: "replace_all (run_apply_fault run) ?ws ?t = (err, t1)" by force
  let ?p1 = "with_event q PromotionStatus_APPLYING ''All source hashes matched; atomically replacing authorized files.'' (run_now run)"
  let ?w2 = "(store_repair_promotion ?p1 w)\<lparr>rw_tree := t1\<rparr>"
  consider (failed) reason where "out = Apply_failed reason" "q' = ?p1" "w' = ?w2"
    | (checked) "err = None" "hash_mismatch e pc_after_hash t1 (zip (rp_changes p) paths) = None"
        "check_applied e run base (rp_test_path p) ?p1 ?w2 = (out, q', w')"
    using assms r by (auto simp: apply_changes_def Let_def split: option.splits)
  note cases = this
  have written: "run_apply_fault run = None \<and> t1 = write_all ?ws ?t" if "err = None"
    using r that by (auto simp: replace_all_def split: option.splits)
  show "prm_original_tree_fingerprint q' = prm_original_tree_fingerprint q"
    by (cases rule: cases) (auto dest: check_applied_cases)
  have tested: "applied_and_tested e run base p paths ?t q' (rw_tree w') \<and>
      (\<forall>x. out = Apply_raised x \<longrightarrow> os_error_text x = None \<and> pe_reconcile e q' (rw_tree w') = Inl x)"
    if "out = Apply_verified \<or> (\<exists>x. out = Apply_raised x)"
  proof (cases rule: cases)
    case failed
    with that show ?thesis by auto
  next
    case checked
    from check_applied_cases [OF checked(3)] that written [OF checked(1)] checked(2) show ?thesis
      unfolding applied_and_tested_def by auto
  qed
  then show "out = Apply_verified \<Longrightarrow> applied_and_tested e run base p paths ?t q' (rw_tree w')"
    and "out = Apply_raised x \<Longrightarrow> applied_and_tested e run base p paths ?t q' (rw_tree w') \<and>
      os_error_text x = None \<and> pe_reconcile e q' (rw_tree w') = Inl x" by auto
  have tree: "rw_tree w' = t1 \<or> rw_tree w' = snd (execute (run_test run) (test_command e (rp_test_path p)) t1)"
    by (cases rule: cases) (auto dest: check_applied_cases)
  show "dict_get k (rw_tree w') = dict_get k ?t"
    if "touches_only S (run_test run)" "k \<notin> S" "k \<notin> set paths" "no_stray k (run_apply_fault run)"
  proof -
    have "k \<notin> fst ` set ?ws" using patch_write_targets that(3) by blast
    from replace_all_other [OF r this that(4)] have "dict_get k t1 = dict_get k ?t" .
    with tree execute_touches(1) [OF that(1) _ that(2)] show ?thesis by (metis prod.collapse)
  qed
  show "distinct (map fst (rw_tree w'))" if "touches_only S (run_test run)" "distinct (map fst ?t)"
    using tree distinct_replace_all [OF r that(2)] execute_touches(2) [OF that(1)] by (metis prod.collapse)
qed

section \<open>The rollback\<close>

lemma roll_back_other:
  assumes "roll_back e run base test_path originals reason q w = (q', w')" and "touches_only S (run_rollback_test run)"
    and "k \<notin> S" and "k \<notin> fst ` set originals" and "no_stray k (run_restore_fault run)"
  shows "dict_get k (rw_tree w') = dict_get k (rw_tree w)"
proof -
  obtain err t1 where r: "restore_all (run_restore_fault run) originals (rw_tree w) = (err, t1)" by force
  from assms(1) r have "rw_tree w' = snd (execute (run_rollback_test run) (test_command e test_path) t1)"
    by (auto simp: roll_back_def Let_def split: prod.splits)
  with restore_all_other [OF r assms(4,5)] execute_touches(1) [OF assms(2) _ assms(3)] show ?thesis by (metis prod.collapse)
qed

lemma roll_back_restores:
  assumes "roll_back e run base test_path originals reason q w = (q', w')" and "run_restore_fault run = None"
    and "touches_only {} (run_rollback_test run)"
  shows "(\<forall>k. dict_get k (rw_tree w') = dict_get k (write_all originals (rw_tree w))) \<and>
    (tree_fingerprint e base (write_all originals (rw_tree w)) = prm_original_tree_fingerprint q \<longrightarrow>
       prm_status q' = PromotionStatus_ROLLED_BACK \<and> prm_rollback_verified q' = Some True)"
proof -
  have r: "restore_all (run_restore_fault run) originals (rw_tree w) = (None, write_all originals (rw_tree w))"
    by (simp add: restore_all_def assms(2))
  have "rw_tree w' = snd (execute (run_rollback_test run) (test_command e test_path) (write_all originals (rw_tree w)))"
    using assms(1) r by (auto simp: roll_back_def Let_def split: prod.splits)
  with execute_touches(1) [OF assms(3)] have "\<forall>k. dict_get k (rw_tree w') = dict_get k (write_all originals (rw_tree w))"
    by (metis empty_iff prod.collapse)
  moreover have "tree_fingerprint e base (write_all originals (rw_tree w)) = prm_original_tree_fingerprint q \<Longrightarrow>
      prm_status q' = PromotionStatus_ROLLED_BACK \<and> prm_rollback_verified q' = Some True"
    using assms(1) r by (auto simp: roll_back_def Let_def with_event_def split: prod.splits)
  ultimately show ?thesis by blast
qed

lemma originals_targets: "fst ` set (original_writes paths t) = set paths"
  by (force simp: original_writes_def)

section \<open>Promotion\<close>

text \<open>The three ways a promotion ends.\<close>

lemma promote_cases:
  assumes "promote e run base p v a w = (r, w')"
  obtains (refused) x where "r = Inl x" and "w' = w" and "(\<forall>paths. promotion_targets e base p (rw_tree w) \<noteq> Inr paths) \<or>
      save_repair_promotion (new_promotion e run base p v a (rw_tree w)) w = (Inl x, w)"
  | (verified) paths q where "promotion_targets e base p (rw_tree w) = Inr paths"
      and "apply_changes e run base p paths (new_promotion e run base p v a (rw_tree w))
        (store_repair_promotion (new_promotion e run base p v a (rw_tree w)) w) = (Apply_verified, q, w')" and "r = Inr q"
  | (raised) paths q x where "promotion_targets e base p (rw_tree w) = Inr paths"
      and "apply_changes e run base p paths (new_promotion e run base p v a (rw_tree w))
        (store_repair_promotion (new_promotion e run base p v a (rw_tree w)) w) = (Apply_raised x, q, w')" and "r = Inl x"
  | (rolled) paths q w1 reason q' where "promotion_targets e base p (rw_tree w) = Inr paths"
      and "apply_changes e run base p paths (new_promotion e run base p v a (rw_tree w))
        (store_repair_promotion (new_promotion e run base p v a (rw_tree w)) w) = (Apply_failed reason, q, w1)"
      and "roll_back e run base (rp_test_path p) (original_writes paths (rw_tree w)) reason q w1 = (q', w')" and "r = Inr q'"
proof (cases "promotion_targets e base p (rw_tree w)")
  case (Inl x)
  with assms show thesis by (intro refused) (auto simp: promote_def)
next
  case (Inr paths)
  let ?q = "new_promotion e run base p v a (rw_tree w)"
  consider (clash) x where "save_repair_promotion ?q w = (Inl x, w)"
    | (saved) "save_repair_promotion ?q w = (Inr (), store_repair_promotion ?q w)"
    unfolding save_repair_promotion_def by (metis (full_types))
  then show thesis
  proof cases
    case (clash x)
    with assms Inr show thesis by (intro refused [of x]) (auto simp: promote_def Let_def)
  next
    case saved
    obtain out q w1 where a: "apply_changes e run base p paths ?q (store_repair_promotion ?q w) = (out, q, w1)"
      by (metis prod_cases3)
    show thesis
    proof (cases out)
      case Apply_verified
      with assms Inr a saved show thesis by (intro verified [of paths q]) (auto simp: promote_def Let_def)
    next
      case (Apply_raised x)
      with assms Inr a saved show thesis by (intro raised [of paths x q]) (auto simp: promote_def Let_def)
    next
      case (Apply_failed reason)
      with assms Inr a saved show thesis
        by (cases "roll_back e run base (rp_test_path p) (original_writes paths (rw_tree w)) reason q w1")
          (auto intro!: rolled [of paths reason q w1] simp: promote_def Let_def)
    qed
  qed
qed

lemma promote_other:
  assumes "promote e run base p v a w = (r, w')" and "touches_only S (run_test run)" "touches_only S (run_rollback_test run)"
    and "k \<notin> S" and "no_stray k (run_apply_fault run)" "no_stray k (run_restore_fault run)"
    and "dict_get k (rw_tree w') \<noteq> dict_get k (rw_tree w)"
  shows "\<exists>paths. promotion_targets e base p (rw_tree w) = Inr paths \<and> k \<in> set paths"
  using assms(1)
proof (cases rule: promote_cases)
  case refused
  with assms(7) show ?thesis by simp
next
  case (verified paths q)
  from apply_changes_cases(4) [OF verified(2) assms(2,4) _ assms(5)] assms(7) verified(1) show ?thesis by auto
next
  case (raised paths q x)
  from apply_changes_cases(4) [OF raised(2) assms(2,4) _ assms(5)] assms(7) raised(1) show ?thesis by auto
next
  case (rolled paths q w1 reason q')
  from apply_changes_cases(4) [OF rolled(2) assms(2,4) _ assms(5)] roll_back_other [OF rolled(3) assms(3,4) _ assms(6)]
    assms(7) rolled(1) originals_targets show ?thesis by auto
qed

end
