(* ===== verification/Promotion_Demo.thy ===== *)
theory Promotion_Demo
  imports Promotion_Safety
begin

text \<open>
  A concrete promotion for the witnesses: a project of one file \<open>/p/a.py\<close>, a repair of it, and its
  approval. The demonstration hash is injective, so the fingerprints need not be evaluated.
\<close>

definition demo_env :: "unit result \<Rightarrow> promotion_env" where
  "demo_env outcome = \<lparr>pe_resolve = (\<lambda>p. p), pe_is_dir = (\<lambda>p. p = ''/p''), pe_sha = (\<lambda>s. CHR ''h'' # s),
     pe_python = ''python'', pe_reconcile = (\<lambda>_ _. outcome)\<rparr>"

definition demo_tree :: tree where
  "demo_tree = [(''/p/a.py'', (''old'', 420))]"

definition new_tree :: tree where
  "new_tree = [(''/p/a.py'', (''new'', 420))]"

definition demo_patch :: patch_change where
  "demo_patch = \<lparr>pc_path = ''a.py'', pc_before_hash = ''hold'', pc_after_hash = ''hnew'', pc_unified_diff = [],
     pc_change_reason = None, pc_before_content = Some ''old'', pc_after_content = Some ''new'',
     pc_before_bytes_base64 = None, pc_after_bytes_base64 = None\<rparr>"

definition demo_proposal :: repair_proposal where
  "demo_proposal = \<lparr>rp_id = ''R'', rp_repair_task_id = ''T'', rp_diagnosis_claim_id = ''D'', rp_project_root = ''/p'',
     rp_project_fingerprint = ''f'', rp_source_tree_fingerprint = tree_fingerprint (demo_env (Inr ())) ''/p'' demo_tree,
     rp_test_path = ''t.py'', rp_authorized_paths = [''a.py''], rp_supporting_claim_ids = [],
     rp_changes = [demo_patch], rp_rationale = ''r'', rp_confidence = 1, rp_worker = ''w'', rp_model_calls = 1,
     rp_signature = ''s'', rp_status = RepairStatus_VERIFIED, rp_created_at = 0\<rparr>"

definition demo_execution :: test_execution where
  "demo_execution = \<lparr>tx_command = [], tx_exit_code = 0, tx_stdout = [], tx_stderr = [], tx_duration_ms = 1\<rparr>"

definition demo_validation :: repair_validation where
  "demo_validation = \<lparr>rv_id = ''V'', rv_repair_task_id = ''T'', rv_proposal_id = ''R'', rv_attempt = 1,
     rv_status = RepairStatus_VERIFIED, rv_before = demo_execution, rv_after = demo_execution,
     rv_original_unchanged = True, rv_failure_reason = None, rv_created_at = 0\<rparr>"

definition demo_record :: project_record where
  "demo_record = \<lparr>pr_id = ''P'', pr_root = ''/p'', pr_explicitly_selected = True, pr_read_only = False,
     pr_execution_mode = ProjectExecutionMode_READ_ONLY, pr_latest_scan_id = None, pr_organization = [],
     pr_project_manifest = [], pr_project_goals = [], pr_ideas = [], pr_created_at = 0\<rparr>"

definition demo_test :: test_run where
  "demo_test = (\<lambda>c t. (Completed 0 [] [], 1, t))"

definition demo_run :: "string \<Rightarrow> promotion_run" where
  "demo_run i = \<lparr>run_id = i, run_apply_fault = None, run_restore_fault = None, run_test = demo_test,
     run_rollback_test = demo_test, run_now = 7\<rparr>"

definition demo_decision :: promotion_decision where
  "demo_decision = \<lparr>pd_proposal_id = ''R'', pd_project_root = ''/p'', pd_decision = ApprovalDecision_APPROVED,
     pd_approved_by = ''ann'', pd_reason = ''ok'', pd_approval_id = ''A'', pd_refused_id = ''F''\<rparr>"

definition demo_repair_approval :: repair_approval where
  "demo_repair_approval = new_approval demo_decision ''/p'' demo_proposal demo_validation 7"

definition demo_world :: "repair_approval list \<Rightarrow> repair_world" where
  "demo_world approvals = \<lparr>rw_projects = [demo_record], rw_proposals = [demo_proposal], rw_validations = [demo_validation],
     rw_approvals = approvals, rw_promotions = [], rw_edges = [], rw_tree = demo_tree\<rparr>"

lemma demo_touches: "touches_only S demo_test"
  by (simp add: touches_only_def demo_test_def)

lemma demo_execute: "execute demo_test c t = (\<lparr>tx_command = c, tx_exit_code = 0, tx_stdout = [], tx_stderr = [], tx_duration_ms = 1\<rparr>, t)"
  by (simp add: execute_def demo_test_def last_chars_def)

lemma demo_tree_ok: "tree_ok ''/p'' demo_tree"
  by (auto simp: tree_ok_def demo_tree_def inj_on_def)

lemma demo_fingerprint: "tree_fingerprint (demo_env r) b t = tree_fingerprint (demo_env (Inr ())) b t"
  by (simp add: tree_fingerprint_def tree_records_def demo_env_def)

lemma demo_inside: "path_inside ''/p'' ''/p/a.py''"
  by code_simp

lemma demo_targets: "promotion_targets (demo_env r) ''/p'' demo_proposal demo_tree = Inr [''/p/a.py'']"
proof -
  have "tree_fingerprint (demo_env (Inr ())) ''/p'' demo_tree \<noteq> []" by (simp add: tree_fingerprint_def demo_env_def)
  moreover have "validated_paths (demo_env r) demo_tree ''/p'' demo_proposal = Inr [''/p/a.py'']"
    using demo_inside
    by (simp add: validated_paths_def validated_path_def demo_proposal_def demo_patch_def is_absolute_def join_path_def
        resolve_strict_def demo_env_def demo_tree_def dict_get_def)
  moreover have "hash_mismatch (demo_env r) pc_before_hash demo_tree (zip (rp_changes demo_proposal) [''/p/a.py'']) = None"
    by (simp add: hash_mismatch_def content_hash_def file_of_def demo_proposal_def demo_patch_def demo_env_def demo_tree_def dict_get_def)
  ultimately show ?thesis
    by (simp add: promotion_targets_def demo_fingerprint [of r] demo_proposal_def demo_patch_def)
qed

lemma demo_writes: "write_all (patch_writes demo_proposal [''/p/a.py''] demo_tree) demo_tree = new_tree"
  by (simp add: patch_writes_def demo_proposal_def demo_patch_def demo_tree_def new_tree_def file_of_def dict_get_def)

lemma demo_after: "hash_mismatch (demo_env r) pc_after_hash new_tree (zip (rp_changes demo_proposal) [''/p/a.py'']) = None"
  by (simp add: hash_mismatch_def content_hash_def file_of_def demo_proposal_def demo_patch_def demo_env_def new_tree_def dict_get_def)

text \<open>The promotion is written, tested and recorded as verified; what the reconciliation returns
  decides whether it raises.\<close>

lemma demo_promote:
  assumes "rw_tree w = demo_tree" and "r = Inr () \<or> r = Inl (ValueError m)" and "rw_promotions w = []"
  shows "\<exists>q w'. promote (demo_env r) (demo_run i) ''/p'' demo_proposal demo_validation a w = (map_sum id (\<lambda>_. q) r, w') \<and>
    prm_status q = PromotionStatus_VERIFIED \<and> rw_tree w' = new_tree"
proof -
  let ?q = "new_promotion (demo_env r) (demo_run i) ''/p'' demo_proposal demo_validation a demo_tree"
  obtain out q w' where a: "apply_changes (demo_env r) (demo_run i) ''/p'' demo_proposal [''/p/a.py''] ?q (store_repair_promotion ?q w) = (out, q, w')"
    by (metis prod_cases3)
  have "out = (case r of Inr _ \<Rightarrow> Apply_verified | Inl x \<Rightarrow> Apply_raised x) \<and> prm_status q = PromotionStatus_VERIFIED \<and> rw_tree w' = new_tree"
    using a assms demo_writes demo_after [of r]
    by (auto simp: apply_changes_def Let_def replace_all_def demo_run_def check_applied_def demo_execute os_error_text_def demo_env_def
        split: option.splits sum.splits if_splits)
  moreover have "save_repair_promotion ?q w = (Inr (), store_repair_promotion ?q w)"
    by (simp add: save_repair_promotion_def assms(3))
  ultimately show ?thesis using a assms by (auto simp: promote_def demo_targets Let_def)
qed

lemma demo_review: "review (demo_world as) ''R'' = Inr (demo_proposal, demo_validation)"
  by (simp add: review_def demo_world_def demo_proposal_def demo_validation_def)

lemma demo_selection: "explicit_selection (demo_env r) t ''/p'' = Inr ''/p''"
  by (simp add: explicit_selection_def resolve_strict_def demo_env_def)

lemma demo_human: "\<not> blank ''ann'' \<and> \<not> blank ''ok''"
  by code_simp

lemma demo_decide:
  "\<exists>x w'. decide (demo_env (Inr ())) (demo_run i) demo_decision (demo_world []) = (Inr x, w') \<and> rw_tree w' = new_tree"
  "\<exists>x w'. decide (demo_env (Inl (ValueError m))) (demo_run i) demo_decision (demo_world []) = (Inl x, w') \<and> rw_tree w' = new_tree"
proof -
  let ?w = "store_repair_approval demo_repair_approval (demo_world [])"
  have w: "rw_tree ?w = demo_tree" "rw_promotions ?w = []"
    by (simp_all add: demo_world_def store_repair_approval_def add_edge_def Let_def)
  have on: "onboarded (demo_env r) (demo_world []) ''/p''" for r
    by (simp add: onboarded_def demo_world_def demo_record_def demo_env_def)
  have base: "pe_resolve (demo_env r) (rp_project_root demo_proposal) = ''/p''" for r by (simp add: demo_env_def demo_proposal_def)
  have approval: "new_approval demo_decision ''/p'' demo_proposal demo_validation (run_now (demo_run i)) = demo_repair_approval"
    by (simp add: demo_repair_approval_def demo_run_def)
  have saved: "save_repair_approval demo_repair_approval (demo_world []) = (Inr (), ?w)"
    by (simp add: save_repair_approval_def demo_world_def)
  from demo_promote [OF w(1) _ w(2), of "Inr ()" _ i demo_repair_approval] obtain q w1 where
    "promote (demo_env (Inr ())) (demo_run i) ''/p'' demo_proposal demo_validation demo_repair_approval ?w = (Inr q, w1)"
      "rw_tree w1 = new_tree" by auto
  then show "\<exists>x w'. decide (demo_env (Inr ())) (demo_run i) demo_decision (demo_world []) = (Inr x, w') \<and> rw_tree w' = new_tree"
    using demo_human on base approval saved by (auto simp: decide_def Let_def demo_decision_def demo_review demo_selection)
  from demo_promote [OF w(1) _ w(2), of "Inl (ValueError m)" m i demo_repair_approval] obtain w1 where
    "promote (demo_env (Inl (ValueError m))) (demo_run i) ''/p'' demo_proposal demo_validation demo_repair_approval ?w = (Inl (ValueError m), w1)"
      "rw_tree w1 = new_tree" by auto
  then show "\<exists>x w'. decide (demo_env (Inl (ValueError m))) (demo_run i) demo_decision (demo_world []) = (Inl x, w') \<and> rw_tree w' = new_tree"
    using demo_human on base approval saved
    by (auto simp: decide_def Let_def demo_decision_def demo_review demo_selection refusal_text_def save_repair_promotion_def)
qed

lemma trees_differ: "dict_get ''/p/a.py'' new_tree \<noteq> dict_get ''/p/a.py'' demo_tree"
  by (simp add: new_tree_def demo_tree_def dict_get_def)

end
