(* ===== verification/Promotion_Properties.thy ===== *)
theory Promotion_Properties
  imports Promotion_Demo
begin

text \<open>
  The properties of repair promotion: all or nothing, only approved writes, recovery after an
  interruption, and what an exception of a decision says about the project.
\<close>

section \<open>All or nothing\<close>

definition patch_targets :: "promotion_env \<Rightarrow> string \<Rightarrow> repair_proposal \<Rightarrow> string set" where
  "patch_targets e base p = (\<lambda>c. pe_resolve e (join_path base (pc_path c))) ` set (rp_changes p)"

lemma set_paths:
  assumes "validated_paths e t base p = Inr paths" shows "set paths = patch_targets e base p"
proof -
  note len = validated_paths_facts(1) [OF assms]
  have "map (\<lambda>c. pe_resolve e (join_path base (pc_path c))) (rp_changes p) = paths"
  proof (rule nth_equalityI)
    show "length (map (\<lambda>c. pe_resolve e (join_path base (pc_path c))) (rp_changes p)) = length paths" using len by simp
    show "map (\<lambda>c. pe_resolve e (join_path base (pc_path c))) (rp_changes p) ! i = paths ! i"
      if "i < length (map (\<lambda>c. pe_resolve e (join_path base (pc_path c))) (rp_changes p))" for i
    proof -
      have "(rp_changes p ! i, paths ! i) \<in> set (zip (rp_changes p) paths)" using that len by (auto simp: set_zip)
      from validated_path_facts [OF validated_paths_facts(2) [OF assms this]] that show ?thesis by simp
    qed
  qed
  then show ?thesis unfolding patch_targets_def by (metis set_map)
qed

lemma write_all_restores:
  assumes "\<And>k d. (k, d) \<in> set ws \<Longrightarrow> dict_get k t = Some d" and "\<And>k. k \<notin> fst ` set ws \<Longrightarrow> dict_get k t' = dict_get k t"
  shows "dict_get k (write_all ws t') = dict_get k t"
proof (cases "map_of (rev ws) k")
  case None
  then have "k \<notin> fst ` set ws" by (simp add: map_of_eq_None_iff)
  with None assms(2) show ?thesis by (simp add: dict_get_write_all)
next
  case (Some d)
  then have "(k, d) \<in> set ws" by (metis map_of_SomeD set_rev)
  with Some assms(1) show ?thesis by (simp add: dict_get_write_all)
qed

lemma rolled_back_tree:
  assumes "promotion_targets e base p (rw_tree w) = Inr paths" and "tree_ok base (rw_tree w)"
    and a: "apply_changes e run base p paths q w1 = (out, q1, w2)" and "rw_tree w1 = rw_tree w"
    and "touches_only (patch_targets e base p) (run_test run)" and "\<forall>f. run_apply_fault run = Some f \<longrightarrow> iof_stray f = None"
  shows "dict_get k (write_all (original_writes paths (rw_tree w)) (rw_tree w2)) = dict_get k (rw_tree w)"
    and "tree_fingerprint e base (write_all (original_writes paths (rw_tree w)) (rw_tree w2)) = tree_fingerprint e base (rw_tree w)"
proof -
  note paths = promotion_targets_facts(3) [OF assms(1)]
  have other: "dict_get j (rw_tree w2) = dict_get j (rw_tree w)" if "j \<notin> set paths" for j
    using apply_changes_cases(4) [OF a assms(5), of j] that assms(4,6) set_paths [OF paths] by (auto simp: no_stray_def)
  have same: "dict_get j (write_all (original_writes paths (rw_tree w)) (rw_tree w2)) = dict_get j (rw_tree w)" for j
  proof (rule write_all_restores)
    show "dict_get k (rw_tree w) = Some d" if "(k, d) \<in> set (original_writes paths (rw_tree w))" for k d
      using that targets_exist [OF paths] by (auto simp: original_writes_def file_of_def split: option.splits)
    show "dict_get k (rw_tree w2) = dict_get k (rw_tree w)" if "k \<notin> fst ` set (original_writes paths (rw_tree w))" for k
      using other that by (simp add: originals_targets)
  qed
  then show "dict_get k (write_all (original_writes paths (rw_tree w)) (rw_tree w2)) = dict_get k (rw_tree w)" .
  have "distinct (map fst (rw_tree w2))"
    using apply_changes_cases(5) [OF a assms(5)] assms(2,4) by (simp add: tree_ok_def)
  then show "tree_fingerprint e base (write_all (original_writes paths (rw_tree w)) (rw_tree w2)) = tree_fingerprint e base (rw_tree w)"
    using tree_fingerprint_cong [OF assms(2)] same distinct_write_all by blast
qed

lemma new_promotion_id: "prm_id (new_promotion e run base p v a t) = run_id run"
  by (simp add: new_promotion_def)

lemma new_promotion_original: "prm_original_tree_fingerprint (new_promotion e run base p v a t) = tree_fingerprint e base t"
  by (simp add: new_promotion_def)



section \<open>Approved writes only\<close>

lemma saves_frame [simp]:
  "rw_approvals (store_repair_promotion q w) = rw_approvals w" "rw_proposals (store_repair_promotion q w) = rw_proposals w"
  "rw_validations (store_repair_promotion q w) = rw_validations w" "rw_projects (store_repair_promotion q w) = rw_projects w"
  "rw_promotions (store_repair_promotion q w) = insert_or_update prm_id q (rw_promotions w)"
  "rw_promotions (store_repair_approval a w) = rw_promotions w" "rw_proposals (store_repair_approval a w) = rw_proposals w"
  "rw_validations (store_repair_approval a w) = rw_validations w"
  "rw_approvals (store_repair_approval a w) = insert_or_update ra_id a (rw_approvals w)"
  by (simp_all add: store_repair_promotion_def store_repair_approval_def add_edge_def Let_def)

lemma mem_insert_or_update: "r \<in> set (insert_or_update key r rows)"
  by (auto simp: insert_or_update_def update_row_def image_iff)

lemma mem_insert_other: "q \<in> set rows \<Longrightarrow> key q \<noteq> key r \<Longrightarrow> q \<in> set (insert_or_update key r rows)"
  by (auto simp: insert_or_update_def update_row_def image_iff)

lemma check_applied_approvals:
  "check_applied e run base c q w = (out, q', w') \<Longrightarrow> rw_approvals w' = rw_approvals w"
  by (auto simp: check_applied_def Let_def split: prod.splits if_splits sum.splits option.splits)

lemma promote_approvals:
  assumes "promote e run base p v a w = (r, w')" shows "rw_approvals w' = rw_approvals w"
proof -
  have applied: "rw_approvals w2 = rw_approvals w1" if "apply_changes e run base p paths q w1 = (out, q', w2)" for paths q w1 out q' w2
    using that by (auto simp: apply_changes_def Let_def dest: check_applied_approvals split: prod.splits option.splits)
  have rolled: "rw_approvals w2 = rw_approvals w1" if "roll_back e run base c os m q w1 = (q', w2)" for c os m q w1 q' w2
    using that by (auto simp: roll_back_def Let_def split: prod.splits)
  show ?thesis using assms by (cases rule: promote_cases) (auto dest!: applied rolled)
qed

lemma review_facts:
  assumes "review w i = Inr (p, v)"
  shows "p \<in> set (rw_proposals w) \<and> rp_id p = i \<and> rp_status p = RepairStatus_VERIFIED \<and> v \<in> set (rw_validations w) \<and>
    rv_proposal_id v = rp_id p \<and> rv_status v = RepairStatus_VERIFIED"
  using assms by (auto simp: review_def dest!: find_Some_set split: option.splits if_splits)

text \<open>A decision that changes the project has gone through every check.\<close>

lemma decide_changes:
  assumes "decide e run d w = (r, w')" and "rw_tree w' \<noteq> rw_tree w"
  obtains p v base a r' w2 where "review w (pd_proposal_id d) = Inr (p, v)"
    and "explicit_selection e (rw_tree w) (pd_project_root d) = Inr base" and "base = pe_resolve e (rp_project_root p)"
    and "\<not> blank (pd_approved_by d)" and "\<not> blank (pd_reason d)" and "onboarded e w base" and "pd_decision d = ApprovalDecision_APPROVED"
    and "a = new_approval d base p v (run_now run)" and "promote e run base p v a (store_repair_approval a w) = (r', w2)"
    and "rw_tree w' = rw_tree w2" and "rw_approvals w' = rw_approvals w2"
    and "\<And>x m. r' = Inl x \<Longrightarrow> refusal_text x = Some m \<Longrightarrow>
      (r, w') = (case save_repair_promotion (refused_promotion e run d base p v a m (rw_tree w2)) w2 of
        (Inl y, w3) \<Rightarrow> (Inl y, w3) | (Inr _, w3) \<Rightarrow> (Inl x, w3))"
    and "\<And>x. r' = Inl x \<Longrightarrow> refusal_text x = None \<Longrightarrow> r = Inl x \<and> w' = w2"
    and "\<And>x. r = Inl x \<Longrightarrow> \<exists>y. r' = Inl y"
proof -
  from assms obtain p v where 1: "review w (pd_proposal_id d) = Inr (p, v)" by (auto simp: decide_def split: sum.splits)
  from assms 1 obtain base where 2: "explicit_selection e (rw_tree w) (pd_project_root d) = Inr base"
    by (auto simp: decide_def split: sum.splits)
  let ?a = "new_approval d base p v (run_now run)"
  have saved: "save_repair_approval ?a w = (Inr (), store_repair_approval ?a w)"
    using assms 1 2 by (auto simp: decide_def Let_def save_repair_approval_def split: if_splits)
  have dec: "pd_decision d = ApprovalDecision_APPROVED"
    using assms 1 2 saved by (cases "pd_decision d") (auto simp: decide_def Let_def split: if_splits)
  have checks: "base = pe_resolve e (rp_project_root p)" "\<not> blank (pd_approved_by d)" "\<not> blank (pd_reason d)" "onboarded e w base"
    using assms 1 2 by (auto simp: decide_def Let_def split: if_splits)
  obtain r' w2 where 3: "promote e run base p v ?a (store_repair_approval ?a w) = (r', w2)" by force
  have result: "(r, w') = (case r' of Inr q \<Rightarrow> (Inr (?a, Some q), w2)
      | Inl x \<Rightarrow> (case refusal_text x of None \<Rightarrow> (Inl x, w2)
         | Some m \<Rightarrow> (case save_repair_promotion (refused_promotion e run d base p v ?a m (rw_tree w2)) w2 of
              (Inl y, w3) \<Rightarrow> (Inl y, w3) | (Inr _, w3) \<Rightarrow> (Inl x, w3))))"
    using assms(1) 1 2 3 checks(2-4) dec saved by (simp add: decide_def Let_def checks(1) [symmetric])
  show thesis
    by (rule that [OF 1 2 checks dec refl 3])
      (use result in \<open>auto simp: save_repair_promotion_def split: sum.splits option.splits if_splits\<close>)
qed

text \<open>C14: A decision changes a file of the project (other than by the test it runs or a temporary file it
  leaves) only if the decision is an approval by a named human with a reason, recorded under its
  identifier, of a proposal and validation that are sandbox-verified, for the onboarded root of the proposal, in
  the tree the proposal was validated against; and the file is inside that root, the target of a
  change at an authorized path, and had the hash the change expects.\<close>

theorem writes_are_approved:
  assumes "decide e run d w = (r, w')" and "dict_get k (rw_tree w') \<noteq> dict_get k (rw_tree w)"
    and "touches_only S (run_test run)" "touches_only S (run_rollback_test run)" "k \<notin> S"
    and "no_stray k (run_apply_fault run)" "no_stray k (run_restore_fault run)"
  shows "\<exists>p v a c base. p \<in> set (rw_proposals w) \<and> rp_id p = pd_proposal_id d \<and> rp_status p = RepairStatus_VERIFIED \<and>
    v \<in> set (rw_validations w) \<and> rv_proposal_id v = rp_id p \<and> rv_status v = RepairStatus_VERIFIED \<and>
    a \<in> set (rw_approvals w') \<and> ra_id a = pd_approval_id d \<and> ra_proposal_id a = rp_id p \<and> ra_decision a = ApprovalDecision_APPROVED \<and>
    \<not> blank (pd_approved_by d) \<and> \<not> blank (pd_reason d) \<and> base = pe_resolve e (rp_project_root p) \<and> onboarded e w base \<and>
    tree_fingerprint e base (rw_tree w) = rp_source_tree_fingerprint p \<and> c \<in> set (rp_changes p) \<and>
    pc_path c \<in> set (rp_authorized_paths p) \<and> k = pe_resolve e (join_path base (pc_path c)) \<and> path_inside base k \<and>
    content_hash e (rw_tree w) k = pc_before_hash c"
  using assms(1)
proof (rule decide_changes)
  show "rw_tree w' \<noteq> rw_tree w" using assms(2) by auto
  fix p v base a r' w2
  assume review: "review w (pd_proposal_id d) = Inr (p, v)" and base: "base = pe_resolve e (rp_project_root p)"
    and human: "\<not> blank (pd_approved_by d)" "\<not> blank (pd_reason d)" and on: "onboarded e w base"
    and dec: "pd_decision d = ApprovalDecision_APPROVED" and a: "a = new_approval d base p v (run_now run)"
    and promote: "promote e run base p v a (store_repair_approval a w) = (r', w2)"
    and tree: "rw_tree w' = rw_tree w2" and approvals: "rw_approvals w' = rw_approvals w2"
  from promote_other [OF promote assms(3-7)] assms(2) tree
  obtain paths where paths: "promotion_targets e base p (rw_tree w) = Inr paths" "k \<in> set paths" by auto
  from paths(2) validated_paths_facts(1) [OF promotion_targets_facts(3) [OF paths(1)]]
  obtain c where c: "(c, k) \<in> set (zip (rp_changes p) paths)" by (metis in_set_impl_in_set_zip2)
  note target = validated_path_facts [OF validated_paths_facts(2) [OF promotion_targets_facts(3) [OF paths(1)] c]]
  have "content_hash e (rw_tree w) k = pc_before_hash c"
    using promotion_targets_facts(4) [OF paths(1)] c by (auto simp: hash_mismatch_def find_None_iff)
  moreover have "a \<in> set (rw_approvals w')"
    unfolding approvals promote_approvals [OF promote] saves_frame by (rule mem_insert_or_update)
  moreover have "ra_id a = pd_approval_id d \<and> ra_proposal_id a = rp_id p \<and> ra_decision a = ApprovalDecision_APPROVED"
    by (simp add: a new_approval_def dec)
  ultimately show ?thesis
    using review_facts [OF review] base human on target promotion_targets_facts(1) [OF paths(1)] c set_zip_leftD [OF c] by blast
qed

theorem writes_are_approved_witness:
  "\<exists>x w' a. decide (demo_env (Inr ())) (demo_run ''M'') demo_decision (demo_world []) = (Inr x, w') \<and>
    dict_get ''/p/a.py'' (rw_tree w') \<noteq> dict_get ''/p/a.py'' demo_tree \<and>
    a \<in> set (rw_approvals w') \<and> ra_id a = ''A'' \<and> ra_decision a = ApprovalDecision_APPROVED"
proof -
  have tree: "rw_tree (demo_world []) = demo_tree" by (simp add: demo_world_def)
  from demo_decide(1) [of "''M''"] obtain x w' where
    d: "decide (demo_env (Inr ())) (demo_run ''M'') demo_decision (demo_world []) = (Inr x, w')" "rw_tree w' = new_tree"
    by auto
  have k: "dict_get ''/p/a.py'' (rw_tree w') \<noteq> dict_get ''/p/a.py'' (rw_tree (demo_world []))"
    using trees_differ by (simp add: d(2) tree)
  have run: "touches_only {} (run_test (demo_run ''M''))" "touches_only {} (run_rollback_test (demo_run ''M''))"
    "no_stray ''/p/a.py'' (run_apply_fault (demo_run ''M''))" "no_stray ''/p/a.py'' (run_restore_fault (demo_run ''M''))"
    by (simp_all add: demo_run_def demo_touches no_stray_def)
  from writes_are_approved [OF d(1) k run(1,2) _ run(3,4)]
  obtain a where "a \<in> set (rw_approvals w')" "ra_id a = pd_approval_id demo_decision" "ra_decision a = ApprovalDecision_APPROVED" by auto
  with d k show ?thesis by (auto simp: tree demo_decision_def)
qed

section \<open>Recovery after an interruption\<close>

text \<open>What is left when the process dies after \<open>n\<close> of the files were replaced.\<close>

definition crashed ::
  "promotion_env \<Rightarrow> promotion_run \<Rightarrow> string \<Rightarrow> repair_proposal \<Rightarrow> repair_validation \<Rightarrow> repair_approval \<Rightarrow> string list \<Rightarrow> nat \<Rightarrow>
     repair_world \<Rightarrow> repair_world" where
  "crashed e run base p v a paths n w =
     (let q = new_promotion e run base p v a (rw_tree w);
          q1 = with_event q PromotionStatus_APPLYING
                 ''All source hashes matched; atomically replacing authorized files.'' (run_now run)
      in (store_repair_promotion q1 (store_repair_promotion q w))
           \<lparr>rw_tree := write_all (take n (patch_writes p paths (rw_tree w))) (rw_tree w)\<rparr>)"

lemma dict_of_pairs_get: "dict_get k (dict_of_pairs ps) = map_of (rev ps) k"
proof -
  have "dict_get k (fold (\<lambda>(k, v). dict_set k v) ps d) = (case map_of (rev ps) k of None \<Rightarrow> dict_get k d | Some v \<Rightarrow> Some v)" for d
    by (induction ps arbitrary: d) (auto simp: map_add_def split: option.split)
  then show ?thesis by (simp add: dict_of_pairs_def dict_get_def split: option.split)
qed

lemma distinct_dict_of_pairs: "distinct (map fst (dict_of_pairs ps))"
proof -
  have "distinct (map fst (fold (\<lambda>(k, v). dict_set k v) ps d))" if "distinct (map fst d)" for d
    using that by (induction ps arbitrary: d) (simp_all add: distinct_dict_set split_paired_all)
  then show ?thesis by (simp add: dict_of_pairs_def)
qed

lemma set_dict_of_pairs: "(k, v) \<in> set (dict_of_pairs ps) \<longleftrightarrow> map_of (rev ps) k = Some v"
  using map_of_eq_Some_iff [OF distinct_dict_of_pairs, of ps k v] dict_of_pairs_get [of k ps] by (simp add: dict_get_def)

lemma validated_path_cong:
  assumes "\<And>k. dict_get k t' = None \<longleftrightarrow> dict_get k t = None"
  shows "validated_path e t' base ps = validated_path e t base ps"
  using assms by (intro ext) (simp add: validated_path_def resolve_strict_def Let_def split: sum.split)

lemma explicit_selection_dir:
  "explicit_selection e t r = Inr base \<Longrightarrow> explicit_selection e t' r = Inr base"
  by (auto simp: explicit_selection_def resolve_strict_def Let_def split: if_splits sum.splits)

text \<open>A file of the partly written tree has its old permission bits, and the same files exist.\<close>

lemma partly_written:
  assumes "validated_paths e t base p = Inr paths"
  shows "dict_get k (write_all (take n (patch_writes p paths t)) t) = None \<longleftrightarrow> dict_get k t = None"
    and "snd (file_of (write_all (take n (patch_writes p paths t)) t) k) = snd (file_of t k)"
    and "k \<notin> set paths \<Longrightarrow> dict_get k (write_all (take n (patch_writes p paths t)) t) = dict_get k t"
proof -
  let ?ws = "take n (patch_writes p paths t)"
  have written: "k \<in> set paths \<and> snd d = snd (file_of t k)" if "map_of (rev ?ws) k = Some d" for d
  proof -
    from that have "(k, d) \<in> set ?ws" by (metis map_of_SomeD set_rev)
    then have "(k, d) \<in> set (patch_writes p paths t)" by (rule in_set_takeD)
    then show ?thesis by (auto simp: patch_writes_def dest: set_zip_rightD)
  qed
  show "dict_get k (write_all ?ws t) = None \<longleftrightarrow> dict_get k t = None"
    using written targets_exist [OF assms] by (auto simp: dict_get_write_all split: option.splits)
  show "snd (file_of (write_all ?ws t) k) = snd (file_of t k)"
    using written by (auto simp: file_of_def dict_get_write_all split: option.splits)
  show "k \<notin> set paths \<Longrightarrow> dict_get k (write_all ?ws t) = dict_get k t"
    using written by (auto simp: dict_get_write_all split: option.splits)
qed

lemma recover_restores:
  assumes paths: "validated_paths e t base p = Inr paths" and ok: "tree_ok base t"
    and crash: "rw_tree w = write_all (take n (patch_writes p paths t)) t"
    and before: "\<forall>(c, target)\<in>set (zip (rp_changes p) paths). pc_before_content c = Some (fst (file_of t target))"
    and original: "prm_original_tree_fingerprint q = tree_fingerprint e base t"
    and "run_restore_fault run = None" and quiet: "touches_only {} (run_rollback_test run)"
    and alone: "\<forall>x\<in>set (rw_promotions w). prm_id x \<noteq> prm_id q \<longrightarrow> prm_proposal_id x \<noteq> prm_proposal_id q"
  shows "\<exists>q' w'. recover_promotion e run base p q w = (Inr q', w') \<and> prm_id q' = prm_id q \<and>
    prm_status q' = PromotionStatus_ROLLED_BACK \<and> (\<forall>k. dict_get k (rw_tree w') = dict_get k t)"
proof -
  note part = partly_written [OF paths, where n = n, folded crash]
  let ?entry = "\<lambda>(c, target). (target, (case pc_before_content c of None \<Rightarrow> [] | Some s \<Rightarrow> s), snd (file_of (rw_tree w) target))"
  let ?os = "dict_of_pairs (map ?entry (zip (rp_changes p) paths))"
  have entry: "d = file_of t k \<and> k \<in> set paths" if "(k, d) \<in> set (map ?entry (zip (rp_changes p) paths))" for k d
    using that before part(2) by (auto simp: prod_eq_iff dest: set_zip_rightD split: option.splits)
  have all: "fst ` set (map ?entry (zip (rp_changes p) paths)) = set paths"
  proof -
    have "map fst (map ?entry (zip (rp_changes p) paths)) = paths"
      using validated_paths_facts(1) [OF paths] by (auto simp: map_snd_zip comp_def case_prod_beta)
    then show ?thesis by (metis set_map)
  qed
  have restored: "dict_get k (write_all ?os (rw_tree w)) = dict_get k t" for k
  proof (rule write_all_restores)
    show "dict_get k t = Some d" if "(k, d) \<in> set ?os" for k d
    proof -
      from map_of_SomeD [OF that [unfolded set_dict_of_pairs]]
      have "(k, d) \<in> set (map ?entry (zip (rp_changes p) paths))" unfolding set_rev .
      from entry [OF this] targets_exist [OF paths, of k] show ?thesis by (auto simp: file_of_def split: option.splits)
    qed
    show "dict_get k (rw_tree w) = dict_get k t" if "k \<notin> fst ` set ?os" for k
    proof -
      have "map_of (rev (map ?entry (zip (rp_changes p) paths))) k = None"
        using that set_dict_of_pairs [of k] by (cases "map_of (rev (map ?entry (zip (rp_changes p) paths))) k") force+
      then have "k \<notin> set paths" using all by (simp add: map_of_eq_None_iff)
      with part(3) show ?thesis by blast
    qed
  qed
  have "distinct (map fst (write_all ?os (rw_tree w)))" using ok by (simp add: crash tree_ok_def distinct_write_all)
  from tree_fingerprint_cong [OF ok this restored] original
  have same: "tree_fingerprint e base (write_all ?os (rw_tree w)) = prm_original_tree_fingerprint q" by simp
  have contents: "\<not> (\<exists>c\<in>set (rp_changes p). pc_before_content c = None)"
    using before validated_paths_facts(1) [OF paths] by (fastforce simp: in_set_conv_nth set_zip)
  have valid: "validated_paths e (rw_tree w) base p = Inr paths"
    using paths validated_path_cong [OF part(1)] by (simp add: validated_paths_def)
  obtain ex t2 where t2: "execute (run_rollback_test run) (test_command e (rp_test_path p)) (write_all ?os (rw_tree w)) = (ex, t2)" by force
  have rolled: "\<forall>k. dict_get k t2 = dict_get k t" using execute_touches(1) [OF quiet t2] restored by simp
  let ?q = "with_event
    (q\<lparr>prm_rollback_tree_fingerprint := Some (prm_original_tree_fingerprint q), prm_rollback_verified := Some True,
       prm_rollback_validation := Some ex,
       prm_failure_reason := Some ''Interrupted promotion was automatically rolled back during resume.'',
       prm_completed_at := Some (run_now run)\<rparr>)
    PromotionStatus_ROLLED_BACK ''Interrupted promotion was automatically rolled back during resume.'' (run_now run)"
  have "save_repair_promotion ?q (w\<lparr>rw_tree := t2\<rparr>) = (Inr (), store_repair_promotion ?q (w\<lparr>rw_tree := t2\<rparr>))"
    using alone by (auto simp: save_repair_promotion_def)
  then have "recover_promotion e run base p q w = (Inr ?q, store_repair_promotion ?q (w\<lparr>rw_tree := t2\<rparr>))"
    by (simp only: recover_promotion_def contents if_False valid sum.case Let_def restore_all_def assms(6) option.case prod.case t2
        same simp_thms if_True)
  moreover have "prm_id ?q = prm_id q" by simp
  ultimately show ?thesis using rolled by fastforce
qed



section \<open>Refusals\<close>

lemma promote_raised_verified:
  assumes "promote e run base p v a w = (Inl x, w')" and "rw_tree w' \<noteq> rw_tree w"
  shows "\<exists>q\<in>set (rw_promotions w'). prm_id q = run_id run \<and> prm_proposal_id q = rp_id p \<and> prm_approval_id q = ra_id a \<and>
    prm_status q = PromotionStatus_VERIFIED \<and> pe_reconcile e q (rw_tree w') = Inl x"
  using assms(1)
proof (cases rule: promote_cases)
  case (raised paths q y)
  have checked: "q' \<in> set (rw_promotions w2) \<and> prm_id q' = prm_id q1 \<and> prm_approval_id q' = prm_approval_id q1 \<and>
      prm_proposal_id q' = prm_proposal_id q1 \<and> prm_status q' = PromotionStatus_VERIFIED \<and> pe_reconcile e q' (rw_tree w2) = Inl y"
    if "check_applied e run base c q1 w1 = (Apply_raised y, q', w2)" for c q1 w1 q' w2
    using that by (auto simp: check_applied_def Let_def with_event_def mem_insert_or_update split: prod.splits if_splits sum.splits option.splits)
  from raised(2,3) show ?thesis
    by (auto simp: apply_changes_def Let_def new_promotion_def with_event_def dest!: checked split: prod.splits option.splits intro!: bexI [of _ q])
qed (use assms in auto)



end
