(* ===== verification/Models_Pursuit.thy ===== *)
theory Models_Pursuit
  imports Provenance
begin

text \<open>
  The data of the recursive pursuit of a task (\<open>src/rlmgraph/models.py\<close>: planning runs and decisions,
  execution attempts, the routing policy, conflict clusters, verdicts and resolution attempts), and
  the tables of the SQLite store that keep it, as a record around the store of the other components.
\<close>

section \<open>Records\<close>

datatype planning_action =
    PlanningAction_CREATED | PlanningAction_PRIORITIZED | PlanningAction_ROUTED | PlanningAction_REUSED
  | PlanningAction_REPLANNED | PlanningAction_CONSUMED | PlanningAction_STOPPED | PlanningAction_COMPLETED

datatype execution_outcome =
    ExecutionOutcome_SUCCEEDED | ExecutionOutcome_LOW_CONFIDENCE | ExecutionOutcome_FAILED | ExecutionOutcome_REUSED

record pursuit_config =
  puc_max_depth :: int
  puc_max_codex_calls :: int
  puc_max_retries_per_task :: int
  puc_minimum_confidence :: rat
  puc_max_retrieval_tokens :: int
  puc_max_duplicate_investigations :: int
  puc_max_wall_time_seconds :: rat

record planning_run =
  plr_id :: string
  plr_root_task_id :: string
  plr_status :: task_status
  plr_stopping_reason :: "stopping_reason option"
  plr_model_calls_used :: int
  plr_retrieval_tokens_used :: int
  plr_duplicate_investigations :: int
  plr_elapsed_seconds :: rat
  plr_max_model_calls :: int
  plr_max_retrieval_tokens :: int
  plr_max_depth :: int
  plr_max_duplicate_investigations :: int
  plr_max_wall_time_seconds :: rat
  plr_started_at :: py_time
  plr_completed_at :: "py_time option"

record plan_decision =
  pld_id :: string
  pld_root_task_id :: string
  pld_task_id :: string
  pld_action :: planning_action
  pld_reason :: string
  pld_priority :: rat
  pld_uncertainty :: rat
  pld_difficulty :: rat
  pld_route :: "task_route option"
  pld_dependency_task_ids :: "string list"
  pld_model_calls_used :: int
  pld_retrieval_tokens_used :: int
  pld_duplicate_investigations :: int
  pld_elapsed_seconds :: rat
  pld_stopping_reason :: "stopping_reason option"
  pld_created_at :: py_time

record execution_attempt =
  xa_id :: string
  xa_root_task_id :: string
  xa_task_id :: string
  xa_sequence :: int
  xa_planned_route :: task_route
  xa_actual_route :: task_route
  xa_worker :: string
  xa_outcome :: execution_outcome
  xa_input_tokens :: int
  xa_output_tokens :: int
  xa_total_tokens :: int
  xa_estimated_cost_usd :: rat
  xa_latency_ms :: rat
  xa_confidence :: "rat option"
  xa_fallback_from_attempt_id :: "string option"
  xa_fallback_reason :: "string option"
  xa_error :: "string option"
  xa_task_category :: string
  xa_task_difficulty :: rat
  xa_route_prediction_id :: "string option"
  xa_authorized_paths :: "string list"
  xa_max_worker_calls :: "int option"
  xa_max_wall_time_seconds :: "rat option"
  xa_max_context_tokens :: "int option"
  xa_max_result_tokens :: "int option"
  xa_sandbox :: "string option"
  xa_structured_result_validated :: "bool option"
  xa_access_scope_verified :: "bool option"
  xa_source_integrity_verified :: "bool option"
  xa_project_write_attempted :: "bool option"
  xa_safety_decision :: "string option"
  xa_replay :: bool
  xa_cost_basis :: "string option"
  xa_created_at :: py_time

record worker_route_estimate =
  wre_route :: task_route
  wre_worker :: string
  wre_sample_count :: int
  wre_success_count :: int
  wre_predicted_success_probability :: rat
  wre_mean_reported_confidence :: rat
  wre_calibration_error :: rat
  wre_predicted_cost_usd :: rat
  wre_predicted_latency_ms :: rat
  wre_predicted_tokens :: rat
  wre_eligible :: bool
  wre_evidence_execution_ids :: "string list"

record route_prediction =
  rpn_id :: string
  rpn_root_task_id :: string
  rpn_task_id :: string
  rpn_task_category :: string
  rpn_policy_version :: int
  rpn_static_route :: task_route
  rpn_chosen_route :: task_route
  rpn_chosen_worker :: string
  rpn_required_success_probability :: rat
  rpn_minimum_evidence :: int
  rpn_changed_static_route :: bool
  rpn_reason :: string
  rpn_candidates :: "worker_route_estimate list"
  rpn_fixed_safety_limits :: "(string \<times> rat) list"
  rpn_created_at :: py_time

record routing_policy_update =
  rpu_id :: string
  rpu_version :: int
  rpu_previous_version :: int
  rpu_root_task_id :: string
  rpu_triggering_task_id :: string
  rpu_task_category :: string
  rpu_from_route :: task_route
  rpu_to_route :: task_route
  rpu_accepted :: bool
  rpu_reason :: string
  rpu_minimum_evidence :: int
  rpu_required_success_probability :: rat
  rpu_evidence_execution_ids :: "string list"
  rpu_fixed_safety_limits :: "(string \<times> rat) list"
  rpu_created_at :: py_time

record route_evaluation =
  rev_id :: string
  rev_prediction_id :: string
  rev_task_id :: string
  rev_policy_version :: int
  rev_predicted_route :: task_route
  rev_actual_final_route :: task_route
  rev_predicted_success_probability :: rat
  rev_actual_success :: bool
  rev_predicted_cost_usd :: rat
  rev_actual_cost_usd :: rat
  rev_cost_error_usd :: rat
  rev_predicted_latency_ms :: rat
  rev_actual_latency_ms :: rat
  rev_latency_error_ms :: rat
  rev_predicted_tokens :: rat
  rev_actual_tokens :: int
  rev_worker_calls :: int
  rev_fallback_count :: int
  rev_created_at :: py_time

datatype cluster_status = ClusterStatus_OPEN | ClusterStatus_RESOLVED | ClusterStatus_UNRESOLVED
datatype verdict_status = VerdictStatus_RESOLVED | VerdictStatus_UNRESOLVED
datatype resolution_choice =
    ResolutionChoice_LEFT | ResolutionChoice_RIGHT | ResolutionChoice_VALUE | ResolutionChoice_NEITHER

record interpretation_group =
  ig_value :: string
  ig_normalized_value :: string
  ig_claim_ids :: "string list"

record claim_conflict =
  cc_left_claim_id :: string
  cc_right_claim_id :: string
  cc_assertion_key :: string
  cc_left_value :: string
  cc_right_value :: string

record conflict_cluster =
  ccl_id :: string
  ccl_project_fingerprint :: string
  ccl_assertion_key :: string
  ccl_claim_ids :: "string list"
  ccl_interpretations :: "interpretation_group list"
  ccl_corroborated_claim_ids :: "string list"
  ccl_outlier_claim_ids :: "string list"
  ccl_resolution_task_id :: "string option"
  ccl_resolved_claim_id :: "string option"
  ccl_selected_value :: "string option"
  ccl_status :: cluster_status
  ccl_created_at :: py_time
  ccl_updated_at :: py_time

record resolution_result =
  rr_selected_claim :: resolution_choice
  rr_resolved_assertion :: "assertion option"
  rr_rationale :: string
  rr_evidence :: "evidence list"
  rr_confidence :: rat
  rr_unresolved_questions :: "string list"
  rr_selected_value :: "string option"
  rr_selected_claim_ids :: "string list"
  rr_corroborated_claim_ids :: "string list"
  rr_outlier_claim_ids :: "string list"

record resolution_attempt =
  rat_id :: string
  rat_task_id :: string
  rat_result :: resolution_result
  rat_evidence_claim_ids :: "string list"
  rat_created_at :: py_time

record conflict_verdict =
  cvd_id :: string
  cvd_resolution_task_id :: string
  cvd_conflict_cluster_id :: "string option"
  cvd_assertion_key :: string
  cvd_status :: verdict_status
  cvd_selected_value :: "string option"
  cvd_confidence :: rat
  cvd_rationale :: string
  cvd_evidence :: "evidence list"
  cvd_claim_ids :: "string list"
  cvd_supporting_claim_ids :: "string list"
  cvd_contradicting_claim_ids :: "string list"
  cvd_evidence_claim_ids :: "string list"
  cvd_resolver_attempt_id :: string
  cvd_unresolved_questions :: "string list"
  cvd_confidence_threshold :: rat
  cvd_max_resolution_attempts :: int
  cvd_created_at :: py_time
  cvd_updated_at :: py_time

section \<open>The tables\<close>

record plan_store =
  ps_store :: store
  ps_runs :: "planning_run list"
  ps_decisions :: "plan_decision list"
  ps_attempts :: "execution_attempt list"
  ps_predictions :: "route_prediction list"
  ps_updates :: "routing_policy_update list"
  ps_evaluations :: "route_evaluation list"
  ps_clusters :: "conflict_cluster list"
  ps_verdicts :: "conflict_verdict list"
  ps_resolutions :: "resolution_attempt list"

definition link :: "string \<Rightarrow> string \<Rightarrow> string \<Rightarrow> plan_store \<Rightarrow> plan_store" where
  "link source relation target s =
     s\<lparr>ps_store := save_edge \<lparr>ge_source = source, ge_relation = relation, ge_target = target\<rparr> (ps_store s)\<rparr>"

definition store_task :: "task \<Rightarrow> plan_store \<Rightarrow> plan_store" where
  "store_task t s = s\<lparr>ps_store := save_task t (ps_store s)\<rparr>"

text \<open>\<open>save_claim\<close> completes the provenance of the claim object it is given and stores it.\<close>

definition save_claim :: "env \<Rightarrow> string option \<Rightarrow> py_time \<Rightarrow> task \<Rightarrow> claim \<Rightarrow> plan_store \<Rightarrow> claim \<times> plan_store" where
  "save_claim e commit now t c s =
     (let c' = initialize_provenance e commit now t c;
          s1 = s\<lparr>ps_store := (ps_store s)\<lparr>st_claims := upsert cl_id c' (st_claims (ps_store s))\<rparr>\<rparr>
      in (c', fold (\<lambda>k. link (cl_id c') ''DERIVED_FROM'' k) (cl_source_claim_ids c')
                (link (tk_id t) ''DISCOVERED'' (cl_id c') s1)))"

definition save_planning_run :: "planning_run \<Rightarrow> plan_store \<Rightarrow> plan_store" where
  "save_planning_run r s =
     link (plr_root_task_id r) ''HAS_PLANNING_RUN'' (plr_id r) (s\<lparr>ps_runs := upsert plr_id r (ps_runs s)\<rparr>)"

definition save_plan_decision :: "plan_decision \<Rightarrow> plan_store \<Rightarrow> plan_store" where
  "save_plan_decision d s =
     link (pld_id d) ''PLANNED_TASK'' (pld_task_id d)
       (link (pld_root_task_id d) ''HAS_PLAN_DECISION'' (pld_id d)
         (s\<lparr>ps_decisions := upsert pld_id d (ps_decisions s)\<rparr>))"

definition execution_attempts :: "plan_store \<Rightarrow> string \<Rightarrow> execution_attempt list" where
  "execution_attempts s task = filter (\<lambda>a. xa_task_id a = task) (ps_attempts s)"

definition save_execution_attempt :: "execution_attempt \<Rightarrow> plan_store \<Rightarrow> plan_store" where
  "save_execution_attempt a s =
     (let s1 = link (xa_task_id a) ''HAS_EXECUTION'' (xa_id a) (s\<lparr>ps_attempts := upsert xa_id a (ps_attempts s)\<rparr>);
          s2 = (case xa_fallback_from_attempt_id a of
                  None \<Rightarrow> s1 | Some i \<Rightarrow> if i = [] then s1 else link i ''FALLBACK_TO'' (xa_id a) s1)
      in (case xa_route_prediction_id a of
            None \<Rightarrow> s2 | Some i \<Rightarrow> if i = [] then s2 else link i ''PREDICTED_EXECUTION'' (xa_id a) s2))"

definition save_route_prediction :: "route_prediction \<Rightarrow> plan_store \<Rightarrow> plan_store" where
  "save_route_prediction p s =
     link (rpn_task_id p) ''HAS_ROUTE_PREDICTION'' (rpn_id p) (s\<lparr>ps_predictions := upsert rpn_id p (ps_predictions s)\<rparr>)"

definition save_route_evaluation :: "route_evaluation \<Rightarrow> plan_store \<Rightarrow> plan_store" where
  "save_route_evaluation v s =
     link (rev_prediction_id v) ''EVALUATES_PREDICTION'' (rev_id v) (s\<lparr>ps_evaluations := upsert rev_id v (ps_evaluations s)\<rparr>)"

definition save_routing_policy_update :: "routing_policy_update \<Rightarrow> plan_store \<Rightarrow> plan_store" where
  "save_routing_policy_update u s =
     fold (\<lambda>x. link (rpu_id u) ''BASED_ON_EXECUTION'' x) (rpu_evidence_execution_ids u)
       (link (rpu_root_task_id u) ''HAS_POLICY_UPDATE'' (rpu_id u) (s\<lparr>ps_updates := upsert rpu_id u (ps_updates s)\<rparr>))"

definition routing_policy_updates :: "plan_store \<Rightarrow> routing_policy_update list" where
  "routing_policy_updates s = sort_key rpu_version (ps_updates s)"

definition save_conflict_cluster :: "conflict_cluster \<Rightarrow> plan_store \<Rightarrow> plan_store" where
  "save_conflict_cluster c s = s\<lparr>ps_clusters := upsert ccl_id c (ps_clusters s)\<rparr>"

definition get_conflict_cluster :: "plan_store \<Rightarrow> string \<Rightarrow> conflict_cluster option" where
  "get_conflict_cluster s k = lookup_row ccl_id k (ps_clusters s)"

definition save_resolution_attempt :: "resolution_attempt \<Rightarrow> plan_store \<Rightarrow> plan_store" where
  "save_resolution_attempt a s =
     link (rat_task_id a) ''ATTEMPTED'' (rat_id a) (s\<lparr>ps_resolutions := upsert rat_id a (ps_resolutions s)\<rparr>)"

definition resolution_attempts :: "plan_store \<Rightarrow> string \<Rightarrow> resolution_attempt list" where
  "resolution_attempts s task = filter (\<lambda>a. rat_task_id a = task) (ps_resolutions s)"

text \<open>The verdict table has a unique index on the task: the replacing insert removes the row with the
  same identifier and the row of the same task. The edges of the former verdict are deleted first.\<close>

definition verdict_relations :: "string list" where
  "verdict_relations = [''HAS_VERDICT'', ''SUPPORTS_VERDICT'', ''CONTRADICTS_VERDICT'', ''EVIDENCE_FOR_VERDICT'']"

definition drop_verdict_edges :: "string \<Rightarrow> plan_store \<Rightarrow> plan_store" where
  "drop_verdict_edges v s =
     s\<lparr>ps_store := (ps_store s)\<lparr>st_edges := filter (\<lambda>e. \<not> (ge_target e = v \<and> ge_relation e \<in> set verdict_relations))
        (st_edges (ps_store s))\<rparr>\<rparr>"

definition save_conflict_verdict :: "conflict_verdict \<Rightarrow> plan_store \<Rightarrow> plan_store" where
  "save_conflict_verdict v s =
     (let s1 = drop_verdict_edges (cvd_id v) s;
          s2 = s1\<lparr>ps_verdicts := filter (\<lambda>x. cvd_id x \<noteq> cvd_id v \<and> cvd_resolution_task_id x \<noteq> cvd_resolution_task_id v)
                 (ps_verdicts s1) @ [v]\<rparr>;
          s3 = link (cvd_resolution_task_id v) ''HAS_VERDICT'' (cvd_id v) s2;
          s4 = fold (\<lambda>c. link c ''SUPPORTS_VERDICT'' (cvd_id v)) (cvd_supporting_claim_ids v) s3;
          s5 = fold (\<lambda>c. link c ''CONTRADICTS_VERDICT'' (cvd_id v)) (cvd_contradicting_claim_ids v) s4
      in fold (\<lambda>c. link c ''EVIDENCE_FOR_VERDICT'' (cvd_id v)) (cvd_evidence_claim_ids v) s5)"

definition conflict_verdicts :: "plan_store \<Rightarrow> string \<Rightarrow> conflict_verdict list" where
  "conflict_verdicts s task = filter (\<lambda>v. cvd_resolution_task_id v = task) (ps_verdicts s)"

section \<open>Frame facts\<close>

lemma link_frame [simp]:
  "ps_runs (link a r b s) = ps_runs s" "ps_decisions (link a r b s) = ps_decisions s" "ps_attempts (link a r b s) = ps_attempts s"
  "ps_predictions (link a r b s) = ps_predictions s" "ps_updates (link a r b s) = ps_updates s"
  "ps_evaluations (link a r b s) = ps_evaluations s" "ps_clusters (link a r b s) = ps_clusters s"
  "ps_verdicts (link a r b s) = ps_verdicts s" "ps_resolutions (link a r b s) = ps_resolutions s"
  "st_tasks (ps_store (link a r b s)) = st_tasks (ps_store s)" "st_claims (ps_store (link a r b s)) = st_claims (ps_store s)"
  by (simp_all add: link_def save_edge_def)

lemma fold_link_frame [simp]:
  "ps_runs (fold (\<lambda>x. link (f x) r (g x)) xs s) = ps_runs s" "ps_decisions (fold (\<lambda>x. link (f x) r (g x)) xs s) = ps_decisions s"
  "ps_attempts (fold (\<lambda>x. link (f x) r (g x)) xs s) = ps_attempts s" "ps_predictions (fold (\<lambda>x. link (f x) r (g x)) xs s) = ps_predictions s"
  "ps_updates (fold (\<lambda>x. link (f x) r (g x)) xs s) = ps_updates s" "ps_evaluations (fold (\<lambda>x. link (f x) r (g x)) xs s) = ps_evaluations s"
  "ps_clusters (fold (\<lambda>x. link (f x) r (g x)) xs s) = ps_clusters s" "ps_verdicts (fold (\<lambda>x. link (f x) r (g x)) xs s) = ps_verdicts s"
  "ps_resolutions (fold (\<lambda>x. link (f x) r (g x)) xs s) = ps_resolutions s"
  "st_tasks (ps_store (fold (\<lambda>x. link (f x) r (g x)) xs s)) = st_tasks (ps_store s)"
  "st_claims (ps_store (fold (\<lambda>x. link (f x) r (g x)) xs s)) = st_claims (ps_store s)"
  by (induction xs arbitrary: s) simp_all

lemma store_task_frame [simp]:
  "get_task (ps_store (store_task t s)) k = (if k = tk_id t then Some t else get_task (ps_store s) k)"
  "st_claims (ps_store (store_task t s)) = st_claims (ps_store s)"
  by (simp_all add: store_task_def save_task_def get_task_def row_simps)

lemma save_claim_frame:
  assumes "save_claim e commit now t c s = (c', s')"
  shows "get_task (ps_store s') k = get_task (ps_store s) k"
    and "get_claim (ps_store s') k = (if k = cl_id c' then Some c' else get_claim (ps_store s) k)"
    and "c' = initialize_provenance e commit now t c"
proof -
  have "fold (\<lambda>k. link (cl_id c') ''DERIVED_FROM'' k) ks w = fold (\<lambda>x. link ((\<lambda>_. cl_id c') x) ''DERIVED_FROM'' ((\<lambda>x. x) x)) ks w" for ks w by simp
  note frame = fold_link_frame [where f = "\<lambda>_. cl_id c'" and g = "\<lambda>x. x" and r = "''DERIVED_FROM''"]
  show "get_task (ps_store s') k = get_task (ps_store s) k"
    "get_claim (ps_store s') k = (if k = cl_id c' then Some c' else get_claim (ps_store s) k)"
    "c' = initialize_provenance e commit now t c"
    using assms frame by (auto simp: save_claim_def Let_def get_task_def get_claim_def row_simps)
qed

lemma verdict_frame [simp]:
  "st_tasks (ps_store (save_conflict_verdict v s)) = st_tasks (ps_store s)"
  "st_claims (ps_store (save_conflict_verdict v s)) = st_claims (ps_store s)"
  "ps_clusters (save_conflict_verdict v s) = ps_clusters s" "ps_resolutions (save_conflict_verdict v s) = ps_resolutions s"
  "ps_verdicts (save_conflict_verdict v s) =
     filter (\<lambda>x. cvd_id x \<noteq> cvd_id v \<and> cvd_resolution_task_id x \<noteq> cvd_resolution_task_id v) (ps_verdicts s) @ [v]"
  using fold_link_frame [where f = "\<lambda>c. c" and g = "\<lambda>_. cvd_id v"]
  by (simp_all add: save_conflict_verdict_def drop_verdict_edges_def Let_def)

lemma attempt_frame [simp]:
  "st_tasks (ps_store (save_resolution_attempt a s)) = st_tasks (ps_store s)"
  "st_claims (ps_store (save_resolution_attempt a s)) = st_claims (ps_store s)"
  "ps_clusters (save_resolution_attempt a s) = ps_clusters s" "ps_verdicts (save_resolution_attempt a s) = ps_verdicts s"
  "ps_resolutions (save_resolution_attempt a s) = upsert rat_id a (ps_resolutions s)"
  by (simp_all add: save_resolution_attempt_def)

lemma store_task_tables [simp]:
  "ps_clusters (store_task t s) = ps_clusters s" "ps_verdicts (store_task t s) = ps_verdicts s"
  "ps_resolutions (store_task t s) = ps_resolutions s"
  by (simp_all add: store_task_def)

end
