(* ===== verification/Planning.thy ===== *)
theory Planning
  imports Models_Pursuit
begin

text \<open>
  The recursive planner (\<open>src/rlmgraph/planner.py\<close>): uncertainty, routing and priority of a task, and
  the admission of model calls against the budgets of a planning run. The time of a call and the
  identifiers it draws are arguments.
\<close>

section \<open>Assessing a task\<close>

text \<open>\<open>round(x, n)\<close> of an exact value: to the nearest, ties to even.\<close>

definition half_even :: "rat \<Rightarrow> int" where
  "half_even y =
     (let f = \<lfloor>y\<rfloor>; d = y - of_int f in
      if d < 1 / 2 then f else if d > 1 / 2 then f + 1 else if even f then f else f + 1)"

definition py_round :: "nat \<Rightarrow> rat \<Rightarrow> rat" where
  "py_round n x = of_int (half_even (x * 10 ^ n)) / 10 ^ n"

text \<open>\<open>max(1, math.ceil(len(text) / 4))\<close>\<close>

definition token_estimate :: "string \<Rightarrow> int" where
  "token_estimate t = max 1 \<lceil>(of_nat (length t) :: rat) / 4\<rceil>"

definition py_min_default :: "rat \<Rightarrow> rat list \<Rightarrow> rat" where
  "py_min_default d xs = (case xs of [] \<Rightarrow> d | x # ys \<Rightarrow> fold min ys x)"

definition task_uncertainty :: "store \<Rightarrow> task \<Rightarrow> rat" where
  "task_uncertainty s t =
     (if tk_status t = TaskStatus_DONE then 0
      else if truthy (tk_evidence_gap t) then 9 / 10
      else if tk_kind t = TaskKind_RESOLUTION then
        let confidences = List.map_filter (\<lambda>k. map_option cl_confidence (get_claim s k)) (tk_conflicting_claim_ids t);
            weak = 1 - py_min_default 0 confidences
        in min 1 (max (8 / 10) weak)
      else 6 / 10)"

definition planned_route :: "task \<Rightarrow> task_route" where
  "planned_route t =
     (if tk_status t = TaskStatus_DONE \<or> truthy (tk_reused_claim_id t) then TaskRoute_MEMORY
      else if tk_kind t = TaskKind_RESOLUTION then TaskRoute_RESOLVER
      else if tk_difficulty t \<ge> 75 / 100 \<or> tk_uncertainty t \<ge> 95 / 100 then TaskRoute_CODEX
      else TaskRoute_LOCAL_MODEL)"

record planner =
  pn_root_task_id :: string
  pn_config :: pursuit_config
  pn_run :: planning_run

definition new_planner :: "string \<Rightarrow> string \<Rightarrow> pursuit_config \<Rightarrow> py_time \<Rightarrow> plan_store \<Rightarrow> planner \<times> plan_store" where
  "new_planner run_id root_id c now s =
     (let run = \<lparr>plr_id = run_id, plr_root_task_id = root_id, plr_status = TaskStatus_OPEN, plr_stopping_reason = None,
            plr_model_calls_used = 0, plr_retrieval_tokens_used = 0, plr_duplicate_investigations = 0, plr_elapsed_seconds = 0,
            plr_max_model_calls = puc_max_codex_calls c, plr_max_retrieval_tokens = puc_max_retrieval_tokens c,
            plr_max_depth = puc_max_depth c, plr_max_duplicate_investigations = puc_max_duplicate_investigations c,
            plr_max_wall_time_seconds = puc_max_wall_time_seconds c, plr_started_at = now, plr_completed_at = None\<rparr>
      in (\<lparr>pn_root_task_id = root_id, pn_config = c, pn_run = run\<rparr>, save_planning_run run s))"

definition record_decision ::
  "planner \<Rightarrow> task \<Rightarrow> planning_action \<Rightarrow> string \<Rightarrow> stopping_reason option \<Rightarrow> string \<Rightarrow> py_time \<Rightarrow> plan_store \<Rightarrow> plan_store" where
  "record_decision p t action reason stop i now s =
     save_plan_decision
       \<lparr>pld_id = i, pld_root_task_id = pn_root_task_id p, pld_task_id = tk_id t, pld_action = action, pld_reason = reason,
        pld_priority = tk_priority t, pld_uncertainty = tk_uncertainty t, pld_difficulty = tk_difficulty t, pld_route = tk_route t,
        pld_dependency_task_ids = tk_dependency_task_ids t, pld_model_calls_used = plr_model_calls_used (pn_run p),
        pld_retrieval_tokens_used = plr_retrieval_tokens_used (pn_run p),
        pld_duplicate_investigations = plr_duplicate_investigations (pn_run p),
        pld_elapsed_seconds = plr_elapsed_seconds (pn_run p), pld_stopping_reason = stop, pld_created_at = now\<rparr> s"

definition assessed_task :: "store \<Rightarrow> task \<Rightarrow> task" where
  "assessed_task s t =
     (let t1 = t\<lparr>tk_uncertainty := task_uncertainty s t\<rparr>;
          t2 = t1\<lparr>tk_difficulty := min 1 (2 / 10 + 15 / 100 * of_int (tk_depth t1) + 1 / 10 * of_nat (length (tk_source_claim_ids t1)))\<rparr>;
          t3 = t2\<lparr>tk_priority := py_round 3 (100 * tk_uncertainty t2 + 10 * tk_difficulty t2 - of_int (tk_depth t2))\<rparr>
      in t3\<lparr>tk_route := Some (planned_route t3)\<rparr>)"

definition assess_task ::
  "planner \<Rightarrow> task \<Rightarrow> string \<Rightarrow> planning_action \<Rightarrow> string \<Rightarrow> py_time \<Rightarrow> plan_store \<Rightarrow> task \<times> plan_store" where
  "assess_task p t reason action i now s =
     (let t' = assessed_task (ps_store s) t
      in (t', record_decision p t' action reason None i now (store_task t' s)))"

section \<open>Admitting model calls\<close>

definition tick :: "py_time \<Rightarrow> planner \<Rightarrow> planner" where
  "tick now p = p\<lparr>pn_run := (pn_run p)\<lparr>plr_elapsed_seconds := max 0 (of_int (now - plr_started_at (pn_run p)) / 1000000)\<rparr>\<rparr>"

definition refusal :: "planner \<Rightarrow> task \<Rightarrow> int \<Rightarrow> stopping_reason option" where
  "refusal p t requested =
     (if tk_depth t > puc_max_depth (pn_config p) then Some StoppingReason_MAX_DEPTH
      else if plr_model_calls_used (pn_run p) \<ge> puc_max_codex_calls (pn_config p) then Some StoppingReason_CALL_BUDGET
      else if plr_retrieval_tokens_used (pn_run p) + requested > puc_max_retrieval_tokens (pn_config p) then
        Some StoppingReason_RETRIEVAL_TOKEN_BUDGET
      else if plr_elapsed_seconds (pn_run p) \<ge> puc_max_wall_time_seconds (pn_config p) then
        Some StoppingReason_WALL_TIME_BUDGET
      else if plr_duplicate_investigations (pn_run p) > puc_max_duplicate_investigations (pn_config p) then
        Some StoppingReason_DUPLICATE_BUDGET
      else None)"

definition charge :: "int \<Rightarrow> planner \<Rightarrow> planner" where
  "charge requested p =
     p\<lparr>pn_run := (pn_run p)\<lparr>plr_model_calls_used := plr_model_calls_used (pn_run p) + 1,
        plr_retrieval_tokens_used := plr_retrieval_tokens_used (pn_run p) + requested\<rparr>\<rparr>"

definition admit_call ::
  "planner \<Rightarrow> task \<Rightarrow> string \<Rightarrow> string \<Rightarrow> py_time \<Rightarrow> plan_store \<Rightarrow> stopping_reason option \<times> planner \<times> plan_store" where
  "admit_call p t context i now s =
     (let p1 = tick now p; requested = token_estimate context in
      case refusal p1 t requested of
        Some r \<Rightarrow> (Some r, p1, s)
      | None \<Rightarrow>
          let p2 = charge requested p1
          in (None, p2, record_decision p2 t PlanningAction_CONSUMED
                (''Admitted model call with '' @ py_str_int requested @ '' retrieval tokens.'') None i now
                (save_planning_run (pn_run p2) s)))"

definition note_duplicate_avoided :: "planner \<Rightarrow> task \<Rightarrow> string \<Rightarrow> string \<Rightarrow> py_time \<Rightarrow> plan_store \<Rightarrow> plan_store" where
  "note_duplicate_avoided p t reused i now s =
     record_decision p t PlanningAction_REUSED
       (''Reused completed investigation '' @ reused @ ''; duplicate model call avoided.'') None i now s"

definition stopping_reason_value :: "stopping_reason \<Rightarrow> string" where
  "stopping_reason_value r =
     (case r of
        StoppingReason_COMPLETED \<Rightarrow> ''COMPLETED'' | StoppingReason_LOW_CONFIDENCE \<Rightarrow> ''LOW_CONFIDENCE''
      | StoppingReason_MAX_DEPTH \<Rightarrow> ''MAX_DEPTH'' | StoppingReason_CALL_BUDGET \<Rightarrow> ''CALL_BUDGET''
      | StoppingReason_RETRY_EXHAUSTED \<Rightarrow> ''RETRY_EXHAUSTED'' | StoppingReason_CYCLE_DETECTED \<Rightarrow> ''CYCLE_DETECTED''
      | StoppingReason_RETRIEVAL_TOKEN_BUDGET \<Rightarrow> ''RETRIEVAL_TOKEN_BUDGET''
      | StoppingReason_WALL_TIME_BUDGET \<Rightarrow> ''WALL_TIME_BUDGET'' | StoppingReason_DUPLICATE_BUDGET \<Rightarrow> ''DUPLICATE_BUDGET'')"

definition finish_run ::
  "planner \<Rightarrow> task_status \<Rightarrow> stopping_reason \<Rightarrow> string \<Rightarrow> py_time \<Rightarrow> plan_store \<Rightarrow> planner \<times> plan_store" where
  "finish_run p status reason i now s =
     (let p1 = tick now p;
          p2 = p1\<lparr>pn_run := (pn_run p1)\<lparr>plr_status := status, plr_stopping_reason := Some reason, plr_completed_at := Some now\<rparr>\<rparr>;
          s1 = save_planning_run (pn_run p2) s
      in (p2, case get_task (ps_store s1) (pn_root_task_id p2) of
                None \<Rightarrow> s1
              | Some t \<Rightarrow> record_decision p2 t
                  (if status = TaskStatus_DONE then PlanningAction_COMPLETED else PlanningAction_STOPPED)
                  (''Planning run ended with '' @ stopping_reason_value reason @ ''.'') (Some reason) i now s1))"

text \<open>The text whose estimated tokens a call is charged with.\<close>

definition retrieval_context :: "store \<Rightarrow> task \<Rightarrow> string" where
  "retrieval_context s t =
     py_join [CHR 0x0A]
       ([tk_question t, (case tk_evidence_gap t of None \<Rightarrow> [] | Some g \<Rightarrow> g),
         (case tk_disputed_assertion_key t of None \<Rightarrow> [] | Some k \<Rightarrow> k)] @
        concat (map (\<lambda>k. case get_claim s k of None \<Rightarrow> [] | Some c \<Rightarrow> cl_conclusion c # map ev_detail (cl_evidence c))
          (tk_source_claim_ids t @ tk_conflicting_claim_ids t)))"

end
