(* ===== verification/Routing.thy ===== *)
theory Routing
  imports Planning "HOL-Library.AList" "HOL-Library.Product_Lexorder"
begin

text \<open>
  The learned routing policy (\<open>src/rlmgraph/routing_policy.py\<close>): from the recorded executions it
  estimates every registered worker, chooses the cheapest one that has enough evidence and enough
  predicted success, records a new version of the policy when that changes the governed route, and
  later compares its prediction with what happened. A worker is an argument: what it answers, or the
  exception it raises with its text, and how long it takes.
\<close>

section \<open>Workers\<close>

record investigation_result =
  ir_conclusion :: string
  ir_evidence :: "evidence list"
  ir_confidence :: rat
  ir_files_examined :: "string list"
  ir_files_changed :: "string list"
  ir_unresolved_questions :: "string list"
  ir_assertions :: "assertion list"

type_synonym worker_call = "string \<Rightarrow> string \<Rightarrow> ((py_error \<times> string) + investigation_result) \<times> rat"

record worker_spec =
  wsp_route :: task_route
  wsp_investigate :: worker_call
  wsp_name :: string
  wsp_input_cost :: rat
  wsp_output_cost :: rat

type_synonym workers = "(task_route \<times> worker_spec) list"

text \<open>\<open>{worker.route: worker for worker in workers}\<close>\<close>

definition worker_table :: "worker_spec list \<Rightarrow> workers" where
  "worker_table ws = fold (\<lambda>w. AList.update (wsp_route w) w) ws []"

section \<open>Texts\<close>

definition task_kind_value :: "task_kind \<Rightarrow> string" where
  "task_kind_value k =
     (case k of TaskKind_INVESTIGATION \<Rightarrow> ''INVESTIGATION'' | TaskKind_RESOLUTION \<Rightarrow> ''RESOLUTION''
      | TaskKind_FOLLOW_UP \<Rightarrow> ''FOLLOW_UP'')"

definition task_route_value :: "task_route \<Rightarrow> string" where
  "task_route_value r =
     (case r of TaskRoute_MEMORY \<Rightarrow> ''MEMORY'' | TaskRoute_LOCAL_INVESTIGATOR \<Rightarrow> ''LOCAL_INVESTIGATOR''
      | TaskRoute_LOCAL_MODEL \<Rightarrow> ''LOCAL_MODEL'' | TaskRoute_CODEX \<Rightarrow> ''CODEX'' | TaskRoute_RESOLVER \<Rightarrow> ''RESOLVER'')"

definition routing_category :: "task \<Rightarrow> string" where
  "routing_category t =
     task_kind_value (tk_kind t) @ '':'' @
     (if tk_difficulty t < 4 / 10 then ''LOW'' else if tk_difficulty t < 75 / 100 then ''MEDIUM'' else ''HIGH'')"

text \<open>\<open>f"{x:.nf}"\<close>\<close>

definition pad_digits :: "nat \<Rightarrow> string \<Rightarrow> string" where
  "pad_digits n s = replicate (n - length s) CHR ''0'' @ s"

definition py_fixed :: "nat \<Rightarrow> rat \<Rightarrow> string" where
  "py_fixed n x =
     (let m = half_even (\<bar>x\<bar> * 10 ^ n) in
      (if x < 0 then ''-'' else []) @ py_str_int (m div 10 ^ n) @
      (if n = 0 then [] else ''.'' @ pad_digits n (py_str_int (m mod 10 ^ n))))"

section \<open>The root of a task\<close>

lemma get_task_mem: "get_task s k = Some t \<Longrightarrow> t \<in> set (st_tasks s) \<and> tk_id t = k"
  by (auto simp: get_task_def dest: lookup_row_Some)

text \<open>The loop follows the parents and stops at a task it has seen.\<close>

function climb :: "store \<Rightarrow> string list \<Rightarrow> task \<Rightarrow> task" where
  "climb s seen t =
     (if truthy (tk_parent_task_id t) \<and> tk_id t \<notin> set seen then
        (case get_task s (the (tk_parent_task_id t)) of
           None \<Rightarrow> t
         | Some parent \<Rightarrow> climb s (tk_id t # seen) parent)
      else t)"
  by pat_completeness auto

termination
proof (relation "measure (\<lambda>(s, seen, t). card (insert (tk_id t) (tk_id ` set (st_tasks s)) - set seen))", goal_cases)
  case 1
  show ?case by simp
next
  case (2 s seen t parent)
  let ?ids = "tk_id ` set (st_tasks s)"
  from get_task_mem [OF 2(2)] have "tk_id parent \<in> ?ids" by blast
  then have "insert (tk_id parent) ?ids - set (tk_id t # seen) \<subset> insert (tk_id t) ?ids - set seen" using 2(1) by auto
  then show ?case by (simp add: psubset_card_mono)
qed

declare climb.simps [simp del]

definition root_task_id :: "store \<Rightarrow> task \<Rightarrow> string" where
  "root_task_id s t = tk_id (climb s [] t)"

section \<open>Predicting\<close>

record routing_config =
  rcf_minimum_evidence :: int
  rcf_required_success_probability :: rat

definition default_routing_config :: routing_config where
  "default_routing_config = \<lparr>rcf_minimum_evidence = 3, rcf_required_success_probability = 75 / 100\<rparr>"

definition mean :: "rat list \<Rightarrow> rat" where
  "mean xs = sum_list xs / of_nat (length xs)"

definition route_evidence :: "plan_store \<Rightarrow> task_route \<Rightarrow> string \<Rightarrow> string \<Rightarrow> execution_attempt list" where
  "route_evidence s route worker category =
     filter (\<lambda>a. xa_actual_route a = route \<and> xa_worker a = worker \<and> xa_task_category a = category) (ps_attempts s)"

definition estimate :: "routing_config \<Rightarrow> plan_store \<Rightarrow> task \<Rightarrow> task_route \<Rightarrow> worker_spec \<Rightarrow> string \<Rightarrow> worker_route_estimate" where
  "estimate c s t route w category =
     (let evidence = route_evidence s route (wsp_name w) category;
          successes = filter (\<lambda>a. xa_outcome a \<in> {ExecutionOutcome_SUCCEEDED, ExecutionOutcome_REUSED}) evidence;
          n = int (length evidence); k = int (length successes);
          probability = of_int (k + 1) / of_int (n + 2);
          confidences = List.map_filter xa_confidence evidence;
          reported = (if confidences \<noteq> [] then mean confidences else 1 / 2);
          empirical = (if n \<noteq> 0 then of_int k / of_int n else 0);
          input = token_estimate (tk_question t)
      in \<lparr>wre_route = route, wre_worker = wsp_name w, wre_sample_count = n, wre_success_count = k,
          wre_predicted_success_probability = probability, wre_mean_reported_confidence = reported,
          wre_calibration_error = \<bar>reported - empirical\<bar>,
          wre_predicted_cost_usd = (if evidence \<noteq> [] then mean (map xa_estimated_cost_usd evidence)
            else of_int input * wsp_input_cost w / 1000000),
          wre_predicted_latency_ms = (if evidence \<noteq> [] then mean (map xa_latency_ms evidence) else 0),
          wre_predicted_tokens = (if evidence \<noteq> [] then mean (map (\<lambda>a. of_int (xa_total_tokens a)) evidence) else of_int input),
          wre_eligible = (n \<ge> rcf_minimum_evidence c \<and> probability \<ge> rcf_required_success_probability c),
          wre_evidence_execution_ids = map xa_id evidence\<rparr>)"

text \<open>\<open>min(..., key=...)\<close> is the first of the smallest.\<close>

fun first_min :: "('a \<Rightarrow> 'k::linorder) \<Rightarrow> 'a list \<Rightarrow> 'a option" where
  "first_min f [] = None"
| "first_min f (x # xs) =
     (case first_min f xs of None \<Rightarrow> Some x | Some y \<Rightarrow> if f y < f x then Some y else Some x)"

definition estimate_key :: "worker_route_estimate \<Rightarrow> rat \<times> rat \<times> rat" where
  "estimate_key x = (wre_predicted_cost_usd x, wre_predicted_latency_ms x, - wre_predicted_success_probability x)"

definition routing_version :: "plan_store \<Rightarrow> int" where
  "routing_version s = (let vs = map rpu_version (filter rpu_accepted (routing_policy_updates s)) in
     case vs of [] \<Rightarrow> 0 | v # us \<Rightarrow> fold max us v)"

definition current_route :: "plan_store \<Rightarrow> string \<Rightarrow> task_route \<Rightarrow> task_route" where
  "current_route s category static =
     (case find (\<lambda>u. rpu_accepted u \<and> rpu_task_category u = category) (rev (routing_policy_updates s)) of
        None \<Rightarrow> static | Some u \<Rightarrow> rpu_to_route u)"

text \<open>The identifiers and the time a call of the policy draws.\<close>

record policy_call =
  pcl_prediction_id :: string
  pcl_update_id :: string
  pcl_evaluation_id :: string
  pcl_now :: py_time

definition accept_update ::
  "routing_config \<Rightarrow> policy_call \<Rightarrow> task \<Rightarrow> string \<Rightarrow> task_route \<Rightarrow> task_route \<Rightarrow> worker_route_estimate option \<Rightarrow>
     (string \<times> rat) list \<Rightarrow> int \<Rightarrow> plan_store \<Rightarrow> (plan_store, int) effect" where
  "accept_update c x t category from_route to_route chosen limits version s =
     (case chosen of
        None \<Rightarrow> (Inl AssertionError, s)
      | Some e \<Rightarrow>
          (Inr (version + 1), save_routing_policy_update
            \<lparr>rpu_id = pcl_update_id x, rpu_version = version + 1, rpu_previous_version = version,
             rpu_root_task_id = root_task_id (ps_store s) t, rpu_triggering_task_id = tk_id t, rpu_task_category = category,
             rpu_from_route = from_route, rpu_to_route = to_route, rpu_accepted = True,
             rpu_reason = ''Changed route only after '' @ py_str_int (wre_sample_count e) @ '' persisted executions; predicted success '' @
               py_fixed 3 (wre_predicted_success_probability e) @ '' meets fixed threshold '' @
               py_fixed 3 (rcf_required_success_probability c) @ ''.'',
             rpu_minimum_evidence = rcf_minimum_evidence c,
             rpu_required_success_probability = rcf_required_success_probability c,
             rpu_evidence_execution_ids = wre_evidence_execution_ids e, rpu_fixed_safety_limits = limits,
             rpu_created_at = pcl_now x\<rparr> s))"

definition predict ::
  "routing_config \<Rightarrow> policy_call \<Rightarrow> task \<Rightarrow> workers \<Rightarrow> task_route \<Rightarrow> (string \<times> rat) list \<Rightarrow> plan_store \<Rightarrow>
     (plan_store, route_prediction) effect" where
  "predict c x t workers static limits s =
     (let category = routing_category t;
          current = current_route s category static;
          estimates = map (\<lambda>(route, w). estimate c s t route w category) workers;
          chosen = first_min estimate_key (filter wre_eligible estimates);
          chosen_route = (case chosen of None \<Rightarrow> current | Some e \<Rightarrow> wre_route e);
          chosen_worker = (case chosen of
              None \<Rightarrow> (case map_of workers current of None \<Rightarrow> ''UNREGISTERED'' | Some w \<Rightarrow> wsp_name w)
            | Some e \<Rightarrow> wre_worker e);
          reason = (case chosen of
              None \<Rightarrow> ''Current governed route retained: no alternative has enough calibrated evidence at the required success probability.''
            | Some e \<Rightarrow> ''Selected cheapest eligible worker at '' @ py_fixed 3 (wre_predicted_success_probability e) @
                '' predicted success, $'' @ py_fixed 6 (wre_predicted_cost_usd e) @ '', and '' @
                py_fixed 2 (wre_predicted_latency_ms e) @ ''ms predicted latency.'');
          version = routing_version s;
          (version', s') = (if chosen_route \<noteq> current
            then accept_update c x t category current chosen_route chosen limits version s
            else (Inr version, s))
      in case version' of
           Inl err \<Rightarrow> (Inl err, s')
         | Inr v \<Rightarrow>
             let p = \<lparr>rpn_id = pcl_prediction_id x, rpn_root_task_id = root_task_id (ps_store s') t, rpn_task_id = tk_id t,
                   rpn_task_category = category, rpn_policy_version = v, rpn_static_route = static,
                   rpn_chosen_route = chosen_route, rpn_chosen_worker = chosen_worker,
                   rpn_required_success_probability = rcf_required_success_probability c,
                   rpn_minimum_evidence = rcf_minimum_evidence c, rpn_changed_static_route = (chosen_route \<noteq> static),
                   rpn_reason = reason, rpn_candidates = estimates, rpn_fixed_safety_limits = limits,
                   rpn_created_at = pcl_now x\<rparr>
             in (Inr p, save_route_prediction p s'))"

section \<open>Evaluating a prediction\<close>

definition evaluate_prediction :: "policy_call \<Rightarrow> route_prediction \<Rightarrow> plan_store \<Rightarrow> (plan_store, route_evaluation) effect" where
  "evaluate_prediction x p s =
     (let attempts = filter (\<lambda>a. xa_route_prediction_id a = Some (rpn_id p)) (execution_attempts s (rpn_task_id p)) in
      if attempts = [] then (Inl (ValueError (''Prediction has no execution attempts: '' @ rpn_id p)), s)
      else
        let chosen = find (\<lambda>e. wre_route e = rpn_chosen_route p \<and> wre_worker e = rpn_chosen_worker p) (rpn_candidates p);
            probability = (case chosen of None \<Rightarrow> 1 / 2 | Some e \<Rightarrow> wre_predicted_success_probability e);
            cost = (case chosen of None \<Rightarrow> 0 | Some e \<Rightarrow> wre_predicted_cost_usd e);
            latency = (case chosen of None \<Rightarrow> 0 | Some e \<Rightarrow> wre_predicted_latency_ms e);
            tokens = (case chosen of None \<Rightarrow> 0 | Some e \<Rightarrow> wre_predicted_tokens e);
            final = last attempts;
            actual_cost = sum_list (map xa_estimated_cost_usd attempts);
            actual_latency = sum_list (map xa_latency_ms attempts);
            v = \<lparr>rev_id = pcl_evaluation_id x, rev_prediction_id = rpn_id p, rev_task_id = rpn_task_id p,
                 rev_policy_version = rpn_policy_version p, rev_predicted_route = rpn_chosen_route p,
                 rev_actual_final_route = xa_actual_route final, rev_predicted_success_probability = probability,
                 rev_actual_success = (xa_outcome final = ExecutionOutcome_SUCCEEDED),
                 rev_predicted_cost_usd = cost, rev_actual_cost_usd = actual_cost, rev_cost_error_usd = \<bar>cost - actual_cost\<bar>,
                 rev_predicted_latency_ms = latency, rev_actual_latency_ms = actual_latency,
                 rev_latency_error_ms = \<bar>latency - actual_latency\<bar>, rev_predicted_tokens = tokens,
                 rev_actual_tokens = sum_list (map xa_total_tokens attempts),
                 rev_worker_calls = int (length (filter (\<lambda>a. xa_worker a \<noteq> ''UNREGISTERED'') attempts)),
                 rev_fallback_count = int (length (filter (\<lambda>a. truthy (xa_fallback_from_attempt_id a)) attempts)),
                 rev_created_at = pcl_now x\<rparr>
        in (Inr v, save_route_evaluation v s))"

end
