(* ===== verification/Execution.thy ===== *)
theory Execution
  imports Routing
begin

text \<open>
  Executing a follow-up (\<open>src/rlmgraph/execution.py\<close> and \<open>src/rlmgraph/followup.py\<close>): the adaptive
  investigator dispatches a question to the worker the routing policy chooses and escalates to the
  stronger worker when the local one fails or answers weakly; every worker call is recorded as an
  execution attempt. Latencies come with a worker's answer.
\<close>

section \<open>The ledger\<close>

record attempt_report =
  ar_planned_route :: task_route
  ar_actual_route :: task_route
  ar_worker :: string
  ar_outcome :: execution_outcome
  ar_input_tokens :: int
  ar_output_tokens :: int
  ar_cost :: rat
  ar_latency :: rat
  ar_confidence :: "rat option"
  ar_fallback_from :: "string option"
  ar_fallback_reason :: "string option"
  ar_error :: "string option"
  ar_prediction_id :: "string option"

definition record_attempt :: "string \<Rightarrow> py_time \<Rightarrow> task \<Rightarrow> attempt_report \<Rightarrow> plan_store \<Rightarrow> execution_attempt \<times> plan_store" where
  "record_attempt i now t r s =
     (let a = \<lparr>xa_id = i, xa_root_task_id = root_task_id (ps_store s) t, xa_task_id = tk_id t,
            xa_sequence = int (length (execution_attempts s (tk_id t))) + 1,
            xa_planned_route = ar_planned_route r, xa_actual_route = ar_actual_route r, xa_worker = ar_worker r,
            xa_outcome = ar_outcome r, xa_input_tokens = ar_input_tokens r, xa_output_tokens = ar_output_tokens r,
            xa_total_tokens = ar_input_tokens r + ar_output_tokens r, xa_estimated_cost_usd = ar_cost r,
            xa_latency_ms = ar_latency r, xa_confidence = ar_confidence r,
            xa_fallback_from_attempt_id = ar_fallback_from r, xa_fallback_reason = ar_fallback_reason r,
            xa_error = ar_error r, xa_task_category = routing_category t, xa_task_difficulty = tk_difficulty t,
            xa_route_prediction_id = ar_prediction_id r, xa_authorized_paths = [], xa_max_worker_calls = None,
            xa_max_wall_time_seconds = None, xa_max_context_tokens = None, xa_max_result_tokens = None, xa_sandbox = None,
            xa_structured_result_validated = None, xa_access_scope_verified = None, xa_source_integrity_verified = None,
            xa_project_write_attempted = None, xa_safety_decision = None, xa_replay = False, xa_cost_basis = None,
            xa_created_at = now\<rparr>
      in (a, save_execution_attempt a s))"

section \<open>The adaptive investigator\<close>

record investigator =
  inv_workers :: workers
  inv_minimum_confidence :: rat
  inv_routing :: routing_config
  inv_last_call_count :: int
  inv_max_calls :: int
  inv_max_retrieval_tokens :: int
  inv_prediction_id :: "string option"

definition new_investigator :: "worker_spec list \<Rightarrow> rat \<Rightarrow> routing_config \<Rightarrow> investigator" where
  "new_investigator ws minimum c =
     \<lparr>inv_workers = worker_table ws, inv_minimum_confidence = minimum, inv_routing = c, inv_last_call_count = 0,
      inv_max_calls = 2, inv_max_retrieval_tokens = 2 ^ 31 - 1, inv_prediction_id = None\<rparr>"

definition configure_budget :: "int \<Rightarrow> int \<Rightarrow> investigator \<Rightarrow> investigator" where
  "configure_budget max_calls max_tokens v = v\<lparr>inv_max_calls := max 1 max_calls, inv_max_retrieval_tokens := max_tokens\<rparr>"

text \<open>\<open>max(candidates, key=created_at)\<close> is the first of the latest.\<close>

definition open_task :: "store \<Rightarrow> string \<Rightarrow> string \<Rightarrow> task result" where
  "open_task s question base =
     (case filter (\<lambda>t. tk_question t = question \<and> tk_project_root t = base \<and> tk_status t = TaskStatus_OPEN) (st_tasks s) of
        [] \<Rightarrow> Inl (ValueError (''No open task matches adaptive investigation: '' @ question))
      | t # ts \<Rightarrow> Inr (fold (\<lambda>x best. if tk_created_at x > tk_created_at best then x else best) ts t))"

text \<open>What a call reads from outside: the identifiers of its attempts, its time, and the JSON text of a
  result.\<close>

record investigation_call =
  icl_policy :: policy_call
  icl_attempt_id :: "task_route \<Rightarrow> string"
  icl_dump :: "investigation_result \<Rightarrow> string"
  icl_resolve :: "string \<Rightarrow> string"

record dispatch_state =
  ds_store :: plan_store
  ds_calls :: int
  ds_fallback_from :: "string option"
  ds_fallback_reason :: "string option"
  ds_last_error :: "(py_error \<times> string) option"
  ds_last_result :: "investigation_result option"

definition weak_result :: "investigator \<Rightarrow> investigation_result \<Rightarrow> bool" where
  "weak_result v r \<longleftrightarrow> ir_confidence r < inv_minimum_confidence v \<or> ir_unresolved_questions r \<noteq> []"

text \<open>One worker after the other; the second component is the result that the loop returns at once.\<close>

fun dispatch ::
  "investigator \<Rightarrow> investigation_call \<Rightarrow> task \<Rightarrow> task_route \<Rightarrow> route_prediction \<Rightarrow> string \<Rightarrow> string \<Rightarrow> task_route list \<Rightarrow>
     dispatch_state \<Rightarrow> dispatch_state \<times> investigation_result option" where
  "dispatch v x t planned p question base [] d = (d, None)"
| "dispatch v x t planned p question base (route # routes) d =
     (let now = pcl_now (icl_policy x); input = token_estimate question in
      if ds_calls d \<ge> inv_max_calls v then (d, None)
      else if ds_calls d > 0 \<and> input > inv_max_retrieval_tokens v then (d, None)
      else case map_of (inv_workers v) route of
        None \<Rightarrow>
          let message = ''No worker registered for route '' @ task_route_value route;
              (a, s) = record_attempt (icl_attempt_id x route) now t
                \<lparr>ar_planned_route = planned, ar_actual_route = route, ar_worker = ''UNREGISTERED'',
                 ar_outcome = ExecutionOutcome_FAILED, ar_input_tokens = 0, ar_output_tokens = 0, ar_cost = 0, ar_latency = 0,
                 ar_confidence = None, ar_fallback_from = ds_fallback_from d, ar_fallback_reason = ds_fallback_reason d,
                 ar_error = Some message, ar_prediction_id = Some (rpn_id p)\<rparr> (ds_store d)
          in dispatch v x t planned p question base routes
               (d\<lparr>ds_store := s, ds_fallback_from := Some (xa_id a), ds_fallback_reason := Some message,
                  ds_last_error := Some (RuntimeError message, message)\<rparr>)
      | Some w \<Rightarrow>
          let d1 = d\<lparr>ds_calls := ds_calls d + 1\<rparr> in
          (case wsp_investigate w question base of
             (Inl (err, message), latency) \<Rightarrow>
               let (a, s) = record_attempt (icl_attempt_id x route) now t
                 \<lparr>ar_planned_route = planned, ar_actual_route = route, ar_worker = wsp_name w,
                  ar_outcome = ExecutionOutcome_FAILED, ar_input_tokens = input, ar_output_tokens = 0,
                  ar_cost = of_int input * wsp_input_cost w / 1000000, ar_latency = latency, ar_confidence = None,
                  ar_fallback_from = ds_fallback_from d, ar_fallback_reason = ds_fallback_reason d,
                  ar_error = Some message, ar_prediction_id = Some (rpn_id p)\<rparr> (ds_store d1)
               in dispatch v x t planned p question base routes
                    (d1\<lparr>ds_store := s, ds_fallback_from := Some (xa_id a),
                        ds_fallback_reason := Some (wsp_name w @ '' failed: '' @ message),
                        ds_last_error := Some (err, message)\<rparr>)
           | (Inr r, latency) \<Rightarrow>
               let output = token_estimate (icl_dump x r);
                   (a, s) = record_attempt (icl_attempt_id x route) now t
                     \<lparr>ar_planned_route = planned, ar_actual_route = route, ar_worker = wsp_name w,
                      ar_outcome = (if weak_result v r then ExecutionOutcome_LOW_CONFIDENCE else ExecutionOutcome_SUCCEEDED),
                      ar_input_tokens = input, ar_output_tokens = output,
                      ar_cost = (of_int input * wsp_input_cost w + of_int output * wsp_output_cost w) / 1000000,
                      ar_latency = latency, ar_confidence = Some (ir_confidence r),
                      ar_fallback_from = ds_fallback_from d, ar_fallback_reason = ds_fallback_reason d,
                      ar_error = None, ar_prediction_id = Some (rpn_id p)\<rparr> (ds_store d1);
                   d2 = d1\<lparr>ds_store := s, ds_last_result := Some r\<rparr>
               in if \<not> weak_result v r \<or> routes = [] then (d2, Some r)
                  else dispatch v x t planned p question base routes
                    (d2\<lparr>ds_fallback_from := Some (xa_id a),
                        ds_fallback_reason := Some (wsp_name w @ '' returned confidence '' @ py_fixed 3 (ir_confidence r) @
                          '' with '' @ py_str_int (int (length (ir_unresolved_questions r))) @ '' unresolved question(s).'')\<rparr>)))"

definition planned_of :: "task \<Rightarrow> task_route" where
  "planned_of t = (case tk_route t of None \<Rightarrow> TaskRoute_LOCAL_MODEL | Some r \<Rightarrow> r)"

definition static_route :: "task \<Rightarrow> task_route" where
  "static_route t = (if planned_of t = TaskRoute_LOCAL_INVESTIGATOR then TaskRoute_LOCAL_MODEL else planned_of t)"

definition safety_limits :: "investigator \<Rightarrow> (string \<times> rat) list" where
  "safety_limits v =
     [(''max_worker_calls'', of_int (inv_max_calls v)), (''max_worker_retrieval_tokens'', of_int (inv_max_retrieval_tokens v)),
      (''minimum_confidence'', inv_minimum_confidence v)]"

definition fallback_routes :: "investigator \<Rightarrow> task_route \<Rightarrow> task_route list" where
  "fallback_routes v primary =
     primary # (if primary = TaskRoute_LOCAL_MODEL \<and> map_of (inv_workers v) TaskRoute_CODEX \<noteq> None then [TaskRoute_CODEX] else [])"

text \<open>Evaluating a prediction before the result or the error is handed on.\<close>

definition evaluated :: "policy_call \<Rightarrow> route_prediction \<Rightarrow> 'a result \<Rightarrow> plan_store \<Rightarrow> (plan_store, 'a) effect" where
  "evaluated x p r s = (case evaluate_prediction x p s of (Inl err, s') \<Rightarrow> (Inl err, s') | (Inr _, s') \<Rightarrow> (r, s'))"

definition investigate ::
  "investigator \<Rightarrow> investigation_call \<Rightarrow> string \<Rightarrow> string \<Rightarrow> plan_store \<Rightarrow>
     investigation_result result \<times> investigator \<times> plan_store" where
  "investigate v x question base s =
     (case open_task (ps_store s) question (icl_resolve x base) of
        Inl err \<Rightarrow> (Inl err, v, s)
      | Inr t \<Rightarrow>
          (case predict (inv_routing v) (icl_policy x) t (inv_workers v) (static_route t) (safety_limits v) s of
             (Inl err, s1) \<Rightarrow> (Inl err, v, s1)
           | (Inr p, s1) \<Rightarrow>
               let (d, early) = dispatch v x t (planned_of t) p question base (fallback_routes v (rpn_chosen_route p))
                     \<lparr>ds_store = s1, ds_calls = 0, ds_fallback_from = None, ds_fallback_reason = None,
                      ds_last_error = None, ds_last_result = None\<rparr>;
                   v' = v\<lparr>inv_last_call_count := ds_calls d, inv_prediction_id := Some (rpn_id p)\<rparr>;
                   (r, s2) = (case early of
                       Some result \<Rightarrow> evaluated (icl_policy x) p (Inr result) (ds_store d)
                     | None \<Rightarrow>
                         (case ds_last_error d of
                            Some (err, _) \<Rightarrow>
                              if execution_attempts (ds_store d) (tk_id t) \<noteq> [] then evaluated (icl_policy x) p (Inl err) (ds_store d)
                              else (Inl err, ds_store d)
                          | None \<Rightarrow>
                              (case ds_last_result d of
                                 Some result \<Rightarrow> evaluated (icl_policy x) p (Inr result) (ds_store d)
                               | None \<Rightarrow> (Inl (RuntimeError (''No executable worker for planned route '' @
                                   task_route_value (planned_of t))), ds_store d))))
               in (r, v', s2)))"

section \<open>Follow-ups\<close>

text \<open>The executor counts the worker calls, at least one per execution. The claim it makes is completed
  with its provenance when it is saved. Other investigators than the adaptive one make one call.\<close>

record follow_up_call =
  fu_investigation :: investigation_call
  fu_claim_id :: string
  fu_env :: env
  fu_commit :: "string option"
  fu_now :: py_time

definition follow_up_claim :: "string \<Rightarrow> py_time \<Rightarrow> task \<Rightarrow> investigation_result \<Rightarrow> claim" where
  "follow_up_claim i now t r =
     \<lparr>cl_id = i, cl_fingerprint = tk_fingerprint t, cl_project_fingerprint = tk_project_fingerprint t, cl_project_root = [],
      cl_subject = tk_question t, cl_producer = ''AdaptiveInvestigator'', cl_kind = ClaimKind_DISCOVERY,
      cl_resolution_task_id = None, cl_resolved_claim_ids = [], cl_conclusion = ir_conclusion r,
      cl_confidence = ir_confidence r, cl_evidence = ir_evidence r, cl_files_examined = ir_files_examined r,
      cl_files_changed = ir_files_changed r, cl_unresolved_questions = ir_unresolved_questions r,
      cl_assertions = ir_assertions r, cl_created_at = now, cl_source_task_id = None, cl_source_claim_ids = [],
      cl_source_files = [], cl_source_commit = None, cl_learned_at = now, cl_valid_from = None, cl_valid_until = None,
      cl_validity_status = ClaimValidity_CURRENT,
      cl_validity_reason = ''Claim has not yet been checked against repository evidence.'', cl_validity_history = [],
      cl_superseded_by_claim_id = None, cl_memory_tier = MemoryTier_WORKING, cl_memory_lifecycle = MemoryLifecycle_ACTIVE,
      cl_tier_history = [], cl_promoted_to_claim_id = None, cl_successful_reuse_count = 0,
      cl_memory_policy_decision_id = None, cl_conflict_verdict_id = None\<rparr>"

definition started_task :: "py_time \<Rightarrow> task \<Rightarrow> task" where
  "started_task now t =
     t\<lparr>tk_started_at := (case tk_started_at t of None \<Rightarrow> Some now | Some x \<Rightarrow> Some x),
       tk_attempt_count := tk_attempt_count t + 1, tk_last_error := None\<rparr>"

definition task_status_value :: "task_status \<Rightarrow> string" where
  "task_status_value x =
     (case x of TaskStatus_OPEN \<Rightarrow> ''OPEN'' | TaskStatus_DONE \<Rightarrow> ''DONE'' | TaskStatus_RECURSE \<Rightarrow> ''RECURSE''
      | TaskStatus_STOPPED \<Rightarrow> ''STOPPED'')"

definition execute_follow_up ::
  "investigator \<Rightarrow> follow_up_call \<Rightarrow> string \<Rightarrow> plan_store \<Rightarrow> claim result \<times> int \<times> investigator \<times> plan_store" where
  "execute_follow_up v x task_id s =
     (case get_task (ps_store s) task_id of
        None \<Rightarrow> (Inl (ValueError (''Follow-up task not found: '' @ task_id)), 0, v, s)
      | Some t0 \<Rightarrow>
          if tk_kind t0 \<noteq> TaskKind_FOLLOW_UP then (Inl (ValueError (''Follow-up task not found: '' @ task_id)), 0, v, s)
          else if tk_status t0 \<noteq> TaskStatus_OPEN then
            (Inl (ValueError (''Follow-up task is not open: '' @ task_id @ '' ('' @ task_status_value (tk_status t0) @ '')'')), 0, v, s)
          else
            let t1 = started_task (fu_now x) t0; s1 = store_task t1 s;
                (r, v', s2) = investigate v (fu_investigation x) (tk_question t1) (tk_project_root t1) s1;
                calls = max 1 (inv_last_call_count v')
            in (case r of
                  Inl err \<Rightarrow> (Inl err, calls, v', s2)
                | Inr result \<Rightarrow>
                    let c = follow_up_claim (fu_claim_id x) (fu_now x) t1 result;
                        t2 = t1\<lparr>tk_output_claim_id := Some (cl_id c), tk_status := TaskStatus_DONE, tk_completed_at := Some (fu_now x)\<rparr>;
                        s3 = store_task t2 s2;
                        (c', s4) = save_claim (fu_env x) (fu_commit x) (fu_now x) t2 c s3;
                        s5 = (if truthy (tk_parent_task_id t2) then link (cl_id c') ''INFORMS'' (the (tk_parent_task_id t2)) s4 else s4)
                    in (Inr c', calls, v', s5)))"

end
