(* ===== verification/Pursuit_Demo.thy ===== *)
theory Pursuit_Demo
  imports Execution
begin

text \<open>
  A concrete pursuit for the witnesses: an open follow-up, a local worker that answers weakly, a
  stronger one that answers well, and three recorded executions of the stronger one.
\<close>

definition demo_task :: task where
  "demo_task = \<lparr>tk_id = ''T'', tk_question = ''why?'', tk_fingerprint = ''f'', tk_project_fingerprint = ''p'',
     tk_project_root = ''/r'', tk_kind = TaskKind_FOLLOW_UP, tk_parent_task_id = None, tk_conflicting_claim_ids = [],
     tk_disputed_assertion_key = None, tk_resolved_claim_id = None, tk_conflict_cluster_id = None,
     tk_conflict_verdict_id = None, tk_reused_verdict_id = None, tk_evidence_gap = None, tk_relevant_files = [],
     tk_source_claim_ids = [], tk_output_claim_id = None, tk_depth = 1, tk_attempt_count = 0, tk_started_at = None,
     tk_completed_at = None, tk_stopping_reason = None, tk_last_error = None, tk_status = TaskStatus_OPEN,
     tk_reused_claim_id = None, tk_reuse_type = None, tk_relevance_score = None, tk_reuse_reason = None,
     tk_reconstruction_id = None, tk_priority = 0, tk_uncertainty = 1, tk_difficulty = 1 / 2, tk_route = None,
     tk_dependency_task_ids = [], tk_created_at = 0\<rparr>"

definition pursuit_store :: "task list \<Rightarrow> execution_attempt list \<Rightarrow> plan_store" where
  "pursuit_store ts as = \<lparr>ps_store = empty_store\<lparr>st_tasks := ts\<rparr>, ps_runs = [], ps_decisions = [], ps_attempts = as,
     ps_predictions = [], ps_updates = [], ps_evaluations = [], ps_clusters = [], ps_verdicts = [], ps_resolutions = []\<rparr>"

definition pursuit_answer :: "rat \<Rightarrow> investigation_result" where
  "pursuit_answer c = \<lparr>ir_conclusion = ''because'', ir_evidence = [], ir_confidence = c, ir_files_examined = [], ir_files_changed = [],
     ir_unresolved_questions = [], ir_assertions = []\<rparr>"

definition demo_worker :: "task_route \<Rightarrow> string \<Rightarrow> rat \<Rightarrow> worker_spec" where
  "demo_worker route name c = \<lparr>wsp_route = route, wsp_investigate = (\<lambda>_ _. (Inr (pursuit_answer c), 1)), wsp_name = name,
     wsp_input_cost = 1, wsp_output_cost = 1\<rparr>"

definition demo_investigator :: investigator where
  "demo_investigator = new_investigator [demo_worker TaskRoute_LOCAL_MODEL ''local'' (1 / 2), demo_worker TaskRoute_CODEX ''codex'' 1]
     (3 / 4) default_routing_config"

definition demo_policy_call :: policy_call where
  "demo_policy_call = \<lparr>pcl_prediction_id = ''P'', pcl_update_id = ''U'', pcl_evaluation_id = ''E'', pcl_now = 5\<rparr>"

definition demo_call :: investigation_call where
  "demo_call = \<lparr>icl_policy = demo_policy_call, icl_attempt_id = (\<lambda>r. ''A'' @ task_route_value r), icl_dump = (\<lambda>_. ''{}''),
     icl_resolve = (\<lambda>p. p)\<rparr>"

lemma demo_ids: "inj (icl_attempt_id demo_call)"
proof (rule injI)
  fix x y assume "icl_attempt_id demo_call x = icl_attempt_id demo_call y"
  then show "x = y" by (cases x; cases y) (simp_all add: demo_call_def task_route_value_def)
qed

lemma demo_workers: "inv_workers demo_investigator =
    [(TaskRoute_LOCAL_MODEL, demo_worker TaskRoute_LOCAL_MODEL ''local'' (1 / 2)), (TaskRoute_CODEX, demo_worker TaskRoute_CODEX ''codex'' 1)]"
  by (simp add: demo_investigator_def new_investigator_def worker_table_def demo_worker_def)

lemma demo_open: "open_task (ps_store (pursuit_store [demo_task] as)) ''why?'' (icl_resolve demo_call ''/r'') = Inr demo_task"
  by (simp add: open_task_def pursuit_store_def demo_task_def demo_call_def)

text \<open>Three recorded successes of the stronger worker.\<close>

definition pursuit_attempt :: "string \<Rightarrow> execution_attempt" where
  "pursuit_attempt i = fst (record_attempt i 1 demo_task
     \<lparr>ar_planned_route = TaskRoute_CODEX, ar_actual_route = TaskRoute_CODEX, ar_worker = ''codex'',
      ar_outcome = ExecutionOutcome_SUCCEEDED, ar_input_tokens = 1, ar_output_tokens = 1, ar_cost = 1, ar_latency = 1,
      ar_confidence = Some 1, ar_fallback_from = None, ar_fallback_reason = None, ar_error = None, ar_prediction_id = None\<rparr>
     (pursuit_store [demo_task] []))"

definition demo_history :: plan_store where
  "demo_history = pursuit_store [demo_task] (map pursuit_attempt [''1'', ''2'', ''3''])"

lemma pursuit_attempt_simps [simp]:
  "xa_id (pursuit_attempt i) = i" "xa_actual_route (pursuit_attempt i) = TaskRoute_CODEX" "xa_worker (pursuit_attempt i) = ''codex''"
  "xa_task_category (pursuit_attempt i) = routing_category demo_task" "xa_outcome (pursuit_attempt i) = ExecutionOutcome_SUCCEEDED"
  "xa_confidence (pursuit_attempt i) = Some 1" "xa_estimated_cost_usd (pursuit_attempt i) = 1" "xa_latency_ms (pursuit_attempt i) = 1"
  "xa_total_tokens (pursuit_attempt i) = 2"
  by (simp_all add: pursuit_attempt_def record_attempt_def Let_def)

lemma demo_estimates:
  "filter wre_eligible (map (\<lambda>(route, w). estimate default_routing_config demo_history demo_task route w (routing_category demo_task))
     (inv_workers demo_investigator)) =
   [estimate default_routing_config demo_history demo_task TaskRoute_CODEX (demo_worker TaskRoute_CODEX ''codex'' 1) (routing_category demo_task)]"
  by (simp add: demo_workers estimate_def Let_def route_evidence_def demo_history_def pursuit_store_def default_routing_config_def
      demo_worker_def)

text \<open>Without a history the planned route is kept: the local worker answers weakly and the stronger one
  is asked.\<close>

lemma demo_prediction:
  "\<exists>p s'. predict default_routing_config demo_policy_call demo_task (inv_workers demo_investigator) TaskRoute_LOCAL_MODEL limits
      (pursuit_store [demo_task] []) = (Inr p, s') \<and> rpn_chosen_route p = TaskRoute_LOCAL_MODEL"
  by (simp add: predict_def Let_def demo_workers estimate_def route_evidence_def pursuit_store_def default_routing_config_def
      demo_worker_def current_route_def routing_policy_updates_def)

lemma demo_change:
  "\<exists>p s'. predict default_routing_config demo_policy_call demo_task (inv_workers demo_investigator) TaskRoute_LOCAL_MODEL limits
      demo_history = (Inr p, s') \<and> rpn_chosen_route p = TaskRoute_CODEX \<and> ps_updates s' \<noteq> []"
proof -
  have "current_route demo_history c TaskRoute_LOCAL_MODEL = TaskRoute_LOCAL_MODEL" for c
    by (simp add: current_route_def routing_policy_updates_def demo_history_def pursuit_store_def)
  moreover have "ps_updates (save_route_prediction p (save_routing_policy_update u s)) \<noteq> []" for p u s
    by (simp add: save_route_prediction_def save_routing_policy_update_def upsert_def)
  moreover have "wre_route (estimate c s t r w g) = r" for c s t r w g by (simp add: estimate_def Let_def)
  ultimately show ?thesis by (simp add: predict_def Let_def demo_estimates accept_update_def)
qed

end
