(* ===== verification/Planning_Properties.thy ===== *)
theory Planning_Properties
  imports Planning Pursuit_Demo
begin

text \<open>
  The budgets of a planning run: whatever calls are admitted and refused, the run stays within them,
  and what it has consumed is what the store says.
\<close>

lemma save_planning_run_frame [simp]:
  "ps_runs (save_planning_run r s) = upsert plr_id r (ps_runs s)" "ps_decisions (save_planning_run r s) = ps_decisions s"
  by (simp_all add: save_planning_run_def)

lemma record_decision_frame [simp]:
  "ps_runs (record_decision p t a m stop i now s) = ps_runs s"
  by (simp add: record_decision_def save_plan_decision_def)

lemma record_decision_decisions:
  assumes "i \<notin> pld_id ` set (ps_decisions s)"
  shows "\<exists>d. ps_decisions (record_decision p t a m stop i now s) = ps_decisions s @ [d] \<and> pld_action d = a \<and>
    pld_root_task_id d = pn_root_task_id p \<and> pld_task_id d = tk_id t"
proof -
  have "filter (\<lambda>x. pld_id x \<noteq> i) (ps_decisions s) = ps_decisions s"
    using assms by (intro filter_True ballI) (metis image_eqI)
  then show ?thesis by (simp add: record_decision_def save_plan_decision_def upsert_def)
qed

text \<open>A refused call changes nothing but the elapsed time of the run in memory.\<close>

lemma admit_call_cases:
  assumes "admit_call p t ctx i now s = (r, p', s')"
  obtains (refused) reason where "r = Some reason" and "refusal (tick now p) t (token_estimate ctx) = Some reason"
      and "p' = tick now p" and "s' = s"
  | (admitted) "r = None" and "refusal (tick now p) t (token_estimate ctx) = None"
      and "p' = charge (token_estimate ctx) (tick now p)"
      and "s' = record_decision p' t PlanningAction_CONSUMED
        (''Admitted model call with '' @ py_str_int (token_estimate ctx) @ '' retrieval tokens.'') None i now
        (save_planning_run (pn_run p') s)"
proof (cases "refusal (tick now p) t (token_estimate ctx)")
  case None
  with assms show thesis by (intro admitted) (auto simp: admit_call_def Let_def)
next
  case (Some reason)
  with assms show thesis by (intro refused [of reason]) (auto simp: admit_call_def Let_def)
qed

lemma tick_simps [simp]:
  "pn_config (tick now p) = pn_config p" "pn_root_task_id (tick now p) = pn_root_task_id p"
  "plr_model_calls_used (pn_run (tick now p)) = plr_model_calls_used (pn_run p)"
  "plr_retrieval_tokens_used (pn_run (tick now p)) = plr_retrieval_tokens_used (pn_run p)"
  "plr_id (pn_run (tick now p)) = plr_id (pn_run p)" "plr_started_at (pn_run (tick now p)) = plr_started_at (pn_run p)"
  by (simp_all add: tick_def)

lemma charge_simps [simp]:
  "pn_config (charge n p) = pn_config p" "pn_root_task_id (charge n p) = pn_root_task_id p"
  "plr_model_calls_used (pn_run (charge n p)) = plr_model_calls_used (pn_run p) + 1"
  "plr_retrieval_tokens_used (pn_run (charge n p)) = plr_retrieval_tokens_used (pn_run p) + n"
  "plr_id (pn_run (charge n p)) = plr_id (pn_run p)" "plr_elapsed_seconds (pn_run (charge n p)) = plr_elapsed_seconds (pn_run p)"
  by (simp_all add: charge_def)

section \<open>Runs of admissions\<close>

inductive admission_step :: "planner \<times> plan_store \<Rightarrow> planner \<times> plan_store \<Rightarrow> bool" where
  admission: "admit_call p t ctx i now s = (r, p', s') \<Longrightarrow> i \<notin> pld_id ` set (ps_decisions s) \<Longrightarrow>
    admission_step (p, s) (p', s')"

inductive_cases admission_stepE: "admission_step u u'"

definition consumed :: "planner \<Rightarrow> plan_store \<Rightarrow> plan_decision list" where
  "consumed p s = filter (\<lambda>d. pld_action d = PlanningAction_CONSUMED \<and> pld_root_task_id d = pn_root_task_id p) (ps_decisions s)"

text \<open>The invariant, for a run that started when \<open>n\<close> calls had been consumed under its root.\<close>

definition within_budget :: "pursuit_config \<Rightarrow> nat \<Rightarrow> planner \<times> plan_store \<Rightarrow> bool" where
  "within_budget c n u \<longleftrightarrow>
     (case u of (p, s) \<Rightarrow>
        pn_config p = c \<and>
        0 \<le> plr_model_calls_used (pn_run p) \<and> plr_model_calls_used (pn_run p) \<le> puc_max_codex_calls c \<and>
        0 \<le> plr_retrieval_tokens_used (pn_run p) \<and> plr_retrieval_tokens_used (pn_run p) \<le> puc_max_retrieval_tokens c \<and>
        int (length (consumed p s)) = int n + plr_model_calls_used (pn_run p) \<and>
        (\<exists>r. lookup_row plr_id (plr_id (pn_run p)) (ps_runs s) = Some r \<and>
           plr_model_calls_used r = plr_model_calls_used (pn_run p) \<and>
           plr_retrieval_tokens_used r = plr_retrieval_tokens_used (pn_run p)))"

lemma token_estimate_pos: "token_estimate t \<ge> 1"
  by (simp add: token_estimate_def)

lemma admission_within_step: "admission_step u u' \<Longrightarrow> within_budget c n u \<Longrightarrow> within_budget c n u'"
proof (elim admission_stepE)
  fix p t "ctx" i now s r p' s'
  assume u: "u = (p, s)" "u' = (p', s')" and inv: "within_budget c n u"
    and admit: "admit_call p t ctx i now s = (r, p', s')" and fresh: "i \<notin> pld_id ` set (ps_decisions s)"
  from admit show "within_budget c n u'"
  proof (cases rule: admit_call_cases)
    case (refused reason)
    with inv u show ?thesis by (simp add: within_budget_def consumed_def)
  next
    case admitted
    from admitted(2) inv u have fits: "plr_model_calls_used (pn_run p) < puc_max_codex_calls c"
      "plr_retrieval_tokens_used (pn_run p) + token_estimate ctx \<le> puc_max_retrieval_tokens c"
      by (auto simp: refusal_def within_budget_def split: if_splits)
    obtain d where d: "ps_decisions s' = ps_decisions s @ [d]" "pld_action d = PlanningAction_CONSUMED"
      "pld_root_task_id d = pn_root_task_id p'"
      using record_decision_decisions [of i "save_planning_run (pn_run p') s" p' t PlanningAction_CONSUMED] fresh admitted(4) by force
    have "ps_runs s' = upsert plr_id (pn_run p') (ps_runs s)" by (simp add: admitted(4))
    with inv u fits d token_estimate_pos [of ctx] show ?thesis
      by (simp add: within_budget_def consumed_def admitted(3) row_simps)
  qed
qed

interpretation admissions: invariant_system admission_step "within_budget c n" for c n
  by unfold_locales (rule admission_within_step)

text \<open>A planning run never exceeds its budgets: from its start, after any sequence of admitted and
  refused calls, it has used at most the configured number of model calls and of retrieval tokens,
  the calls it has used are exactly the consumption decisions recorded under its root since the
  start, and the stored run shows the same numbers.\<close>

theorem admissions_within_budget:
  assumes "new_planner run_id k c now s = (p0, s0)" and "0 \<le> puc_max_codex_calls c" and "0 \<le> puc_max_retrieval_tokens c"
    and "run_of admission_step (p0, s0) (p, s')"
  shows "plr_model_calls_used (pn_run p) \<le> puc_max_codex_calls c \<and>
    plr_retrieval_tokens_used (pn_run p) \<le> puc_max_retrieval_tokens c \<and>
    int (length (consumed p s')) = int (length (consumed p0 s)) + plr_model_calls_used (pn_run p) \<and>
    (\<exists>r. lookup_row plr_id (plr_id (pn_run p)) (ps_runs s') = Some r \<and>
       plr_model_calls_used r = plr_model_calls_used (pn_run p) \<and>
       plr_retrieval_tokens_used r = plr_retrieval_tokens_used (pn_run p))"
proof -
  have "within_budget c (length (consumed p0 s)) (p0, s0)"
    using assms(1-3) by (auto simp: new_planner_def Let_def within_budget_def consumed_def row_simps)
  from admissions.run_inv [OF assms(4) this] show ?thesis by (simp add: within_budget_def)
qed

definition demo_pursuit :: pursuit_config where
  "demo_pursuit = \<lparr>puc_max_depth = 4, puc_max_codex_calls = 1, puc_max_retries_per_task = 2, puc_minimum_confidence = 3 / 4,
     puc_max_retrieval_tokens = 8000, puc_max_duplicate_investigations = 0, puc_max_wall_time_seconds = 300\<rparr>"

theorem admissions_within_budget_witness:
  "\<exists>p0 s0 p1 s1 p2. new_planner ''R'' ''T'' demo_pursuit 0 (pursuit_store [demo_task] []) = (p0, s0) \<and>
    admit_call p0 demo_task ''why?'' ''D'' 1 s0 = (None, p1, s1) \<and>
    admit_call p1 demo_task ''why?'' ''E'' 2 s1 = (Some StoppingReason_CALL_BUDGET, p2, s1) \<and>
    plr_model_calls_used (pn_run p2) \<le> 1 \<and> length (consumed p2 s1) = 1"
proof -
  let ?s = "pursuit_store [demo_task] []"
  obtain p0 s0 where n: "new_planner ''R'' ''T'' demo_pursuit 0 ?s = (p0, s0)" by force
  then have p0: "pn_config p0 = demo_pursuit" "plr_model_calls_used (pn_run p0) = 0" "plr_retrieval_tokens_used (pn_run p0) = 0"
    "plr_started_at (pn_run p0) = 0" "plr_duplicate_investigations (pn_run p0) = 0" "pn_root_task_id p0 = ''T''" "ps_decisions s0 = []"
    by (auto simp: new_planner_def Let_def pursuit_store_def)
  have "refusal (tick 1 p0) demo_task (token_estimate ''why?'') = None"
    using p0 by (simp add: refusal_def demo_pursuit_def token_estimate_def demo_task_def tick_def)
  then obtain p1 s1 where a: "admit_call p0 demo_task ''why?'' ''D'' 1 s0 = (None, p1, s1)" "p1 = charge (token_estimate ''why?'') (tick 1 p0)"
    by (auto simp: admit_call_def Let_def)
  have "admission_step (p0, s0) (p1, s1)" by (rule admission [OF a(1)]) (simp add: p0)
  then have "run_of admission_step (p0, s0) (p1, s1)" by (rule run_of_one)
  from admissions_within_budget [OF n _ _ this] p0 a(2)
  have one: "length (consumed p1 s1) = 1" "plr_model_calls_used (pn_run p1) = 1"
    by (auto simp: demo_pursuit_def consumed_def pursuit_store_def)
  have "refusal (tick 2 p1) demo_task (token_estimate ''why?'') = Some StoppingReason_CALL_BUDGET"
    using p0 a(2) by (simp add: refusal_def demo_pursuit_def demo_task_def)
  then have b: "admit_call p1 demo_task ''why?'' ''E'' 2 s1 = (Some StoppingReason_CALL_BUDGET, tick 2 p1, s1)"
    by (simp add: admit_call_def Let_def)
  have "length (consumed (tick 2 p1) s1) = 1" using one(1) by (simp add: consumed_def)
  with n a(1) b one(2) show ?thesis by (metis order_refl tick_simps(3))
qed

end
