(* ===== verification/Routing_Properties.thy ===== *)
theory Routing_Properties
  imports Pursuit_Demo
begin

text \<open>
  The properties of the routing policy: it chooses the cheapest worker that has earned the route, a
  change of the governed route is backed by recorded executions, and the versions of the policy are
  numbered without gaps. Then the admission of model calls of the planner.
\<close>

section \<open>Choosing\<close>

lemma first_min_None: "first_min f xs = None \<longleftrightarrow> xs = []"
  by (cases xs) (auto split: option.splits)

lemma first_min_Some: "first_min f xs = Some x \<Longrightarrow> x \<in> set xs \<and> (\<forall>y\<in>set xs. f x \<le> f y)"
proof (induction xs arbitrary: x)
  case Nil
  then show ?case by simp
next
  case (Cons a xs)
  then show ?case
    by (cases "first_min f xs") (auto simp: first_min_None split: if_splits intro: order.trans less_imp_le)
qed

text \<open>\<open>min\<close> returns the first of several smallest elements.\<close>

lemma first_min_split:
  "first_min f xs = Some x \<Longrightarrow> \<exists>us vs. xs = us @ x # vs \<and> (\<forall>y\<in>set us. f x < f y)"
proof (induction xs arbitrary: x)
  case Nil
  then show ?case by simp
next
  case (Cons a xs)
  show ?case
  proof (cases "first_min f xs")
    case None
    with Cons.prems show ?thesis by (auto simp: first_min_None intro: exI [of _ "[]"])
  next
    case (Some y)
    with Cons.IH obtain us vs where "xs = us @ y # vs" "\<forall>z\<in>set us. f y < f z" by blast
    show ?thesis
    proof (cases "f y < f a")
      case True
      with Cons.prems Some \<open>xs = us @ y # vs\<close> \<open>\<forall>z\<in>set us. f y < f z\<close> show ?thesis
        by (intro exI [of _ "a # us"] exI [of _ vs]) auto
    next
      case False
      with Cons.prems Some show ?thesis by (intro exI [of _ "[]"] exI [of _ xs]) auto
    qed
  qed
qed

lemma first_min_best:
  assumes "first_min f xs = Some x"
  shows "\<exists>us vs. xs = us @ x # vs \<and> (\<forall>y\<in>set us. f x < f y) \<and> (\<forall>y\<in>set vs. f x \<le> f y)"
proof -
  from first_min_split [OF assms] obtain us vs where "xs = us @ x # vs" "\<forall>y\<in>set us. f x < f y" by blast
  moreover from first_min_Some [OF assms] have "\<forall>y\<in>set xs. f x \<le> f y" by blast
  ultimately show ?thesis by auto
qed

lemma save_route_prediction_frame [simp]:
  "ps_updates (save_route_prediction p s) = ps_updates s" "ps_attempts (save_route_prediction p s) = ps_attempts s"
  "ps_predictions (save_route_prediction p s) = upsert rpn_id p (ps_predictions s)"
  "st_tasks (ps_store (save_route_prediction p s)) = st_tasks (ps_store s)"
  by (simp_all add: save_route_prediction_def)

lemma save_routing_policy_update_frame [simp]:
  "ps_updates (save_routing_policy_update u s) = upsert rpu_id u (ps_updates s)"
  "ps_attempts (save_routing_policy_update u s) = ps_attempts s"
  "ps_predictions (save_routing_policy_update u s) = ps_predictions s"
  "st_tasks (ps_store (save_routing_policy_update u s)) = st_tasks (ps_store s)"
  by (simp_all add: save_routing_policy_update_def)

text \<open>The candidates of a prediction and what it chooses among them.\<close>

definition candidate_estimates :: "routing_config \<Rightarrow> plan_store \<Rightarrow> task \<Rightarrow> workers \<Rightarrow> worker_route_estimate list" where
  "candidate_estimates c s t workers = map (\<lambda>(route, w). estimate c s t route w (routing_category t)) workers"

definition chosen_estimate :: "routing_config \<Rightarrow> plan_store \<Rightarrow> task \<Rightarrow> workers \<Rightarrow> worker_route_estimate option" where
  "chosen_estimate c s t workers = first_min estimate_key (filter wre_eligible (candidate_estimates c s t workers))"

lemma predict_cases:
  fixes workers :: workers
  defines "es \<equiv> \<lambda>c s t. candidate_estimates c s t workers"
  obtains (kept) p where "predict c x t workers static limits s = (Inr p, save_route_prediction p s)"
      and "rpn_chosen_route p = current_route s (routing_category t) static" and "rpn_candidates p = es c s t"
      and "rpn_policy_version p = routing_version s"
      and "chosen_estimate c s t workers = None \<or> (\<exists>e. chosen_estimate c s t workers = Some e \<and> wre_route e = rpn_chosen_route p \<and> wre_worker e = rpn_chosen_worker p)"
  | (changed) p u e where "predict c x t workers static limits s = (Inr p, save_route_prediction p (save_routing_policy_update u s))"
      and "chosen_estimate c s t workers = Some e" and "wre_route e = rpn_chosen_route p" and "wre_worker e = rpn_chosen_worker p"
      and "rpn_candidates p = es c s t" and "rpn_chosen_route p \<noteq> current_route s (routing_category t) static"
      and "rpn_policy_version p = routing_version s + 1"
      and "rpu_id u = pcl_update_id x" and "rpu_version u = routing_version s + 1" and "rpu_previous_version u = routing_version s"
      and "rpu_to_route u = wre_route e" and "rpu_task_category u = routing_category t" and "rpu_accepted u"
      and "rpu_evidence_execution_ids u = wre_evidence_execution_ids e" and "rpu_required_success_probability u = rcf_required_success_probability c"
      and "rpu_minimum_evidence u = rcf_minimum_evidence c"
proof (cases "chosen_estimate c s t workers")
  case None
  then show thesis
    by (intro kept) (auto simp: predict_def Let_def chosen_estimate_def candidate_estimates_def es_def)
next
  case (Some e)
  show thesis
  proof (cases "wre_route e = current_route s (routing_category t) static")
    case True
    with Some show thesis
      by (intro kept) (auto simp: predict_def Let_def chosen_estimate_def candidate_estimates_def es_def)
  next
    case False
    with Some show thesis
      by (intro changed [where e = e]) (auto simp: predict_def Let_def accept_update_def chosen_estimate_def candidate_estimates_def es_def)
  qed
qed

text \<open>A prediction never raises, and it chooses the cheapest route that has earned it: among the
  registered workers with enough recorded executions and enough predicted success, one with the
  least predicted cost, then latency, then the highest success, the first in case of a tie; when no
  worker qualifies, the governed route stays and the policy is not changed.\<close>

theorem prediction_takes_cheapest:
  assumes "predict c x t workers static limits s = (r, s')"
  shows "\<exists>p. r = Inr p \<and> rpn_candidates p = candidate_estimates c s t workers \<and>
    ((\<exists>us e vs. filter wre_eligible (rpn_candidates p) = us @ e # vs \<and>
        rpn_chosen_route p = wre_route e \<and> rpn_chosen_worker p = wre_worker e \<and>
        (\<forall>y\<in>set us. estimate_key e < estimate_key y) \<and> (\<forall>y\<in>set vs. estimate_key e \<le> estimate_key y)) \<or>
     (filter wre_eligible (rpn_candidates p) = [] \<and>
        rpn_chosen_route p = current_route s (routing_category t) static \<and> ps_updates s' = ps_updates s))"
proof -
  have best: "\<exists>us vs. filter wre_eligible (candidate_estimates c s t workers) = us @ e # vs \<and>
      (\<forall>y\<in>set us. estimate_key e < estimate_key y) \<and> (\<forall>y\<in>set vs. estimate_key e \<le> estimate_key y)"
    if "chosen_estimate c s t workers = Some e" for e
    by (rule first_min_best [OF that [unfolded chosen_estimate_def]])
  show ?thesis
  proof (rule predict_cases [of c x t workers static limits s], goal_cases kept changed)
    case (kept p)
    then have r: "r = Inr p" "s' = save_route_prediction p s" using assms by auto
    show ?case
    proof (cases "chosen_estimate c s t workers")
      case None
      then have "filter wre_eligible (rpn_candidates p) = []" by (simp add: kept chosen_estimate_def first_min_None)
      with r kept show ?thesis by (intro exI [of _ p] conjI disjI2) simp_all
    next
      case (Some e)
      from best [OF this] obtain us vs where "filter wre_eligible (rpn_candidates p) = us @ e # vs"
        "\<forall>y\<in>set us. estimate_key e < estimate_key y" "\<forall>y\<in>set vs. estimate_key e \<le> estimate_key y" by (auto simp: kept)
      with r kept Some show ?thesis
        by (intro exI [of _ p] conjI disjI1 exI [of _ us] exI [of _ e] exI [of _ vs]) simp_all
    qed
  next
    case (changed p u e)
    then have r: "r = Inr p" using assms by auto
    from best [OF changed(2)] obtain us vs where "filter wre_eligible (rpn_candidates p) = us @ e # vs"
      "\<forall>y\<in>set us. estimate_key e < estimate_key y" "\<forall>y\<in>set vs. estimate_key e \<le> estimate_key y" by (auto simp: changed)
    with r changed show ?case
      by (intro exI [of _ p] conjI disjI1 exI [of _ us] exI [of _ e] exI [of _ vs]) simp_all
  qed
qed

theorem prediction_takes_cheapest_witness:
  "\<exists>p s'. predict default_routing_config demo_policy_call demo_task (inv_workers demo_investigator) TaskRoute_LOCAL_MODEL []
      demo_history = (Inr p, s') \<and> rpn_chosen_route p = TaskRoute_CODEX \<and> rpn_chosen_worker p = ''codex''"
proof -
  obtain p s' where p: "predict default_routing_config demo_policy_call demo_task (inv_workers demo_investigator) TaskRoute_LOCAL_MODEL []
      demo_history = (Inr p, s')" using demo_change by blast
  from prediction_takes_cheapest [OF this]
  have "candidate_estimates default_routing_config demo_history demo_task (inv_workers demo_investigator) = rpn_candidates p" by simp
  then have "filter wre_eligible (rpn_candidates p) =
      [estimate default_routing_config demo_history demo_task TaskRoute_CODEX (demo_worker TaskRoute_CODEX ''codex'' 1) (routing_category demo_task)]"
    using demo_estimates by (simp add: candidate_estimates_def)
  moreover have "wre_route (estimate c s t r w g) = r" "wre_worker (estimate c s t r w g) = wsp_name w" for c s t r w g
    by (simp_all add: estimate_def Let_def)
  ultimately show ?thesis
    using prediction_takes_cheapest [OF p] p by (auto simp: Cons_eq_append_conv demo_worker_def)
qed

text \<open>C24: A change of the policy is earned: when a prediction records a new version, that version is the
  next one, its route differs from the governed one, and it cites all the recorded executions of a
  registered worker on that route in the category of the task, which are at least the required
  number and whose smoothed success rate reaches the required probability.\<close>

theorem policy_change_is_earned:
  assumes "predict c x t workers static limits s = (r, s')" and "ps_updates s' \<noteq> ps_updates s"
  shows "\<exists>u route w evidence. (route, w) \<in> set workers \<and> u \<in> set (ps_updates s') \<and>
    rpu_version u = routing_version s + 1 \<and> rpu_previous_version u = routing_version s \<and> rpu_accepted u \<and>
    rpu_to_route u = route \<and> rpu_task_category u = routing_category t \<and> route \<noteq> current_route s (routing_category t) static \<and>
    evidence = route_evidence s route (wsp_name w) (routing_category t) \<and>
    rpu_evidence_execution_ids u = map xa_id evidence \<and> int (length evidence) \<ge> rcf_minimum_evidence c \<and>
    of_nat (length (filter (\<lambda>a. xa_outcome a = ExecutionOutcome_SUCCEEDED \<or> xa_outcome a = ExecutionOutcome_REUSED) evidence) + 1) /
      of_nat (length evidence + 2) \<ge> rcf_required_success_probability c"
proof (rule predict_cases [of c x t workers static limits s], goal_cases kept changed)
  case (kept p)
  from assms(1) kept(1) have "s' = save_route_prediction p s" by simp
  with assms(2) show ?case by simp
next
  case (changed p u e)
  from first_min_Some [OF changed(2) [unfolded chosen_estimate_def]]
  have e: "e \<in> set (candidate_estimates c s t workers)" "wre_eligible e" by auto
  then obtain route w where w: "(route, w) \<in> set workers" "e = estimate c s t route w (routing_category t)"
    by (auto simp: candidate_estimates_def)
  let ?evidence = "route_evidence s route (wsp_name w) (routing_category t)"
  have u: "u \<in> set (ps_updates s')" using assms(1) changed(1) by (auto simp: set_upsert)
  have fields: "wre_route e = route" "wre_evidence_execution_ids e = map xa_id ?evidence"
    by (simp_all add: w(2) estimate_def Let_def)
  have "int (length ?evidence) \<ge> rcf_minimum_evidence c \<and>
    of_nat (length (filter (\<lambda>a. xa_outcome a = ExecutionOutcome_SUCCEEDED \<or> xa_outcome a = ExecutionOutcome_REUSED) ?evidence) + 1) /
      of_nat (length ?evidence + 2) \<ge> rcf_required_success_probability c"
    using e(2) by (simp add: w(2) estimate_def Let_def add.commute)
  then show ?case
    using changed(3,6,9-14) w(1) u fields by (intro exI [of _ u] exI [of _ route] exI [of _ w] exI [of _ ?evidence]) simp
qed

theorem policy_change_is_earned_witness:
  "\<exists>p s' u. predict default_routing_config demo_policy_call demo_task (inv_workers demo_investigator) TaskRoute_LOCAL_MODEL []
      demo_history = (Inr p, s') \<and> u \<in> set (ps_updates s') \<and> rpu_version u = routing_version demo_history + 1 \<and>
    rpu_to_route u \<noteq> TaskRoute_LOCAL_MODEL"
proof -
  obtain p s' where p: "predict default_routing_config demo_policy_call demo_task (inv_workers demo_investigator) TaskRoute_LOCAL_MODEL []
      demo_history = (Inr p, s')" "ps_updates s' \<noteq> []" using demo_change by blast
  have "ps_updates demo_history = []" by (simp add: demo_history_def pursuit_store_def)
  moreover from this have "current_route demo_history c TaskRoute_LOCAL_MODEL = TaskRoute_LOCAL_MODEL" for c
    by (simp add: current_route_def routing_policy_updates_def)
  ultimately show ?thesis using policy_change_is_earned [OF p(1)] p by fastforce
qed

section \<open>Versions\<close>

text \<open>What happens to the tables of the policy: predictions with fresh identifiers, and executions being
  recorded.\<close>

inductive routing_step :: "plan_store \<Rightarrow> plan_store \<Rightarrow> bool" where
  predict_step: "predict c x t workers static limits s = (r, s') \<Longrightarrow> pcl_update_id x \<notin> rpu_id ` set (ps_updates s) \<Longrightarrow> routing_step s s'"
| execution_step: "routing_step s (save_execution_attempt a s)"

definition versions_gapless :: "plan_store \<Rightarrow> bool" where
  "versions_gapless s \<longleftrightarrow>
     map rpu_version (ps_updates s) = map int [1..<length (ps_updates s) + 1] \<and>
     (\<forall>u\<in>set (ps_updates s). rpu_accepted u \<and> rpu_previous_version u = rpu_version u - 1)"

lemma fold_max_upto: "fold max (map int [2..<n + 1]) 1 = (if n \<le> 1 then 1 else int n)"
proof (induction n)
  case 0
  show ?case by simp
next
  case (Suc n)
  then show ?case by (cases "n = 0") auto
qed

lemma sort_key_sorted: "sorted (map f xs) \<Longrightarrow> sort_key f xs = xs"
  by (induction xs) (simp_all add: sort_key_def insort_is_Cons)

lemma gapless_sorted:
  assumes "versions_gapless s" shows "routing_policy_updates s = ps_updates s"
proof -
  have "sorted (map int [1..<n])" for n by (simp add: sorted_iff_nth_mono)
  then have "sorted (map rpu_version (ps_updates s))" using assms by (simp only: versions_gapless_def)
  then show ?thesis unfolding routing_policy_updates_def by (rule sort_key_sorted)
qed

lemma routing_version_gapless:
  assumes "versions_gapless s"
  shows "routing_version s = int (length (ps_updates s))"
proof -
  have vs: "map rpu_version (ps_updates s) = map int [1..<length (ps_updates s) + 1]" using assms by (simp add: versions_gapless_def)
  have "routing_policy_updates s = ps_updates s" by (rule gapless_sorted [OF assms])
  moreover have "filter rpu_accepted (ps_updates s) = ps_updates s" using assms by (auto simp: versions_gapless_def intro: filter_True)
  ultimately have "routing_version s = (case map int [1..<length (ps_updates s) + 1] of [] \<Rightarrow> 0 | v # us \<Rightarrow> fold max us v)"
    by (simp add: routing_version_def vs Let_def)
  also have "\<dots> = int (length (ps_updates s))"
    using fold_max_upto [of "length (ps_updates s)"]
    by (cases "ps_updates s") (auto simp del: upt_Suc simp: upt_conv_Cons numeral_2_eq_2)
  finally show ?thesis .
qed

lemma save_execution_attempt_frame [simp]:
  "ps_updates (save_execution_attempt a s) = ps_updates s" "ps_attempts (save_execution_attempt a s) = upsert xa_id a (ps_attempts s)"
  "st_tasks (ps_store (save_execution_attempt a s)) = st_tasks (ps_store s)"
  "ps_predictions (save_execution_attempt a s) = ps_predictions s"
  by (simp_all add: save_execution_attempt_def Let_def split: option.split)

lemma routing_step_gapless: "routing_step s s' \<Longrightarrow> versions_gapless s \<Longrightarrow> versions_gapless s'"
proof (induction rule: routing_step.induct)
  case (predict_step c x t workers static limits s r s')
  show ?case
  proof (rule predict_cases [of c x t workers static limits s], goal_cases kept changed)
    case (kept p)
    from predict_step(1) kept(1) have "s' = save_route_prediction p s" by simp
    with predict_step(3) show ?case by (simp add: versions_gapless_def)
  next
    case (changed p u e)
    have "filter (\<lambda>y. rpu_id y \<noteq> rpu_id u) (ps_updates s) = ps_updates s"
      using predict_step(2) changed(8) by (intro filter_True) force
    then have "ps_updates s' = ps_updates s @ [u]" using predict_step(1) changed(1) by (auto simp: upsert_def)
    then show ?case
      using predict_step(3) changed(9,10,13) routing_version_gapless [OF predict_step(3)] by (auto simp: versions_gapless_def)
  qed
qed (simp add: versions_gapless_def)

interpretation policy_versions: invariant_system routing_step versions_gapless
  by unfold_locales (rule routing_step_gapless)

text \<open>Whatever predictions and executions follow, starting from a policy without updates, the
  accepted versions are 1, 2, 3, ... in the order they were recorded, each naming the one before.\<close>

theorem policy_versions_numbered:
  assumes "run_of routing_step s s'" and "ps_updates s = []"
  shows "map rpu_version (routing_policy_updates s') = map int [1..<length (ps_updates s') + 1] \<and>
    (\<forall>u\<in>set (ps_updates s'). rpu_accepted u \<and> rpu_previous_version u = rpu_version u - 1) \<and>
    routing_version s' = int (length (ps_updates s'))"
proof -
  have "versions_gapless s" using assms(2) by (simp add: versions_gapless_def)
  from policy_versions.run_inv [OF assms(1) this] have inv: "versions_gapless s'" .
  from gapless_sorted [OF this] routing_version_gapless [OF this] inv show ?thesis by (simp add: versions_gapless_def)
qed

theorem policy_versions_numbered_witness:
  "\<exists>p s'. predict default_routing_config demo_policy_call demo_task (inv_workers demo_investigator) TaskRoute_LOCAL_MODEL []
      demo_history = (Inr p, s') \<and> ps_updates s' \<noteq> [] \<and> routing_version s' = int (length (ps_updates s'))"
proof -
  obtain p s' where p: "predict default_routing_config demo_policy_call demo_task (inv_workers demo_investigator) TaskRoute_LOCAL_MODEL []
      demo_history = (Inr p, s')" "ps_updates s' \<noteq> []" using demo_change by blast
  have none: "ps_updates demo_history = []" by (simp add: demo_history_def pursuit_store_def)
  have "routing_step demo_history s'" by (rule predict_step [OF p(1)]) (simp add: none)
  then have "run_of routing_step demo_history s'" by (rule run_of_one)
  from policy_versions_numbered [OF this none] p show ?thesis by blast
qed

end
