(* ===== verification/Execution_Properties.thy ===== *)
theory Execution_Properties
  imports Execution Routing_Properties
begin

text \<open>
  The properties of the adaptive investigator: how many worker calls it makes and what it records of
  them, where its results and its errors come from, and what a follow-up leaves in the store.
\<close>

section \<open>Recording attempts\<close>

lemma record_attempt_facts:
  assumes "record_attempt i now t r s = (a, s')"
  shows "xa_id a = i" and "xa_task_id a = tk_id t" and "xa_actual_route a = ar_actual_route r" and "xa_worker a = ar_worker r"
    and "xa_route_prediction_id a = ar_prediction_id r" and "xa_sequence a = int (length (execution_attempts s (tk_id t))) + 1"
    and "s' = save_execution_attempt a s" and "xa_outcome a = ar_outcome r"
  using assms by (auto simp: record_attempt_def Let_def)

lemma record_attempt_appends:
  assumes "record_attempt i now t r s = (a, s')" and "i \<notin> xa_id ` set (ps_attempts s)"
  shows "ps_attempts s' = ps_attempts s @ [a]"
proof -
  have "filter (\<lambda>x. xa_id x \<noteq> xa_id a) (ps_attempts s) = ps_attempts s"
    using assms(2) record_attempt_facts(1) [OF assms(1)] by (intro filter_True ballI) (metis image_eqI)
  then show ?thesis by (simp add: record_attempt_facts(7) [OF assms(1)] upsert_def)
qed

section \<open>The dispatch loop\<close>

text \<open>One worker of the loop: the loop stops, or an attempt is recorded and the loop returns or goes on.\<close>

lemma dispatch_step:
  assumes "dispatch v x t planned p question base (route # routes) d = (d', early)"
  obtains (stopped) "d' = d" and "early = None"
      and "ds_calls d \<ge> inv_max_calls v \<or> (ds_calls d > 0 \<and> token_estimate question > inv_max_retrieval_tokens v)"
  | (missing) a d1 message where "ds_calls d < inv_max_calls v" and "map_of (inv_workers v) route = None"
      and "record_attempt (icl_attempt_id x route) (pcl_now (icl_policy x)) t
        \<lparr>ar_planned_route = planned, ar_actual_route = route, ar_worker = ''UNREGISTERED'',
         ar_outcome = ExecutionOutcome_FAILED, ar_input_tokens = 0, ar_output_tokens = 0, ar_cost = 0, ar_latency = 0,
         ar_confidence = None, ar_fallback_from = ds_fallback_from d, ar_fallback_reason = ds_fallback_reason d,
         ar_error = Some message, ar_prediction_id = Some (rpn_id p)\<rparr> (ds_store d) = (a, ds_store d1)"
      and "dispatch v x t planned p question base routes d1 = (d', early)" and "ds_calls d1 = ds_calls d"
      and "ds_last_error d1 = Some (RuntimeError (''No worker registered for route '' @ task_route_value route), message)"
      and "ds_last_result d1 = ds_last_result d"
  | (failed) w err message latency r a d1 where "ds_calls d < inv_max_calls v" and "map_of (inv_workers v) route = Some w"
      and "wsp_investigate w question base = (Inl (err, message), latency)" and "ar_actual_route r = route"
      and "ar_worker r = wsp_name w" and "ar_prediction_id r = Some (rpn_id p)"
      and "record_attempt (icl_attempt_id x route) (pcl_now (icl_policy x)) t r (ds_store d) = (a, ds_store d1)"
      and "dispatch v x t planned p question base routes d1 = (d', early)" and "ds_calls d1 = ds_calls d + 1"
      and "ds_last_error d1 = Some (err, message)" and "ds_last_result d1 = ds_last_result d"
  | (answered) w result latency r a d1 where "ds_calls d < inv_max_calls v" and "map_of (inv_workers v) route = Some w"
      and "wsp_investigate w question base = (Inr result, latency)" and "ar_actual_route r = route"
      and "ar_worker r = wsp_name w" and "ar_prediction_id r = Some (rpn_id p)"
      and "record_attempt (icl_attempt_id x route) (pcl_now (icl_policy x)) t r (ds_store d) = (a, ds_store d1)"
      and "ds_calls d1 = ds_calls d + 1" and "ds_last_result d1 = Some result" and "ds_last_error d1 = ds_last_error d"
      and "if \<not> weak_result v result \<or> routes = [] then d' = d1 \<and> early = Some result
        else dispatch v x t planned p question base routes d1 = (d', early)"
proof -
  consider (stop) "ds_calls d \<ge> inv_max_calls v \<or> (ds_calls d > 0 \<and> token_estimate question > inv_max_retrieval_tokens v)"
    | (go) "ds_calls d < inv_max_calls v" "\<not> (ds_calls d > 0 \<and> token_estimate question > inv_max_retrieval_tokens v)"
    by linarith
  then show thesis
  proof cases
    case stop
    with assms show thesis by (intro stopped) (auto simp: Let_def split: if_splits)
  next
    case go
    note [simp] = Let_def
    show thesis
    proof (cases "map_of (inv_workers v) route")
      case None
      let ?m = "''No worker registered for route '' @ task_route_value route"
      let ?r = "\<lparr>ar_planned_route = planned, ar_actual_route = route, ar_worker = ''UNREGISTERED'',
         ar_outcome = ExecutionOutcome_FAILED, ar_input_tokens = 0, ar_output_tokens = 0, ar_cost = 0, ar_latency = 0,
         ar_confidence = None, ar_fallback_from = ds_fallback_from d, ar_fallback_reason = ds_fallback_reason d,
         ar_error = Some ?m, ar_prediction_id = Some (rpn_id p)\<rparr>"
      obtain a s where a: "record_attempt (icl_attempt_id x route) (pcl_now (icl_policy x)) t ?r (ds_store d) = (a, s)" by force
      let ?d1 = "d\<lparr>ds_store := s, ds_fallback_from := Some (xa_id a), ds_fallback_reason := Some ?m, ds_last_error := Some (RuntimeError ?m, ?m)\<rparr>"
      have "dispatch v x t planned p question base routes ?d1 = (d', early)" using assms go None a by auto
      then show thesis using a go None by (intro missing [of ?m a ?d1]) auto
    next
      case (Some w)
      obtain out latency where out: "wsp_investigate w question base = (out, latency)" by force
      show thesis
      proof (cases out)
        case (Inl em)
        obtain err message where em: "em = (err, message)" by force
        let ?r = "\<lparr>ar_planned_route = planned, ar_actual_route = route, ar_worker = wsp_name w,
          ar_outcome = ExecutionOutcome_FAILED, ar_input_tokens = token_estimate question, ar_output_tokens = 0,
          ar_cost = of_int (token_estimate question) * wsp_input_cost w / 1000000, ar_latency = latency, ar_confidence = None,
          ar_fallback_from = ds_fallback_from d, ar_fallback_reason = ds_fallback_reason d,
          ar_error = Some message, ar_prediction_id = Some (rpn_id p)\<rparr>"
        obtain a s where a: "record_attempt (icl_attempt_id x route) (pcl_now (icl_policy x)) t ?r (ds_store d) = (a, s)" by force
        let ?d1 = "d\<lparr>ds_calls := ds_calls d + 1, ds_store := s, ds_fallback_from := Some (xa_id a),
          ds_fallback_reason := Some (wsp_name w @ '' failed: '' @ message), ds_last_error := Some (err, message)\<rparr>"
        have "dispatch v x t planned p question base routes ?d1 = (d', early)" using assms go Some a out Inl em by auto
        then show thesis using a go Some out Inl em by (intro failed [of w err message latency ?r a ?d1]) auto
      next
        case (Inr result)
        let ?r = "\<lparr>ar_planned_route = planned, ar_actual_route = route, ar_worker = wsp_name w,
          ar_outcome = (if weak_result v result then ExecutionOutcome_LOW_CONFIDENCE else ExecutionOutcome_SUCCEEDED),
          ar_input_tokens = token_estimate question, ar_output_tokens = token_estimate (icl_dump x result),
          ar_cost = (of_int (token_estimate question) * wsp_input_cost w +
            of_int (token_estimate (icl_dump x result)) * wsp_output_cost w) / 1000000,
          ar_latency = latency, ar_confidence = Some (ir_confidence result),
          ar_fallback_from = ds_fallback_from d, ar_fallback_reason = ds_fallback_reason d,
          ar_error = None, ar_prediction_id = Some (rpn_id p)\<rparr>"
        obtain a s where a: "record_attempt (icl_attempt_id x route) (pcl_now (icl_policy x)) t ?r (ds_store d) = (a, s)" by force
        let ?d2 = "d\<lparr>ds_calls := ds_calls d + 1, ds_store := s, ds_last_result := Some result\<rparr>"
        let ?d3 = "?d2\<lparr>ds_fallback_from := Some (xa_id a),
          ds_fallback_reason := Some (wsp_name w @ '' returned confidence '' @ py_fixed 3 (ir_confidence result) @
            '' with '' @ py_str_int (int (length (ir_unresolved_questions result))) @ '' unresolved question(s).'')\<rparr>"
        show thesis
        proof (cases "\<not> weak_result v result \<or> routes = []")
          case True
          then have "d' = ?d2 \<and> early = Some result" using assms go Some a out Inr by auto
          then show thesis using a go Some out Inr True by (intro answered [of w result latency ?r a ?d2]) auto
        next
          case False
          then have "dispatch v x t planned p question base routes ?d3 = (d', early)" using assms go Some a out Inr by auto
          then show thesis using a go Some out Inr False by (intro answered [of w result latency ?r a ?d3]) auto
        qed
      qed
    qed
  qed
qed

declare dispatch.simps(2) [simp del]

lemma execution_attempts_append: "ps_attempts s' = ps_attempts s @ as \<Longrightarrow> (\<forall>a\<in>set as. xa_task_id a = i) \<Longrightarrow>
  length (execution_attempts s' i) = length (execution_attempts s i) + length as"
  by (simp add: execution_attempts_def)

text \<open>The attempts the loop records.\<close>

lemma dispatch_records:
  assumes "dispatch v x t planned p question base routes d = (d', early)" and "distinct routes" and "inj (icl_attempt_id x)"
    and "\<forall>r\<in>set routes. icl_attempt_id x r \<notin> xa_id ` set (ps_attempts (ds_store d))"
  shows "\<exists>as. ps_attempts (ds_store d') = ps_attempts (ds_store d) @ as \<and> length as \<le> length routes \<and>
    ds_calls d' = ds_calls d + int (length (filter (\<lambda>a. map_of (inv_workers v) (xa_actual_route a) \<noteq> None) as)) \<and>
    ds_calls d' \<le> max (ds_calls d) (inv_max_calls v) \<and>
    map xa_actual_route as = take (length as) routes \<and>
    map xa_sequence as = map (\<lambda>i. int (length (execution_attempts (ds_store d) (tk_id t)) + i)) [1..<length as + 1] \<and>
    (\<forall>a\<in>set as. xa_task_id a = tk_id t \<and> xa_route_prediction_id a = Some (rpn_id p)) \<and>
    (early \<noteq> None \<longrightarrow> as \<noteq> []) \<and> (as = [] \<longrightarrow> d' = d)"
  using assms
proof (induction routes arbitrary: d)
  case Nil
  then show ?case by (intro exI [of _ "[]"]) auto
next
  case (Cons route routes)
  have rec: "\<exists>as. ps_attempts (ds_store d') = ps_attempts (ds_store d) @ as \<and> length as \<le> length (route # routes) \<and>
    ds_calls d' = ds_calls d + int (length (filter (\<lambda>a. map_of (inv_workers v) (xa_actual_route a) \<noteq> None) as)) \<and>
    ds_calls d' \<le> max (ds_calls d) (inv_max_calls v) \<and>
    map xa_actual_route as = take (length as) (route # routes) \<and>
    map xa_sequence as = map (\<lambda>i. int (length (execution_attempts (ds_store d) (tk_id t)) + i)) [1..<length as + 1] \<and>
    (\<forall>a\<in>set as. xa_task_id a = tk_id t \<and> xa_route_prediction_id a = Some (rpn_id p)) \<and>
    (early \<noteq> None \<longrightarrow> as \<noteq> []) \<and> (as = [] \<longrightarrow> d' = d)"
    if r: "record_attempt (icl_attempt_id x route) (pcl_now (icl_policy x)) t r (ds_store d) = (a, ds_store d1)"
      and ar: "ar_actual_route r = route" "ar_prediction_id r = Some (rpn_id p)"
      and calls: "ds_calls d1 = ds_calls d + (if map_of (inv_workers v) route = None then 0 else 1)" "ds_calls d < inv_max_calls v"
      and rest: "d' = d1 \<or> dispatch v x t planned p question base routes d1 = (d', early)" for r a d1
  proof -
    have fresh: "icl_attempt_id x route \<notin> xa_id ` set (ps_attempts (ds_store d))" using Cons.prems(4) by simp
    note app = record_attempt_appends [OF r fresh] and fa = record_attempt_facts [OF r]
    have "\<exists>as. ps_attempts (ds_store d') = ps_attempts (ds_store d1) @ as \<and> length as \<le> length routes \<and>
      ds_calls d' = ds_calls d1 + int (length (filter (\<lambda>a. map_of (inv_workers v) (xa_actual_route a) \<noteq> None) as)) \<and>
      ds_calls d' \<le> max (ds_calls d1) (inv_max_calls v) \<and>
      map xa_actual_route as = take (length as) routes \<and>
      map xa_sequence as = map (\<lambda>i. int (length (execution_attempts (ds_store d1) (tk_id t)) + i)) [1..<length as + 1] \<and>
      (\<forall>a\<in>set as. xa_task_id a = tk_id t \<and> xa_route_prediction_id a = Some (rpn_id p))"
    proof (cases "d' = d1")
      case True
      then show ?thesis by (intro exI [of _ "[]"]) auto
    next
      case False
      with rest have "dispatch v x t planned p question base routes d1 = (d', early)" by blast
      moreover have "\<forall>r\<in>set routes. icl_attempt_id x r \<notin> xa_id ` set (ps_attempts (ds_store d1))"
        using Cons.prems(2-4) fa(1) by (auto simp: app dest: injD)
      ultimately show ?thesis using Cons.IH [of d1] Cons.prems(2,3) by (auto simp del: upt_Suc)
    qed
    then obtain as where as: "ps_attempts (ds_store d') = ps_attempts (ds_store d1) @ as" "length as \<le> length routes"
      "ds_calls d' = ds_calls d1 + int (length (filter (\<lambda>a. map_of (inv_workers v) (xa_actual_route a) \<noteq> None) as))"
      "ds_calls d' \<le> max (ds_calls d1) (inv_max_calls v)" "map xa_actual_route as = take (length as) routes"
      "map xa_sequence as = map (\<lambda>i. int (length (execution_attempts (ds_store d1) (tk_id t)) + i)) [1..<length as + 1]"
      "\<forall>a\<in>set as. xa_task_id a = tk_id t \<and> xa_route_prediction_id a = Some (rpn_id p)" by blast
    have len: "length (execution_attempts (ds_store d1) (tk_id t)) = length (execution_attempts (ds_store d) (tk_id t)) + 1"
      using execution_attempts_append [OF app, of "tk_id t"] fa(2) by simp
    have "map xa_sequence (a # as) = map (\<lambda>i. int (length (execution_attempts (ds_store d) (tk_id t)) + i)) [1..<length (a # as) + 1]"
    proof -
      have "[1..<length (a # as) + 1] = 1 # map Suc [1..<length as + 1]" by (simp add: upt_conv_Cons map_Suc_upt del: upt_Suc)
      then show ?thesis by (simp add: as(6) fa(6) len del: upt_Suc)
    qed
    then show ?thesis
      using as fa ar calls app by (intro exI [of _ "a # as"]) (auto simp del: upt_Suc)
  qed
  from Cons.prems(1) show ?case
  proof (cases rule: dispatch_step)
    case stopped
    then show ?thesis by (intro exI [of _ "[]"]) auto
  next
    case (missing a d1 message)
    then show ?thesis by (intro rec [OF missing(3)]) auto
  next
    case (failed w err message latency r a d1)
    then show ?thesis by (intro rec [OF failed(7)]) auto
  next
    case (answered w result latency r a d1)
    then show ?thesis by (intro rec [OF answered(7)]) (auto split: if_splits)
  qed
qed

lemma dispatch_errors_stay:
  "dispatch v x t planned p question base routes d = (d', early) \<Longrightarrow> ds_last_error d \<noteq> None \<Longrightarrow> ds_last_error d' \<noteq> None"
proof (induction routes arbitrary: d)
  case Nil
  then show ?case by simp
next
  case (Cons route routes)
  from Cons.prems(1) show ?case
  proof (cases rule: dispatch_step)
    case (answered w result latency r a d1)
    with Cons show ?thesis by (auto split: if_splits)
  qed (use Cons in auto)
qed

text \<open>Where the results and the errors of the loop come from.\<close>

definition answer_of :: "investigator \<Rightarrow> string \<Rightarrow> string \<Rightarrow> task_route \<Rightarrow> investigation_result \<Rightarrow> bool" where
  "answer_of v question base route r \<longleftrightarrow>
     (\<exists>w latency. map_of (inv_workers v) route = Some w \<and> wsp_investigate w question base = (Inr r, latency))"

definition error_of :: "investigator \<Rightarrow> string \<Rightarrow> string \<Rightarrow> task_route \<Rightarrow> py_error \<Rightarrow> bool" where
  "error_of v question base route err \<longleftrightarrow>
     (map_of (inv_workers v) route = None \<and> err = RuntimeError (''No worker registered for route '' @ task_route_value route)) \<or>
     (\<exists>w m latency. map_of (inv_workers v) route = Some w \<and> wsp_investigate w question base = (Inl (err, m), latency))"

lemma dispatch_early:
  "dispatch v x t planned p question base routes d = (d', Some r) \<Longrightarrow>
   \<exists>route\<in>set routes. answer_of v question base route r \<and> (weak_result v r \<longrightarrow> route = last routes)"
proof (induction routes arbitrary: d)
  case Nil
  then show ?case by simp
next
  case (Cons route routes)
  have more: ?case if "\<exists>route'\<in>set routes. answer_of v question base route' r \<and> (weak_result v r \<longrightarrow> route' = last routes)"
    using that by (auto split: if_splits)
  from Cons.prems show ?case
  proof (cases rule: dispatch_step)
    case (answered w result latency r' a d1)
    show ?thesis
    proof (cases "\<not> weak_result v result \<or> routes = []")
      case True
      with answered(2,3,11) show ?thesis by (auto simp: answer_of_def)
    next
      case False
      with answered(11) Cons.IH [of d1] show ?thesis by (intro more) simp
    qed
  qed (auto intro: more Cons.IH)
qed

lemma dispatch_last_result:
  "dispatch v x t planned p question base routes d = (d', early) \<Longrightarrow> ds_last_result d' = Some r \<Longrightarrow>
   ds_last_result d = Some r \<or> (\<exists>route\<in>set routes. answer_of v question base route r)"
proof (induction routes arbitrary: d)
  case Nil
  then show ?case by simp
next
  case (Cons route routes)
  from Cons.prems(1) show ?case
  proof (cases rule: dispatch_step)
    case stopped
    with Cons.prems(2) show ?thesis by simp
  next
    case (missing a d1 message)
    from Cons.IH [OF missing(4) Cons.prems(2)] missing(7) show ?thesis by auto
  next
    case (failed w err message latency r' a d1)
    from Cons.IH [OF failed(8) Cons.prems(2)] failed(11) show ?thesis by auto
  next
    case (answered w result latency r' a d1)
    have here: "answer_of v question base route result" using answered(2,3) by (auto simp: answer_of_def)
    have "ds_last_result d1 = Some r \<or> (\<exists>route\<in>set routes. answer_of v question base route r)"
      using answered(11) Cons.IH [of d1] Cons.prems(2) by (auto split: if_splits)
    with answered(9) here show ?thesis by auto
  qed
qed

lemma dispatch_last_error:
  "dispatch v x t planned p question base routes d = (d', early) \<Longrightarrow> ds_last_error d' = Some (err, m) \<Longrightarrow>
   ds_last_error d = Some (err, m) \<or> (\<exists>route\<in>set routes. error_of v question base route err)"
proof (induction routes arbitrary: d)
  case Nil
  then show ?case by simp
next
  case (Cons route routes)
  from Cons.prems(1) show ?case
  proof (cases rule: dispatch_step)
    case stopped
    with Cons.prems(2) show ?thesis by simp
  next
    case (missing a d1 message)
    have "error_of v question base route (RuntimeError (''No worker registered for route '' @ task_route_value route))"
      using missing(2) by (simp add: error_of_def)
    with Cons.IH [OF missing(4) Cons.prems(2)] missing(6) show ?thesis by auto
  next
    case (failed w err' message latency r' a d1)
    have "error_of v question base route err'" using failed(2,3) by (auto simp: error_of_def)
    with Cons.IH [OF failed(8) Cons.prems(2)] failed(10) show ?thesis by auto
  next
    case (answered w result latency r' a d1)
    have "ds_last_error d1 = Some (err, m) \<or> (\<exists>route\<in>set routes. error_of v question base route err)"
      using answered(11) Cons.IH [of d1] Cons.prems(2) by (auto split: if_splits)
    with answered(10) show ?thesis by auto
  qed
qed

lemma dispatch_stopped:
  "dispatch v x t planned p question base routes d = (d', None) \<Longrightarrow> ds_last_error d' = None \<Longrightarrow> routes \<noteq> [] \<Longrightarrow>
   ds_calls d' \<ge> inv_max_calls v \<or> token_estimate question > inv_max_retrieval_tokens v"
proof (induction routes arbitrary: d)
  case Nil
  then show ?case by simp
next
  case (Cons route routes)
  from Cons.prems(1) show ?case
  proof (cases rule: dispatch_step)
    case stopped
    then show ?thesis by auto
  next
    case (missing a d1 message)
    from dispatch_errors_stay [OF missing(4)] missing(6) Cons.prems(2) show ?thesis by simp
  next
    case (failed w err' message latency r' a d1)
    from dispatch_errors_stay [OF failed(8)] failed(10) Cons.prems(2) show ?thesis by simp
  next
    case (answered w result latency r' a d1)
    then show ?thesis using Cons.IH [of d1] Cons.prems(2) by (auto split: if_splits)
  qed
qed

lemma dispatch_results_stay:
  "dispatch v x t planned p question base routes d = (d', early) \<Longrightarrow> ds_last_result d \<noteq> None \<Longrightarrow> ds_last_result d' \<noteq> None"
proof (induction routes arbitrary: d)
  case Nil
  then show ?case by simp
next
  case (Cons route routes)
  from Cons.prems(1) show ?case
  proof (cases rule: dispatch_step)
    case (answered w result latency r a d1)
    with Cons show ?thesis by (auto split: if_splits)
  qed (use Cons in auto)
qed

lemma dispatch_nothing:
  assumes "dispatch v x t planned p question base (route # routes) d = (d', None)" and "ds_last_error d' = None"
    and "ds_last_result d' = None" and "ds_calls d = 0"
  shows "inv_max_calls v \<le> 0"
  using assms(1)
proof (cases rule: dispatch_step)
  case stopped
  with assms(4) show ?thesis by simp
next
  case (missing a d1 message)
  from dispatch_errors_stay [OF missing(4)] missing(6) assms(2) show ?thesis by simp
next
  case (failed w err' message latency r' a d1)
  from dispatch_errors_stay [OF failed(8)] failed(10) assms(2) show ?thesis by simp
next
  case (answered w result latency r' a d1)
  then show ?thesis using dispatch_results_stay [of v x t planned p question base routes d1] assms(3) by (auto split: if_splits)
qed

section \<open>Investigating\<close>

lemma predict_frame:
  assumes "predict c x t workers static limits s = (Inr p, s')"
  shows "rpn_task_id p = tk_id t" and "rpn_id p = pcl_prediction_id x" and "ps_attempts s' = ps_attempts s"
    and "st_tasks (ps_store s') = st_tasks (ps_store s)"
  using assms by (auto simp: predict_def accept_update_def Let_def split: option.splits if_splits prod.splits sum.splits)

lemma predict_returns: "\<exists>p s'. predict c x t workers static limits s = (Inr p, s')"
proof (rule predict_cases [of c x t workers static limits s], goal_cases kept changed)
  case kept
  then show ?case by blast
next
  case changed
  then show ?case by blast
qed

lemma save_route_evaluation_frame [simp]:
  "ps_attempts (save_route_evaluation v s) = ps_attempts s" "st_tasks (ps_store (save_route_evaluation v s)) = st_tasks (ps_store s)"
  "ps_updates (save_route_evaluation v s) = ps_updates s"
  by (simp_all add: save_route_evaluation_def)

lemma evaluated_ok:
  assumes "\<exists>a\<in>set (ps_attempts s). xa_task_id a = rpn_task_id p \<and> xa_route_prediction_id a = Some (rpn_id p)"
    and "evaluated x p r s = (r', s')"
  shows "r' = r \<and> ps_attempts s' = ps_attempts s \<and> st_tasks (ps_store s') = st_tasks (ps_store s)"
proof -
  have "filter (\<lambda>a. xa_route_prediction_id a = Some (rpn_id p)) (execution_attempts s (rpn_task_id p)) \<noteq> []"
    using assms by (auto simp: execution_attempts_def filter_empty_conv)
  with assms(2) show ?thesis by (auto simp: evaluated_def evaluate_prediction_def Let_def)
qed

definition initial_dispatch :: "plan_store \<Rightarrow> dispatch_state" where
  "initial_dispatch s = \<lparr>ds_store = s, ds_calls = 0, ds_fallback_from = None, ds_fallback_reason = None,
     ds_last_error = None, ds_last_result = None\<rparr>"

text \<open>What an investigation of an open task does, given fresh identifiers for its attempts.\<close>

lemma investigate_runs:
  assumes "investigate v x question base s = (r, v', s')" and "open_task (ps_store s) question (icl_resolve x base) = Inr t"
    and "inj (icl_attempt_id x)" and "\<forall>route. icl_attempt_id x route \<notin> xa_id ` set (ps_attempts s)"
  obtains p s1 d early where "predict (inv_routing v) (icl_policy x) t (inv_workers v) (static_route t) (safety_limits v) s = (Inr p, s1)"
    and "dispatch v x t (planned_of t) p question base (fallback_routes v (rpn_chosen_route p)) (initial_dispatch s1) = (d, early)"
    and "inv_last_call_count v' = ds_calls d" and "ps_attempts s' = ps_attempts (ds_store d)"
    and "st_tasks (ps_store s') = st_tasks (ps_store (ds_store d))"
    and "r = (case early of Some result \<Rightarrow> Inr result
      | None \<Rightarrow> (case ds_last_error d of Some (err, _) \<Rightarrow> Inl err
          | None \<Rightarrow> (case ds_last_result d of Some result \<Rightarrow> Inr result
              | None \<Rightarrow> Inl (RuntimeError (''No executable worker for planned route '' @ task_route_value (planned_of t))))))"
proof -
  obtain p s1 where p: "predict (inv_routing v) (icl_policy x) t (inv_workers v) (static_route t) (safety_limits v) s = (Inr p, s1)"
    using predict_returns by blast
  obtain d early where d: "dispatch v x t (planned_of t) p question base (fallback_routes v (rpn_chosen_route p)) (initial_dispatch s1) = (d, early)"
    by force
  have distinct: "distinct (fallback_routes v (rpn_chosen_route p))" by (auto simp: fallback_routes_def)
  have fresh: "\<forall>r\<in>set (fallback_routes v (rpn_chosen_route p)). icl_attempt_id x r \<notin> xa_id ` set (ps_attempts (ds_store (initial_dispatch s1)))"
    using assms(4) predict_frame(3) [OF p] by (simp add: initial_dispatch_def)
  from dispatch_records [OF d distinct assms(3) fresh] obtain as where
    as: "ps_attempts (ds_store d) = ps_attempts (ds_store (initial_dispatch s1)) @ as"
      "\<forall>a\<in>set as. xa_task_id a = tk_id t \<and> xa_route_prediction_id a = Some (rpn_id p)" "early \<noteq> None \<longrightarrow> as \<noteq> []"
      "as = [] \<longrightarrow> d = initial_dispatch s1" by blast
  have finish: "r' = r \<and> ps_attempts s' = ps_attempts (ds_store d) \<and> st_tasks (ps_store s') = st_tasks (ps_store (ds_store d))"
    if "as \<noteq> []" "evaluated (icl_policy x) p r (ds_store d) = (r', s')" for r r' :: "investigation_result result" and s'
  proof (rule evaluated_ok [OF _ that(2)])
    from that(1) obtain a where "a \<in> set as" by (cases as) auto
    with as(1,2) predict_frame(1) [OF p]
    show "\<exists>a\<in>set (ps_attempts (ds_store d)). xa_task_id a = rpn_task_id p \<and> xa_route_prediction_id a = Some (rpn_id p)" by auto
  qed
  have some: "as \<noteq> []" if "early \<noteq> None \<or> ds_last_error d \<noteq> None \<or> ds_last_result d \<noteq> None"
    using that as(3,4) by (auto simp: initial_dispatch_def)
  let ?r = "case early of Some result \<Rightarrow> Inr result
      | None \<Rightarrow> (case ds_last_error d of Some (err, _) \<Rightarrow> Inl err
          | None \<Rightarrow> (case ds_last_result d of Some result \<Rightarrow> Inr result
              | None \<Rightarrow> Inl (RuntimeError (''No executable worker for planned route '' @ task_route_value (planned_of t)))))"
  have attempted: "execution_attempts (ds_store d) (tk_id t) \<noteq> []" if "as \<noteq> []"
    using that as(1,2) by (cases as) (auto simp: execution_attempts_def)
  have "r = ?r \<and> inv_last_call_count v' = ds_calls d \<and> ps_attempts s' = ps_attempts (ds_store d) \<and>
      st_tasks (ps_store s') = st_tasks (ps_store (ds_store d))"
  proof (cases "as = []")
    case True
    with some have "early = None" "ds_last_error d = None" "ds_last_result d = None" by blast+
    with assms(1) d show ?thesis by (auto simp: investigate_def assms(2) p Let_def initial_dispatch_def)
  next
    case False
    from assms(1) d attempted [OF False] show ?thesis
      by (auto simp: investigate_def assms(2) p Let_def initial_dispatch_def split: option.splits prod.splits dest!: finish [OF False])
  qed
  then show thesis using that [OF p d] by blast
qed

text \<open>C23: An investigation of an open task makes at most as many worker calls as its budget allows and
  never more than two, and it records every one of them: the attempts it adds are for this task and
  this prediction, one per route in the order of escalation, numbered on from the task's earlier
  attempts, and those of registered workers are as many as the calls it reports.\<close>

theorem worker_calls_recorded:
  assumes "investigate v x question base s = (r, v', s')" and "open_task (ps_store s) question (icl_resolve x base) = Inr t"
    and "inj (icl_attempt_id x)" and "\<forall>route. icl_attempt_id x route \<notin> xa_id ` set (ps_attempts s)"
  shows "\<exists>as primary. ps_attempts s' = ps_attempts s @ as \<and>
    map xa_actual_route as = take (length as) (fallback_routes v primary) \<and> length as \<le> 2 \<and>
    inv_last_call_count v' = int (length (filter (\<lambda>a. map_of (inv_workers v) (xa_actual_route a) \<noteq> None) as)) \<and>
    inv_last_call_count v' \<le> max 0 (inv_max_calls v) \<and>
    map xa_sequence as = map (\<lambda>i. int (length (execution_attempts s (tk_id t)) + i)) [1..<length as + 1] \<and>
    (\<forall>a\<in>set as. xa_task_id a = tk_id t \<and> xa_route_prediction_id a = Some (pcl_prediction_id (icl_policy x)))"
  using assms
proof (rule investigate_runs)
  fix p s1 d early
  assume p: "predict (inv_routing v) (icl_policy x) t (inv_workers v) (static_route t) (safety_limits v) s = (Inr p, s1)"
    and d: "dispatch v x t (planned_of t) p question base (fallback_routes v (rpn_chosen_route p)) (initial_dispatch s1) = (d, early)"
    and fin: "inv_last_call_count v' = ds_calls d" "ps_attempts s' = ps_attempts (ds_store d)"
  note frame = predict_frame [OF p]
  have "distinct (fallback_routes v (rpn_chosen_route p))" "length (fallback_routes v (rpn_chosen_route p)) \<le> 2"
    by (auto simp: fallback_routes_def)
  moreover have "\<forall>r\<in>set (fallback_routes v (rpn_chosen_route p)). icl_attempt_id x r \<notin> xa_id ` set (ps_attempts (ds_store (initial_dispatch s1)))"
    using assms(4) frame(3) by (simp add: initial_dispatch_def)
  ultimately show ?thesis
    using dispatch_records [OF d _ assms(3)] fin frame
    by (fastforce simp: initial_dispatch_def execution_attempts_def simp del: upt_Suc)
qed

text \<open>The demonstration: the local worker answers weakly, so the stronger one is called too.\<close>

lemma demo_investigation:
  obtains v' s' where "investigate demo_investigator demo_call ''why?'' ''/r'' (pursuit_store [demo_task] []) = (Inr (pursuit_answer 1), v', s')"
    and "inv_last_call_count v' = 2"
proof -
  let ?s = "pursuit_store [demo_task] []"
  obtain r v' s' where i: "investigate demo_investigator demo_call ''why?'' ''/r'' ?s = (r, v', s')" by (metis prod_cases3)
  have cfg: "inv_routing demo_investigator = default_routing_config" "inv_max_calls demo_investigator = 2"
    "inv_max_retrieval_tokens demo_investigator = 2 ^ 31 - 1" "inv_minimum_confidence demo_investigator = 3 / 4"
    by (simp_all add: demo_investigator_def new_investigator_def)
  have route: "static_route demo_task = TaskRoute_LOCAL_MODEL" by (simp add: static_route_def planned_of_def demo_task_def)
  have tokens: "token_estimate ''why?'' = 1" by (simp add: token_estimate_def)
  have weak: "weak_result demo_investigator (pursuit_answer (1 / 2))" "\<not> weak_result demo_investigator (pursuit_answer 1)"
    by (simp_all add: weak_result_def cfg pursuit_answer_def)
  have fresh: "\<forall>route. icl_attempt_id demo_call route \<notin> xa_id ` set (ps_attempts ?s)" by (simp add: pursuit_store_def)
  from i demo_open demo_ids fresh show thesis
  proof (rule investigate_runs)
    fix p s1 d early
    assume p: "predict (inv_routing demo_investigator) (icl_policy demo_call) demo_task (inv_workers demo_investigator)
        (static_route demo_task) (safety_limits demo_investigator) ?s = (Inr p, s1)"
      and d: "dispatch demo_investigator demo_call demo_task (planned_of demo_task) p ''why?'' ''/r''
        (fallback_routes demo_investigator (rpn_chosen_route p)) (initial_dispatch s1) = (d, early)"
      and calls: "inv_last_call_count v' = ds_calls d"
      and r: "r = (case early of Some result \<Rightarrow> Inr result
        | None \<Rightarrow> (case ds_last_error d of Some (err, _) \<Rightarrow> Inl err
          | None \<Rightarrow> (case ds_last_result d of Some result \<Rightarrow> Inr result
            | None \<Rightarrow> Inl (RuntimeError (''No executable worker for planned route '' @ task_route_value (planned_of demo_task))))))"
    from demo_prediction [of "safety_limits demo_investigator"] p
    have "rpn_chosen_route p = TaskRoute_LOCAL_MODEL" by (auto simp: cfg route demo_call_def)
    then have routes: "fallback_routes demo_investigator (rpn_chosen_route p) = [TaskRoute_LOCAL_MODEL, TaskRoute_CODEX]"
      by (simp add: fallback_routes_def demo_workers)
    have local: "map_of (inv_workers demo_investigator) TaskRoute_LOCAL_MODEL = Some (demo_worker TaskRoute_LOCAL_MODEL ''local'' (1 / 2))"
      and codex: "map_of (inv_workers demo_investigator) TaskRoute_CODEX = Some (demo_worker TaskRoute_CODEX ''codex'' 1)"
      by (simp_all add: demo_workers)
    have answers: "wsp_investigate (demo_worker route name c) q b = (Inr (pursuit_answer c), 1)" for route name c q b
      by (simp add: demo_worker_def)
    from d [unfolded routes] have "early = Some (pursuit_answer 1) \<and> ds_calls d = 2"
    proof (cases rule: dispatch_step)
      case (answered w result latency r' a d1)
      from answered(2,3) have "result = pursuit_answer (1 / 2)" by (auto simp: local answers)
      with answered have second: "dispatch demo_investigator demo_call demo_task (planned_of demo_task) p ''why?'' ''/r'' [TaskRoute_CODEX] d1 = (d, early)"
        and one: "ds_calls d1 = 1" by (simp_all add: weak initial_dispatch_def)
      from second show ?thesis
        by (cases rule: dispatch_step) (use one in \<open>auto simp: cfg tokens codex answers\<close>)
    qed (auto simp: cfg local answers initial_dispatch_def)
    with r calls i show thesis using that by simp
  qed
qed

theorem worker_calls_recorded_witness:
  "\<exists>v' s' as. investigate demo_investigator demo_call ''why?'' ''/r'' (pursuit_store [demo_task] []) = (Inr (pursuit_answer 1), v', s') \<and>
    ps_attempts s' = as \<and> length as = 2 \<and> map xa_sequence as = [1, 2]"
proof -
  obtain v' s' where i: "investigate demo_investigator demo_call ''why?'' ''/r'' (pursuit_store [demo_task] []) = (Inr (pursuit_answer 1), v', s')"
    "inv_last_call_count v' = 2" by (rule demo_investigation)
  have fresh: "\<forall>route. icl_attempt_id demo_call route \<notin> xa_id ` set (ps_attempts (pursuit_store [demo_task] []))"
    by (simp add: pursuit_store_def)
  have none: "ps_attempts (pursuit_store [demo_task] []) = []" by (simp add: pursuit_store_def)
  from worker_calls_recorded [OF i(1) demo_open demo_ids fresh] obtain as where
    as: "ps_attempts s' = ps_attempts (pursuit_store [demo_task] []) @ as" "length as \<le> 2"
      "inv_last_call_count v' = int (length (filter (\<lambda>a. map_of (inv_workers demo_investigator) (xa_actual_route a) \<noteq> None) as))"
      "map xa_sequence as = map (\<lambda>i. int (length (execution_attempts (pursuit_store [demo_task] []) (tk_id demo_task)) + i)) [1..<length as + 1]"
    by blast
  have len: "length as = 2" using as(2,3) i(2) length_filter_le [of "\<lambda>a. map_of (inv_workers demo_investigator) (xa_actual_route a) \<noteq> None" as] by simp
  have "map xa_sequence as = [1, 2]"
    unfolding as(4) len by (simp add: execution_attempts_def none upt_rec)
  with i(1) as(1) len none show ?thesis by simp
qed

text \<open>What an investigation of an open task returns is what a registered worker on its route of
  escalation answered; the answer is strong, or it came from the last route, or the budget of calls
  or of tokens did not allow the next one. What it raises is what such a worker raised or the lack of
  a registered worker, or there was no budget for any call.\<close>

theorem answers_come_from_workers:
  assumes "investigate v x question base s = (r, v', s')" and "open_task (ps_store s) question (icl_resolve x base) = Inr t"
    and "inj (icl_attempt_id x)" and "\<forall>route. icl_attempt_id x route \<notin> xa_id ` set (ps_attempts s)"
  shows "\<exists>primary. case r of
      Inr result \<Rightarrow> \<exists>route\<in>set (fallback_routes v primary). answer_of v question base route result \<and>
        (\<not> weak_result v result \<or> route = last (fallback_routes v primary) \<or> inv_last_call_count v' \<ge> inv_max_calls v \<or>
         token_estimate question > inv_max_retrieval_tokens v)
    | Inl err \<Rightarrow> (\<exists>route\<in>set (fallback_routes v primary). error_of v question base route err) \<or> inv_max_calls v \<le> 0"
  using assms
proof (rule investigate_runs)
  fix p s1 d early
  assume d: "dispatch v x t (planned_of t) p question base (fallback_routes v (rpn_chosen_route p)) (initial_dispatch s1) = (d, early)"
    and calls: "inv_last_call_count v' = ds_calls d"
    and r: "r = (case early of Some result \<Rightarrow> Inr result
      | None \<Rightarrow> (case ds_last_error d of Some (err, _) \<Rightarrow> Inl err
          | None \<Rightarrow> (case ds_last_result d of Some result \<Rightarrow> Inr result
              | None \<Rightarrow> Inl (RuntimeError (''No executable worker for planned route '' @ task_route_value (planned_of t))))))"
  let ?routes = "fallback_routes v (rpn_chosen_route p)"
  have init: "ds_last_error (initial_dispatch s1) = None" "ds_last_result (initial_dispatch s1) = None" "ds_calls (initial_dispatch s1) = 0"
    by (simp_all add: initial_dispatch_def)
  have routes: "?routes \<noteq> []" by (simp add: fallback_routes_def)
  show ?thesis
  proof (cases early)
    case (Some result)
    from dispatch_early [OF d [unfolded Some]] show ?thesis unfolding r Some by (intro exI [of _ "rpn_chosen_route p"]) auto
  next
    case None
    show ?thesis
    proof (cases "ds_last_error d")
      case (Some e)
      then obtain err m where e: "ds_last_error d = Some (err, m)" by (cases e) auto
      from dispatch_last_error [OF d e] init show ?thesis unfolding r None e by (intro exI [of _ "rpn_chosen_route p"]) auto
    next
      case no_error: None
      show ?thesis
      proof (cases "ds_last_result d")
        case (Some result)
        from dispatch_last_result [OF d Some] init dispatch_stopped [OF d [unfolded None] no_error routes] calls
        show ?thesis unfolding r None no_error Some by (intro exI [of _ "rpn_chosen_route p"]) auto
      next
        case no_result: None
        obtain route rest where "?routes = route # rest" by (simp add: fallback_routes_def)
        with dispatch_nothing [of v x t "planned_of t" p question base route rest] d None no_error no_result init(3)
        show ?thesis unfolding r by simp
      qed
    qed
  qed
qed

theorem answers_come_from_workers_witness:
  "\<exists>v' s' route. investigate demo_investigator demo_call ''why?'' ''/r'' (pursuit_store [demo_task] []) = (Inr (pursuit_answer 1), v', s') \<and>
    answer_of demo_investigator ''why?'' ''/r'' route (pursuit_answer 1)"
proof -
  obtain v' s' where i: "investigate demo_investigator demo_call ''why?'' ''/r'' (pursuit_store [demo_task] []) = (Inr (pursuit_answer 1), v', s')"
    by (rule demo_investigation)
  have fresh: "\<forall>route. icl_attempt_id demo_call route \<notin> xa_id ` set (ps_attempts (pursuit_store [demo_task] []))"
    by (simp add: pursuit_store_def)
  from answers_come_from_workers [OF i demo_open demo_ids fresh] i show ?thesis by auto
qed

section \<open>Follow-ups\<close>

text \<open>Investigations write only the tables of the routing policy and of the attempts.\<close>

definition same_objects :: "plan_store \<Rightarrow> plan_store \<Rightarrow> bool" where
  "same_objects s s' \<longleftrightarrow> st_tasks (ps_store s') = st_tasks (ps_store s) \<and> st_claims (ps_store s') = st_claims (ps_store s)"

lemma same_objects_saves [simp]:
  "same_objects s (save_execution_attempt a s') = same_objects s s'" "same_objects s (save_route_prediction p s') = same_objects s s'"
  "same_objects s (save_route_evaluation e s') = same_objects s s'" "same_objects s (save_routing_policy_update u s') = same_objects s s'"
  "same_objects s s"
  by (simp_all add: same_objects_def save_execution_attempt_def save_route_prediction_def save_route_evaluation_def
      save_routing_policy_update_def Let_def split: option.split)

lemma dispatch_objects:
  "dispatch v x t planned p question base routes d = (d', early) \<Longrightarrow> same_objects s (ds_store d) \<Longrightarrow> same_objects s (ds_store d')"
proof (induction routes arbitrary: d)
  case Nil
  then show ?case by simp
next
  case (Cons route routes)
  from Cons.prems(1) show ?case
  proof (cases rule: dispatch_step)
    case stopped
    with Cons.prems show ?thesis by simp
  next
    case (missing a d1 message)
    from record_attempt_facts(7) [OF missing(3)] Cons.prems(2) Cons.IH [OF missing(4)] show ?thesis by simp
  next
    case (failed w err message latency r a d1)
    from record_attempt_facts(7) [OF failed(7)] Cons.prems(2) Cons.IH [OF failed(8)] show ?thesis by simp
  next
    case (answered w result latency r a d1)
    from record_attempt_facts(7) [OF answered(7)] Cons.prems(2) have "same_objects s (ds_store d1)" by simp
    with answered(11) Cons.IH [of d1] show ?thesis by (auto split: if_splits)
  qed
qed

lemma predict_objects: "predict c x t workers static limits s = (r, s') \<Longrightarrow> same_objects s s'"
  by (auto simp: predict_def accept_update_def Let_def split: option.splits if_splits prod.splits sum.splits)

lemma investigate_objects:
  assumes "investigate v x question base s = (r, v', s')" shows "same_objects s s'"
proof (cases "open_task (ps_store s) question (icl_resolve x base)")
  case (Inl err)
  with assms show ?thesis by (simp add: investigate_def)
next
  case (Inr t)
  obtain p s1 where p: "predict (inv_routing v) (icl_policy x) t (inv_workers v) (static_route t) (safety_limits v) s = (Inr p, s1)"
    using predict_returns by blast
  obtain d early where d: "dispatch v x t (planned_of t) p question base (fallback_routes v (rpn_chosen_route p)) (initial_dispatch s1) = (d, early)"
    by force
  have "same_objects s (ds_store d)"
    by (rule dispatch_objects [OF d]) (use predict_objects [OF p] in \<open>simp add: initial_dispatch_def\<close>)
  moreover have "same_objects s (snd (evaluated (icl_policy x) p q (ds_store d))) = same_objects s (ds_store d)" for q :: "investigation_result result"
    by (auto simp: evaluated_def evaluate_prediction_def Let_def)
  ultimately have eval: "same_objects s s2" if "evaluated (icl_policy x) p q (ds_store d) = (q', s2)" for q q' :: "investigation_result result" and s2
    using that by (metis snd_conv)
  show ?thesis
    using assms d eval \<open>same_objects s (ds_store d)\<close>
    by (auto simp: investigate_def Inr p Let_def initial_dispatch_def split: option.splits prod.splits if_splits)
qed



end
