(* ===== verification/Conflicts.thy ===== *)
theory Conflicts
  imports Models_Pursuit
begin

text \<open>
  Conflicts between claims (\<open>src/rlmgraph/conflicts.py\<close>): the normal form of an assertion, the conflicts
  of a new claim with the existing ones, and the grouping of the claims about one assertion by the
  value they give it. Texts are ASCII.
\<close>

section \<open>Normal form\<close>

definition word_char :: "char \<Rightarrow> bool" where
  "word_char c \<longleftrightarrow> (CHR ''a'' \<le> c \<and> c \<le> CHR ''z'') \<or> (CHR ''0'' \<le> c \<and> c \<le> CHR ''9'') \<or> c = CHR ''_''"

text \<open>\<open>re.findall(r"[a-z0-9_]+", s)\<close>: the maximal runs of word characters.\<close>

fun word_runs :: "string \<Rightarrow> string \<Rightarrow> string list" where
  "word_runs acc [] = (if acc = [] then [] else [rev acc])"
| "word_runs acc (c # cs) =
     (if word_char c then word_runs (c # acc) cs else (if acc = [] then [] else [rev acc]) @ word_runs [] cs)"

definition normalize_assertion :: "string \<Rightarrow> string" where
  "normalize_assertion t = py_join '' '' (word_runs [] (py_lower t))"

section \<open>Detecting conflicts\<close>

definition assertion_table :: "claim \<Rightarrow> assertion py_dict" where
  "assertion_table c = dict_of_pairs (map (\<lambda>a. (normalize_assertion (as_key a), a)) (cl_assertions c))"

definition assertion_conflict :: "claim \<Rightarrow> claim \<Rightarrow> assertion \<Rightarrow> claim_conflict option" where
  "assertion_conflict new existing a =
     (case dict_get (normalize_assertion (as_key a)) (assertion_table new) of
        None \<Rightarrow> None
      | Some candidate \<Rightarrow>
          if normalize_assertion (as_value a) = normalize_assertion (as_value candidate) then None
          else Some \<lparr>cc_left_claim_id = cl_id existing, cc_right_claim_id = cl_id new, cc_assertion_key = as_key candidate,
                     cc_left_value = as_value a, cc_right_value = as_value candidate\<rparr>)"

definition detect_conflicts :: "claim \<Rightarrow> claim list \<Rightarrow> claim_conflict list" where
  "detect_conflicts new existing =
     concat (map (\<lambda>c. if cl_id c = cl_id new then [] else List.map_filter (assertion_conflict new c) (cl_assertions c)) existing)"

section \<open>Clusters\<close>

definition asserted :: "string \<Rightarrow> claim \<Rightarrow> assertion option" where
  "asserted key c = find (\<lambda>a. normalize_assertion (as_key a) = normalize_assertion key) (cl_assertions c)"

text \<open>\<open>groups.setdefault(...)\<close> and the append to the claims of the group.\<close>

definition join_group :: "string \<Rightarrow> claim \<Rightarrow> interpretation_group py_dict \<Rightarrow> interpretation_group py_dict" where
  "join_group key c groups =
     (case asserted key c of
        None \<Rightarrow> groups
      | Some a \<Rightarrow>
          let v = normalize_assertion (as_value a);
              g = (case dict_get v groups of
                     None \<Rightarrow> \<lparr>ig_value = as_value a, ig_normalized_value = v, ig_claim_ids = []\<rparr> | Some g \<Rightarrow> g)
          in dict_set v (if cl_id c \<in> set (ig_claim_ids g) then g else g\<lparr>ig_claim_ids := ig_claim_ids g @ [cl_id c]\<rparr>) groups)"

definition cluster_interpretations :: "string \<Rightarrow> claim list \<Rightarrow> interpretation_group list \<times> string list \<times> string list" where
  "cluster_interpretations key claims =
     (let groups = map snd (fold (join_group key) claims [])
      in (groups, concat (map ig_claim_ids (filter (\<lambda>g. length (ig_claim_ids g) > 1) groups)),
          map (\<lambda>g. hd (ig_claim_ids g)) (filter (\<lambda>g. length (ig_claim_ids g) = 1) groups)))"

definition new_cluster :: "string \<Rightarrow> string \<Rightarrow> string \<Rightarrow> py_time \<Rightarrow> conflict_cluster" where
  "new_cluster i project key now =
     \<lparr>ccl_id = i, ccl_project_fingerprint = project, ccl_assertion_key = key, ccl_claim_ids = [], ccl_interpretations = [],
      ccl_corroborated_claim_ids = [], ccl_outlier_claim_ids = [], ccl_resolution_task_id = None, ccl_resolved_claim_id = None,
      ccl_selected_value = None, ccl_status = ClusterStatus_OPEN, ccl_created_at = now, ccl_updated_at = now\<rparr>"

definition build_conflict_cluster ::
  "string \<Rightarrow> py_time \<Rightarrow> string \<Rightarrow> string \<Rightarrow> claim list \<Rightarrow> conflict_cluster option \<Rightarrow> conflict_cluster" where
  "build_conflict_cluster i now project key claims existing =
     (let (groups, corroborated, outliers) = cluster_interpretations key claims;
          cluster = (case existing of None \<Rightarrow> new_cluster i project key now | Some c \<Rightarrow> c)
      in cluster\<lparr>ccl_claim_ids := concat (map ig_claim_ids groups), ccl_interpretations := groups,
                 ccl_corroborated_claim_ids := corroborated, ccl_outlier_claim_ids := outliers\<rparr>)"

end
