(* ===== verification/Resolution.thy ===== *)
theory Resolution
  imports Conflicts Execution
begin

text \<open>
  Adjudicating a conflict (\<open>src/rlmgraph/resolution.py\<close>): the executor asks a resolver, records the
  attempt and the verdict, and turns an answer that passes its checks into an adjudicated claim. The
  resolver is an argument; the time and the identifiers of a call are arguments, too.
\<close>

section \<open>The resolver and the executor\<close>

record resolution_context =
  rcx_follow_up_claims :: "claim list"
  rcx_previous_attempts :: "resolution_attempt list"
  rcx_conflict_cluster :: "conflict_cluster option"

record resolver =
  rsv_name :: string
  rsv_supports_clusters :: bool
  rsv_resolve :: "task \<Rightarrow> claim \<Rightarrow> claim \<Rightarrow> resolution_context \<Rightarrow> resolution_result result"
  rsv_resolve_cluster :: "task \<Rightarrow> claim list \<Rightarrow> resolution_context \<Rightarrow> resolution_result result"

record resolution_executor =
  rex_resolver :: resolver
  rex_confidence_threshold :: rat
  rex_max_resolution_attempts :: int

record resolution_call =
  rsc_attempt_id :: string
  rsc_verdict_id :: string
  rsc_claim_id :: string
  rsc_env :: env
  rsc_commit :: "string option"
  rsc_now :: py_time

record resolution_run =
  rrun_task :: task
  rrun_result :: resolution_result
  rrun_claim :: "claim option"
  rrun_verdict :: conflict_verdict

section \<open>When an answer is accepted\<close>

definition is_successful :: "rat \<Rightarrow> string option \<Rightarrow> resolution_result \<Rightarrow> claim \<Rightarrow> claim \<Rightarrow> bool" where
  "is_successful threshold key r left right \<longleftrightarrow>
     (if rr_selected_claim r = ResolutionChoice_NEITHER then False
      else if rr_confidence r < threshold \<or> rr_unresolved_questions r \<noteq> [] then False
      else case (rr_resolved_assertion r, key) of
        (Some a, Some k) \<Rightarrow>
          if normalize_assertion (as_key a) \<noteq> normalize_assertion k then False
          else let selected = (if rr_selected_claim r = ResolutionChoice_LEFT then left else right)
               in (case asserted k selected of
                     None \<Rightarrow> False
                   | Some expected \<Rightarrow> normalize_assertion (as_value expected) = normalize_assertion (as_value a))
      | _ \<Rightarrow> False)"

definition is_cluster_successful :: "rat \<Rightarrow> string option \<Rightarrow> resolution_result \<Rightarrow> conflict_cluster \<Rightarrow> bool" where
  "is_cluster_successful threshold key r cluster \<longleftrightarrow>
     (if rr_selected_claim r \<noteq> ResolutionChoice_VALUE then False
      else if rr_confidence r < threshold \<or> rr_unresolved_questions r \<noteq> [] then False
      else case (rr_resolved_assertion r, key, rr_selected_value r) of
        (Some a, Some k, Some v) \<Rightarrow>
          if normalize_assertion (as_key a) \<noteq> normalize_assertion k then False
          else if normalize_assertion (as_value a) \<noteq> normalize_assertion v then False
          else (case find (\<lambda>g. ig_normalized_value g = normalize_assertion v) (ccl_interpretations cluster) of
                  None \<Rightarrow> False
                | Some g \<Rightarrow> set (rr_selected_claim_ids r) = set (ig_claim_ids g) \<and>
                    set (rr_corroborated_claim_ids r) = set (ccl_corroborated_claim_ids cluster) \<and>
                    set (rr_outlier_claim_ids r) = set (ccl_outlier_claim_ids cluster))
      | _ \<Rightarrow> False)"

section \<open>The verdict\<close>

definition disputed_key :: "task \<Rightarrow> string" where
  "disputed_key t = (case tk_disputed_assertion_key t of None \<Rightarrow> [] | Some k \<Rightarrow> k)"

definition supports_value :: "string \<Rightarrow> string \<Rightarrow> claim \<Rightarrow> bool" where
  "supports_value key v c \<longleftrightarrow>
     (case asserted key c of None \<Rightarrow> False | Some a \<Rightarrow> normalize_assertion (as_value a) = normalize_assertion v)"

text \<open>The model of a verdict bounds the threshold and the number of attempts; the confidence of an
  answer is already in bounds.\<close>

definition build_verdict ::
  "resolution_executor \<Rightarrow> resolution_call \<Rightarrow> task \<Rightarrow> claim list \<Rightarrow> resolution_result \<Rightarrow> resolution_attempt \<Rightarrow> claim list \<Rightarrow>
     bool \<Rightarrow> plan_store \<Rightarrow> conflict_verdict result" where
  "build_verdict x call t claims r attempt evidence successful s =
     (let selected = (if successful then map_option as_value (rr_resolved_assertion r) else None);
          key = disputed_key t;
          (supporting, contradicting) = (case selected of
              None \<Rightarrow> ([], [])
            | Some v \<Rightarrow> (map cl_id (filter (supports_value key v) claims), map cl_id (filter (\<lambda>c. \<not> supports_value key v c) claims)));
          existing = conflict_verdicts s (tk_id t)
      in if rex_confidence_threshold x < 0 \<or> 1 < rex_confidence_threshold x \<or> rex_max_resolution_attempts x < 1
         then Inl (ValueError ''ConflictVerdict'')
         else Inr \<lparr>cvd_id = (if existing = [] then rsc_verdict_id call else cvd_id (last existing)),
           cvd_resolution_task_id = tk_id t, cvd_conflict_cluster_id = tk_conflict_cluster_id t, cvd_assertion_key = key,
           cvd_status = (if successful then VerdictStatus_RESOLVED else VerdictStatus_UNRESOLVED), cvd_selected_value = selected,
           cvd_confidence = rr_confidence r, cvd_rationale = rr_rationale r, cvd_evidence = rr_evidence r,
           cvd_claim_ids = map cl_id claims, cvd_supporting_claim_ids = supporting, cvd_contradicting_claim_ids = contradicting,
           cvd_evidence_claim_ids = dict_fromkeys (map cl_id claims @ map cl_id evidence),
           cvd_resolver_attempt_id = rat_id attempt, cvd_unresolved_questions = rr_unresolved_questions r,
           cvd_confidence_threshold = rex_confidence_threshold x, cvd_max_resolution_attempts = rex_max_resolution_attempts x,
           cvd_created_at = (if existing = [] then rsc_now call else cvd_created_at (last existing)),
           cvd_updated_at = rsc_now call\<rparr>)"

section \<open>Execution\<close>

definition adjudicated_claim ::
  "resolution_executor \<Rightarrow> resolution_call \<Rightarrow> task \<Rightarrow> claim list \<Rightarrow> resolution_result \<Rightarrow> assertion \<Rightarrow> conflict_verdict \<Rightarrow> claim" where
  "adjudicated_claim x call t claims r a verdict =
     \<lparr>cl_id = rsc_claim_id call, cl_fingerprint = tk_fingerprint t, cl_project_fingerprint = tk_project_fingerprint t,
      cl_project_root = [], cl_subject = py_join '' | '' (dict_fromkeys (map cl_subject claims)) @ '' | '' @ as_key a,
      cl_producer = rsv_name (rex_resolver x), cl_kind = ClaimKind_ADJUDICATED, cl_resolution_task_id = Some (tk_id t),
      cl_resolved_claim_ids = map cl_id claims, cl_conclusion = rr_rationale r, cl_confidence = rr_confidence r,
      cl_evidence = rr_evidence r, cl_files_examined = sorted_set (concat (map cl_files_examined claims)), cl_files_changed = [],
      cl_unresolved_questions = [], cl_assertions = [a], cl_created_at = rsc_now call, cl_source_task_id = None,
      cl_source_claim_ids = [], cl_source_files = [], cl_source_commit = None, cl_learned_at = rsc_now call, cl_valid_from = None,
      cl_valid_until = None, cl_validity_status = ClaimValidity_CURRENT,
      cl_validity_reason = ''Claim has not yet been checked against repository evidence.'', cl_validity_history = [],
      cl_superseded_by_claim_id = None, cl_memory_tier = MemoryTier_WORKING, cl_memory_lifecycle = MemoryLifecycle_ACTIVE,
      cl_tier_history = [], cl_promoted_to_claim_id = None, cl_successful_reuse_count = 0,
      cl_memory_policy_decision_id = None, cl_conflict_verdict_id = Some (cvd_id verdict)\<rparr>"

definition follow_up_claims :: "store \<Rightarrow> string \<Rightarrow> claim list" where
  "follow_up_claims s task =
     List.map_filter (\<lambda>t. case tk_output_claim_id t of None \<Rightarrow> None | Some k \<Rightarrow> get_claim s k)
       (filter (\<lambda>t. tk_parent_task_id t = Some task \<and> truthy (tk_output_claim_id t)) (st_tasks s))"

text \<open>The checks before the resolver is asked: the task, its claims and its cluster.\<close>

definition resolution_subject :: "string \<Rightarrow> plan_store \<Rightarrow> (task \<times> claim list \<times> conflict_cluster option) result" where
  "resolution_subject task_id s =
     (case get_task (ps_store s) task_id of
        None \<Rightarrow> Inl (ValueError (''Resolution task not found: '' @ task_id))
      | Some t \<Rightarrow>
          if tk_kind t \<noteq> TaskKind_RESOLUTION then Inl (ValueError (''Task is not a resolution task: '' @ task_id))
          else if tk_status t \<noteq> TaskStatus_OPEN then
            Inl (ValueError (''Resolution task is not open: '' @ task_id @ '' ('' @ task_status_value (tk_status t) @ '')''))
          else if length (tk_conflicting_claim_ids t) < 2 then
            Inl (ValueError (''Resolution task must reference at least two claims: '' @ task_id))
          else let claims = map (get_claim (ps_store s)) (tk_conflicting_claim_ids t)
               in if None \<in> set claims then Inl (ValueError (''Resolution task references a missing claim: '' @ task_id))
                  else Inr (t, map the claims,
                    if truthy (tk_conflict_cluster_id t) then get_conflict_cluster s (the (tk_conflict_cluster_id t)) else None))"

definition ask_resolver ::
  "resolver \<Rightarrow> task \<Rightarrow> claim list \<Rightarrow> resolution_context \<Rightarrow> resolution_result result" where
  "ask_resolver v t claims context =
     (case rcx_conflict_cluster context of
        Some _ \<Rightarrow>
          if \<not> rsv_supports_clusters v then Inl (TypeError ''Resolver does not support multi-claim conflict clusters'')
          else rsv_resolve_cluster v t claims context
      | None \<Rightarrow> rsv_resolve v t (claims ! 0) (claims ! 1) context)"

definition answer_accepted :: "rat \<Rightarrow> task \<Rightarrow> claim list \<Rightarrow> conflict_cluster option \<Rightarrow> resolution_result \<Rightarrow> bool" where
  "answer_accepted threshold t claims cluster r \<longleftrightarrow>
     (case cluster of
        Some k \<Rightarrow> is_cluster_successful threshold (tk_disputed_assertion_key t) r k
      | None \<Rightarrow> is_successful threshold (tk_disputed_assertion_key t) r (claims ! 0) (claims ! 1))"

definition resolve_cluster_record :: "conflict_cluster option \<Rightarrow> claim \<Rightarrow> assertion \<Rightarrow> plan_store \<Rightarrow> plan_store" where
  "resolve_cluster_record cluster c a s =
     (case cluster of
        None \<Rightarrow> s
      | Some k \<Rightarrow> link (cl_id c) ''RESOLVES_CLUSTER'' (ccl_id k)
          (save_conflict_cluster (k\<lparr>ccl_status := ClusterStatus_RESOLVED, ccl_resolved_claim_id := Some (cl_id c),
              ccl_selected_value := Some (as_value a)\<rparr>) s))"

definition accept_answer ::
  "resolution_executor \<Rightarrow> resolution_call \<Rightarrow> task \<Rightarrow> claim list \<Rightarrow> conflict_cluster option \<Rightarrow> resolution_result \<Rightarrow> assertion \<Rightarrow>
     conflict_verdict \<Rightarrow> plan_store \<Rightarrow> resolution_run \<times> plan_store" where
  "accept_answer x call t claims cluster r a verdict s =
     (let c = adjudicated_claim x call t claims r a verdict;
          t' = t\<lparr>tk_status := TaskStatus_DONE, tk_resolved_claim_id := Some (cl_id c), tk_completed_at := Some (rsc_now call),
                 tk_stopping_reason := Some StoppingReason_COMPLETED\<rparr>;
          (c', s1) = save_claim (rsc_env call) (rsc_commit call) (rsc_now call) t' c (store_task t' s);
          s2 = link (tk_id t') ''PRODUCED'' (cl_id c') s1;
          s3 = fold (\<lambda>k. link (cl_id c') ''RESOLVES'' k) (tk_conflicting_claim_ids t') s2
      in (\<lparr>rrun_task = t', rrun_result = r, rrun_claim = Some c', rrun_verdict = verdict\<rparr>, resolve_cluster_record cluster c' a s3))"

definition keep_unresolved ::
  "resolution_call \<Rightarrow> task \<Rightarrow> resolution_result \<Rightarrow> conflict_verdict \<Rightarrow> plan_store \<Rightarrow> resolution_run \<times> plan_store" where
  "keep_unresolved call t r verdict s =
     (let t' = t\<lparr>tk_status := TaskStatus_RECURSE, tk_completed_at := Some (rsc_now call),
                 tk_stopping_reason := Some StoppingReason_LOW_CONFIDENCE\<rparr>
      in (\<lparr>rrun_task = t', rrun_result = r, rrun_claim = None, rrun_verdict = verdict\<rparr>, store_task t' s))"

text \<open>The number is what the executor adds to its count of resolver calls.\<close>

definition execute_resolution ::
  "resolution_executor \<Rightarrow> resolution_call \<Rightarrow> string \<Rightarrow> plan_store \<Rightarrow> resolution_run result \<times> int \<times> plan_store" where
  "execute_resolution x call task_id s =
     (case resolution_subject task_id s of
        Inl err \<Rightarrow> (Inl err, 0, s)
      | Inr (t0, claims, cluster) \<Rightarrow>
          let t1 = started_task (rsc_now call) t0;
              s1 = store_task t1 s;
              evidence = follow_up_claims (ps_store s1) (tk_id t1);
              context = \<lparr>rcx_follow_up_claims = evidence, rcx_previous_attempts = resolution_attempts s1 (tk_id t1),
                rcx_conflict_cluster = cluster\<rparr>
          in (case ask_resolver (rex_resolver x) t1 claims context of
                Inl err \<Rightarrow> (Inl err, 1, s1)
              | Inr r \<Rightarrow>
                  let attempt = \<lparr>rat_id = rsc_attempt_id call, rat_task_id = tk_id t1, rat_result = r,
                        rat_evidence_claim_ids = map cl_id evidence, rat_created_at = rsc_now call\<rparr>;
                      s2 = save_resolution_attempt attempt s1;
                      successful = answer_accepted (rex_confidence_threshold x) t1 claims cluster r
                  in (case build_verdict x call t1 claims r attempt evidence successful s2 of
                        Inl err \<Rightarrow> (Inl err, 1, s2)
                      | Inr verdict \<Rightarrow>
                          let t2 = t1\<lparr>tk_conflict_verdict_id := Some (cvd_id verdict)\<rparr>;
                              s3 = save_conflict_verdict verdict s2
                          in (case (successful, rr_resolved_assertion r) of
                                (True, Some a) \<Rightarrow>
                                  let (run, s4) = accept_answer x call t2 claims cluster r a verdict s3 in (Inr run, 1, s4)
                              | (True, None) \<Rightarrow> (Inl AssertionError, 1, s3)
                              | (False, _) \<Rightarrow>
                                  let (run, s4) = keep_unresolved call t2 r verdict s3 in (Inr run, 1, s4)))))"

end
