(* ===== verification/Resolution_Demo.thy ===== *)
theory Resolution_Demo
  imports Resolution Pursuit_Demo
begin

text \<open>
  A concrete conflict for the witnesses: two claims about a colour, a resolution task, and resolvers with
  a fixed answer.
\<close>

section \<open>A concrete conflict\<close>

definition colour_claim :: "string \<Rightarrow> string \<Rightarrow> claim" where
  "colour_claim i v = (follow_up_claim i 0 demo_task (pursuit_answer 1))\<lparr>cl_assertions := [\<lparr>as_key = ''Colour'', as_value = v\<rparr>]\<rparr>"

definition colour_task :: task where
  "colour_task = demo_task\<lparr>tk_kind := TaskKind_RESOLUTION, tk_conflicting_claim_ids := [''C1'', ''C2''],
     tk_disputed_assertion_key := Some ''colour''\<rparr>"

definition colour_store :: plan_store where
  "colour_store = (pursuit_store [colour_task] [])\<lparr>ps_store := (ps_store (pursuit_store [colour_task] []))
     \<lparr>st_claims := [colour_claim ''C1'' ''Red'', colour_claim ''C2'' ''blue'']\<rparr>\<rparr>"

definition colour_answer :: "rat \<Rightarrow> resolution_result" where
  "colour_answer c = \<lparr>rr_selected_claim = ResolutionChoice_LEFT, rr_resolved_assertion = Some \<lparr>as_key = ''COLOUR'', as_value = ''red''\<rparr>,
     rr_rationale = ''seen'', rr_evidence = [], rr_confidence = c, rr_unresolved_questions = [], rr_selected_value = None,
     rr_selected_claim_ids = [], rr_corroborated_claim_ids = [], rr_outlier_claim_ids = []\<rparr>"

definition colour_executor :: "resolution_result result \<Rightarrow> resolution_executor" where
  "colour_executor r = \<lparr>rex_resolver = \<lparr>rsv_name = ''R'', rsv_supports_clusters = False, rsv_resolve = (\<lambda>_ _ _ _. r),
     rsv_resolve_cluster = (\<lambda>_ _ _. r)\<rparr>, rex_confidence_threshold = 3 / 4, rex_max_resolution_attempts = 2\<rparr>"

definition colour_call :: resolution_call where
  "colour_call = \<lparr>rsc_attempt_id = ''A'', rsc_verdict_id = ''V'', rsc_claim_id = ''C3'', rsc_env = plain_env, rsc_commit = None, rsc_now = 9\<rparr>"

lemma normal_colours:
  "normalize_assertion ''Colour'' = ''colour''" "normalize_assertion ''colour'' = ''colour''" "normalize_assertion ''COLOUR'' = ''colour''"
  "normalize_assertion ''Red'' = ''red''" "normalize_assertion ''red'' = ''red''" "normalize_assertion ''blue'' = ''blue''"
  by code_simp+

end
