(* ===== verification/Conflicts_Properties.thy ===== *)
theory Conflicts_Properties
  imports Resolution_Demo
begin

text \<open>
  What the clusters of an assertion say: the interpretations partition the claims by the value they give.
\<close>

section \<open>The clusters of an assertion\<close>

text \<open>The value a claim gives to an assertion, in normal form, and the claims that give a value.\<close>

definition asserted_value :: "string \<Rightarrow> claim \<Rightarrow> string option" where
  "asserted_value key c = map_option (\<lambda>a. normalize_assertion (as_value a)) (asserted key c)"

definition claimants :: "string \<Rightarrow> claim list \<Rightarrow> string \<Rightarrow> string set" where
  "claimants key cs v = cl_id ` {c \<in> set cs. asserted_value key c = Some v}"

lemma claimants_snoc:
  "claimants key (cs @ [c]) v = (if asserted_value key c = Some v then insert (cl_id c) (claimants key cs v) else claimants key cs v)"
  by (auto simp: claimants_def)

definition group_ok :: "string \<Rightarrow> claim list \<Rightarrow> string \<Rightarrow> interpretation_group \<Rightarrow> bool" where
  "group_ok key cs v g \<longleftrightarrow> ig_normalized_value g = v \<and> normalize_assertion (ig_value g) = v \<and> distinct (ig_claim_ids g) \<and>
     ig_claim_ids g \<noteq> [] \<and> set (ig_claim_ids g) = claimants key cs v"

definition group_table_ok :: "string \<Rightarrow> claim list \<Rightarrow> interpretation_group py_dict \<Rightarrow> bool" where
  "group_table_ok key cs groups \<longleftrightarrow>
     distinct (map fst groups) \<and> (\<forall>(v, g)\<in>set groups. group_ok key cs v g) \<and>
     (\<forall>c\<in>set cs. \<forall>v. asserted_value key c = Some v \<longrightarrow> v \<in> fst ` set groups)"

lemma dict_get_mem: "distinct (map fst d) \<Longrightarrow> dict_get k d = Some v \<longleftrightarrow> (k, v) \<in> set d"
  by (simp add: dict_get_def)

lemma join_group_ok:
  assumes "group_table_ok key cs groups" shows "group_table_ok key (cs @ [c]) (join_group key c groups)"
proof (cases "asserted key c")
  case None
  then have "asserted_value key c = None" by (simp add: asserted_value_def)
  with assms None show ?thesis by (simp add: group_table_ok_def join_group_def group_ok_def claimants_snoc)
next
  case (Some a)
  let ?v = "normalize_assertion (as_value a)"
  have mine: "asserted_value key c = Some ?v" using Some by (simp add: asserted_value_def)
  define g where "g = (case dict_get ?v groups of
    None \<Rightarrow> \<lparr>ig_value = as_value a, ig_normalized_value = ?v, ig_claim_ids = []\<rparr> | Some g \<Rightarrow> g)"
  define h where "h = (if cl_id c \<in> set (ig_claim_ids g) then g else g\<lparr>ig_claim_ids := ig_claim_ids g @ [cl_id c]\<rparr>)"
  have join: "join_group key c groups = dict_set ?v h groups" using Some by (simp add: join_group_def Let_def g_def h_def)
  have d: "distinct (map fst groups)" "distinct (map fst (dict_set ?v h groups))"
    using assms distinct_dict_set by (auto simp: group_table_ok_def)
  have old: "ig_normalized_value g = ?v \<and> normalize_assertion (ig_value g) = ?v \<and> distinct (ig_claim_ids g) \<and>
      set (ig_claim_ids g) = claimants key cs ?v"
  proof (cases "dict_get ?v groups")
    case None
    then have "?v \<notin> fst ` set groups" using d(1) by (auto simp: dict_get_def map_of_eq_None_iff)
    then have "claimants key cs ?v = {}" using assms by (auto simp: group_table_ok_def claimants_def)
    with None show ?thesis by (simp add: g_def)
  next
    case (Some b)
    then have "(?v, b) \<in> set groups" using d(1) by (simp add: dict_get_mem)
    then have "group_ok key cs ?v b" using assms by (auto simp: group_table_ok_def)
    with Some show ?thesis by (simp add: g_def group_ok_def)
  qed
  have new: "group_ok key (cs @ [c]) ?v h"
    using old mine by (auto simp: h_def group_ok_def claimants_snoc)
  have "group_ok key (cs @ [c]) v b" if "(v, b) \<in> set (dict_set ?v h groups)" for v b
  proof (cases "v = ?v")
    case True
    with that d(2) have "b = h" by (auto simp flip: dict_get_mem [OF d(2)])
    with new True show ?thesis by simp
  next
    case False
    with that have "(v, b) \<in> set groups" by (simp flip: dict_get_mem [OF d(2)] dict_get_mem [OF d(1)])
    with assms have "group_ok key cs v b" by (auto simp: group_table_ok_def)
    with mine False show ?thesis by (simp add: group_ok_def claimants_snoc)
  qed
  moreover have "\<forall>e\<in>set (cs @ [c]). \<forall>v. asserted_value key e = Some v \<longrightarrow> v \<in> fst ` set (dict_set ?v h groups)"
    using assms mine by (auto simp: group_table_ok_def keys_dict_set)
  ultimately show ?thesis unfolding join group_table_ok_def using d(2) by auto
qed

lemma clusters_ok: "group_table_ok key claims (fold (join_group key) claims [])"
proof -
  have "group_table_ok key (cs @ claims) (fold (join_group key) claims groups)" if "group_table_ok key cs groups" for cs groups
    using that
  proof (induction claims arbitrary: cs groups)
    case (Cons c claims)
    from Cons.IH [OF join_group_ok [OF Cons.prems, of c]] show ?case by simp
  qed simp
  from this [of "[]" "[]"] show ?thesis by (simp add: group_table_ok_def)
qed

lemma interpretation_groups:
  assumes "cluster_interpretations key claims = (groups, corroborated, outliers)"
  shows "distinct (map ig_normalized_value groups)" "\<And>g. g \<in> set groups \<Longrightarrow> group_ok key claims (ig_normalized_value g) g"
    "\<And>c v. c \<in> set claims \<Longrightarrow> asserted_value key c = Some v \<Longrightarrow> \<exists>g\<in>set groups. ig_normalized_value g = v"
    "corroborated = concat (map ig_claim_ids (filter (\<lambda>g. length (ig_claim_ids g) > 1) groups))"
    "outliers = map (\<lambda>g. hd (ig_claim_ids g)) (filter (\<lambda>g. length (ig_claim_ids g) = 1) groups)"
proof -
  let ?t = "fold (join_group key) claims []"
  have ok: "distinct (map fst ?t)" "\<And>v g. (v, g) \<in> set ?t \<Longrightarrow> group_ok key claims v g"
    "\<And>c v. c \<in> set claims \<Longrightarrow> asserted_value key c = Some v \<Longrightarrow> v \<in> fst ` set ?t"
    using clusters_ok [of key claims] by (auto simp: group_table_ok_def)
  have groups: "groups = map snd ?t" using assms by (auto simp: cluster_interpretations_def Let_def)
  have norm: "(v, g) \<in> set ?t \<Longrightarrow> ig_normalized_value g = v" for v g using ok(2) by (simp add: group_ok_def)
  then have "map ig_normalized_value groups = map fst ?t" by (auto simp: groups)
  then show "distinct (map ig_normalized_value groups)" using ok(1) by simp
  show "group_ok key claims (ig_normalized_value g) g" if "g \<in> set groups" for g
  proof -
    from that obtain v where "(v, g) \<in> set ?t" by (auto simp: groups)
    then show ?thesis using ok(2) norm [of v g] by simp
  qed
  show "\<exists>g\<in>set groups. ig_normalized_value g = v" if "c \<in> set claims" "asserted_value key c = Some v" for c v
  proof -
    from ok(3) [OF that] obtain g where "(v, g) \<in> set ?t" by auto
    then show ?thesis using norm [of v g] by (force simp: groups)
  qed
qed (use assms in \<open>auto simp: cluster_interpretations_def Let_def\<close>)

lemma longer_than_one: "distinct xs \<Longrightarrow> x \<in> set xs \<Longrightarrow> length xs > 1 \<longleftrightarrow> (\<exists>y\<in>set xs. y \<noteq> x)"
  by (cases xs; cases "tl xs") auto

text \<open>A claim about the assertion is in exactly one group, the one of its value.\<close>

lemma group_of_claim:
  assumes groups: "distinct (map ig_normalized_value groups)" "\<And>g. g \<in> set groups \<Longrightarrow> group_ok key claims (ig_normalized_value g) g"
    and ids: "distinct (map cl_id claims)" and c: "c \<in> set claims" "asserted_value key c = Some (ig_normalized_value g)"
    and gh: "g \<in> set groups" "h \<in> set groups"
  shows "cl_id c \<in> set (ig_claim_ids h) \<longleftrightarrow> h = g"
proof
  assume "cl_id c \<in> set (ig_claim_ids h)"
  with groups(2) [OF gh(2)] obtain d where d: "d \<in> set claims" "cl_id d = cl_id c" "asserted_value key d = Some (ig_normalized_value h)"
    by (auto simp: group_ok_def claimants_def)
  then have "d = c" using ids c(1) by (auto simp: distinct_map dest: inj_onD)
  with d c have "ig_normalized_value h = ig_normalized_value g" by simp
  with groups(1) gh show "h = g" by (auto simp: distinct_map dest: inj_onD)
qed (use groups(2) gh c in \<open>auto simp: group_ok_def claimants_def\<close>)

text \<open>C22: The interpretations of an assertion partition the claims about it by the value they give it: one
  group per value, in which every claim with that value is listed once; a claim is corroborated
  exactly if another claim gives the same value, and it is an outlier exactly if none does.\<close>

theorem interpretations_partition_claims:
  assumes "cluster_interpretations key claims = (groups, corroborated, outliers)" and "distinct (map cl_id claims)"
  shows "distinct (map ig_normalized_value groups) \<and>
    (\<forall>g\<in>set groups. distinct (ig_claim_ids g) \<and> ig_claim_ids g \<noteq> [] \<and>
       set (ig_claim_ids g) = cl_id ` {c \<in> set claims. asserted_value key c = Some (ig_normalized_value g)}) \<and>
    (\<forall>c\<in>set claims. \<forall>v. asserted_value key c = Some v \<longrightarrow>
       (\<exists>g\<in>set groups. ig_normalized_value g = v \<and> cl_id c \<in> set (ig_claim_ids g)) \<and>
       (cl_id c \<in> set corroborated \<longleftrightarrow> (\<exists>d\<in>set claims. cl_id d \<noteq> cl_id c \<and> asserted_value key d = Some v)) \<and>
       (cl_id c \<in> set outliers \<longleftrightarrow> \<not> (\<exists>d\<in>set claims. cl_id d \<noteq> cl_id c \<and> asserted_value key d = Some v)))"
proof -
  note groups = interpretation_groups [OF assms(1)]
  have claim: "(\<exists>g\<in>set groups. ig_normalized_value g = v \<and> cl_id c \<in> set (ig_claim_ids g)) \<and>
      (cl_id c \<in> set corroborated \<longleftrightarrow> (\<exists>d\<in>set claims. cl_id d \<noteq> cl_id c \<and> asserted_value key d = Some v)) \<and>
      (cl_id c \<in> set outliers \<longleftrightarrow> \<not> (\<exists>d\<in>set claims. cl_id d \<noteq> cl_id c \<and> asserted_value key d = Some v))"
    if c: "c \<in> set claims" "asserted_value key c = Some v" for c v
  proof -
    from groups(3) [OF c] obtain g where g: "g \<in> set groups" "ig_normalized_value g = v" by blast
    have one: "cl_id c \<in> set (ig_claim_ids h) \<longleftrightarrow> h = g" if "h \<in> set groups" for h
      using group_of_claim [OF groups(1,2) assms(2) c(1) _ g(1) that] c(2) g(2) by simp
    then have mine: "cl_id c \<in> set (ig_claim_ids g)" using g by blast
    have ids: "distinct (ig_claim_ids g)" "set (ig_claim_ids g) = cl_id ` {d \<in> set claims. asserted_value key d = Some v}"
      using groups(2) [OF g(1)] g(2) by (simp_all add: group_ok_def claimants_def)
    have "length (ig_claim_ids g) > 1 \<longleftrightarrow> (\<exists>d\<in>set claims. cl_id d \<noteq> cl_id c \<and> asserted_value key d = Some v)"
      using longer_than_one [OF ids(1) mine] unfolding ids(2) by auto
    moreover have "cl_id c \<in> set corroborated \<longleftrightarrow> (\<exists>h\<in>set groups. length (ig_claim_ids h) > 1 \<and> cl_id c \<in> set (ig_claim_ids h))"
      by (auto simp: groups(4))
    then have "cl_id c \<in> set corroborated \<longleftrightarrow> length (ig_claim_ids g) > 1" using g(1) one by metis
    moreover have single: "length xs = 1 \<Longrightarrow> x = hd xs \<longleftrightarrow> x \<in> set xs" for x :: string and xs by (cases xs) auto
    have "cl_id c \<in> set outliers \<longleftrightarrow> (\<exists>h\<in>set groups. length (ig_claim_ids h) = 1 \<and> cl_id c \<in> set (ig_claim_ids h))"
      unfolding groups(5) using single by (auto simp: image_iff)
    then have "cl_id c \<in> set outliers \<longleftrightarrow> length (ig_claim_ids g) = 1" using g(1) one by metis
    moreover have "length (ig_claim_ids g) = 1 \<longleftrightarrow> \<not> length (ig_claim_ids g) > 1" using mine by (cases "ig_claim_ids g") auto
    ultimately show ?thesis using g mine by blast
  qed
  show ?thesis using groups(1,2) claim by (simp add: group_ok_def claimants_def)
qed

theorem interpretations_partition_claims_witness:
  "\<exists>groups corroborated outliers.
     cluster_interpretations ''colour'' [colour_claim ''C1'' ''Red'', colour_claim ''C2'' ''blue'', colour_claim ''C3'' ''red''] =
       (groups, corroborated, outliers) \<and> ''C1'' \<in> set corroborated \<and> ''C2'' \<in> set outliers \<and> ''C2'' \<notin> set corroborated"
proof -
  let ?cs = "[colour_claim ''C1'' ''Red'', colour_claim ''C2'' ''blue'', colour_claim ''C3'' ''red'']"
  obtain groups corroborated outliers where e: "cluster_interpretations ''colour'' ?cs = (groups, corroborated, outliers)"
    by (metis prod_cases3)
  have ids: "cl_id (colour_claim i v) = i" for i v by (simp add: colour_claim_def follow_up_claim_def)
  have vals: "asserted_value ''colour'' (colour_claim i v) = Some (normalize_assertion v)" for i v
    by (simp add: asserted_value_def asserted_def colour_claim_def normal_colours)
  have d: "distinct (map cl_id ?cs)" by (simp add: ids)
  show ?thesis using e interpretations_partition_claims [OF e d] by (simp add: ids vals normal_colours)
qed

end
