(* ===== verification/Resolution_Properties.thy ===== *)
theory Resolution_Properties
  imports Conflicts_Properties
begin

text \<open>
  What a run of the resolver promises: an accepted answer is confident, leaves no question open and
  agrees with a claim of the conflict; the verdict records the outcome and replaces the former verdict
  of the task; a run that fails changes neither claims nor clusters nor verdicts.
\<close>

section \<open>Accepted answers\<close>

lemma is_successful_sound:
  assumes "is_successful threshold key r left right"
  shows "\<exists>a k d. rr_resolved_assertion r = Some a \<and> key = Some k \<and> threshold \<le> rr_confidence r \<and> rr_unresolved_questions r = [] \<and>
    normalize_assertion (as_key a) = normalize_assertion k \<and> d \<in> {left, right} \<and>
    asserted_value k d = Some (normalize_assertion (as_value a))"
  using assms by (force simp: is_successful_def asserted_value_def Let_def split: if_splits option.splits)

lemma is_cluster_successful_sound:
  assumes "is_cluster_successful threshold key r cluster"
  shows "\<exists>a k g. rr_resolved_assertion r = Some a \<and> key = Some k \<and> threshold \<le> rr_confidence r \<and> rr_unresolved_questions r = [] \<and>
    normalize_assertion (as_key a) = normalize_assertion k \<and> g \<in> set (ccl_interpretations cluster) \<and>
    ig_normalized_value g = normalize_assertion (as_value a) \<and> set (rr_selected_claim_ids r) = set (ig_claim_ids g) \<and>
    set (rr_corroborated_claim_ids r) = set (ccl_corroborated_claim_ids cluster) \<and>
    set (rr_outlier_claim_ids r) = set (ccl_outlier_claim_ids cluster)"
  using assms by (auto simp: is_cluster_successful_def split: if_splits option.splits dest!: find_Some_set)

lemma accepted_assertion: "answer_accepted threshold t claims cluster r \<Longrightarrow> rr_resolved_assertion r \<noteq> None"
  using is_successful_sound is_cluster_successful_sound by (fastforce simp: answer_accepted_def split: option.splits)

section \<open>The steps of a run\<close>

lemma resolution_subject_ok:
  assumes "resolution_subject k s = Inr (t, claims, cluster)"
  shows "get_task (ps_store s) k = Some t" "tk_id t = k" "tk_kind t = TaskKind_RESOLUTION" "tk_status t = TaskStatus_OPEN"
    "2 \<le> length (tk_conflicting_claim_ids t)" "map cl_id claims = tk_conflicting_claim_ids t"
    "\<forall>c\<in>set claims. get_claim (ps_store s) (cl_id c) = Some c"
    "cluster = (if truthy (tk_conflict_cluster_id t) then get_conflict_cluster s (the (tk_conflict_cluster_id t)) else None)"
proof -
  have one: "get_claim (ps_store s) i = Some c \<Longrightarrow> cl_id c = i" for i c by (simp add: get_claim_def) (metis lookup_row_Some)
  have found: "None \<notin> get_claim (ps_store s) ` set ids \<Longrightarrow> map cl_id (map (\<lambda>i. the (get_claim (ps_store s) i)) ids) = ids \<and>
      (\<forall>i\<in>set ids. \<exists>c. get_claim (ps_store s) i = Some c \<and> cl_id c = i)" for ids
  proof (induction ids)
    case (Cons i ids)
    then have "get_claim (ps_store s) i \<noteq> None" by (metis image_eqI list.set_intros(1))
    then obtain c where c: "get_claim (ps_store s) i = Some c" by blast
    with Cons one [OF c] show ?case by simp
  qed simp
  show "get_task (ps_store s) k = Some t" "tk_id t = k" "tk_kind t = TaskKind_RESOLUTION" "tk_status t = TaskStatus_OPEN"
    "2 \<le> length (tk_conflicting_claim_ids t)"
    "cluster = (if truthy (tk_conflict_cluster_id t) then get_conflict_cluster s (the (tk_conflict_cluster_id t)) else None)"
    using assms by (auto simp: resolution_subject_def Let_def get_task_def dest: lookup_row_Some split: option.splits if_splits)
  have none: "None \<notin> get_claim (ps_store s) ` set (tk_conflicting_claim_ids t)"
    and claims: "claims = map (\<lambda>i. the (get_claim (ps_store s) i)) (tk_conflicting_claim_ids t)"
    using assms by (auto simp: resolution_subject_def Let_def comp_def split: option.splits if_splits)
  from found [OF none] show "map cl_id claims = tk_conflicting_claim_ids t" by (simp add: claims)
  from found [OF none] show "\<forall>c\<in>set claims. get_claim (ps_store s) (cl_id c) = Some c" by (fastforce simp: claims)
qed

text \<open>A run in its steps: the refusal without a trace, the resolver's error, and the recorded answer.\<close>

lemma execute_resolution_cases:
  assumes "execute_resolution x call k s = (res, n, s')"
  obtains (refused) err where "resolution_subject k s = Inl err" "res = Inl err" "n = 0" "s' = s"
  | (raised) t claims cluster err cx where "resolution_subject k s = Inr (t, claims, cluster)"
      "ask_resolver (rex_resolver x) (started_task (rsc_now call) t) claims cx = Inl err" "rcx_conflict_cluster cx = cluster"
      "res = Inl err" "n = 1" "s' = store_task (started_task (rsc_now call) t) s"
  | (unbounded) t claims cluster a where "resolution_subject k s = Inr (t, claims, cluster)"
      "\<not> (0 \<le> rex_confidence_threshold x \<and> rex_confidence_threshold x \<le> 1 \<and> 1 \<le> rex_max_resolution_attempts x)"
      "res = Inl (ValueError ''ConflictVerdict'')" "n = 1" "s' = save_resolution_attempt a (store_task (started_task (rsc_now call) t) s)"
  | (answered) t claims cluster r attempt evidence v run where "resolution_subject k s = Inr (t, claims, cluster)"
      "rat_task_id attempt = k"
      "build_verdict x call (started_task (rsc_now call) t) claims r attempt evidence
         (answer_accepted (rex_confidence_threshold x) (started_task (rsc_now call) t) claims cluster r)
         (save_resolution_attempt attempt (store_task (started_task (rsc_now call) t) s)) = Inr v"
      "res = Inr run" "n = 1"
      "if answer_accepted (rex_confidence_threshold x) (started_task (rsc_now call) t) claims cluster r then
         accept_answer x call ((started_task (rsc_now call) t)\<lparr>tk_conflict_verdict_id := Some (cvd_id v)\<rparr>) claims cluster r
           (the (rr_resolved_assertion r)) v
           (save_conflict_verdict v (save_resolution_attempt attempt (store_task (started_task (rsc_now call) t) s))) = (run, s')
       else keep_unresolved call ((started_task (rsc_now call) t)\<lparr>tk_conflict_verdict_id := Some (cvd_id v)\<rparr>) r v
           (save_conflict_verdict v (save_resolution_attempt attempt (store_task (started_task (rsc_now call) t) s))) = (run, s')"
proof (cases "resolution_subject k s")
  case (Inl err)
  from Inl show ?thesis by (rule refused) (use assms Inl in \<open>simp_all add: execute_resolution_def\<close>)
next
  case (Inr subject)
  obtain t claims cluster where "subject = (t, claims, cluster)" by (cases subject)
  with Inr have subject: "resolution_subject k s = Inr (t, claims, cluster)" by simp
  let ?t1 = "started_task (rsc_now call) t"
  let ?s1 = "store_task ?t1 s"
  have id: "tk_id ?t1 = k" using resolution_subject_ok(2) [OF subject] by (simp add: started_task_def)
  let ?evidence = "follow_up_claims (ps_store ?s1) (tk_id ?t1)"
  let ?cx = "\<lparr>rcx_follow_up_claims = ?evidence, rcx_previous_attempts = resolution_attempts ?s1 (tk_id ?t1),
    rcx_conflict_cluster = cluster\<rparr>"
  show ?thesis
  proof (cases "ask_resolver (rex_resolver x) ?t1 claims ?cx")
    case (Inl err)
    show ?thesis by (rule raised [OF subject Inl]) (use assms subject Inl in \<open>simp_all add: execute_resolution_def Let_def\<close>)
  next
    case (Inr r)
    define attempt where "attempt = \<lparr>rat_id = rsc_attempt_id call, rat_task_id = tk_id ?t1, rat_result = r,
      rat_evidence_claim_ids = map cl_id ?evidence, rat_created_at = rsc_now call\<rparr>"
    let ?ok = "answer_accepted (rex_confidence_threshold x) ?t1 claims cluster r"
    have attempt: "rat_task_id attempt = k" by (simp add: attempt_def id)
    show ?thesis
    proof (cases "build_verdict x call ?t1 claims r attempt ?evidence ?ok (save_resolution_attempt attempt ?s1)")
      case (Inl err)
      then have bound: "\<not> (0 \<le> rex_confidence_threshold x \<and> rex_confidence_threshold x \<le> 1 \<and> 1 \<le> rex_max_resolution_attempts x)"
        and err: "err = ValueError ''ConflictVerdict''"
        by (auto simp: build_verdict_def Let_def split: prod.splits if_splits)
      show ?thesis
        by (rule unbounded [OF subject bound, of attempt]) (use assms subject Inl Inr err in \<open>simp_all add: execute_resolution_def Let_def attempt_def [symmetric]\<close>)
    next
      case v: (Inr v)
      have "?ok \<Longrightarrow> rr_resolved_assertion r \<noteq> None" by (rule accepted_assertion)
      then have step: "\<exists>run. res = Inr run \<and> n = 1 \<and> (if ?ok then
         accept_answer x call (?t1\<lparr>tk_conflict_verdict_id := Some (cvd_id v)\<rparr>) claims cluster r
           (the (rr_resolved_assertion r)) v (save_conflict_verdict v (save_resolution_attempt attempt ?s1)) = (run, s')
         else keep_unresolved call (?t1\<lparr>tk_conflict_verdict_id := Some (cvd_id v)\<rparr>) r v
           (save_conflict_verdict v (save_resolution_attempt attempt ?s1)) = (run, s'))"
        using assms subject v Inr
        by (auto simp: execute_resolution_def Let_def attempt_def [symmetric] split: if_splits prod.splits option.splits bool.splits)
      then obtain run where "res = Inr run" "n = 1" and run: "if ?ok then
         accept_answer x call (?t1\<lparr>tk_conflict_verdict_id := Some (cvd_id v)\<rparr>) claims cluster r
           (the (rr_resolved_assertion r)) v (save_conflict_verdict v (save_resolution_attempt attempt ?s1)) = (run, s')
         else keep_unresolved call (?t1\<lparr>tk_conflict_verdict_id := Some (cvd_id v)\<rparr>) r v
           (save_conflict_verdict v (save_resolution_attempt attempt ?s1)) = (run, s')" by blast
      then show ?thesis by (intro answered [OF subject attempt v])
    qed
  qed
qed

section \<open>The verdict\<close>

lemma build_verdict_ok:
  assumes "build_verdict x call t claims r attempt evidence ok s = Inr v"
  shows "cvd_resolution_task_id v = tk_id t" "cvd_claim_ids v = map cl_id claims"
    "cvd_status v = (if ok then VerdictStatus_RESOLVED else VerdictStatus_UNRESOLVED)"
    "cvd_selected_value v = (if ok then map_option as_value (rr_resolved_assertion r) else None)"
    "cvd_id v = (if conflict_verdicts s (tk_id t) = [] then rsc_verdict_id call else cvd_id (last (conflict_verdicts s (tk_id t))))"
    "cvd_selected_value v = None \<Longrightarrow> cvd_supporting_claim_ids v = [] \<and> cvd_contradicting_claim_ids v = []"
    "cvd_selected_value v = Some w \<Longrightarrow>
      cvd_supporting_claim_ids v = map cl_id (filter (supports_value (disputed_key t) w) claims) \<and>
      cvd_contradicting_claim_ids v = map cl_id (filter (\<lambda>c. \<not> supports_value (disputed_key t) w c) claims)"
  using assms by (auto simp: build_verdict_def Let_def split: if_splits prod.splits option.splits)

lemma supports_value_eq: "supports_value key w = (\<lambda>c. asserted_value key c = Some (normalize_assertion w))"
  by (rule ext) (auto simp: supports_value_def asserted_value_def split: option.splits)

lemma accept_answer_ok:
  assumes "accept_answer x call t claims cluster r a v s = (run, s')"
  shows "tk_status (rrun_task run) = TaskStatus_DONE" "rrun_result run = r" "rrun_verdict run = v"
    "\<exists>c. rrun_claim run = Some c \<and> cl_id c = rsc_claim_id call \<and> cl_kind c = ClaimKind_ADJUDICATED \<and> cl_assertions c = [a] \<and>
       cl_resolved_claim_ids c = map cl_id claims \<and> cl_confidence c = rr_confidence r \<and>
       tk_resolved_claim_id (rrun_task run) = Some (cl_id c) \<and> cl_conflict_verdict_id c = Some (cvd_id v) \<and>
       get_claim (ps_store s') (cl_id c) = Some c"
    "tk_id (rrun_task run) = tk_id t" "get_task (ps_store s') (tk_id t) = Some (rrun_task run)"
    "ps_verdicts s' = ps_verdicts s"
proof -
  let ?c = "adjudicated_claim x call t claims r a v"
  define t' where "t' = t\<lparr>tk_status := TaskStatus_DONE, tk_resolved_claim_id := Some (cl_id ?c), tk_completed_at := Some (rsc_now call),
    tk_stopping_reason := Some StoppingReason_COMPLETED\<rparr>"
  obtain c s1 where c: "save_claim (rsc_env call) (rsc_commit call) (rsc_now call) t' ?c (store_task t' s) = (c, s1)" by force
  note frame = save_claim_frame [OF c]
  have kept: "cl_id c = rsc_claim_id call" "cl_kind c = ClaimKind_ADJUDICATED" "cl_assertions c = [a]"
    "cl_resolved_claim_ids c = map cl_id claims" "cl_confidence c = rr_confidence r" "cl_conflict_verdict_id c = Some (cvd_id v)"
    unfolding frame(3) by (simp_all add: initialize_provenance_def Let_def adjudicated_claim_def or_else_def)
  have same: "tk_conflicting_claim_ids t' = tk_conflicting_claim_ids t" "tk_id t' = tk_id t" by (simp_all add: t'_def)
  have run: "run = \<lparr>rrun_task = t', rrun_result = r, rrun_claim = Some c, rrun_verdict = v\<rparr>"
    and s': "s' = resolve_cluster_record cluster c a
      (fold (\<lambda>k. link (cl_id c) ''RESOLVES'' k) (tk_conflicting_claim_ids t') (link (tk_id t') ''PRODUCED'' (cl_id c) s1))"
    using assms c same by (auto simp: accept_answer_def Let_def t'_def [symmetric])
  note resolves = fold_link_frame [where f = "\<lambda>_. cl_id c" and g = "\<lambda>x. x" and r = "''RESOLVES''"]
  have keep: "st_tasks (ps_store s') = st_tasks (ps_store s1)" "st_claims (ps_store s') = st_claims (ps_store s1)"
    "ps_verdicts s' = ps_verdicts s1"
    using resolves by (auto simp: s' resolve_cluster_record_def save_conflict_cluster_def split: option.split)
  note derived = fold_link_frame [where f = "\<lambda>_. cl_id c" and g = "\<lambda>x. x" and r = "''DERIVED_FROM''"]
  have "ps_verdicts s1 = ps_verdicts s" using c frame(3) derived by (auto simp: save_claim_def Let_def)
  with keep show "ps_verdicts s' = ps_verdicts s" by simp
  show "tk_status (rrun_task run) = TaskStatus_DONE" "rrun_result run = r" "rrun_verdict run = v" "tk_id (rrun_task run) = tk_id t"
    by (simp_all add: run t'_def)
  have "get_task (ps_store s') (tk_id t) = get_task (ps_store s1) (tk_id t)" by (simp add: get_task_def keep)
  then show "get_task (ps_store s') (tk_id t) = Some (rrun_task run)" by (simp add: frame(1) run same)
  have "get_claim (ps_store s') (cl_id c) = get_claim (ps_store s1) (cl_id c)" by (simp add: get_claim_def keep)
  then have "get_claim (ps_store s') (cl_id c) = Some c" by (simp add: frame(2))
  with kept show "\<exists>c. rrun_claim run = Some c \<and> cl_id c = rsc_claim_id call \<and> cl_kind c = ClaimKind_ADJUDICATED \<and> cl_assertions c = [a] \<and>
       cl_resolved_claim_ids c = map cl_id claims \<and> cl_confidence c = rr_confidence r \<and>
       tk_resolved_claim_id (rrun_task run) = Some (cl_id c) \<and> cl_conflict_verdict_id c = Some (cvd_id v) \<and>
       get_claim (ps_store s') (cl_id c) = Some c"
    by (intro exI [of _ c]) (simp add: run t'_def adjudicated_claim_def)
qed

lemma keep_unresolved_ok:
  assumes "keep_unresolved call t r v s = (run, s')"
  shows "tk_status (rrun_task run) = TaskStatus_RECURSE" "rrun_result run = r" "rrun_verdict run = v" "rrun_claim run = None"
    "s' = store_task (rrun_task run) s" "tk_id (rrun_task run) = tk_id t" "ps_verdicts s' = ps_verdicts s"
  using assms by (auto simp: keep_unresolved_def Let_def)

text \<open>C19: An adjudicated claim is never made on a weak answer. If a run produces one, the answer reaches the
  threshold and leaves no question open, the claim asserts exactly the disputed key, and its value is
  the one a claim of the conflict asserts (or, in a cluster, the one of an interpretation whose claims
  the answer names exactly); the claim is stored and the task is done and points to it.\<close>

theorem adjudication_is_supported:
  assumes "execute_resolution x call k s = (Inr run, n, s')" and "rrun_claim run = Some c"
  shows "\<exists>t claims cluster a key. resolution_subject k s = Inr (t, claims, cluster) \<and> tk_disputed_assertion_key t = Some key \<and>
    rex_confidence_threshold x \<le> rr_confidence (rrun_result run) \<and> rr_unresolved_questions (rrun_result run) = [] \<and>
    cl_kind c = ClaimKind_ADJUDICATED \<and> cl_assertions c = [a] \<and> cl_resolved_claim_ids c = tk_conflicting_claim_ids t \<and>
    normalize_assertion (as_key a) = normalize_assertion key \<and>
    (case cluster of
       None \<Rightarrow> \<exists>d\<in>set claims. asserted_value key d = Some (normalize_assertion (as_value a))
     | Some m \<Rightarrow> \<exists>g\<in>set (ccl_interpretations m). ig_normalized_value g = normalize_assertion (as_value a) \<and>
         set (rr_selected_claim_ids (rrun_result run)) = set (ig_claim_ids g)) \<and>
    get_claim (ps_store s') (cl_id c) = Some c \<and>
    (\<exists>t'. get_task (ps_store s') k = Some t' \<and> tk_status t' = TaskStatus_DONE \<and> tk_resolved_claim_id t' = Some (cl_id c))"
  using assms(1)
proof (cases rule: execute_resolution_cases)
  case (answered t claims cluster r attempt evidence v run')
  let ?t1 = "started_task (rsc_now call) t"
  let ?t2 = "?t1\<lparr>tk_conflict_verdict_id := Some (cvd_id v)\<rparr>"
  note subject = resolution_subject_ok [OF answered(1)]
  have t1: "tk_disputed_assertion_key ?t1 = tk_disputed_assertion_key t" "tk_id ?t2 = k" using subject(2) by (simp_all add: started_task_def)
  have run': "run' = run" using answered(4) by simp
  have ok: "answer_accepted (rex_confidence_threshold x) ?t1 claims cluster r"
    using answered(6) assms(2) keep_unresolved_ok(4) by (auto simp: run' split: if_splits)
  then have acc: "accept_answer x call ?t2 claims cluster r (the (rr_resolved_assertion r)) v
      (save_conflict_verdict v (save_resolution_attempt attempt (store_task ?t1 s))) = (run, s')"
    using answered(6) by (simp add: run')
  note acc_ok = accept_answer_ok [OF acc]
  have two: "claims ! 0 \<in> set claims" "claims ! 1 \<in> set claims" using subject(5,6) by (metis length_map nth_mem less_le_trans pos2 one_less_numeral_iff semiring_norm(76))+
  have ans: "\<exists>a key. rr_resolved_assertion r = Some a \<and> tk_disputed_assertion_key t = Some key \<and>
      rex_confidence_threshold x \<le> rr_confidence r \<and> rr_unresolved_questions r = [] \<and>
      normalize_assertion (as_key a) = normalize_assertion key \<and>
      (case cluster of
         None \<Rightarrow> \<exists>d\<in>set claims. asserted_value key d = Some (normalize_assertion (as_value a))
       | Some m \<Rightarrow> \<exists>g\<in>set (ccl_interpretations m). ig_normalized_value g = normalize_assertion (as_value a) \<and>
           set (rr_selected_claim_ids r) = set (ig_claim_ids g))"
  proof (cases cluster)
    case None
    with ok is_successful_sound [of "rex_confidence_threshold x" "tk_disputed_assertion_key t" r "claims ! 0" "claims ! 1"] t1 two
    show ?thesis by (auto simp: answer_accepted_def)
  next
    case (Some m)
    with ok is_cluster_successful_sound [of "rex_confidence_threshold x" "tk_disputed_assertion_key t" r m] t1
    show ?thesis by (auto simp: answer_accepted_def)
  qed
  then obtain a key where a: "rr_resolved_assertion r = Some a" "tk_disputed_assertion_key t = Some key"
      "rex_confidence_threshold x \<le> rr_confidence r" "rr_unresolved_questions r = []"
      "normalize_assertion (as_key a) = normalize_assertion key"
      "case cluster of
         None \<Rightarrow> \<exists>d\<in>set claims. asserted_value key d = Some (normalize_assertion (as_value a))
       | Some m \<Rightarrow> \<exists>g\<in>set (ccl_interpretations m). ig_normalized_value g = normalize_assertion (as_value a) \<and>
           set (rr_selected_claim_ids r) = set (ig_claim_ids g)" by blast
  from acc_ok(4) assms(2) have c: "cl_kind c = ClaimKind_ADJUDICATED" "cl_assertions c = [the (rr_resolved_assertion r)]"
    "cl_resolved_claim_ids c = map cl_id claims" "tk_resolved_claim_id (rrun_task run) = Some (cl_id c)"
    "get_claim (ps_store s') (cl_id c) = Some c" by auto
  have task: "get_task (ps_store s') k = Some (rrun_task run)" using acc_ok(6) t1(2) by simp
  show ?thesis
    by (rule exI [of _ t], rule exI [of _ claims], rule exI [of _ cluster], rule exI [of _ a], rule exI [of _ key])
      (use answered(1) a c task acc_ok(1,2) subject(6) in \<open>simp split: option.splits\<close>)
qed simp_all

text \<open>C20: A run that returns leaves exactly one verdict for its task, under the identifier the task's verdict
  already had, if any. It is resolved exactly if a claim was adjudicated; then the claims of the
  conflict that assert the selected value support it and all the others contradict it. Otherwise
  no claim is listed, no claim is written and the task goes back for more evidence.\<close>

theorem verdict_records_outcome:
  assumes "execute_resolution x call k s = (Inr run, n, s')"
  shows "\<exists>t claims cluster. resolution_subject k s = Inr (t, claims, cluster) \<and> n = 1 \<and>
    conflict_verdicts s' k = [rrun_verdict run] \<and>
    (conflict_verdicts s k \<noteq> [] \<longrightarrow> cvd_id (rrun_verdict run) = cvd_id (last (conflict_verdicts s k))) \<and>
    cvd_claim_ids (rrun_verdict run) = tk_conflicting_claim_ids t \<and>
    (case rrun_claim run of
       Some c \<Rightarrow> cvd_status (rrun_verdict run) = VerdictStatus_RESOLVED \<and>
         (\<exists>w. cvd_selected_value (rrun_verdict run) = Some w \<and>
           cvd_supporting_claim_ids (rrun_verdict run) =
             map cl_id (filter (\<lambda>d. asserted_value (disputed_key t) d = Some (normalize_assertion w)) claims) \<and>
           cvd_contradicting_claim_ids (rrun_verdict run) =
             map cl_id (filter (\<lambda>d. asserted_value (disputed_key t) d \<noteq> Some (normalize_assertion w)) claims))
     | None \<Rightarrow> cvd_status (rrun_verdict run) = VerdictStatus_UNRESOLVED \<and> cvd_selected_value (rrun_verdict run) = None \<and>
         cvd_supporting_claim_ids (rrun_verdict run) = [] \<and> cvd_contradicting_claim_ids (rrun_verdict run) = [] \<and>
         st_claims (ps_store s') = st_claims (ps_store s) \<and> ps_clusters s' = ps_clusters s \<and>
         (\<exists>t'. get_task (ps_store s') k = Some t' \<and> tk_status t' = TaskStatus_RECURSE))"
  using assms
proof (cases rule: execute_resolution_cases)
  case (answered t claims cluster r attempt evidence v run')
  let ?t1 = "started_task (rsc_now call) t"
  let ?s3 = "save_conflict_verdict v (save_resolution_attempt attempt (store_task ?t1 s))"
  let ?ok = "answer_accepted (rex_confidence_threshold x) ?t1 claims cluster r"
  note subject = resolution_subject_ok [OF answered(1)] and v = build_verdict_ok [OF answered(3)]
  have run': "run' = run" using answered(4) by simp
  have t1: "tk_id ?t1 = k" "disputed_key ?t1 = disputed_key t" using subject(2) by (simp_all add: started_task_def disputed_key_def)
  have before: "conflict_verdicts (save_resolution_attempt attempt (store_task ?t1 s)) k = conflict_verdicts s k"
    by (simp add: conflict_verdicts_def)
  have "conflict_verdicts ?s3 k = [v]" using v(1) t1 by (simp add: conflict_verdicts_def filter_empty_conv)
  moreover have "rrun_verdict run = v \<and> ps_verdicts s' = ps_verdicts ?s3"
    using answered(6) accept_answer_ok(3,7) keep_unresolved_ok(3,7) by (auto simp: run' split: if_splits)
  ultimately have one: "conflict_verdicts s' k = [rrun_verdict run]" "rrun_verdict run = v" by (simp_all add: conflict_verdicts_def)
  show ?thesis
  proof (cases ?ok)
    case True
    then obtain a where a: "rr_resolved_assertion r = Some a" using accepted_assertion by blast
    from True answered(6) have "\<exists>c. rrun_claim run = Some c" using accept_answer_ok(4) by (fastforce simp: run')
    moreover have "cvd_selected_value v = Some (as_value a)" using v(4) True a by simp
    ultimately show ?thesis
      using answered(1,5) one v(2,3,5) v(7) [of "as_value a"] before True t1 subject(6)
      by (intro exI [of _ t] exI [of _ claims] exI [of _ cluster]) (auto simp: supports_value_eq)
  next
    case False
    with answered(6) have kept: "keep_unresolved call (?t1\<lparr>tk_conflict_verdict_id := Some (cvd_id v)\<rparr>) r v ?s3 = (run, s')" by (simp add: run')
    note kept_ok = keep_unresolved_ok [OF kept]
    have frame: "st_claims (ps_store s') = st_claims (ps_store s)" "ps_clusters s' = ps_clusters s" by (simp_all add: kept_ok(5))
    have "get_task (ps_store s') k = Some (rrun_task run)" using kept_ok(5,6) t1(1) by simp
    with kept_ok(1) have task: "\<exists>t'. get_task (ps_store s') k = Some t' \<and> tk_status t' = TaskStatus_RECURSE" by blast
    have "cvd_selected_value v = None" using v(4) False by simp
    with v(6) answered(1,5) one v(2,3,5) before False t1 subject(6) kept_ok(4) frame task show ?thesis
      by (intro exI [of _ t] exI [of _ claims] exI [of _ cluster]) simp
  qed
qed simp_all


section \<open>Witnesses\<close>

lemma colour_subject: "resolution_subject ''T'' colour_store =
    Inr (colour_task, [colour_claim ''C1'' ''Red'', colour_claim ''C2'' ''blue''], None)"
  by (simp add: resolution_subject_def colour_store_def pursuit_store_def get_task_def get_claim_def lookup_row_def colour_task_def
      demo_task_def colour_claim_def follow_up_claim_def Let_def truthy_def)

lemma colour_accepted:
  "answer_accepted (3 / 4) (started_task 9 colour_task) [colour_claim ''C1'' ''Red'', colour_claim ''C2'' ''blue''] None (colour_answer c) \<longleftrightarrow> 3 / 4 \<le> c"
  by (auto simp: answer_accepted_def is_successful_def colour_answer_def started_task_def colour_task_def demo_task_def asserted_def
      colour_claim_def normal_colours)

lemma colour_runs: "\<exists>run s'. execute_resolution (colour_executor (Inr (colour_answer c))) colour_call ''T'' colour_store = (Inr run, 1, s') \<and>
    (rrun_claim run \<noteq> None \<longleftrightarrow> 3 / 4 \<le> c)"
proof -
  obtain run n s' where e: "execute_resolution (colour_executor (Inr (colour_answer c))) colour_call ''T'' colour_store = (run, n, s')"
    by (metis prod_cases3)
  have "rr_resolved_assertion (colour_answer c) \<noteq> None" by (simp add: colour_answer_def)
  with e show ?thesis
    by (cases "3 / 4 \<le> c")
      (auto simp: execute_resolution_def colour_subject ask_resolver_def colour_executor_def build_verdict_def Let_def colour_accepted
        colour_call_def accept_answer_def keep_unresolved_def split: prod.splits option.splits)
qed

theorem adjudication_is_supported_witness:
  "\<exists>run s' c. execute_resolution (colour_executor (Inr (colour_answer 1))) colour_call ''T'' colour_store = (Inr run, 1, s') \<and>
     rrun_claim run = Some c \<and> cl_kind c = ClaimKind_ADJUDICATED \<and> get_claim (ps_store s') (cl_id c) = Some c"
proof -
  obtain run s' c where "execute_resolution (colour_executor (Inr (colour_answer 1))) colour_call ''T'' colour_store = (Inr run, 1, s')"
      "rrun_claim run = Some c" using colour_runs [of 1] by auto
  with adjudication_is_supported [OF this] show ?thesis by blast
qed

theorem verdict_records_outcome_witness:
  "\<exists>run s'. execute_resolution (colour_executor (Inr (colour_answer (1 / 2)))) colour_call ''T'' colour_store = (Inr run, 1, s') \<and>
     conflict_verdicts s' ''T'' = [rrun_verdict run] \<and> cvd_status (rrun_verdict run) = VerdictStatus_UNRESOLVED"
proof -
  obtain run s' where e: "execute_resolution (colour_executor (Inr (colour_answer (1 / 2)))) colour_call ''T'' colour_store = (Inr run, 1, s')"
      "rrun_claim run = None" using colour_runs [of "1 / 2"] by auto
  with verdict_records_outcome [OF e(1)] show ?thesis by auto
qed


end
