(* ===== verification/Runner.thy ===== *)
theory Runner
  imports Resolution
begin

text \<open>
  The recursive runner (\<open>src/rlmgraph/runner.py\<close>): a queue of tasks below a root, worked off in the
  order of their priorities within the budgets of a planning run. The answers of the models, the clock
  and the identifiers are arguments indexed by a counter that every operation advances; the loop takes
  fuel, and no fuel left is \<open>None\<close>.
\<close>

section \<open>State\<close>

record runner_env =
  rne_config :: pursuit_config
  rne_resolver :: "nat \<Rightarrow> resolver"
  rne_workers :: "nat \<Rightarrow> workers"
  rne_now :: "nat \<Rightarrow> py_time"
  rne_latency :: "nat \<Rightarrow> rat"
  rne_id :: "string \<Rightarrow> nat \<Rightarrow> string"
  rne_env :: env
  rne_commit :: "string option"
  rne_dump :: "investigation_result \<Rightarrow> string"
  rne_dump_resolution :: "resolution_result \<Rightarrow> string"
  rne_str :: "py_error \<Rightarrow> string"

record runner =
  rn_store :: plan_store
  rn_planner :: planner
  rn_investigator :: "investigator option"
  rn_queue :: "string list"
  rn_queued :: "string list"
  rn_calls :: int
  rn_stop :: "stopping_reason option"
  rn_tick :: nat

definition put_task :: "task \<Rightarrow> runner \<Rightarrow> runner" where
  "put_task t st = st\<lparr>rn_store := store_task t (rn_store st)\<rparr>"

definition now_of :: "runner_env \<Rightarrow> runner \<Rightarrow> py_time" where
  "now_of e st = rne_now e (rn_tick st)"

definition plan_record :: "runner_env \<Rightarrow> task \<Rightarrow> planning_action \<Rightarrow> string \<Rightarrow> stopping_reason option \<Rightarrow> runner \<Rightarrow> runner" where
  "plan_record e t action reason stop st =
     st\<lparr>rn_store := record_decision (rn_planner st) t action reason stop (rne_id e ''PLAN'' (rn_tick st)) (now_of e st) (rn_store st),
        rn_tick := rn_tick st + 1\<rparr>"

definition plan_assess :: "runner_env \<Rightarrow> task \<Rightarrow> string \<Rightarrow> planning_action \<Rightarrow> runner \<Rightarrow> task \<times> runner" where
  "plan_assess e t reason action st =
     (let (t', s') = assess_task (rn_planner st) t reason action (rne_id e ''PLAN'' (rn_tick st)) (now_of e st) (rn_store st)
      in (t', st\<lparr>rn_store := s', rn_tick := rn_tick st + 1\<rparr>))"

definition plan_admit :: "runner_env \<Rightarrow> task \<Rightarrow> runner \<Rightarrow> stopping_reason option \<times> runner" where
  "plan_admit e t st =
     (let (r, p', s') = admit_call (rn_planner st) t (retrieval_context (ps_store (rn_store st)) t) (rne_id e ''PLAN'' (rn_tick st))
            (now_of e st) (rn_store st)
      in (r, st\<lparr>rn_planner := p', rn_store := s', rn_tick := rn_tick st + 1\<rparr>))"

definition plan_duplicate :: "runner_env \<Rightarrow> task \<Rightarrow> string \<Rightarrow> runner \<Rightarrow> runner" where
  "plan_duplicate e t reused st =
     st\<lparr>rn_store := note_duplicate_avoided (rn_planner st) t reused (rne_id e ''PLAN'' (rn_tick st)) (now_of e st) (rn_store st),
        rn_tick := rn_tick st + 1\<rparr>"

definition log_attempt :: "runner_env \<Rightarrow> task \<Rightarrow> attempt_report \<Rightarrow> runner \<Rightarrow> runner" where
  "log_attempt e t r st =
     st\<lparr>rn_store := snd (record_attempt (rne_id e ''EXEC'' (rn_tick st)) (now_of e st) t r (rn_store st)), rn_tick := rn_tick st + 1\<rparr>"

text \<open>A report in which everything optional has its default.\<close>

definition plain_report :: "task_route \<Rightarrow> task_route \<Rightarrow> string \<Rightarrow> execution_outcome \<Rightarrow> attempt_report" where
  "plain_report planned actual worker outcome =
     \<lparr>ar_planned_route = planned, ar_actual_route = actual, ar_worker = worker, ar_outcome = outcome, ar_input_tokens = 0,
      ar_output_tokens = 0, ar_cost = 0, ar_latency = 0, ar_confidence = None, ar_fallback_from = None, ar_fallback_reason = None,
      ar_error = None, ar_prediction_id = None\<rparr>"

definition stop_because :: "stopping_reason \<Rightarrow> runner \<Rightarrow> runner" where
  "stop_because r st = st\<lparr>rn_stop := (case rn_stop st of None \<Rightarrow> Some r | Some x \<Rightarrow> Some x)\<rparr>"

section \<open>The queue\<close>

definition child_tasks :: "store \<Rightarrow> string \<Rightarrow> task list" where
  "child_tasks s k = filter (\<lambda>t. tk_parent_task_id t = Some k) (st_tasks s)"

definition queue_priority :: "store \<Rightarrow> string \<Rightarrow> rat" where
  "queue_priority s k =
     (case get_task s k of
        None \<Rightarrow> - 10000
      | Some t \<Rightarrow> tk_priority t - (if \<exists>c\<in>set (child_tasks s (tk_id t)). tk_status c \<noteq> TaskStatus_DONE then 1000 else 0))"

definition push :: "string \<Rightarrow> runner \<Rightarrow> runner" where
  "push k st = (if k \<in> set (rn_queued st) then st else st\<lparr>rn_queue := rn_queue st @ [k], rn_queued := rn_queued st @ [k]\<rparr>)"

text \<open>\<open>sorted(..., reverse=True)\<close> keeps equal elements in their order.\<close>

definition enqueue_tasks :: "string list \<Rightarrow> runner \<Rightarrow> runner" where
  "enqueue_tasks ks st =
     (let st' = fold push ks st
      in st'\<lparr>rn_queue := sort_key (\<lambda>k. - queue_priority (ps_store (rn_store st')) k) (rn_queue st')\<rparr>)"

definition requeue_parent :: "task \<Rightarrow> runner \<Rightarrow> runner" where
  "requeue_parent t st =
     (if \<not> truthy (tk_parent_task_id t) then st
      else case get_task (ps_store (rn_store st)) (the (tk_parent_task_id t)) of
        None \<Rightarrow> st | Some parent \<Rightarrow> enqueue_tasks [tk_id parent] st)"

section \<open>The parents\<close>

function seeks_cycle :: "store \<Rightarrow> string list \<Rightarrow> string list \<Rightarrow> string option \<Rightarrow> bool" where
  "seeks_cycle s ids prints parent =
     (if \<not> truthy parent then False
      else if the parent \<in> set ids then True
      else case get_task s (the parent) of
        None \<Rightarrow> False
      | Some p \<Rightarrow> if tk_fingerprint p \<in> set prints then True
          else seeks_cycle s (tk_id p # ids) (tk_fingerprint p # prints) (tk_parent_task_id p))"
  by pat_completeness auto

termination
proof (relation "measure (\<lambda>(s, ids, prints, parent). card (tk_id ` set (st_tasks s) - set ids))", goal_cases)
  case 1
  show ?case by simp
next
  case (2 s ids prints parent p)
  have "p \<in> set (st_tasks s)" "tk_id p \<notin> set ids" using get_task_mem [OF 2(3)] 2(2) by simp_all
  then have "tk_id p \<in> tk_id ` set (st_tasks s) - set ids" by blast
  then have "tk_id ` set (st_tasks s) - set (tk_id p # ids) \<subset> tk_id ` set (st_tasks s) - set ids" by auto
  then show ?case by (simp add: psubset_card_mono)
qed

declare seeks_cycle.simps [simp del]

definition has_cycle :: "store \<Rightarrow> task \<Rightarrow> bool" where
  "has_cycle s t = seeks_cycle s [tk_id t] [tk_fingerprint t] (tk_parent_task_id t)"

text \<open>Where the parents form a cycle this loop need not end: it takes fuel.\<close>

fun propagate_completion :: "nat \<Rightarrow> runner_env \<Rightarrow> string option \<Rightarrow> runner \<Rightarrow> runner option" where
  "propagate_completion 0 e parent st = None"
| "propagate_completion (Suc n) e parent st =
     (if \<not> truthy parent then Some st
      else case get_task (ps_store (rn_store st)) (the parent) of
        None \<Rightarrow> Some st
      | Some p \<Rightarrow>
          if tk_kind p = TaskKind_RESOLUTION then Some st
          else let siblings = child_tasks (ps_store (rn_store st)) (tk_id p)
               in if siblings = [] \<or> (\<exists>c\<in>set siblings. tk_status c \<noteq> TaskStatus_DONE) then Some st
                  else propagate_completion n e (tk_parent_task_id p)
                    (put_task (p\<lparr>tk_status := TaskStatus_DONE, tk_completed_at := Some (now_of e st),
                        tk_stopping_reason := Some StoppingReason_COMPLETED\<rparr>) st))"

definition stopped :: "runner_env \<Rightarrow> stopping_reason \<Rightarrow> task \<Rightarrow> runner \<Rightarrow> task" where
  "stopped e reason t st =
     t\<lparr>tk_status := TaskStatus_STOPPED, tk_stopping_reason := Some reason, tk_completed_at := Some (now_of e st)\<rparr>"

definition stop_parent :: "runner_env \<Rightarrow> string \<Rightarrow> stopping_reason \<Rightarrow> task \<Rightarrow> runner \<Rightarrow> runner" where
  "stop_parent e child reason p st =
     (let p' = stopped e reason p st
      in plan_record e p' PlanningAction_STOPPED (''Dependency '' @ child @ '' stopped with '' @ stopping_reason_value reason @ ''.'')
           (Some reason) (put_task p' st))"

lemma decision_tables [simp]:
  "st_tasks (ps_store (record_decision p t a r stop i now s)) = st_tasks (ps_store s)"
  "st_claims (ps_store (record_decision p t a r stop i now s)) = st_claims (ps_store s)"
  "ps_clusters (record_decision p t a r stop i now s) = ps_clusters s" "ps_verdicts (record_decision p t a r stop i now s) = ps_verdicts s"
  by (simp_all add: record_decision_def save_plan_decision_def)

lemma tasks_store_task [simp]: "st_tasks (ps_store (store_task t s)) = upsert tk_id t (st_tasks (ps_store s))"
  by (simp add: store_task_def save_task_def)

lemma ids_upsert: "t \<in> set ts \<Longrightarrow> tk_id t' = tk_id t \<Longrightarrow> tk_id ` set (upsert tk_id t' ts) = tk_id ` set ts"
  by (auto simp: row_simps image_iff)

lemma stop_parent_ids:
  assumes "get_task (ps_store (rn_store st)) k = Some p"
  shows "tk_id ` set (st_tasks (ps_store (rn_store (stop_parent e child reason p st)))) = tk_id ` set (st_tasks (ps_store (rn_store st)))"
  using get_task_mem [OF assms] ids_upsert [of p _ "stopped e reason p st"]
  by (simp add: stop_parent_def plan_record_def put_task_def stopped_def Let_def)

function propagate_stopping :: "runner_env \<Rightarrow> string \<Rightarrow> stopping_reason \<Rightarrow> string list \<Rightarrow> string option \<Rightarrow> runner \<Rightarrow> runner" where
  "propagate_stopping e child reason seen parent st =
     (if \<not> truthy parent \<or> the parent \<in> set seen then st
      else case get_task (ps_store (rn_store st)) (the parent) of
        None \<Rightarrow> st
      | Some p \<Rightarrow> if tk_status p = TaskStatus_DONE then st
          else propagate_stopping e child reason (tk_id p # seen) (tk_parent_task_id p) (stop_parent e child reason p st))"
  by pat_completeness auto

termination
proof (relation "measure (\<lambda>(e, child, reason, seen, parent, st). card (tk_id ` set (st_tasks (ps_store (rn_store st))) - set seen))",
    goal_cases)
  case 1
  show ?case by simp
next
  case (2 e child reason seen parent st p)
  let ?ids = "tk_id ` set (st_tasks (ps_store (rn_store st)))"
  have "p \<in> set (st_tasks (ps_store (rn_store st)))" "tk_id p \<notin> set seen" using get_task_mem [OF 2(2)] 2(1) by simp_all
  then have "tk_id p \<in> ?ids - set seen" by blast
  then have "?ids - set (tk_id p # seen) \<subset> ?ids - set seen" by auto
  then show ?case using stop_parent_ids [OF 2(2)] by (simp add: psubset_card_mono)
qed

declare propagate_stopping.simps [simp del]

definition mark_cluster_unresolved :: "task \<Rightarrow> runner \<Rightarrow> runner" where
  "mark_cluster_unresolved t st =
     (if \<not> truthy (tk_conflict_cluster_id t) then st
      else case get_conflict_cluster (rn_store st) (the (tk_conflict_cluster_id t)) of
        None \<Rightarrow> st
      | Some c \<Rightarrow> if ccl_status c = ClusterStatus_RESOLVED then st
          else st\<lparr>rn_store := save_conflict_cluster (c\<lparr>ccl_status := ClusterStatus_UNRESOLVED\<rparr>) (rn_store st)\<rparr>)"

text \<open>\<open>_stop\<close>, followed by the note of the first reason to stop that all its callers make.\<close>

definition stop_task :: "runner_env \<Rightarrow> task \<Rightarrow> stopping_reason \<Rightarrow> runner \<Rightarrow> task \<times> runner" where
  "stop_task e t reason st =
     (let t' = stopped e reason t st;
          st1 = plan_record e t' PlanningAction_STOPPED
            (''Hard budget or terminal policy stopped this task: '' @ stopping_reason_value reason @ ''.'') (Some reason) (put_task t' st);
          st2 = propagate_stopping e (tk_id t') reason [tk_id t'] (tk_parent_task_id t') (mark_cluster_unresolved t' st1)
      in (t', stop_because reason st2))"

section \<open>New follow-ups\<close>

definition py_none :: "string option \<Rightarrow> string" where
  "py_none x = (case x of None \<Rightarrow> ''None'' | Some s \<Rightarrow> s)"

definition evidence_gaps :: "pursuit_config \<Rightarrow> store \<Rightarrow> task \<Rightarrow> string list \<Rightarrow> string list" where
  "evidence_gaps c s parent questions =
     (let gaps = filter (\<lambda>q. q \<noteq> []) (map py_strip questions);
          claims = List.map_filter (get_claim s) (tk_conflicting_claim_ids parent);
          key = py_none (tk_disputed_assertion_key parent);
          stale = (if \<exists>x\<in>set claims. cl_validity_status x \<noteq> ClaimValidity_CURRENT
            then [''Refresh stale dependency evidence for '' @ [CHR 0x27] @ key @ [CHR 0x27] @ '' from the current repository state.''] else []);
          weak = (if \<exists>x\<in>set claims. cl_confidence x < puc_minimum_confidence c
            then [''Find stronger repository evidence for the weakly supported assertion '' @ [CHR 0x27] @ key @ [CHR 0x27] @ ''.''] else [])
      in if gaps \<noteq> [] then gaps
         else if stale @ weak \<noteq> [] then stale @ weak
         else [''Resolve the contradiction by finding repository evidence that determines '' @ [CHR 0x27] @ key @ [CHR 0x27] @ ''.''])"

definition finished_twin :: "store \<Rightarrow> string \<Rightarrow> string \<Rightarrow> task option" where
  "finished_twin s fingerprint project =
     find (\<lambda>t. tk_fingerprint t = fingerprint \<and> tk_project_fingerprint t = project \<and> tk_status t = TaskStatus_DONE \<and>
       truthy (tk_output_claim_id t)) (st_tasks s)"

definition reuse_output :: "runner_env \<Rightarrow> task \<Rightarrow> runner \<Rightarrow> task \<Rightarrow> task" where
  "reuse_output e reusable st t =
     t\<lparr>tk_status := TaskStatus_DONE, tk_output_claim_id := tk_output_claim_id reusable,
       tk_reused_claim_id := tk_output_claim_id reusable, tk_reuse_type := Some ''completed-investigation'',
       tk_completed_at := Some (now_of e st)\<rparr>"

definition reuse_report :: "task \<Rightarrow> runner \<Rightarrow> attempt_report" where
  "reuse_report reusable st =
     (plain_report TaskRoute_MEMORY TaskRoute_MEMORY ''GraphMemory'' ExecutionOutcome_REUSED)
       \<lparr>ar_confidence := (case tk_output_claim_id reusable of None \<Rightarrow> None
          | Some k \<Rightarrow> if k = [] then None else map_option cl_confidence (get_claim (ps_store (rn_store st)) k)),
        ar_fallback_reason := Some (''Reused completed task '' @ tk_id reusable @ ''.'')\<rparr>"

definition gap_task :: "runner_env \<Rightarrow> task \<Rightarrow> string \<Rightarrow> string \<Rightarrow> runner \<Rightarrow> task" where
  "gap_task e parent gap fingerprint st =
     \<lparr>tk_id = rne_id e ''TASK'' (rn_tick st), tk_question = gap, tk_fingerprint = fingerprint,
      tk_project_fingerprint = tk_project_fingerprint parent, tk_project_root = tk_project_root parent, tk_kind = TaskKind_FOLLOW_UP,
      tk_parent_task_id = Some (tk_id parent), tk_conflicting_claim_ids = [], tk_disputed_assertion_key = None,
      tk_resolved_claim_id = None, tk_conflict_cluster_id = None, tk_conflict_verdict_id = None, tk_reused_verdict_id = None,
      tk_evidence_gap = Some gap, tk_relevant_files = [], tk_source_claim_ids = tk_conflicting_claim_ids parent,
      tk_output_claim_id = None, tk_depth = tk_depth parent + 1, tk_attempt_count = 0, tk_started_at = None, tk_completed_at = None,
      tk_stopping_reason = None, tk_last_error = None, tk_status = TaskStatus_OPEN, tk_reused_claim_id = None, tk_reuse_type = None,
      tk_relevance_score = None, tk_reuse_reason = None, tk_reconstruction_id = None, tk_priority = 0, tk_uncertainty = 1,
      tk_difficulty = 1 / 2, tk_route = None, tk_dependency_task_ids = [tk_id parent], tk_created_at = now_of e st\<rparr>"

definition add_gap :: "runner_env \<Rightarrow> task \<Rightarrow> string \<Rightarrow> task py_dict \<times> task list \<times> runner \<Rightarrow> task py_dict \<times> task list \<times> runner" where
  "add_gap e parent gap = (\<lambda>(existing, created, st).
     let fingerprint = task_fingerprint (rne_env e) gap (tk_project_fingerprint parent) in
     case dict_get fingerprint existing of
       Some twin \<Rightarrow> (existing, created, plan_duplicate e twin (tk_id twin) st)
     | None \<Rightarrow>
         let reusable = finished_twin (ps_store (rn_store st)) fingerprint (tk_project_fingerprint parent);
             child = (case reusable of None \<Rightarrow> gap_task e parent gap fingerprint st
                      | Some r \<Rightarrow> reuse_output e r st (gap_task e parent gap fingerprint st));
             st1 = put_task child st;
             st2 = st1\<lparr>rn_store := link (tk_id parent) ''SPAWNED'' (tk_id child) (rn_store st1)\<rparr>;
             (child', st3) = (case reusable of
                None \<Rightarrow> plan_assess e child ''Created from an unresolved question or evidence gap.'' PlanningAction_CREATED st2
              | Some r \<Rightarrow> plan_assess e child (''Reused completed investigation '' @ tk_id r @ ''.'') PlanningAction_REUSED st2);
             st4 = (case reusable of None \<Rightarrow> st3 | Some r \<Rightarrow> log_attempt e child' (reuse_report r st3) st3)
         in (dict_set fingerprint child' existing, created @ [child'], st4))"

definition create_follow_ups :: "runner_env \<Rightarrow> task \<Rightarrow> string list \<Rightarrow> runner \<Rightarrow> task list \<times> runner" where
  "create_follow_ups e parent questions st =
     (let s = ps_store (rn_store st);
          existing = dict_of_pairs (map (\<lambda>c. (tk_fingerprint c, c)) (child_tasks s (tk_id parent)));
          (_, created, st') = fold (add_gap e parent) (evidence_gaps (rne_config e) s parent questions) (existing, [], st)
      in (created, st'))"

end
