(* ===== verification/Pursuit.thy ===== *)
theory Pursuit
  imports Runner
begin

text \<open>
  The loop of the recursive runner (\<open>src/rlmgraph/runner.py\<close>, \<open>pursue\<close>): what happens to the task
  that is taken from the queue, by its kind, and the result of the whole pursuit.
\<close>

section \<open>Follow-ups\<close>

definition completed_equivalent :: "store \<Rightarrow> task \<Rightarrow> task option" where
  "completed_equivalent s t =
     find (\<lambda>c. tk_id c \<noteq> tk_id t \<and> tk_fingerprint c = tk_fingerprint t \<and> tk_project_fingerprint c = tk_project_fingerprint t \<and>
       tk_status c = TaskStatus_DONE \<and> truthy (tk_output_claim_id c)) (st_tasks s)"

definition reuse_equivalent :: "runner_env \<Rightarrow> task \<Rightarrow> task \<Rightarrow> runner \<Rightarrow> runner" where
  "reuse_equivalent e t reusable st =
     (let t' = reuse_output e reusable st t;
          st1 = plan_duplicate e t' (tk_id reusable) (put_task t' st);
          st2 = log_attempt e t' (reuse_report reusable st1) st1
      in requeue_parent t' st2)"

text \<open>The worker calls of an execution beyond the admitted one are charged afterwards.\<close>

definition charge_extra :: "task \<Rightarrow> int \<Rightarrow> runner \<Rightarrow> runner" where
  "charge_extra t calls st =
     (let extra = max 0 (calls - 1); run = pn_run (rn_planner st);
          run' = run\<lparr>plr_model_calls_used := plr_model_calls_used run + extra,
            plr_retrieval_tokens_used := plr_retrieval_tokens_used run + extra * token_estimate (tk_question t)\<rparr>
      in if extra = 0 then st
         else st\<lparr>rn_planner := (rn_planner st)\<lparr>pn_run := run'\<rparr>, rn_store := save_planning_run run' (rn_store st)\<rparr>)"

definition follow_up_call_of :: "runner_env \<Rightarrow> runner \<Rightarrow> follow_up_call" where
  "follow_up_call_of e st =
     \<lparr>fu_investigation =
        \<lparr>icl_policy = \<lparr>pcl_prediction_id = rne_id e ''PREDICTION'' (rn_tick st), pcl_update_id = rne_id e ''UPDATE'' (rn_tick st),
           pcl_evaluation_id = rne_id e ''EVALUATION'' (rn_tick st), pcl_now = now_of e st\<rparr>,
         icl_attempt_id = (\<lambda>r. rne_id e (''EXEC'' @ task_route_value r) (rn_tick st)), icl_dump = rne_dump e,
         icl_resolve = env_resolve (rne_env e)\<rparr>,
      fu_claim_id = rne_id e ''CLAIM'' (rn_tick st), fu_env = rne_env e, fu_commit = rne_commit e, fu_now = now_of e st\<rparr>"

definition run_follow_up :: "runner_env \<Rightarrow> investigator \<Rightarrow> task \<Rightarrow> runner \<Rightarrow> runner" where
  "run_follow_up e v t st =
     (let (r, calls, v', s') = execute_follow_up (v\<lparr>inv_workers := rne_workers e (rn_tick st)\<rparr>) (follow_up_call_of e st) (tk_id t) (rn_store st);
          st1 = charge_extra t calls (st\<lparr>rn_store := s', rn_investigator := Some v', rn_calls := rn_calls st + calls, rn_tick := rn_tick st + 1\<rparr>);
          t' = (case get_task (ps_store (rn_store st1)) (tk_id t) of None \<Rightarrow> t | Some x \<Rightarrow> x)
      in case r of
           Inl err \<Rightarrow>
             let t2 = t'\<lparr>tk_last_error := Some (rne_str e err)\<rparr>
             in if tk_attempt_count t2 \<ge> puc_max_retries_per_task (rne_config e)
                then snd (stop_task e t2 StoppingReason_RETRY_EXHAUSTED st1) else enqueue_tasks [tk_id t2] st1
         | Inr _ \<Rightarrow> requeue_parent t' st1)"

definition reopened :: "task \<Rightarrow> task" where
  "reopened t = t\<lparr>tk_status := TaskStatus_OPEN, tk_stopping_reason := None, tk_completed_at := None\<rparr>"

definition budgeted :: "runner_env \<Rightarrow> runner \<Rightarrow> investigator \<Rightarrow> investigator" where
  "budgeted e st v =
     configure_budget (1 + puc_max_codex_calls (rne_config e) - plr_model_calls_used (pn_run (rn_planner st)))
       (puc_max_retrieval_tokens (rne_config e) - plr_retrieval_tokens_used (pn_run (rn_planner st))) v"

definition step_follow_up :: "runner_env \<Rightarrow> task \<Rightarrow> runner \<Rightarrow> runner" where
  "step_follow_up e t st =
     (if tk_status t = TaskStatus_DONE then requeue_parent t st
      else case completed_equivalent (ps_store (rn_store st)) t of
        Some reusable \<Rightarrow> reuse_equivalent e t reusable st
      | None \<Rightarrow>
          (case rn_investigator st of
             None \<Rightarrow> snd (stop_task e t StoppingReason_LOW_CONFIDENCE st)
           | Some v \<Rightarrow>
               (case plan_admit e t st of
                  (Some r, st1) \<Rightarrow> snd (stop_task e t r st1)
                | (None, st1) \<Rightarrow>
                    let v' = budgeted e st1 v; st2 = st1\<lparr>rn_investigator := Some v'\<rparr>
                    in if tk_status t = TaskStatus_STOPPED then
                         (if tk_stopping_reason t = Some StoppingReason_RETRY_EXHAUSTED \<and>
                             tk_attempt_count t \<ge> puc_max_retries_per_task (rne_config e)
                          then stop_because StoppingReason_RETRY_EXHAUSTED st2
                          else run_follow_up e v' (reopened t) (put_task (reopened t) st2))
                       else run_follow_up e v' t st2)))"

section \<open>Resolutions\<close>

definition resolution_call_of :: "runner_env \<Rightarrow> runner \<Rightarrow> resolution_call" where
  "resolution_call_of e st =
     \<lparr>rsc_attempt_id = rne_id e ''ATTEMPT'' (rn_tick st), rsc_verdict_id = rne_id e ''VERDICT'' (rn_tick st),
      rsc_claim_id = rne_id e ''CLAIM'' (rn_tick st), rsc_env = rne_env e, rsc_commit = rne_commit e, rsc_now = now_of e st\<rparr>"

definition executor_of :: "runner_env \<Rightarrow> runner \<Rightarrow> resolution_executor" where
  "executor_of e st =
     \<lparr>rex_resolver = rne_resolver e (rn_tick st), rex_confidence_threshold = puc_minimum_confidence (rne_config e),
      rex_max_resolution_attempts = puc_max_retries_per_task (rne_config e)\<rparr>"

definition resolver_report :: "runner_env \<Rightarrow> task \<Rightarrow> execution_outcome \<Rightarrow> runner \<Rightarrow> attempt_report" where
  "resolver_report e t outcome st =
     (plain_report (case tk_route t of None \<Rightarrow> TaskRoute_RESOLVER | Some r \<Rightarrow> r) TaskRoute_RESOLVER
        (rsv_name (rne_resolver e (rn_tick st))) outcome)
       \<lparr>ar_input_tokens := token_estimate (retrieval_context (ps_store (rn_store st)) t), ar_latency := rne_latency e (rn_tick st)\<rparr>"

text \<open>What follows an answer that was not accepted: new evidence tasks, another attempt, or the end.\<close>

definition replan :: "runner_env \<Rightarrow> task \<Rightarrow> resolution_result \<Rightarrow> runner \<Rightarrow> task \<times> runner" where
  "replan e t r st =
     (if rn_investigator st = None then
        (t, stop_because StoppingReason_LOW_CONFIDENCE
          (propagate_stopping e (tk_id t) StoppingReason_LOW_CONFIDENCE [tk_id t] (tk_parent_task_id t) (mark_cluster_unresolved t st)))
      else let (created, st1) = create_follow_ups e t (rr_unresolved_questions r) st in
        if created \<noteq> [] then
          let t' = reopened t;
              st2 = plan_record e t' PlanningAction_REPLANNED
                (''Resolution remained uncertain; added '' @ py_str_int (int (length created)) @ '' prioritized evidence task(s).'')
                None (put_task t' st1)
          in (t', enqueue_tasks [tk_id t'] (enqueue_tasks (map tk_id created) st2))
        else if tk_attempt_count t < puc_max_retries_per_task (rne_config e) then
          let t' = reopened t in (t', enqueue_tasks [tk_id t'] (put_task t' st1))
        else stop_task e t StoppingReason_RETRY_EXHAUSTED st1)"

text \<open>The attempts of one visit: a resolver that raises is asked again while attempts are left.\<close>

fun resolution_attempts_loop :: "nat \<Rightarrow> runner_env \<Rightarrow> task \<Rightarrow> runner \<Rightarrow> (task \<times> runner) option" where
  "resolution_attempts_loop 0 e t st = None"
| "resolution_attempts_loop (Suc n) e t st =
     (if tk_attempt_count t \<ge> puc_max_retries_per_task (rne_config e) then Some (t, st)
      else case plan_admit e t st of
        (Some reason, st1) \<Rightarrow> Some (stop_task e t reason st1)
      | (None, st1) \<Rightarrow>
          (case execute_resolution (executor_of e st1) (resolution_call_of e st1) (tk_id t) (rn_store st1) of
             (Inl err, calls, s') \<Rightarrow>
               let report = (resolver_report e t ExecutionOutcome_FAILED st1)\<lparr>ar_error := Some (rne_str e err)\<rparr>;
                   st2 = log_attempt e t report (st1\<lparr>rn_store := s', rn_calls := rn_calls st1 + calls\<rparr>);
                   t1 = (case get_task (ps_store (rn_store st2)) (tk_id t) of None \<Rightarrow> t | Some x \<Rightarrow> x);
                   t2 = (if tk_attempt_count t1 = tk_attempt_count t then t1\<lparr>tk_attempt_count := tk_attempt_count t1 + 1\<rparr> else t1)
                     \<lparr>tk_last_error := Some (rne_str e err)\<rparr>;
                   st3 = put_task t2 st2
               in if tk_attempt_count t2 \<ge> puc_max_retries_per_task (rne_config e)
                  then Some (stop_task e t2 StoppingReason_RETRY_EXHAUSTED st3)
                  else resolution_attempts_loop n e t2 st3
           | (Inr run, calls, s') \<Rightarrow>
               let done_now = tk_status (rrun_task run) = TaskStatus_DONE;
                   report = (resolver_report e t (if done_now then ExecutionOutcome_SUCCEEDED else ExecutionOutcome_LOW_CONFIDENCE) st1)
                     \<lparr>ar_output_tokens := token_estimate (rne_dump_resolution e (rrun_result run)),
                      ar_confidence := Some (rr_confidence (rrun_result run))\<rparr>;
                   st2 = log_attempt e t report (st1\<lparr>rn_store := s', rn_calls := rn_calls st1 + calls\<rparr>);
                   t' = rrun_task run
               in if done_now then map_option (\<lambda>st3. (t', st3)) (propagate_completion n e (tk_parent_task_id t') st2)
                  else Some (replan e t' (rrun_result run) st2)))"

definition terminal_stop :: "task \<Rightarrow> bool" where
  "terminal_stop c \<longleftrightarrow> tk_status c = TaskStatus_STOPPED \<and>
     tk_stopping_reason c \<in> {Some StoppingReason_MAX_DEPTH, Some StoppingReason_RETRY_EXHAUSTED, Some StoppingReason_CYCLE_DETECTED}"

definition reason_of :: "task \<Rightarrow> stopping_reason" where
  "reason_of t = (case tk_stopping_reason t of None \<Rightarrow> StoppingReason_LOW_CONFIDENCE | Some r \<Rightarrow> r)"

definition step_resolution :: "nat \<Rightarrow> runner_env \<Rightarrow> task \<Rightarrow> task list \<Rightarrow> runner \<Rightarrow> runner option" where
  "step_resolution n e t children st =
     (if tk_status t = TaskStatus_DONE then Some st
      else if has_cycle (ps_store (rn_store st)) t then Some (snd (stop_task e t StoppingReason_CYCLE_DETECTED st))
      else let incomplete = filter (\<lambda>c. tk_status c \<noteq> TaskStatus_DONE) children in
        if incomplete \<noteq> [] then
          (case find terminal_stop incomplete of
             Some c \<Rightarrow> Some (snd (stop_task e t (reason_of c) st))
           | None \<Rightarrow> Some (enqueue_tasks [tk_id t] (enqueue_tasks (map tk_id incomplete) st)))
        else if tk_status t = TaskStatus_RECURSE then
          Some (stop_because StoppingReason_LOW_CONFIDENCE (plan_record e t PlanningAction_STOPPED
            ''No additional evidence task could reduce the remaining uncertainty.'' (Some StoppingReason_LOW_CONFIDENCE) st))
        else let t1 = (if tk_status t = TaskStatus_STOPPED then reopened t else t);
                 st1 = (if tk_status t = TaskStatus_STOPPED then put_task t1 st else st)
             in map_option (\<lambda>(t2, st2). if tk_status t2 = TaskStatus_DONE then st2
                  else enqueue_tasks (map tk_id (child_tasks (ps_store (rn_store st2)) (tk_id t2))) st2) (resolution_attempts_loop n e t1 st1))"

section \<open>The loop\<close>

definition step_investigation :: "runner_env \<Rightarrow> task \<Rightarrow> task list \<Rightarrow> runner \<Rightarrow> runner" where
  "step_investigation e t children st =
     (if children \<noteq> [] then enqueue_tasks (map tk_id children) st
      else if tk_status t = TaskStatus_RECURSE then
        stop_because StoppingReason_LOW_CONFIDENCE (plan_record e t PlanningAction_STOPPED
          ''Investigation remains uncertain and has no schedulable child.'' (Some StoppingReason_LOW_CONFIDENCE) st)
      else st)"

definition routed :: "runner_env \<Rightarrow> task \<Rightarrow> runner \<Rightarrow> task \<times> runner" where
  "routed e t st =
     (case tk_route t of
        Some _ \<Rightarrow> (t, st)
      | None \<Rightarrow> plan_assess e t ''Selected route from task kind, uncertainty, confidence, and difficulty.'' PlanningAction_ROUTED st)"

definition pursuit_step :: "nat \<Rightarrow> runner_env \<Rightarrow> string \<Rightarrow> runner \<Rightarrow> runner result option" where
  "pursuit_step n e k st =
     (case get_task (ps_store (rn_store st)) k of
        None \<Rightarrow> Some (Inl AssertionError)
      | Some t0 \<Rightarrow>
          let (t, st1) = routed e t0 st; children = child_tasks (ps_store (rn_store st1)) (tk_id t) in
          (case tk_kind t of
             TaskKind_INVESTIGATION \<Rightarrow> Some (Inr (step_investigation e t children st1))
           | TaskKind_FOLLOW_UP \<Rightarrow> Some (Inr (step_follow_up e t st1))
           | TaskKind_RESOLUTION \<Rightarrow> map_option Inr (step_resolution n e t children st1)))"

definition pop :: "string \<Rightarrow> string list \<Rightarrow> runner \<Rightarrow> runner" where
  "pop k ks st = st\<lparr>rn_queue := ks, rn_queued := removeAll k (rn_queued st)\<rparr>"

fun work_queue :: "nat \<Rightarrow> runner_env \<Rightarrow> runner \<Rightarrow> runner result option" where
  "work_queue 0 e st = None"
| "work_queue (Suc n) e st =
     (case rn_queue st of
        [] \<Rightarrow> Some (Inr st)
      | k # ks \<Rightarrow>
          (case pursuit_step n e k (pop k ks st) of
             None \<Rightarrow> None | Some (Inl err) \<Rightarrow> Some (Inl err) | Some (Inr st') \<Rightarrow> work_queue n e st'))"

section \<open>A pursuit\<close>

record pursuit_result =
  pur_root_task_id :: string
  pur_tasks :: "task list"
  pur_codex_calls :: int
  pur_status :: task_status
  pur_stopping_reason :: stopping_reason
  pur_planning_run :: planning_run

text \<open>Whether the parents of a task lead to the root; a task is seen at most once.\<close>

fun leads_to :: "nat \<Rightarrow> store \<Rightarrow> string \<Rightarrow> string list \<Rightarrow> task \<Rightarrow> bool" where
  "leads_to 0 s k seen t = False"
| "leads_to (Suc n) s k seen t =
     (if tk_id t \<in> set seen then False
      else if tk_id t = k then True
      else case get_task s (case tk_parent_task_id t of None \<Rightarrow> [] | Some p \<Rightarrow> p) of
        None \<Rightarrow> False | Some p \<Rightarrow> leads_to n s k (tk_id t # seen) p)"

definition lineage :: "store \<Rightarrow> string \<Rightarrow> task list" where
  "lineage s k =
     sort_key (\<lambda>t. (tk_depth t, tk_created_at t, tk_id t)) (filter (leads_to (length (st_tasks s) + 1) s k []) (st_tasks s))"

definition start_pursuit :: "runner_env \<Rightarrow> investigator option \<Rightarrow> string \<Rightarrow> int \<Rightarrow> plan_store \<Rightarrow> task \<Rightarrow> runner" where
  "start_pursuit e v k initial s root_task =
     (let (p, s1) = new_planner (rne_id e ''PLANRUN'' 0) k (rne_config e) (rne_now e 0) s;
          p1 = p\<lparr>pn_run := (pn_run p)\<lparr>plr_model_calls_used := initial\<rparr>\<rparr>;
          st = \<lparr>rn_store = s1, rn_planner = p1, rn_investigator = v, rn_queue = [k], rn_queued = [k], rn_calls = initial,
                rn_stop = None, rn_tick = 1\<rparr>;
          (t, st1) = plan_assess e root_task ''Root task entered the recursive plan.'' PlanningAction_PRIORITIZED st
      in if tk_status t = TaskStatus_DONE
         then log_attempt e t ((plain_report TaskRoute_MEMORY TaskRoute_MEMORY ''GraphMemory'' ExecutionOutcome_REUSED)
                \<lparr>ar_fallback_reason := Some ''Completed task graph satisfied the replay without a model call.''\<rparr>) st1
         else st1)"

definition finish_pursuit :: "runner_env \<Rightarrow> string \<Rightarrow> runner \<Rightarrow> (pursuit_result \<times> runner) result" where
  "finish_pursuit e k st =
     (case get_task (ps_store (rn_store st)) k of
        None \<Rightarrow> Inl AssertionError
      | Some r \<Rightarrow>
          let reason = (case rn_stop st of
                Some x \<Rightarrow> x
              | None \<Rightarrow> if tk_status r = TaskStatus_DONE then StoppingReason_COMPLETED else reason_of r);
              status = (if reason = StoppingReason_COMPLETED then TaskStatus_DONE else TaskStatus_STOPPED);
              (p, s') = finish_run (rn_planner st) status reason (rne_id e ''PLAN'' (rn_tick st)) (now_of e st) (rn_store st)
          in Inr (\<lparr>pur_root_task_id = k, pur_tasks = lineage (ps_store s') k, pur_codex_calls = rn_calls st, pur_status = status,
                 pur_stopping_reason = reason, pur_planning_run = pn_run p\<rparr>,
               st\<lparr>rn_planner := p, rn_store := s', rn_tick := rn_tick st + 1\<rparr>))"

definition pursue ::
  "nat \<Rightarrow> runner_env \<Rightarrow> investigator option \<Rightarrow> string \<Rightarrow> int \<Rightarrow> plan_store \<Rightarrow> (pursuit_result \<times> runner) result option" where
  "pursue n e v k initial s =
     (case get_task (ps_store s) k of
        None \<Rightarrow> Some (Inl (ValueError (''Root task not found: '' @ k)))
      | Some t \<Rightarrow>
          (case work_queue n e (start_pursuit e v k initial s t) of
             None \<Rightarrow> None | Some (Inl err) \<Rightarrow> Some (Inl err) | Some (Inr st) \<Rightarrow> Some (finish_pursuit e k st)))"

end
