(* ===== verification/Pursuit_Liveness.thy ===== *)
theory Pursuit_Liveness
  imports Pursuit Planning_Properties Resolution_Demo
begin

text \<open>
  When a pursuit ends and when it does not: a finished root is replayed without a call; a resolution
  whose follow-up is stopped because the calls are used up is taken from the queue and put back forever.
\<close>

section \<open>Frame facts\<close>

lemma loop_frame [simp]:
  "st_tasks (ps_store (rn_store (put_task t st))) = upsert tk_id t (st_tasks (ps_store (rn_store st)))"
  "st_tasks (ps_store (rn_store (plan_record e t action why stop st))) = st_tasks (ps_store (rn_store st))"
  "st_tasks (ps_store (rn_store (stop_because r st))) = st_tasks (ps_store (rn_store st))"
  "st_tasks (ps_store (rn_store (pop k ks st))) = st_tasks (ps_store (rn_store st))"
  "rn_planner (put_task t st) = rn_planner st" "rn_planner (plan_record e t action why stop st) = rn_planner st"
  "rn_planner (stop_because r st) = rn_planner st" "rn_planner (pop k ks st) = rn_planner st"
  "rn_investigator (put_task t st) = rn_investigator st" "rn_investigator (plan_record e t action why stop st) = rn_investigator st"
  "rn_investigator (stop_because r st) = rn_investigator st" "rn_investigator (pop k ks st) = rn_investigator st"
  "rn_queue (put_task t st) = rn_queue st" "rn_queue (plan_record e t action why stop st) = rn_queue st"
  "rn_queue (stop_because r st) = rn_queue st" "rn_queue (pop k ks st) = ks" "rn_queued (pop k ks st) = removeAll k (rn_queued st)"
  "rn_queued (put_task t st) = rn_queued st" "rn_queued (plan_record e t action why stop st) = rn_queued st"
  by (simp_all add: put_task_def plan_record_def stop_because_def pop_def)

lemma mark_frame [simp]:
  "st_tasks (ps_store (rn_store (mark_cluster_unresolved t st))) = st_tasks (ps_store (rn_store st))"
  "rn_planner (mark_cluster_unresolved t st) = rn_planner st" "rn_investigator (mark_cluster_unresolved t st) = rn_investigator st"
  "rn_queue (mark_cluster_unresolved t st) = rn_queue st"
  by (auto simp: mark_cluster_unresolved_def save_conflict_cluster_def split: option.split)

lemma push_frame:
  "rn_store (fold push ks st) = rn_store st \<and> rn_planner (fold push ks st) = rn_planner st \<and>
   rn_investigator (fold push ks st) = rn_investigator st \<and> set (rn_queue (fold push ks st)) \<subseteq> set (rn_queue st) \<union> set ks \<and>
   set (rn_queue st) \<subseteq> set (rn_queue (fold push ks st)) \<and> (\<forall>k\<in>set ks. k \<notin> set (rn_queued st) \<longrightarrow> k \<in> set (rn_queue (fold push ks st)))"
proof (induction ks arbitrary: st)
  case (Cons k ks)
  have "set (rn_queue st) \<subseteq> set (rn_queue (push k st))" "set (rn_queue (push k st)) \<subseteq> insert k (set (rn_queue st))"
    "k \<notin> set (rn_queued st) \<longrightarrow> k \<in> set (rn_queue (push k st))" "\<forall>j. j \<in> set (rn_queued (push k st)) \<longrightarrow> j = k \<or> j \<in> set (rn_queued st)"
    "rn_store (push k st) = rn_store st" "rn_planner (push k st) = rn_planner st" "rn_investigator (push k st) = rn_investigator st"
    by (auto simp: push_def)
  with Cons.IH [of "push k st"] show ?case by simp blast
qed simp

lemma enqueue_frame:
  "rn_store (enqueue_tasks ks st) = rn_store st" "rn_planner (enqueue_tasks ks st) = rn_planner st" "rn_investigator (enqueue_tasks ks st) = rn_investigator st"
  "set (rn_queue (enqueue_tasks ks st)) \<subseteq> set (rn_queue st) \<union> set ks" "set (rn_queue st) \<subseteq> set (rn_queue (enqueue_tasks ks st))"
  "k \<in> set ks \<Longrightarrow> k \<notin> set (rn_queued st) \<Longrightarrow> k \<in> set (rn_queue (enqueue_tasks ks st))"
  "rn_queued (enqueue_tasks ks st) = rn_queued (fold push ks st)"
  using push_frame [of ks st] by (auto simp: enqueue_tasks_def Let_def)

section \<open>A concrete environment\<close>

definition demo_runner_env :: runner_env where
  "demo_runner_env =
     \<lparr>rne_config = \<lparr>puc_max_depth = 4, puc_max_codex_calls = 1, puc_max_retries_per_task = 2, puc_minimum_confidence = 3 / 4,
        puc_max_retrieval_tokens = 8000, puc_max_duplicate_investigations = 0, puc_max_wall_time_seconds = 600\<rparr>,
      rne_resolver = (\<lambda>_. rex_resolver (colour_executor (Inr (colour_answer 1)))), rne_workers = (\<lambda>_. []), rne_now = (\<lambda>n. int n),
      rne_latency = (\<lambda>_. 0), rne_id = (\<lambda>kind n. kind @ replicate n CHR ''x''), rne_env = plain_env, rne_commit = None,
      rne_dump = (\<lambda>_. ''{}''), rne_dump_resolution = (\<lambda>_. ''{}''), rne_str = (\<lambda>_. ''error'')\<rparr>"

definition finished_task :: task where
  "finished_task = colour_task\<lparr>tk_status := TaskStatus_DONE\<rparr>"

section \<open>A finished root\<close>

definition rest_when_done :: "store \<Rightarrow> task \<Rightarrow> bool" where
  "rest_when_done s t \<longleftrightarrow> tk_status t = TaskStatus_DONE \<and>
     (tk_kind t = TaskKind_RESOLUTION \<or> (tk_kind t = TaskKind_FOLLOW_UP \<and> \<not> truthy (tk_parent_task_id t)) \<or>
      (tk_kind t = TaskKind_INVESTIGATION \<and> child_tasks s (tk_id t) = []))"

lemma assessed_simps [simp]:
  "tk_id (assessed_task s t) = tk_id t" "tk_status (assessed_task s t) = tk_status t" "tk_kind (assessed_task s t) = tk_kind t"
  "tk_parent_task_id (assessed_task s t) = tk_parent_task_id t" "tk_depth (assessed_task s t) = tk_depth t"
  "tk_stopping_reason (assessed_task s t) = tk_stopping_reason t" "tk_route (assessed_task s t) \<noteq> None"
  "tk_fingerprint (assessed_task s t) = tk_fingerprint t"
  by (simp_all add: assessed_task_def Let_def)

lemma record_attempt_store:
  "record_attempt i now t r s = (a, s') \<Longrightarrow> st_tasks (ps_store s') = st_tasks (ps_store s) \<and> st_claims (ps_store s') = st_claims (ps_store s) \<and>
    a \<in> set (ps_attempts s') \<and> xa_task_id a = tk_id t \<and> xa_outcome a = ar_outcome r"
  by (auto simp: record_attempt_def Let_def save_execution_attempt_def row_simps split: option.splits)

lemma pursue_done_root:
  assumes t: "get_task (ps_store s) k = Some t" and rest: "rest_when_done (ps_store s) t"
  shows "\<exists>r st. pursue (Suc (Suc n)) e v k initial s = Some (Inr (r, st)) \<and> pur_status r = TaskStatus_DONE \<and>
    pur_stopping_reason r = StoppingReason_COMPLETED \<and> pur_codex_calls r = initial \<and> plr_model_calls_used (pur_planning_run r) = initial \<and>
    st_claims (ps_store (rn_store st)) = st_claims (ps_store s) \<and>
    (\<exists>a\<in>set (ps_attempts (rn_store st)). xa_task_id a = k \<and> xa_outcome a = ExecutionOutcome_REUSED)"
proof -
  let ?w = "start_pursuit e v k initial s t"
  obtain p s0 where p: "new_planner (rne_id e ''PLANRUN'' 0) k (rne_config e) (rne_now e 0) s = (p, s0)" by force
  let ?t = "assessed_task (ps_store s0) t"
  have id: "tk_id t = k" using get_task_mem [OF t] by blast
  have s0: "st_tasks (ps_store s0) = st_tasks (ps_store s)" "st_claims (ps_store s0) = st_claims (ps_store s)"
    using p by (auto simp: new_planner_def Let_def save_planning_run_def)
  have w: "st_tasks (ps_store (rn_store ?w)) = upsert tk_id ?t (st_tasks (ps_store s)) \<and>
      st_claims (ps_store (rn_store ?w)) = st_claims (ps_store s) \<and> rn_queue ?w = [k] \<and> rn_stop ?w = None \<and> rn_calls ?w = initial \<and>
      plr_model_calls_used (pn_run (rn_planner ?w)) = initial \<and>
      (\<exists>a\<in>set (ps_attempts (rn_store ?w)). xa_task_id a = k \<and> xa_outcome a = ExecutionOutcome_REUSED)"
  proof -
    have log: "st_tasks (ps_store (rn_store (log_attempt e u r st))) = st_tasks (ps_store (rn_store st)) \<and>
        st_claims (ps_store (rn_store (log_attempt e u r st))) = st_claims (ps_store (rn_store st)) \<and> rn_queue (log_attempt e u r st) = rn_queue st \<and>
        rn_stop (log_attempt e u r st) = rn_stop st \<and> rn_calls (log_attempt e u r st) = rn_calls st \<and> rn_planner (log_attempt e u r st) = rn_planner st \<and>
        (\<exists>a\<in>set (ps_attempts (rn_store (log_attempt e u r st))). xa_task_id a = tk_id u \<and> xa_outcome a = ar_outcome r)" for u r st
    proof -
      obtain a s' where a: "record_attempt (rne_id e ''EXEC'' (rn_tick st)) (now_of e st) u r (rn_store st) = (a, s')" by force
      from record_attempt_store [OF a] show ?thesis by (auto simp: log_attempt_def a)
    qed
    have reused: "tk_id u = k \<Longrightarrow> ar_outcome r = ExecutionOutcome_REUSED \<Longrightarrow>
        \<exists>a\<in>set (ps_attempts (rn_store (log_attempt e u r st))). xa_task_id a = k \<and> xa_outcome a = ExecutionOutcome_REUSED" for u r st
      using log [of u r st] by metis
    have done_now: "tk_status t = TaskStatus_DONE" using rest by (simp add: rest_when_done_def)
    show ?thesis
      using log s0 done_now id by (simp add: reused start_pursuit_def p plan_assess_def assess_task_def Let_def plain_report_def)
  qed
  have found: "get_task (ps_store (rn_store ?w)) k = Some ?t" using w id by (simp add: get_task_def row_simps)
  have none: "child_tasks (ps_store (rn_store ?w)) k = []" if "child_tasks (ps_store s) k = []"
    using that w t by (auto simp: child_tasks_def filter_empty_conv row_simps dest: get_task_mem)
  have "pursuit_step (Suc n) e k (pop k [] ?w) = Some (Inr (pop k [] ?w))"
    using rest found id none
    by (auto simp: pursuit_step_def get_task_def routed_def rest_when_done_def step_follow_up_def step_resolution_def step_investigation_def
        requeue_parent_def child_tasks_def split: option.split)
  then have loop: "work_queue (Suc (Suc n)) e ?w = Some (Inr (pop k [] ?w))" using w by simp
  have "tk_status ?t = TaskStatus_DONE" using rest by (simp add: rest_when_done_def)
  then obtain r st where fin: "finish_pursuit e k (pop k [] ?w) = Inr (r, st)" and r: "pur_status r = TaskStatus_DONE" "pur_stopping_reason r = StoppingReason_COMPLETED"
      "pur_codex_calls r = rn_calls ?w" "plr_model_calls_used (pur_planning_run r) = plr_model_calls_used (pn_run (rn_planner ?w))"
      "st_claims (ps_store (rn_store st)) = st_claims (ps_store (rn_store ?w))" "ps_attempts (rn_store st) = ps_attempts (rn_store ?w)"
    using found w
    by (auto simp: finish_pursuit_def get_task_def pop_def Let_def finish_run_def save_planning_run_def record_decision_def save_plan_decision_def
        split: option.splits)
  then show ?thesis using t loop w by (simp add: pursue_def)
qed

text \<open>Pursuing a finished root costs nothing: the loop ends after one visit, the pursuit is completed without
  a call beyond those it was given, the claims are what they were, and the reuse is recorded.\<close>

theorem finished_root_is_replayed:
  assumes "get_task (ps_store s) k = Some t" and "rest_when_done (ps_store s) t"
  shows "\<exists>r st. pursue (Suc (Suc n)) e v k initial s = Some (Inr (r, st)) \<and> pur_status r = TaskStatus_DONE \<and>
    pur_stopping_reason r = StoppingReason_COMPLETED \<and> pur_codex_calls r = initial \<and> plr_model_calls_used (pur_planning_run r) = initial \<and>
    st_claims (ps_store (rn_store st)) = st_claims (ps_store s) \<and>
    (\<exists>a\<in>set (ps_attempts (rn_store st)). xa_task_id a = k \<and> xa_outcome a = ExecutionOutcome_REUSED)"
  using assms by (rule pursue_done_root)

theorem finished_root_is_replayed_witness:
  "\<exists>r st. pursue (Suc (Suc 0)) demo_runner_env None ''T'' 0 (pursuit_store [finished_task] []) = Some (Inr (r, st)) \<and>
     pur_status r = TaskStatus_DONE \<and> pur_codex_calls r = 0"
proof -
  have "get_task (ps_store (pursuit_store [finished_task] [])) ''T'' = Some finished_task"
    by (simp add: get_task_def lookup_row_def pursuit_store_def finished_task_def colour_task_def demo_task_def)
  moreover have "rest_when_done (ps_store (pursuit_store [finished_task] [])) finished_task"
    by (simp add: rest_when_done_def finished_task_def colour_task_def)
  ultimately show ?thesis using finished_root_is_replayed [of "pursuit_store [finished_task] []" "''T''" finished_task 0 demo_runner_env None 0] by auto
qed

section \<open>A pursuit that starves\<close>

definition stuck_root :: "string \<Rightarrow> task \<Rightarrow> bool" where
  "stuck_root k r \<longleftrightarrow> tk_id r = k \<and> tk_kind r = TaskKind_RESOLUTION \<and> tk_status r \<noteq> TaskStatus_DONE \<and> \<not> truthy (tk_parent_task_id r)"

definition stuck_child :: "pursuit_config \<Rightarrow> string \<Rightarrow> string \<Rightarrow> task \<Rightarrow> bool" where
  "stuck_child c k f d \<longleftrightarrow> tk_id d = f \<and> tk_kind d = TaskKind_FOLLOW_UP \<and> tk_status d \<noteq> TaskStatus_DONE \<and> tk_parent_task_id d = Some k \<and>
     tk_depth d \<le> puc_max_depth c \<and> \<not> terminal_stop d"

definition stuck_tasks :: "pursuit_config \<Rightarrow> string \<Rightarrow> string \<Rightarrow> task list \<Rightarrow> bool" where
  "stuck_tasks c k f ts \<longleftrightarrow> k \<noteq> f \<and> k \<noteq> [] \<and> (\<exists>r d. (ts = [r, d] \<or> ts = [d, r]) \<and> stuck_root k r \<and> stuck_child c k f d)"

definition starving :: "runner_env \<Rightarrow> string \<Rightarrow> string \<Rightarrow> runner \<Rightarrow> bool" where
  "starving e k f st \<longleftrightarrow> rn_investigator st \<noteq> None \<and> pn_config (rn_planner st) = rne_config e \<and>
     puc_max_codex_calls (rne_config e) \<le> plr_model_calls_used (pn_run (rn_planner st)) \<and>
     k \<in> set (rn_queue st) \<and> set (rn_queue st) \<subseteq> {k, f} \<and> stuck_tasks (rne_config e) k f (st_tasks (ps_store (rn_store st)))"

lemma stuck_put:
  assumes "stuck_tasks c k f ts"
  shows "stuck_root k r' \<Longrightarrow> stuck_tasks c k f (upsert tk_id r' ts)" "stuck_child c k f d' \<Longrightarrow> stuck_tasks c k f (upsert tk_id d' ts)"
proof -
  obtain r d where ts: "ts = [r, d] \<or> ts = [d, r]" "stuck_root k r" "stuck_child c k f d" "k \<noteq> f" "k \<noteq> []"
    using assms by (auto simp: stuck_tasks_def)
  have ids: "tk_id r = k" "tk_id d = f" using ts by (simp_all add: stuck_root_def stuck_child_def)
  show "stuck_tasks c k f (upsert tk_id r' ts)" if "stuck_root k r'"
  proof -
    have "tk_id r' = k" using that by (simp add: stuck_root_def)
    then have "upsert tk_id r' ts = [d, r']" using ts(1,4) ids by (auto simp: upsert_def)
    with that ts show ?thesis by (auto simp: stuck_tasks_def)
  qed
  show "stuck_tasks c k f (upsert tk_id d' ts)" if "stuck_child c k f d'"
  proof -
    have "tk_id d' = f" using that by (simp add: stuck_child_def)
    then have "upsert tk_id d' ts = [r, d']" using ts(1,4) ids by (auto simp: upsert_def)
    with that ts show ?thesis by (auto simp: stuck_tasks_def)
  qed
qed

lemma stuck_lookup:
  assumes "stuck_tasks c k f (st_tasks s)"
  shows "\<exists>r. get_task s k = Some r \<and> stuck_root k r" "\<exists>d. get_task s f = Some d \<and> stuck_child c k f d \<and> child_tasks s k = [d]"
    "\<And>d. stuck_child c k f d \<Longrightarrow> completed_equivalent s d = None"
  using assms by (auto simp: stuck_tasks_def stuck_root_def stuck_child_def get_task_def lookup_row_def child_tasks_def
      completed_equivalent_def truthy_def)

lemma stuck_assessed:
  "stuck_root k r \<Longrightarrow> stuck_root k (assessed_task s r)" "stuck_child c k f d \<Longrightarrow> stuck_child c k f (assessed_task s d)"
  by (simp_all add: stuck_root_def stuck_child_def terminal_stop_def)

lemma routed_starving:
  assumes "routed e t st = (t', st')" and "stuck_tasks c k f (st_tasks (ps_store (rn_store st)))" and "stuck_root k t \<or> stuck_child c k f t"
  shows "stuck_tasks c k f (st_tasks (ps_store (rn_store st')))" "stuck_root k t \<Longrightarrow> stuck_root k t'"
    "stuck_child c k f t \<Longrightarrow> stuck_child c k f t'" "rn_planner st' = rn_planner st" "rn_investigator st' = rn_investigator st"
    "rn_queue st' = rn_queue st" "rn_queued st' = rn_queued st"
  using assms stuck_put stuck_assessed
  by (auto simp: routed_def plan_assess_def assess_task_def Let_def split: option.splits)

lemma has_no_cycle: "\<not> truthy (tk_parent_task_id t) \<Longrightarrow> \<not> has_cycle s t"
  by (simp add: has_cycle_def seeks_cycle.simps)

text \<open>The root is put back together with its child.\<close>

lemma starving_root:
  assumes s: "starving e k f st" and q: "rn_queue st = k # ks"
  shows "\<exists>st'. pursuit_step n e k (pop k ks st) = Some (Inr st') \<and> starving e k f st'"
proof -
  let ?st = "pop k ks st"
  have st: "stuck_tasks (rne_config e) k f (st_tasks (ps_store (rn_store ?st)))" "rn_investigator ?st \<noteq> None"
    "pn_config (rn_planner ?st) = rne_config e" "puc_max_codex_calls (rne_config e) \<le> plr_model_calls_used (pn_run (rn_planner ?st))"
    "set ks \<subseteq> {k, f}" "k \<notin> set (rn_queued ?st)"
    using s q by (auto simp: starving_def)
  obtain r where r: "get_task (ps_store (rn_store ?st)) k = Some r" "stuck_root k r" using stuck_lookup(1) [OF st(1)] by blast
  obtain t st1 where routed: "routed e r ?st = (t, st1)" by force
  note one = routed_starving [OF routed st(1)]
  have t: "stuck_root k t" "stuck_tasks (rne_config e) k f (st_tasks (ps_store (rn_store st1)))" using one r by auto
  obtain d where d: "child_tasks (ps_store (rn_store st1)) k = [d]" "stuck_child (rne_config e) k f d" using stuck_lookup(2) [OF t(2)] by blast
  let ?st2 = "enqueue_tasks [k] (enqueue_tasks [f] st1)"
  have "step_resolution n e t [d] st1 = Some ?st2"
    using t(1) d(2) has_no_cycle [of t] by (simp add: step_resolution_def stuck_root_def stuck_child_def)
  moreover have "tk_kind t = TaskKind_RESOLUTION" "tk_id t = k" using t(1) by (simp_all add: stuck_root_def)
  ultimately have "pursuit_step n e k ?st = Some (Inr ?st2)" using r routed d(1) by (simp add: pursuit_step_def)
  moreover have "starving e k f ?st2"
  proof -
    have again: "k \<in> set (rn_queue ?st2)"
    proof (cases "k \<in> set (rn_queue (enqueue_tasks [f] st1))")
      case True
      then show ?thesis using enqueue_frame(5) [of "enqueue_tasks [f] st1" "[k]"] by blast
    next
      case False
      have "k \<notin> set (rn_queued (enqueue_tasks [f] st1))" if "k \<noteq> f"
        using that one(7) r(2) st(6) by (auto simp: enqueue_frame(7) push_def)
      moreover have "k \<noteq> f" using st(1) by (simp add: stuck_tasks_def)
      ultimately show ?thesis using enqueue_frame(6) by simp
    qed
    have "set (rn_queue ?st2) \<subseteq> {k, f}"
      using enqueue_frame(4) [of "[k]" "enqueue_tasks [f] st1"] enqueue_frame(4) [of "[f]" st1] one(6) r(2) st(5) by auto
    with again show ?thesis using one(4,5) r(2) st t(2) by (simp add: starving_def enqueue_frame)
  qed
  ultimately show ?thesis by blast
qed

text \<open>The child is stopped, which the root does not take for an end.\<close>

lemma starving_child:
  assumes s: "starving e k f st" and q: "rn_queue st = f # ks"
  shows "\<exists>st'. pursuit_step n e f (pop f ks st) = Some (Inr st') \<and> starving e k f st'"
proof -
  let ?st = "pop f ks st" and ?c = "rne_config e"
  have kf: "k \<noteq> f" "k \<noteq> []" using s by (auto simp: starving_def stuck_tasks_def)
  have st: "stuck_tasks ?c k f (st_tasks (ps_store (rn_store ?st)))" "rn_investigator ?st \<noteq> None"
    "pn_config (rn_planner ?st) = ?c" "puc_max_codex_calls ?c \<le> plr_model_calls_used (pn_run (rn_planner ?st))"
    "set ks \<subseteq> {k, f}" "k \<in> set ks"
    using s q kf by (auto simp: starving_def)
  obtain d0 where d0: "get_task (ps_store (rn_store ?st)) f = Some d0" "stuck_child ?c k f d0" using stuck_lookup(2) [OF st(1)] by blast
  obtain d st1 where routed: "routed e d0 ?st = (d, st1)" by force
  note one = routed_starving [OF routed st(1)]
  have d: "stuck_child ?c k f d" "stuck_tasks ?c k f (st_tasks (ps_store (rn_store st1)))" using one d0 by auto
  obtain v where v: "rn_investigator st1 = Some v" using one(5) d0(2) st(2) by auto
  obtain st2 where admit: "plan_admit e d st1 = (Some StoppingReason_CALL_BUDGET, st2)"
    and two: "rn_store st2 = rn_store st1" "pn_config (rn_planner st2) = ?c" "rn_investigator st2 = rn_investigator st1" "rn_queue st2 = rn_queue st1"
      "plr_model_calls_used (pn_run (rn_planner st2)) = plr_model_calls_used (pn_run (rn_planner st1))"
    using d(1) st(3,4) one(4) d0(2)
    by (simp add: plan_admit_def admit_call_def refusal_def Let_def stuck_child_def)
  let ?d = "stopped e StoppingReason_CALL_BUDGET d st2"
  let ?st3 = "snd (stop_task e d StoppingReason_CALL_BUDGET st2)"
  have step: "step_follow_up e d st1 = ?st3"
    using d(1) stuck_lookup(3) [OF d(2) d(1)] v admit by (simp add: step_follow_up_def stuck_child_def)
  have kind: "tk_kind d = TaskKind_FOLLOW_UP" "tk_id d = f" using d(1) by (simp_all add: stuck_child_def)
  have "pursuit_step n e f ?st = Some (Inr ?st3)" using d0 routed step kind by (simp add: pursuit_step_def)
  moreover have "starving e k f ?st3"
  proof -
    have stopped: "stuck_child ?c k f ?d" using d(1) by (simp add: stuck_child_def stopped_def terminal_stop_def)
    define st4 where "st4 = mark_cluster_unresolved ?d (plan_record e ?d PlanningAction_STOPPED
      (''Hard budget or terminal policy stopped this task: '' @ stopping_reason_value StoppingReason_CALL_BUDGET @ ''.'')
      (Some StoppingReason_CALL_BUDGET) (put_task ?d st2))"
    have four: "stuck_tasks ?c k f (st_tasks (ps_store (rn_store st4)))" "rn_planner st4 = rn_planner st2"
      "rn_investigator st4 = rn_investigator st1" "rn_queue st4 = ks"
      using stuck_put(2) [OF d(2) stopped] two one(6) d0(2) by (simp_all add: st4_def)
    obtain r where r: "get_task (ps_store (rn_store st4)) k = Some r" "stuck_root k r" using stuck_lookup(1) [OF four(1)] by blast
    define st5 where "st5 = stop_parent e f StoppingReason_CALL_BUDGET r st4"
    have ids: "tk_id ?d = f" "tk_parent_task_id ?d = Some k" "tk_status r \<noteq> TaskStatus_DONE" "\<not> truthy (tk_parent_task_id r)"
      using stopped r(2) by (simp_all add: stuck_child_def stuck_root_def)
    have chain: "propagate_stopping e f StoppingReason_CALL_BUDGET [f] (Some k) st4 = st5"
      using r ids kf by (subst propagate_stopping.simps) (simp add: truthy_def st5_def propagate_stopping.simps)
    have st3: "?st3 = stop_because StoppingReason_CALL_BUDGET st5"
      using ids chain by (simp add: stop_task_def Let_def st4_def)
    have "stuck_root k (stopped e StoppingReason_CALL_BUDGET r st4)" using r(2) by (simp add: stuck_root_def stopped_def)
    from stuck_put(1) [OF four(1) this] have "stuck_tasks ?c k f (st_tasks (ps_store (rn_store st5)))"
      by (simp add: st5_def stop_parent_def Let_def)
    moreover have "rn_planner st5 = rn_planner st4" "rn_investigator st5 = rn_investigator st4" "rn_queue st5 = rn_queue st4"
      by (simp_all add: st5_def stop_parent_def Let_def)
    ultimately show ?thesis using st four two one(4,5) d0(2) kf v unfolding st3 by (auto simp: starving_def)
  qed
  ultimately show ?thesis by blast
qed

lemma starving_diverges: "starving e k f st \<Longrightarrow> work_queue n e st = None"
proof (induction n arbitrary: st)
  case (Suc n)
  then obtain j js where q: "rn_queue st = j # js" by (cases "rn_queue st") (auto simp: starving_def)
  with Suc.prems have "j = k \<or> j = f" by (auto simp: starving_def)
  then obtain st' where "pursuit_step n e j (pop j js st) = Some (Inr st')" "starving e k f st'"
    using starving_root [OF Suc.prems, of js n] starving_child [OF Suc.prems, of js n] q by auto
  with Suc.IH q show ?case by simp
qed simp

text \<open>C17: A pursuit need not end. If the calls of the planning run are used up and the root is a resolution
  that waits for a follow-up, the follow-up is stopped for its budget, the root does not take that for
  a terminal stop and puts both back into the queue: no number of steps is enough.\<close>

theorem exhausted_budget_starves:
  assumes "st_tasks (ps_store s) = [r, d]" and "tk_kind r = TaskKind_RESOLUTION" and "tk_status r \<noteq> TaskStatus_DONE"
    and "\<not> truthy (tk_parent_task_id r)" and "tk_id r \<noteq> []" and "tk_id d \<noteq> tk_id r" and "tk_kind d = TaskKind_FOLLOW_UP"
    and "tk_status d = TaskStatus_OPEN" and "tk_parent_task_id d = Some (tk_id r)" and "tk_depth d \<le> puc_max_depth (rne_config e)"
    and "puc_max_codex_calls (rne_config e) \<le> initial" and "v \<noteq> None"
  shows "\<forall>n. pursue n e v (tk_id r) initial s = None"
proof
  fix n
  have t: "get_task (ps_store s) (tk_id r) = Some r" using assms(1) by (simp add: get_task_def lookup_row_def)
  have "stuck_root (tk_id r) r" "stuck_child (rne_config e) (tk_id r) (tk_id d) d"
    using assms by (simp_all add: stuck_root_def stuck_child_def terminal_stop_def)
  then have "stuck_tasks (rne_config e) (tk_id r) (tk_id d) (upsert tk_id (assessed_task w r) [r, d])" for w
    using assms(5,6) by (intro stuck_put(1) stuck_assessed) (auto simp: stuck_tasks_def)
  then have "starving e (tk_id r) (tk_id d) (start_pursuit e v (tk_id r) initial s r)"
    using assms by (simp add: starving_def start_pursuit_def new_planner_def plan_assess_def assess_task_def Let_def save_planning_run_def)
  from starving_diverges [OF this] show "pursue n e v (tk_id r) initial s = None" using t by (simp add: pursue_def)
qed

theorem exhausted_budget_starves_witness:
  "\<forall>n. pursue n demo_runner_env (Some demo_investigator) ''T'' 1
     (pursuit_store [colour_task, demo_task\<lparr>tk_id := ''F'', tk_parent_task_id := Some ''T''\<rparr>] []) = None"
proof -
  have "\<forall>n. pursue n demo_runner_env (Some demo_investigator) (tk_id colour_task) 1
      (pursuit_store [colour_task, demo_task\<lparr>tk_id := ''F'', tk_parent_task_id := Some ''T''\<rparr>] []) = None"
    by (rule exhausted_budget_starves [where d = "demo_task\<lparr>tk_id := ''F'', tk_parent_task_id := Some ''T''\<rparr>"])
      (simp_all add: pursuit_store_def colour_task_def demo_task_def demo_runner_env_def truthy_def)
  then show ?thesis by (simp add: colour_task_def demo_task_def)
qed

end
