(* ===== verification/Pursuit_Properties.thy ===== *)
theory Pursuit_Properties
  imports Pursuit_Liveness Resolution_Properties Execution_Properties
begin

text \<open>
  The budgets of a pursuit hold for every call it makes.
\<close>

section \<open>The calls of an execution\<close>

lemma dispatch_calls:
  assumes "dispatch v x t planned p question base routes d = (d', early)"
  shows "ds_calls d \<le> ds_calls d' \<and> ds_calls d' \<le> ds_calls d + int (length routes) \<and> ds_calls d' \<le> max (ds_calls d) (inv_max_calls v) \<and>
    (ds_calls d' \<le> max 1 (ds_calls d) \<or> token_estimate question \<le> inv_max_retrieval_tokens v)"
  using assms
proof (induction routes arbitrary: d)
  case Nil
  then show ?case by simp
next
  case (Cons route routes)
  show ?case
  proof (cases "ds_calls d \<ge> inv_max_calls v \<or> (ds_calls d > 0 \<and> token_estimate question > inv_max_retrieval_tokens v)")
    case True
    with Cons.prems have "d' = d" by (auto simp: Let_def split: if_splits)
    then show ?thesis by simp
  next
    case go: False
    from Cons.prems show ?thesis
    proof (cases rule: dispatch_step)
      case stopped
      then show ?thesis by simp
    next
      case (missing a d1 message)
      from Cons.IH [OF missing(4)] missing(5) show ?thesis by simp
    next
      case (failed w err message latency r a d1)
      from Cons.IH [OF failed(8)] failed(9) go show ?thesis by auto
    next
      case (answered w result latency r a d1)
      show ?thesis
      proof (cases "\<not> weak_result v result \<or> routes = []")
        case True
        with answered(8,11) go show ?thesis by (cases "0 < ds_calls d") auto
      next
        case False
        with answered(11) have "dispatch v x t planned p question base routes d1 = (d', early)" by simp
        from Cons.IH [OF this] answered(8) go show ?thesis by auto
      qed
    qed
  qed
qed

lemma investigate_calls:
  assumes "investigate v x question base s = (r, v', s')" and "open_task (ps_store s) question (icl_resolve x base) = Inr t"
  shows "0 \<le> inv_last_call_count v' \<and> inv_last_call_count v' \<le> 2 \<and> inv_last_call_count v' \<le> max 0 (inv_max_calls v) \<and>
    (inv_last_call_count v' \<le> 1 \<or> token_estimate question \<le> inv_max_retrieval_tokens v)"
proof -
  obtain p s1 where p: "predict (inv_routing v) (icl_policy x) t (inv_workers v) (static_route t) (safety_limits v) s = (Inr p, s1)"
    using predict_returns by blast
  obtain d early where d: "dispatch v x t (planned_of t) p question base (fallback_routes v (rpn_chosen_route p))
      \<lparr>ds_store = s1, ds_calls = 0, ds_fallback_from = None, ds_fallback_reason = None, ds_last_error = None, ds_last_result = None\<rparr> = (d, early)"
    by force
  have "inv_last_call_count v' = ds_calls d"
    using assms p d by (auto simp: investigate_def Let_def split: prod.splits)
  moreover have "length (fallback_routes v (rpn_chosen_route p)) \<le> 2" by (simp add: fallback_routes_def)
  ultimately show ?thesis using dispatch_calls [OF d] by auto
qed

lemma open_task_found:
  assumes "t \<in> set (st_tasks s)" "tk_question t = q" "tk_project_root t = base" "tk_status t = TaskStatus_OPEN"
  shows "\<exists>u. open_task s q base = Inr u"
proof -
  have "t \<in> set (filter (\<lambda>t. tk_question t = q \<and> tk_project_root t = base \<and> tk_status t = TaskStatus_OPEN) (st_tasks s))"
    using assms by simp
  then have "filter (\<lambda>t. tk_question t = q \<and> tk_project_root t = base \<and> tk_status t = TaskStatus_OPEN) (st_tasks s) \<noteq> []" by (metis empty_iff empty_set)
  then show ?thesis by (auto simp: open_task_def split: list.split)
qed

text \<open>An execution makes at most two calls, no more than it is allowed, and a second one only if its tokens fit.\<close>

lemma follow_up_calls:
  assumes run: "execute_follow_up v x k s = (r, calls, v', s')" and "\<And>p. icl_resolve (fu_investigation x) p = p" and "1 \<le> inv_max_calls v"
    and q: "\<And>t. get_task (ps_store s) k = Some t \<Longrightarrow> tk_question t = q"
  shows "0 \<le> calls \<and> calls \<le> inv_max_calls v \<and> (calls \<le> 1 \<or> (calls = 2 \<and> token_estimate q \<le> inv_max_retrieval_tokens v))"
proof (cases "\<exists>t. get_task (ps_store s) k = Some t \<and> tk_kind t = TaskKind_FOLLOW_UP \<and> tk_status t = TaskStatus_OPEN")
  case False
  with run assms(3) show ?thesis by (auto simp: execute_follow_up_def split: option.splits if_splits)
next
  case True
  then obtain t where t: "get_task (ps_store s) k = Some t" "tk_kind t = TaskKind_FOLLOW_UP" "tk_status t = TaskStatus_OPEN" by blast
  let ?t1 = "started_task (fu_now x) t"
  let ?s1 = "store_task ?t1 s"
  have t1: "tk_question ?t1 = tk_question t" "tk_project_root ?t1 = tk_project_root t" "tk_status ?t1 = TaskStatus_OPEN"
    by (simp_all add: started_task_def t(3))
  obtain answer w s2 where inv: "investigate v (fu_investigation x) (tk_question t) (tk_project_root t) ?s1 = (answer, w, s2)"
    by (metis prod_cases3)
  have "?t1 \<in> set (st_tasks (ps_store ?s1))" by (simp add: store_task_def save_task_def row_simps)
  then obtain u where "open_task (ps_store ?s1) (tk_question t) (icl_resolve (fu_investigation x) (tk_project_root t)) = Inr u"
    using open_task_found [of ?t1] t1 assms(2) by metis
  note calls = investigate_calls [OF inv this]
  have "calls = max 1 (inv_last_call_count w)"
    using run t inv by (auto simp: execute_follow_up_def Let_def t1 split: sum.splits prod.splits)
  with calls q [OF t(1)] assms(3) show ?thesis by auto
qed

section \<open>Budgets\<close>

text \<open>The calls made are among the calls the planning run has counted, and the counts are within the budgets.\<close>

definition within_budgets :: "pursuit_config \<Rightarrow> int \<Rightarrow> runner \<Rightarrow> bool" where
  "within_budgets c initial st \<longleftrightarrow>
     (let p = rn_planner st in pn_config p = c \<and> rn_calls st \<le> plr_model_calls_used (pn_run p) \<and>
        plr_model_calls_used (pn_run p) \<le> max initial (puc_max_codex_calls c) \<and>
        plr_retrieval_tokens_used (pn_run p) \<le> puc_max_retrieval_tokens c)"

definition same_run :: "runner \<Rightarrow> runner \<Rightarrow> bool" where
  "same_run st st' \<longleftrightarrow> rn_planner st' = rn_planner st \<and> rn_calls st' = rn_calls st"

lemma within_same: "same_run st st' \<Longrightarrow> within_budgets c i st' \<longleftrightarrow> within_budgets c i st"
  by (simp add: within_budgets_def same_run_def)

lemma run_frame [simp]:
  "rn_planner (put_task t st) = rn_planner st" "rn_calls (put_task t st) = rn_calls st"
  "rn_planner (plan_record e t action why stop st) = rn_planner st" "rn_calls (plan_record e t action why stop st) = rn_calls st"
  "rn_planner (plan_duplicate e t reused st) = rn_planner st" "rn_calls (plan_duplicate e t reused st) = rn_calls st"
  "rn_planner (log_attempt e t report st) = rn_planner st" "rn_calls (log_attempt e t report st) = rn_calls st"
  "rn_planner (stop_because r st) = rn_planner st" "rn_calls (stop_because r st) = rn_calls st"
  "rn_planner (pop k ks st) = rn_planner st" "rn_calls (pop k ks st) = rn_calls st"
  by (simp_all add: put_task_def plan_record_def plan_duplicate_def log_attempt_def stop_because_def pop_def)

lemma run_frame_mark [simp]:
  "rn_planner (mark_cluster_unresolved t st) = rn_planner st" "rn_calls (mark_cluster_unresolved t st) = rn_calls st"
  by (simp_all add: mark_cluster_unresolved_def split: option.split)

lemma run_frame_push: "rn_planner (fold push ks st) = rn_planner st \<and> rn_calls (fold push ks st) = rn_calls st"
  by (induction ks arbitrary: st) (auto simp: push_def)

lemma run_frame_enqueue [simp]:
  "rn_planner (enqueue_tasks ks st) = rn_planner st" "rn_calls (enqueue_tasks ks st) = rn_calls st"
  by (simp_all add: enqueue_tasks_def Let_def run_frame_push)

lemma run_frame_requeue [simp]:
  "rn_planner (requeue_parent t st) = rn_planner st" "rn_calls (requeue_parent t st) = rn_calls st"
  by (simp_all add: requeue_parent_def split: option.split)

lemma run_frame_assess:
  "plan_assess e t why action st = (t', st') \<Longrightarrow> rn_planner st' = rn_planner st \<and> rn_calls st' = rn_calls st"
  by (auto simp: plan_assess_def split: prod.splits)

lemma same_run_stop_parent [simp]: "same_run st (stop_parent e child reason p st)"
  by (simp add: stop_parent_def Let_def same_run_def)

lemma same_run_trans: "same_run a b \<Longrightarrow> same_run b c \<Longrightarrow> same_run a c"
  by (simp add: same_run_def)

lemma same_run_propagate_stopping [simp]: "same_run st (propagate_stopping e child reason seen parent st)"
proof (induction e child reason seen parent st rule: propagate_stopping.induct)
  case (1 e child reason seen parent st)
  show ?case
  proof (cases "\<not> truthy parent \<or> the parent \<in> set seen \<or> get_task (ps_store (rn_store st)) (the parent) = None")
    case True
    then show ?thesis by (subst propagate_stopping.simps) (auto simp: same_run_def)
  next
    case False
    then obtain p where p: "get_task (ps_store (rn_store st)) (the parent) = Some p" by auto
    show ?thesis
    proof (cases "tk_status p = TaskStatus_DONE")
      case True
      with p show ?thesis by (subst propagate_stopping.simps) (simp add: same_run_def)
    next
      case ongoing: False
      from 1 [OF _ p ongoing] False
      have "same_run (stop_parent e child reason p st) (propagate_stopping e child reason (tk_id p # seen) (tk_parent_task_id p) (stop_parent e child reason p st))"
        by blast
      with same_run_stop_parent have "same_run st (propagate_stopping e child reason (tk_id p # seen) (tk_parent_task_id p) (stop_parent e child reason p st))"
        by (rule same_run_trans)
      with False p ongoing show ?thesis by (subst propagate_stopping.simps) simp
    qed
  qed
qed

lemma run_frame_stop [simp]:
  "rn_planner (propagate_stopping e child reason seen parent st) = rn_planner st"
  "rn_calls (propagate_stopping e child reason seen parent st) = rn_calls st"
  "rn_planner (snd (stop_task e t reason st)) = rn_planner st" "rn_calls (snd (stop_task e t reason st)) = rn_calls st"
proof -
  have *: "rn_planner (propagate_stopping e child reason seen parent st) = rn_planner st \<and>
      rn_calls (propagate_stopping e child reason seen parent st) = rn_calls st" for child reason seen parent st
    using same_run_propagate_stopping by (simp add: same_run_def)
  then show "rn_planner (propagate_stopping e child reason seen parent st) = rn_planner st"
    "rn_calls (propagate_stopping e child reason seen parent st) = rn_calls st" by blast+
  show "rn_planner (snd (stop_task e t reason st)) = rn_planner st" "rn_calls (snd (stop_task e t reason st)) = rn_calls st"
    by (simp_all add: stop_task_def Let_def *)
qed

lemma run_frame_completion:
  "propagate_completion n e parent st = Some st' \<Longrightarrow> rn_planner st' = rn_planner st \<and> rn_calls st' = rn_calls st"
  by (induction n arbitrary: parent st) (fastforce simp: Let_def split: option.splits if_splits)+

lemma run_frame_gap:
  "add_gap e parent gap (existing, created, st) = (existing', created', st') \<Longrightarrow> rn_planner st' = rn_planner st \<and> rn_calls st' = rn_calls st"
  by (auto simp: add_gap_def Let_def split: option.splits prod.splits dest!: run_frame_assess)

lemma run_frame_gaps:
  "fold (add_gap e parent) gaps (existing, created, st) = (existing', created', st') \<Longrightarrow> rn_planner st' = rn_planner st \<and> rn_calls st' = rn_calls st"
proof (induction gaps arbitrary: existing created st)
  case (Cons gap gaps)
  obtain x y z where g: "add_gap e parent gap (existing, created, st) = (x, y, z)" by (metis prod_cases3)
  with Cons.prems have "fold (add_gap e parent) gaps (x, y, z) = (existing', created', st')" by simp
  from Cons.IH [OF this] run_frame_gap [OF g] show ?case by simp
qed simp

lemma run_frame_follow_ups:
  "create_follow_ups e parent questions st = (created, st') \<Longrightarrow> rn_planner st' = rn_planner st \<and> rn_calls st' = rn_calls st"
  by (auto simp: create_follow_ups_def Let_def split: prod.splits dest!: run_frame_gaps)

lemma run_frame_replan: "replan e t r st = (t', st') \<Longrightarrow> rn_planner st' = rn_planner st \<and> rn_calls st' = rn_calls st"
  by (auto simp: replan_def Let_def split: if_splits prod.splits dest!: run_frame_follow_ups)
    (metis run_frame_stop(3,4) snd_conv)+

section \<open>Every step stays within the budgets\<close>

lemma admit_refused: "plan_admit e t st = (Some r, st') \<Longrightarrow> within_budgets c i st \<Longrightarrow> within_budgets c i st'"
  by (auto simp: plan_admit_def within_budgets_def Let_def split: prod.splits elim!: admit_call_cases)

lemma admit_granted:
  assumes "plan_admit e t st = (None, st')" and "within_budgets c i st"
  shows "within_budgets c i st'" "rn_calls st' + 1 \<le> plr_model_calls_used (pn_run (rn_planner st'))"
    "plr_model_calls_used (pn_run (rn_planner st')) \<le> puc_max_codex_calls c" "rn_calls st' = rn_calls st"
  using assms by (auto simp: plan_admit_def within_budgets_def Let_def refusal_def split: prod.splits if_splits elim!: admit_call_cases)

lemma charge_extra_within:
  assumes "plr_model_calls_used (pn_run (rn_planner st)) \<le> m" and "m \<le> max i (puc_max_codex_calls c)" and "pn_config (rn_planner st) = c"
    and "rn_calls st \<le> plr_model_calls_used (pn_run (rn_planner st)) + max 0 (calls - 1)"
    and "plr_model_calls_used (pn_run (rn_planner st)) + max 0 (calls - 1) \<le> m"
    and "plr_retrieval_tokens_used (pn_run (rn_planner st)) + max 0 (calls - 1) * token_estimate (tk_question t) \<le> puc_max_retrieval_tokens c"
  shows "within_budgets c i (charge_extra t calls st)"
  using assms by (auto simp: within_budgets_def charge_extra_def Let_def)

text \<open>The run of an admitted follow-up: what it calls beyond the admitted call is within what is left.\<close>

lemma run_follow_up_within:
  assumes w: "within_budgets c i st" and calls: "rn_calls st + 1 \<le> plr_model_calls_used (pn_run (rn_planner st))"
    and max: "plr_model_calls_used (pn_run (rn_planner st)) \<le> puc_max_codex_calls c"
    and e: "rne_config e = c" "\<And>p. env_resolve (rne_env e) p = p"
    and q: "\<And>u. get_task (ps_store (rn_store st)) (tk_id t) = Some u \<Longrightarrow> tk_question u = tk_question t"
  shows "within_budgets c i (run_follow_up e (budgeted e st v) t st)"
proof -
  let ?v = "(budgeted e st v)\<lparr>inv_workers := rne_workers e (rn_tick st)\<rparr>"
  let ?used = "plr_model_calls_used (pn_run (rn_planner st))" and ?tokens = "plr_retrieval_tokens_used (pn_run (rn_planner st))"
  obtain r calls v' s' where run: "execute_follow_up ?v (follow_up_call_of e st) (tk_id t) (rn_store st) = (r, calls, v', s')"
    by (metis prod_cases4)
  have v: "inv_max_calls ?v = 1 + puc_max_codex_calls c - ?used" "inv_max_retrieval_tokens ?v = puc_max_retrieval_tokens c - ?tokens"
    using max by (simp_all add: budgeted_def configure_budget_def e(1))
  have c: "0 \<le> calls \<and> calls \<le> 1 + puc_max_codex_calls c - ?used \<and>
      (calls \<le> 1 \<or> (calls = 2 \<and> token_estimate (tk_question t) \<le> puc_max_retrieval_tokens c - ?tokens))"
    using follow_up_calls [OF run, of "tk_question t"] q max e(2) unfolding v by (simp add: follow_up_call_of_def)
  have extra: "max 0 (calls - 1) * token_estimate (tk_question t) \<le> puc_max_retrieval_tokens c - ?tokens"
  proof (cases "calls \<le> 1")
    case True
    then have "max 0 (calls - 1) = 0" by simp
    with w show ?thesis by (simp add: within_budgets_def Let_def)
  qed (use c in simp)
  define st1 where "st1 = charge_extra t calls (st\<lparr>rn_store := s', rn_investigator := Some v', rn_calls := rn_calls st + calls,
    rn_tick := rn_tick st + 1\<rparr>)"
  have "within_budgets c i st1"
    unfolding st1_def by (rule charge_extra_within [where m = "puc_max_codex_calls c"]) (use w calls max c extra in \<open>auto simp: within_budgets_def Let_def\<close>)
  moreover have "same_run st1 (run_follow_up e (budgeted e st v) t st)"
    using run by (auto simp: run_follow_up_def Let_def st1_def same_run_def split: sum.split option.split)
  ultimately show ?thesis by (simp add: within_same)
qed

lemma admit_tasks: "plan_admit e t st = (r, st') \<Longrightarrow> st_tasks (ps_store (rn_store st')) = st_tasks (ps_store (rn_store st))"
  by (auto simp: plan_admit_def Let_def save_planning_run_def split: prod.splits elim!: admit_call_cases)

lemma step_follow_up_within:
  assumes w: "within_budgets c i st" and e: "rne_config e = c" "\<And>p. env_resolve (rne_env e) p = p"
    and t: "get_task (ps_store (rn_store st)) (tk_id t) = Some t"
  shows "within_budgets c i (step_follow_up e t st)"
proof (cases "tk_status t = TaskStatus_DONE \<or> completed_equivalent (ps_store (rn_store st)) t \<noteq> None \<or> rn_investigator st = None")
  case True
  then have "same_run st (step_follow_up e t st)"
    by (auto simp: step_follow_up_def same_run_def reuse_equivalent_def Let_def split: option.split)
  with w show ?thesis by (simp add: within_same)
next
  case False
  then obtain v where v: "rn_investigator st = Some v" by blast
  obtain r st1 where admit: "plan_admit e t st = (r, st1)" by force
  show ?thesis
  proof (cases r)
    case (Some reason)
    with admit w have "within_budgets c i st1" by (simp add: admit_refused)
    moreover have "same_run st1 (step_follow_up e t st)" using False v admit Some by (simp add: step_follow_up_def same_run_def)
    ultimately show ?thesis by (simp add: within_same)
  next
    case None
    note granted = admit_granted [OF admit [unfolded None] w]
    let ?st2 = "st1\<lparr>rn_investigator := Some (budgeted e st1 v)\<rparr>"
    have task: "get_task (ps_store (rn_store st1)) (tk_id t) = Some t" using t admit_tasks [OF admit] by (simp add: get_task_def)
    have again: "budgeted e ?st2 v = budgeted e st1 v" "budgeted e (put_task u ?st2) v = budgeted e st1 v" for u by (simp_all add: budgeted_def)
    have two: "within_budgets c i ?st2" using granted(1) by (simp add: within_budgets_def Let_def)
    have "within_budgets c i (run_follow_up e (budgeted e ?st2 v) t ?st2)"
      by (rule run_follow_up_within) (use two granted e task in auto)
    then have run: "within_budgets c i (run_follow_up e (budgeted e st1 v) t ?st2)" by (simp only: again)
    have "within_budgets c i (run_follow_up e (budgeted e (put_task (reopened t) ?st2) v) (reopened t) (put_task (reopened t) ?st2))"
      by (rule run_follow_up_within) (use two granted e in \<open>auto simp: within_budgets_def Let_def reopened_def put_task_def\<close>)
    then have retry: "within_budgets c i (run_follow_up e (budgeted e st1 v) (reopened t) (put_task (reopened t) ?st2))" by (simp only: again)
    have exhausted: "within_budgets c i (stop_because StoppingReason_RETRY_EXHAUSTED ?st2)" using two by (simp add: within_budgets_def Let_def)
    show ?thesis using False v admit None run retry exhausted by (auto simp: step_follow_up_def Let_def)
  qed
qed

lemma resolver_calls: "execute_resolution x call k s = (r, n, s') \<Longrightarrow> n = 0 \<or> n = 1"
  by (auto elim!: execute_resolution_cases)

lemma attempts_loop_within:
  assumes "resolution_attempts_loop n e t st = Some (t', st')" and "within_budgets c i st" and "rne_config e = c"
  shows "within_budgets c i st'"
  using assms(1,2)
proof (induction n arbitrary: t st)
  case (Suc n)
  obtain r st1 where admit: "plan_admit e t st = (r, st1)" by force
  show ?case
  proof (cases "tk_attempt_count t \<ge> puc_max_retries_per_task (rne_config e)")
    case True
    with Suc.prems show ?thesis by simp
  next
    case go: False
    show ?thesis
    proof (cases r)
      case (Some reason)
      with Suc.prems go admit have "st' = snd (stop_task e t reason st1)" by (simp add: eq_snd_iff)
      moreover have "within_budgets c i st1" using Some admit Suc.prems(2) by (simp add: admit_refused)
      ultimately show ?thesis by (simp add: within_budgets_def)
    next
      case None
      note granted = admit_granted [OF admit [unfolded None] Suc.prems(2)]
      obtain q calls s' where run: "execute_resolution (executor_of e st1) (resolution_call_of e st1) (tk_id t) (rn_store st1) = (q, calls, s')"
        by (metis prod_cases3)
      have after: "within_budgets c i (st1\<lparr>rn_store := s', rn_calls := rn_calls st1 + calls\<rparr>)"
        using granted resolver_calls [OF run] by (auto simp: within_budgets_def Let_def)
      have log: "within_budgets c i (log_attempt e t report w)" if "within_budgets c i w" for report w
        using that by (simp add: within_budgets_def)
      have put: "within_budgets c i (put_task u w)" if "within_budgets c i w" for u w using that by (simp add: within_budgets_def)
      show ?thesis
      proof (cases q)
        case (Inl err)
        define st2 where "st2 = log_attempt e t ((resolver_report e t ExecutionOutcome_FAILED st1)\<lparr>ar_error := Some (rne_str e err)\<rparr>)
          (st1\<lparr>rn_store := s', rn_calls := rn_calls st1 + calls\<rparr>)"
        have w: "within_budgets c i (put_task u st2)" for u unfolding st2_def by (rule put, rule log, rule after)
        have stop: "within_budgets c i (snd (stop_task e u reason (put_task u st2)))" for u reason
          using w [of u] by (simp add: within_budgets_def)
        from Suc.prems(1) go admit None run Inl obtain u where
          "stop_task e u StoppingReason_RETRY_EXHAUSTED (put_task u st2) = (t', st') \<or>
            resolution_attempts_loop n e u (put_task u st2) = Some (t', st')"
          by (auto simp: Let_def st2_def split: if_splits)
        then show ?thesis using stop [of u StoppingReason_RETRY_EXHAUSTED] Suc.IH w by auto
      next
        case (Inr run')
        define st2 where "st2 = log_attempt e t
          ((resolver_report e t (if tk_status (rrun_task run') = TaskStatus_DONE then ExecutionOutcome_SUCCEEDED else ExecutionOutcome_LOW_CONFIDENCE) st1)
            \<lparr>ar_output_tokens := token_estimate (rne_dump_resolution e (rrun_result run')),
             ar_confidence := Some (rr_confidence (rrun_result run'))\<rparr>) (st1\<lparr>rn_store := s', rn_calls := rn_calls st1 + calls\<rparr>)"
        have w: "within_budgets c i st2" unfolding st2_def by (rule log, rule after)
        from Suc.prems(1) go admit None run Inr have
          "propagate_completion n e (tk_parent_task_id (rrun_task run')) st2 = Some st' \<or> replan e (rrun_task run') (rrun_result run') st2 = (t', st')"
          by (auto simp: Let_def st2_def split: if_splits)
        then have "same_run st2 st'" using run_frame_completion run_frame_replan by (fastforce simp: same_run_def)
        with w show ?thesis by (simp add: within_same)
      qed
    qed
  qed
qed simp

lemma step_resolution_within:
  assumes "step_resolution n e t children st = Some st'" and "within_budgets c i st" and "rne_config e = c"
  shows "within_budgets c i st'"
proof (cases "tk_status t = TaskStatus_DONE \<or> has_cycle (ps_store (rn_store st)) t \<or> filter (\<lambda>x. tk_status x \<noteq> TaskStatus_DONE) children \<noteq> [] \<or>
    tk_status t = TaskStatus_RECURSE")
  case True
  with assms(1) have "same_run st st'"
    by (auto simp: step_resolution_def same_run_def Let_def split: if_splits option.splits)
  with assms(2) show ?thesis by (simp add: within_same)
next
  case False
  let ?t1 = "if tk_status t = TaskStatus_STOPPED then reopened t else t"
  let ?st1 = "if tk_status t = TaskStatus_STOPPED then put_task ?t1 st else st"
  from False assms(1) obtain t2 st2 where loop: "resolution_attempts_loop n e ?t1 ?st1 = Some (t2, st2)"
    and st': "st' = (if tk_status t2 = TaskStatus_DONE then st2 else enqueue_tasks (map tk_id (child_tasks (ps_store (rn_store st2)) (tk_id t2))) st2)"
    by (auto simp: step_resolution_def Let_def)
  have "within_budgets c i ?st1" using assms(2) by (simp add: within_budgets_def)
  from attempts_loop_within [OF loop this assms(3)] show ?thesis by (simp add: st' within_budgets_def)
qed

lemma routed_facts:
  assumes "routed e t st = (t', st')" and "get_task (ps_store (rn_store st)) k = Some t"
  shows "rn_planner st' = rn_planner st" "rn_calls st' = rn_calls st" "get_task (ps_store (rn_store st')) k = Some t'" "tk_id t' = k"
proof -
  have id: "tk_id t = k" using get_task_mem [OF assms(2)] by blast
  have assessed: "tk_id (assessed_task s t) = tk_id t" for s by (simp add: assessed_task_def Let_def)
  show "rn_planner st' = rn_planner st" "rn_calls st' = rn_calls st"
    using assms(1) run_frame_assess by (auto simp: routed_def split: option.splits)
  show "get_task (ps_store (rn_store st')) k = Some t'" "tk_id t' = k"
    using assms id by (auto simp: routed_def plan_assess_def assess_task_def Let_def get_task_def row_simps assessed split: option.splits)
qed

lemma pursuit_step_within:
  assumes "pursuit_step n e k st = Some (Inr st')" and w: "within_budgets c i st" and e: "rne_config e = c" "\<And>p. env_resolve (rne_env e) p = p"
  shows "within_budgets c i st'"
proof -
  from assms(1) obtain t0 where t0: "get_task (ps_store (rn_store st)) k = Some t0" by (auto simp: pursuit_step_def split: option.splits)
  obtain t st1 where routed: "routed e t0 st = (t, st1)" by force
  note facts = routed_facts [OF routed t0]
  have w1: "within_budgets c i st1" using w facts(1,2) by (simp add: within_budgets_def)
  have inv: "within_budgets c i (step_investigation e t children st1)" for children
    using w1 by (simp add: step_investigation_def within_budgets_def)
  have "get_task (ps_store (rn_store st1)) (tk_id t) = Some t" using facts(3,4) by simp
  note follow = step_follow_up_within [OF w1 e this]
  show ?thesis
    using assms(1) t0 routed w1 inv follow step_resolution_within [OF _ w1 e(1)]
    by (cases "tk_kind t") (auto simp: pursuit_step_def Let_def)
qed

lemma work_queue_within:
  "work_queue n e st = Some (Inr st') \<Longrightarrow> within_budgets c i st \<Longrightarrow> rne_config e = c \<Longrightarrow> (\<And>p. env_resolve (rne_env e) p = p) \<Longrightarrow> within_budgets c i st'"
proof (induction n arbitrary: st)
  case (Suc n)
  show ?case
  proof (cases "rn_queue st")
    case Nil
    with Suc.prems show ?thesis by simp
  next
    case (Cons k ks)
    with Suc.prems(1) obtain st1 where step: "pursuit_step n e k (pop k ks st) = Some (Inr st1)" "work_queue n e st1 = Some (Inr st')"
      by (auto split: option.splits sum.splits)
    have "within_budgets c i (pop k ks st)" using Suc.prems(2) by (simp add: within_budgets_def)
    from pursuit_step_within [OF step(1) this Suc.prems(3,4)] Suc.IH [OF step(2) _ Suc.prems(3,4)] show ?thesis by blast
  qed
qed simp



end
