(* ===== verification/Pursuit_Termination.thy ===== *)
theory Pursuit_Termination
  imports Pursuit_Liveness Resolution_Properties
begin

text \<open>
  Every visit of a task ends: the attempts are counted, and the completion of the parents is only
  propagated after the parents were seen to form no cycle.
\<close>

section \<open>The links between tasks\<close>

definition task_links :: "store \<Rightarrow> string \<Rightarrow> (string option \<times> string) option" where
  "task_links s k = map_option (\<lambda>t. (tk_parent_task_id t, tk_fingerprint t)) (get_task s k)"

lemma task_links_tasks: "st_tasks s' = st_tasks s \<Longrightarrow> task_links s' = task_links s"
  by (rule ext) (simp add: task_links_def get_task_def)

lemma decision_links: "task_links (ps_store (record_decision p t a why stop i now s)) = task_links (ps_store s)"
  by (rule task_links_tasks) simp

lemma task_links_store_task:
  assumes "get_task (ps_store s) (tk_id t) = Some u" and "tk_parent_task_id t = tk_parent_task_id u" and "tk_fingerprint t = tk_fingerprint u"
  shows "task_links (ps_store (store_task t s)) = task_links (ps_store s)"
  using assms by (intro ext) (simp add: task_links_def)

lemma seeks_cycle_links: "task_links s' = task_links s \<Longrightarrow> seeks_cycle s' ids prints parent = seeks_cycle s ids prints parent"
proof (induction s ids prints parent rule: seeks_cycle.induct)
  case (1 s ids prints parent)
  show ?case
  proof (cases "\<not> truthy parent \<or> the parent \<in> set ids")
    case True
    then show ?thesis by (subst (1 2) seeks_cycle.simps) auto
  next
    case False
    have l: "map_option (\<lambda>t. (tk_parent_task_id t, tk_fingerprint t)) (get_task s' (the parent)) =
        map_option (\<lambda>t. (tk_parent_task_id t, tk_fingerprint t)) (get_task s (the parent))"
      using 1(2) by (simp add: task_links_def fun_eq_iff)
    show ?thesis
    proof (cases "get_task s (the parent)")
      case None
      with l False show ?thesis by (subst (1 2) seeks_cycle.simps) simp
    next
      case (Some p)
      with l obtain q where q: "get_task s' (the parent) = Some q" "tk_parent_task_id q = tk_parent_task_id p" "tk_fingerprint q = tk_fingerprint p"
        by auto
      have "tk_id q = tk_id p" using get_task_mem [OF q(1)] get_task_mem [OF Some] by simp
      with 1(1) [OF _ _ Some _ 1(2)] False Some q show ?thesis by (subst (1 2) seeks_cycle.simps) simp
    qed
  qed
qed

lemma has_cycle_links:
  "task_links s' = task_links s \<Longrightarrow> tk_id t' = tk_id t \<Longrightarrow> tk_fingerprint t' = tk_fingerprint t \<Longrightarrow> tk_parent_task_id t' = tk_parent_task_id t \<Longrightarrow>
   has_cycle s' t' = has_cycle s t"
  using seeks_cycle_links [of s' s "[tk_id t]" "[tk_fingerprint t]" "tk_parent_task_id t"] by (simp add: has_cycle_def)

lemma dom_task_links: "dom (task_links s) = tk_id ` set (st_tasks s)"
  by (auto simp: task_links_def get_task_def lookup_row_None image_iff dom_def)

section \<open>Completion\<close>

lemma propagate_completion_returns:
  assumes "\<not> seeks_cycle s ids prints parent" and "task_links (ps_store (rn_store st)) = task_links s" and "card (dom (task_links s) - set ids) < n"
  shows "propagate_completion n e parent st \<noteq> None"
  using assms
proof (induction s ids prints parent arbitrary: st n rule: seeks_cycle.induct)
  case (1 s ids prints parent)
  from 1(4) obtain m where n: "n = Suc m" by (cases n) auto
  let ?s = "ps_store (rn_store st)"
  show ?case
  proof (cases "\<not> truthy parent \<or> get_task ?s (the parent) = None")
    case True
    then show ?thesis by (auto simp: n)
  next
    case False
    then obtain q where q: "get_task ?s (the parent) = Some q" by auto
    have "task_links ?s (the parent) = task_links s (the parent)" using 1(3) by simp
    then obtain p where p: "get_task s (the parent) = Some p" "tk_parent_task_id q = tk_parent_task_id p" "tk_fingerprint q = tk_fingerprint p"
      using q by (cases "get_task s (the parent)") (auto simp: task_links_def)
    have ids: "tk_id p = the parent" "tk_id q = the parent" using get_task_mem [OF p(1)] get_task_mem [OF q] by simp_all
    have acyclic: "the parent \<notin> set ids" "tk_fingerprint p \<notin> set prints" "\<not> seeks_cycle s (tk_id p # ids) (tk_fingerprint p # prints) (tk_parent_task_id p)"
      using 1(2) False p seeks_cycle.simps [of s ids prints parent] by (auto split: if_splits)
    let ?q = "q\<lparr>tk_status := TaskStatus_DONE, tk_completed_at := Some (now_of e st), tk_stopping_reason := Some StoppingReason_COMPLETED\<rparr>"
    have links: "task_links (ps_store (rn_store (put_task ?q st))) = task_links s"
      using task_links_store_task [of "rn_store st" ?q q] q ids 1(3) by (simp add: put_task_def)
    have "the parent \<in> dom (task_links s)" using p(1) by (simp add: task_links_def dom_def)
    moreover have "finite (dom (task_links s))" by (simp add: dom_task_links)
    ultimately have "card (dom (task_links s) - set (tk_id p # ids)) < card (dom (task_links s) - set ids)"
      using acyclic(1) ids by (intro psubset_card_mono) auto
    then have "card (dom (task_links s) - set (tk_id p # ids)) < m" using 1(4) n by simp
    from 1(1) [OF _ acyclic(1) p(1) acyclic(2,3) links this] False
    have "propagate_completion m e (tk_parent_task_id p) (put_task ?q st) \<noteq> None" by blast
    then show ?thesis using q p(2) by (simp add: n Let_def)
  qed
qed

section \<open>The attempts of a visit\<close>

lemma save_claim_tasks: "save_claim e commit now t c s = (c', s') \<Longrightarrow> st_tasks (ps_store s') = st_tasks (ps_store s)"
proof -
  note frame = fold_link_frame [where f = "\<lambda>_. cl_id c'" and g = "\<lambda>x. x" and r = "''DERIVED_FROM''"]
  show "save_claim e commit now t c s = (c', s') \<Longrightarrow> st_tasks (ps_store s') = st_tasks (ps_store s)"
    using frame by (auto simp: save_claim_def Let_def)
qed

lemma accept_answer_tasks:
  assumes "accept_answer x call t claims cluster r a v s = (run, s')"
  shows "st_tasks (ps_store s') = upsert tk_id (rrun_task run) (st_tasks (ps_store s)) \<and> tk_id (rrun_task run) = tk_id t \<and>
    tk_parent_task_id (rrun_task run) = tk_parent_task_id t \<and> tk_fingerprint (rrun_task run) = tk_fingerprint t"
proof -
  let ?c = "adjudicated_claim x call t claims r a v"
  define t' where "t' = t\<lparr>tk_status := TaskStatus_DONE, tk_resolved_claim_id := Some (cl_id ?c), tk_completed_at := Some (rsc_now call),
    tk_stopping_reason := Some StoppingReason_COMPLETED\<rparr>"
  obtain c s1 where c: "save_claim (rsc_env call) (rsc_commit call) (rsc_now call) t' ?c (store_task t' s) = (c, s1)" by force
  note resolves = fold_link_frame [where f = "\<lambda>_. cl_id c" and g = "\<lambda>x. x" and r = "''RESOLVES''"]
  have run: "rrun_task run = t'" and s': "s' = resolve_cluster_record cluster c a
      (fold (\<lambda>k. link (cl_id c) ''RESOLVES'' k) (tk_conflicting_claim_ids t') (link (tk_id t') ''PRODUCED'' (cl_id c) s1))"
    using assms c by (auto simp: accept_answer_def Let_def t'_def)
  have "st_tasks (ps_store s') = st_tasks (ps_store s1)"
    using resolves by (auto simp: s' resolve_cluster_record_def save_conflict_cluster_def split: option.split)
  then show ?thesis using save_claim_tasks [OF c] by (simp add: run) (simp add: t'_def)
qed

lemma execute_resolution_links:
  assumes "execute_resolution x call k s = (q, n, s')"
  shows "task_links (ps_store s') = task_links (ps_store s)"
    "q = Inr run \<Longrightarrow> \<exists>t. get_task (ps_store s) k = Some t \<and> tk_id (rrun_task run) = k \<and> tk_parent_task_id (rrun_task run) = tk_parent_task_id t \<and>
      tk_fingerprint (rrun_task run) = tk_fingerprint t"
proof -
  have started: "task_links (ps_store (store_task (started_task now t) s)) = task_links (ps_store s)" if "resolution_subject k s = Inr (t, c, l)" for now t c l
    using resolution_subject_ok(1,2) [OF that] by (intro task_links_store_task [of _ _ t]) (simp_all add: started_task_def)
  have "task_links (ps_store s') = task_links (ps_store s) \<and>
      (\<forall>run. q = Inr run \<longrightarrow> (\<exists>t. get_task (ps_store s) k = Some t \<and> tk_id (rrun_task run) = k \<and>
        tk_parent_task_id (rrun_task run) = tk_parent_task_id t \<and> tk_fingerprint (rrun_task run) = tk_fingerprint t))"
    using assms
  proof (cases rule: execute_resolution_cases)
    case refused
    then show ?thesis by simp
  next
    case (raised t claims cluster err cx)
    with started [OF raised(1)] show ?thesis by simp
  next
    case (unbounded t claims cluster a)
    have "task_links (ps_store s') = task_links (ps_store (store_task (started_task (rsc_now call) t) s))"
      by (rule task_links_tasks) (simp add: unbounded(5))
    with started [OF unbounded(1)] unbounded(3) show ?thesis by simp
  next
    case (answered t claims cluster r attempt evidence v run')
    let ?t1 = "started_task (rsc_now call) t"
    let ?t2 = "?t1\<lparr>tk_conflict_verdict_id := Some (cvd_id v)\<rparr>"
    let ?s3 = "save_conflict_verdict v (save_resolution_attempt attempt (store_task ?t1 s))"
    note subject = resolution_subject_ok(1,2) [OF answered(1)]
    have t2: "tk_id ?t2 = k" "tk_parent_task_id ?t2 = tk_parent_task_id t" "tk_fingerprint ?t2 = tk_fingerprint t"
      using subject by (simp_all add: started_task_def)
    have "st_tasks (ps_store s') = upsert tk_id (rrun_task run') (st_tasks (ps_store ?s3)) \<and> tk_id (rrun_task run') = tk_id ?t2 \<and>
        tk_parent_task_id (rrun_task run') = tk_parent_task_id ?t2 \<and> tk_fingerprint (rrun_task run') = tk_fingerprint ?t2"
    proof (cases "answer_accepted (rex_confidence_threshold x) ?t1 claims cluster r")
      case True
      with answered(6) accept_answer_tasks show ?thesis by auto
    next
      case False
      with answered(6) show ?thesis by (auto simp: keep_unresolved_def Let_def)
    qed
    then have run: "st_tasks (ps_store s') = st_tasks (ps_store (store_task (rrun_task run') (store_task ?t1 s)))"
      "tk_id (rrun_task run') = k" "tk_parent_task_id (rrun_task run') = tk_parent_task_id t" "tk_fingerprint (rrun_task run') = tk_fingerprint t"
      using t2 by simp_all
    have "task_links (ps_store s') = task_links (ps_store (store_task (rrun_task run') (store_task ?t1 s)))" by (rule task_links_tasks) (rule run)
    also have "\<dots> = task_links (ps_store (store_task ?t1 s))"
      by (rule task_links_store_task [of _ _ ?t1]) (use run subject in \<open>simp_all add: started_task_def\<close>)
    finally show ?thesis using started [OF answered(1)] run subject(1) answered(4) by simp
  qed
  then show "task_links (ps_store s') = task_links (ps_store s)"
    "q = Inr run \<Longrightarrow> \<exists>t. get_task (ps_store s) k = Some t \<and> tk_id (rrun_task run) = k \<and> tk_parent_task_id (rrun_task run) = tk_parent_task_id t \<and>
      tk_fingerprint (rrun_task run) = tk_fingerprint t" by blast+
qed

lemma admit_links: "plan_admit e t st = (r, st') \<Longrightarrow> task_links (ps_store (rn_store st')) = task_links (ps_store (rn_store st))"
  by (rule task_links_tasks) (auto simp: plan_admit_def Let_def save_planning_run_def split: prod.splits elim!: admit_call_cases)

lemma log_tasks: "st_tasks (ps_store (rn_store (log_attempt e t r st))) = st_tasks (ps_store (rn_store st))"
proof -
  obtain a s' where a: "record_attempt (rne_id e ''EXEC'' (rn_tick st)) (now_of e st) t r (rn_store st) = (a, s')" by force
  from record_attempt_store [OF a] show ?thesis by (simp add: log_attempt_def a)
qed

lemma failed_attempt:
  assumes "execute_resolution x call k s = (Inl err, n, s')" and "get_task (ps_store s) k = Some t"
  shows "get_task (ps_store s') k = Some t \<or> (\<exists>w. get_task (ps_store s') k = Some w \<and> tk_attempt_count w = tk_attempt_count t + 1)"
  using assms(1)
proof (cases rule: execute_resolution_cases)
  case (raised u claims cluster err cx)
  have "u = t" "tk_id t = k" using resolution_subject_ok(1,2) [OF raised(1)] assms(2) by simp_all
  then show ?thesis by (simp add: raised(6) started_task_def)
next
  case (unbounded u claims cluster a)
  have "u = t" "tk_id t = k" using resolution_subject_ok(1,2) [OF unbounded(1)] assms(2) by simp_all
  then have "get_task (ps_store (store_task (started_task (rsc_now call) u) s)) k = Some (started_task (rsc_now call) t)"
    by (simp add: started_task_def)
  then show ?thesis by (simp add: unbounded(5) get_task_def) (simp add: started_task_def)
qed (use assms(2) in simp_all)

lemma attempts_loop_returns:
  assumes "get_task (ps_store (rn_store st)) (tk_id t) = Some t"
    and "\<not> has_cycle (ps_store (rn_store st)) t"
    and "nat (puc_max_retries_per_task (rne_config e) - tk_attempt_count t) + card (dom (task_links (ps_store (rn_store st)))) < n"
  shows "resolution_attempts_loop n e t st \<noteq> None"
  using assms
proof (induction n arbitrary: t st)
  case (Suc n)
  let ?max = "puc_max_retries_per_task (rne_config e)"
  obtain r st1 where admit: "plan_admit e t st = (r, st1)" by force
  show ?case
  proof (cases "?max \<le> tk_attempt_count t \<or> r \<noteq> None")
    case True
    with admit show ?thesis by auto
  next
    case False
    obtain q calls s' where run: "execute_resolution (executor_of e st1) (resolution_call_of e st1) (tk_id t) (rn_store st1) = (q, calls, s')"
      by (metis prod_cases3)
    have l1: "task_links (ps_store s') = task_links (ps_store (rn_store st))"
      using execute_resolution_links(1) [OF run] admit_links [OF admit] by simp
    show ?thesis
    proof (cases q)
      case (Inl err)
      define st2 where "st2 = log_attempt e t ((resolver_report e t ExecutionOutcome_FAILED st1)\<lparr>ar_error := Some (rne_str e err)\<rparr>)
        (st1\<lparr>rn_store := s', rn_calls := rn_calls st1 + calls\<rparr>)"
      have l2: "task_links (ps_store (rn_store st2)) = task_links (ps_store (rn_store st))"
        using task_links_tasks [OF log_tasks] l1 by (simp add: st2_def)
      have "task_links (ps_store (rn_store st2)) (tk_id t) = Some (tk_parent_task_id t, tk_fingerprint t)"
        using Suc.prems(1) unfolding l2 by (simp add: task_links_def)
      then obtain w where w: "get_task (ps_store (rn_store st2)) (tk_id t) = Some w" "tk_parent_task_id w = tk_parent_task_id t" "tk_fingerprint w = tk_fingerprint t"
        by (auto simp: task_links_def)
      then have id: "tk_id w = tk_id t" using get_task_mem by blast
      define t2 where "t2 = (if tk_attempt_count w = tk_attempt_count t then w\<lparr>tk_attempt_count := tk_attempt_count w + 1\<rparr> else w)
        \<lparr>tk_last_error := Some (rne_str e err)\<rparr>"
      have t2: "tk_id t2 = tk_id t" "tk_parent_task_id t2 = tk_parent_task_id t" "tk_fingerprint t2 = tk_fingerprint t"
        using w id by (simp_all add: t2_def)
      have l3: "task_links (ps_store (rn_store (put_task t2 st2))) = task_links (ps_store (rn_store st))"
        using task_links_store_task [of "rn_store st2" t2 w] w t2 l2 by (simp add: put_task_def)
      have more: "tk_attempt_count t < tk_attempt_count t2"
      proof -
        have "get_task (ps_store (rn_store st1)) (tk_id t) = Some t"
          using Suc.prems(1) admit by (auto simp: plan_admit_def Let_def save_planning_run_def get_task_def split: prod.splits elim!: admit_call_cases)
        moreover have "get_task (ps_store (rn_store st2)) (tk_id t) = get_task (ps_store s') (tk_id t)" by (simp add: st2_def get_task_def log_tasks)
        ultimately have "w = t \<or> tk_attempt_count w = tk_attempt_count t + 1"
          using failed_attempt [OF run [unfolded Inl]] w(1) by auto
        then show ?thesis by (auto simp: t2_def)
      qed
      have "resolution_attempts_loop n e t2 (put_task t2 st2) \<noteq> None" if "tk_attempt_count t2 < ?max"
      proof (rule Suc.IH)
        show "get_task (ps_store (rn_store (put_task t2 st2))) (tk_id t2) = Some t2" by (simp add: put_task_def)
        show "\<not> has_cycle (ps_store (rn_store (put_task t2 st2))) t2" using has_cycle_links [OF l3 t2(1,3,2)] Suc.prems(2) by simp
        show "nat (?max - tk_attempt_count t2) + card (dom (task_links (ps_store (rn_store (put_task t2 st2))))) < n"
          unfolding l3 using Suc.prems(3) more that by simp
      qed
      then show ?thesis using False admit run Inl w
        by (cases "tk_attempt_count w = tk_attempt_count t") (auto simp: Let_def st2_def [symmetric] t2_def)
    next
      case (Inr run')
      define st2 where "st2 = log_attempt e t
        ((resolver_report e t (if tk_status (rrun_task run') = TaskStatus_DONE then ExecutionOutcome_SUCCEEDED else ExecutionOutcome_LOW_CONFIDENCE) st1)
          \<lparr>ar_output_tokens := token_estimate (rne_dump_resolution e (rrun_result run')),
           ar_confidence := Some (rr_confidence (rrun_result run'))\<rparr>) (st1\<lparr>rn_store := s', rn_calls := rn_calls st1 + calls\<rparr>)"
      have l2: "task_links (ps_store (rn_store st2)) = task_links (ps_store (rn_store st))"
        using task_links_tasks [OF log_tasks] l1 by (simp add: st2_def)
      from execute_resolution_links(2) [OF run Inr] obtain w where w: "get_task (ps_store (rn_store st1)) (tk_id t) = Some w"
        "tk_id (rrun_task run') = tk_id t" "tk_parent_task_id (rrun_task run') = tk_parent_task_id w" by blast
      have "task_links (ps_store (rn_store st1)) (tk_id t) = Some (tk_parent_task_id t, tk_fingerprint t)"
        using Suc.prems(1) unfolding admit_links [OF admit] by (simp add: task_links_def)
      with w have parent: "tk_parent_task_id (rrun_task run') = tk_parent_task_id t" by (simp add: task_links_def)
      have "propagate_completion n e (tk_parent_task_id t) st2 \<noteq> None"
      proof (rule propagate_completion_returns)
        show "\<not> seeks_cycle (ps_store (rn_store st)) [tk_id t] [tk_fingerprint t] (tk_parent_task_id t)" using Suc.prems(2) by (simp add: has_cycle_def)
        have "tk_id t \<in> dom (task_links (ps_store (rn_store st)))" using Suc.prems(1) by (simp add: task_links_def dom_def)
        moreover have "finite (dom (task_links (ps_store (rn_store st))))" by (simp add: dom_task_links)
        ultimately have "card (dom (task_links (ps_store (rn_store st))) - set [tk_id t]) < card (dom (task_links (ps_store (rn_store st))))"
          by (intro psubset_card_mono) auto
        then show "card (dom (task_links (ps_store (rn_store st))) - set [tk_id t]) < n" using Suc.prems(3) by simp
      qed (rule l2)
      then show ?thesis using False admit run Inr parent by (auto simp: Let_def st2_def)
    qed
  qed
qed simp

text \<open>C18: A visit of a task ends. With fuel for the attempts that are left and for one step per stored task, the
  step returns, whatever the resolver and the workers answer: a resolver that keeps raising runs out of
  attempts, and the completion is propagated along parents that form no cycle.\<close>

theorem visit_returns:
  assumes "get_task (ps_store (rn_store st)) k = Some t"
    and "nat (puc_max_retries_per_task (rne_config e) - tk_attempt_count t) + card (tk_id ` set (st_tasks (ps_store (rn_store st)))) < n"
  shows "pursuit_step n e k st \<noteq> None"
proof -
  obtain u st1 where routed: "routed e t st = (u, st1)" by force
  have id: "tk_id t = k" using get_task_mem [OF assms(1)] by blast
  have same: "tk_attempt_count (assessed_task s t) = tk_attempt_count t" for s by (simp add: assessed_task_def Let_def)
  have u: "get_task (ps_store (rn_store st1)) (tk_id u) = Some u" "tk_id u = k" "tk_attempt_count u = tk_attempt_count t"
    using routed assms(1) id
    by (auto simp: routed_def plan_assess_def assess_task_def Let_def same get_task_def row_simps split: option.splits)
  have "task_links (ps_store (rn_store st1)) = task_links (ps_store (rn_store st))"
    using routed task_links_store_task [of "rn_store st" "assessed_task (ps_store (rn_store st)) t" t] assms(1) id
    by (auto simp: routed_def plan_assess_def assess_task_def Let_def decision_links split: option.splits)
  then have ids: "tk_id ` set (st_tasks (ps_store (rn_store st1))) = tk_id ` set (st_tasks (ps_store (rn_store st)))"
    by (simp flip: dom_task_links)
  let ?children = "child_tasks (ps_store (rn_store st1)) (tk_id u)"
  have "step_resolution n e u ?children st1 \<noteq> None"
  proof (cases "tk_status u = TaskStatus_DONE \<or> has_cycle (ps_store (rn_store st1)) u \<or>
      filter (\<lambda>x. tk_status x \<noteq> TaskStatus_DONE) ?children \<noteq> [] \<or> tk_status u = TaskStatus_RECURSE")
    case True
    then show ?thesis by (auto simp: step_resolution_def Let_def split: option.split)
  next
    case False
    let ?v = "if tk_status u = TaskStatus_STOPPED then reopened u else u"
    let ?w = "if tk_status u = TaskStatus_STOPPED then put_task ?v st1 else st1"
    have v: "tk_id ?v = tk_id u" "tk_fingerprint ?v = tk_fingerprint u" "tk_parent_task_id ?v = tk_parent_task_id u"
      "tk_attempt_count ?v = tk_attempt_count u" by (simp_all add: reopened_def)
    have "task_links (ps_store (store_task (reopened u) (rn_store st1))) = task_links (ps_store (rn_store st1))"
      using task_links_store_task [of "rn_store st1" "reopened u" u] u(1) by (simp add: reopened_def)
    then have links: "task_links (ps_store (rn_store ?w)) = task_links (ps_store (rn_store st1))" by (simp add: put_task_def)
    have "resolution_attempts_loop n e ?v ?w \<noteq> None"
    proof (rule attempts_loop_returns)
      show "get_task (ps_store (rn_store ?w)) (tk_id ?v) = Some ?v" using u(1) by (simp add: put_task_def)
      show "\<not> has_cycle (ps_store (rn_store ?w)) ?v" using has_cycle_links [OF links v(1,2,3)] False by simp
      show "nat (puc_max_retries_per_task (rne_config e) - tk_attempt_count ?v) + card (dom (task_links (ps_store (rn_store ?w)))) < n"
        unfolding links dom_task_links ids v(4) u(3) by (rule assms(2))
    qed
    with False show ?thesis by (auto simp: step_resolution_def Let_def)
  qed
  then show ?thesis
    using assms(1) routed by (cases "tk_kind u") (simp_all add: pursuit_step_def Let_def)
qed

theorem visit_returns_witness:
  "pursuit_step 4 demo_runner_env ''T'' (start_pursuit demo_runner_env None ''T'' 0 colour_store colour_task) \<noteq> None"
proof -
  let ?w = "start_pursuit demo_runner_env None ''T'' 0 colour_store colour_task"
  obtain p s0 where p: "new_planner (rne_id demo_runner_env ''PLANRUN'' 0) ''T'' (rne_config demo_runner_env) (rne_now demo_runner_env 0) colour_store = (p, s0)"
    by force
  have s0: "st_tasks (ps_store s0) = [colour_task]"
    using p by (auto simp: new_planner_def Let_def save_planning_run_def colour_store_def pursuit_store_def)
  have t: "tk_id colour_task = ''T''" "tk_status colour_task \<noteq> TaskStatus_DONE" "tk_attempt_count colour_task = 0"
    by (simp_all add: colour_task_def demo_task_def)
  have w: "st_tasks (ps_store (rn_store ?w)) = [assessed_task (ps_store s0) colour_task]"
    using t s0 by (simp add: start_pursuit_def p plan_assess_def assess_task_def Let_def upsert_def)
  have "get_task (ps_store (rn_store ?w)) ''T'' = Some (assessed_task (ps_store s0) colour_task)"
    using w t by (simp add: get_task_def lookup_row_def)
  moreover have "nat (puc_max_retries_per_task (rne_config demo_runner_env) - tk_attempt_count (assessed_task (ps_store s0) colour_task)) +
      card (tk_id ` set (st_tasks (ps_store (rn_store ?w)))) < 4"
    using w t by (simp add: demo_runner_env_def) (simp add: assessed_task_def Let_def)
  ultimately show ?thesis by (rule visit_returns)
qed

end
