(* ===== verification/Spec2Isabelle.thy ===== *)
theory Spec2Isabelle
  imports Leases Task_Graph Ticketing Scheduler_Safety Ledger_Properties Promotion_Properties Planning_Properties Execution_Properties Resolution_Properties Pursuit_Properties Pursuit_Termination
begin

text \<open>Header to be written.\<close>

end
